(* ===== verification/Prelude.thy ===== *)
theory Prelude
  imports Main "HOL-Library.Sublist"
begin

text \<open>
  Shared ground of the development: results that are an error or a value, the parts of Go's
  \<open>strings\<close> and \<open>strconv\<close> packages that the sources call, Go's \<open>copy\<close> on overlapping
  windows of one slice, and the generic facts on lists and maps that the component theories
  use.  Strings are byte strings, as in Go.
\<close>

named_theorems go_defs \<open>definitions of library calls that component proofs unfold\<close>

subsection \<open>Results\<close>

type_synonym ('e, 'a) result = "'e + 'a"

text \<open>The idiom \<open>x, err := f(); if err != nil { return err }; ...\<close>.\<close>

definition try_then :: "('e, 'a) result \<Rightarrow> ('a \<Rightarrow> ('e, 'b) result) \<Rightarrow> ('e, 'b) result" where
  "try_then r f = (case r of Inl e \<Rightarrow> Inl e | Inr x \<Rightarrow> f x)"

lemma try_then_simps [simp]:
  "try_then (Inl e) f = Inl e"
  "try_then (Inr x) f = f x"
  by (simp_all add: try_then_def)

lemma try_then_Inr_iff:
  "try_then r f = Inr y \<longleftrightarrow> (\<exists>x. r = Inr x \<and> f x = Inr y)"
  by (cases r) auto

lemma try_then_Inl_iff:
  "try_then r f = Inl e \<longleftrightarrow> r = Inl e \<or> (\<exists>x. r = Inr x \<and> f x = Inl e)"
  by (cases r) auto

text \<open>A loop whose body may fail: the first error ends it.\<close>

primrec check_all :: "('a \<Rightarrow> ('e, unit) result) \<Rightarrow> 'a list \<Rightarrow> ('e, unit) result" where
  "check_all f [] = Inr ()"
| "check_all f (x # xs) = try_then (f x) (\<lambda>_. check_all f xs)"

lemma check_all_Inr_iff: "check_all f xs = Inr () \<longleftrightarrow> (\<forall>x\<in>set xs. f x = Inr ())"
  by (induction xs) (auto simp: try_then_Inr_iff)

lemma check_all_append:
  "check_all f (xs @ ys) = try_then (check_all f xs) (\<lambda>_. check_all f ys)"
  by (induction xs) (auto simp: try_then_def split: sum.splits)

lemma check_all_Inl_iff:
  "check_all f xs = Inl e \<longleftrightarrow>
    (\<exists>ys x zs. xs = ys @ x # zs \<and> (\<forall>y\<in>set ys. f y = Inr ()) \<and> f x = Inl e)"
proof (induction xs)
  case Nil
  then show ?case by simp
next
  case (Cons a xs)
  show ?case
  proof (cases "f a")
    case (Inl e')
    show ?thesis
    proof
      assume "check_all f (a # xs) = Inl e"
      with Inl have "f a = Inl e" by simp
      then show "\<exists>ys x zs. a # xs = ys @ x # zs \<and> (\<forall>y\<in>set ys. f y = Inr ()) \<and> f x = Inl e"
        by (intro exI [of _ "[]"]) auto
    next
      assume "\<exists>ys x zs. a # xs = ys @ x # zs \<and> (\<forall>y\<in>set ys. f y = Inr ()) \<and> f x = Inl e"
      with Inl show "check_all f (a # xs) = Inl e" by (auto simp: Cons_eq_append_conv)
    qed
  next
    case (Inr u)
    then have "check_all f (a # xs) = check_all f xs" by simp
    with Cons.IH Inr show ?thesis by (auto simp: Cons_eq_append_conv) (metis append_Cons set_ConsD)+
  qed
qed

subsection \<open>Strings\<close>

text \<open>\<open>strings.Contains\<close>: some suffix of the string starts with the substring.\<close>

primrec strings_Contains :: "string \<Rightarrow> string \<Rightarrow> bool" where
  "strings_Contains [] sub = (sub = [])"
| "strings_Contains (c # s) sub = (prefix sub (c # s) \<or> strings_Contains s sub)"

lemma strings_Contains_iff_sublist: "strings_Contains s sub \<longleftrightarrow> sublist sub s"
  by (induction s) (auto simp: sublist_Cons_right)

text \<open>\<open>strings.ContainsRune\<close> for the ASCII runes the sources search for.\<close>

definition strings_ContainsRune :: "string \<Rightarrow> char \<Rightarrow> bool" where
  [go_defs]: "strings_ContainsRune s c = (c \<in> set s)"

definition strings_HasPrefix :: "string \<Rightarrow> string \<Rightarrow> bool" where
  [go_defs]: "strings_HasPrefix s p = prefix p s"

definition strings_HasSuffix :: "string \<Rightarrow> string \<Rightarrow> bool" where
  [go_defs]: "strings_HasSuffix s p = suffix p s"

text \<open>\<open>strings.Join\<close>.\<close>

fun strings_Join :: "string list \<Rightarrow> string \<Rightarrow> string" where
  "strings_Join [] sep = []"
| "strings_Join [x] sep = x"
| "strings_Join (x # y # ys) sep = x @ sep @ strings_Join (y # ys) sep"

text \<open>\<open>strings.Split\<close> for a separator of one character: never the empty list.\<close>

fun strings_Split :: "string \<Rightarrow> char \<Rightarrow> string list" where
  "strings_Split [] sep = [[]]"
| "strings_Split (c # s) sep =
     (if c = sep then [] # strings_Split s sep
      else (case strings_Split s sep of
              [] \<Rightarrow> [[c]]
            | p # ps \<Rightarrow> (c # p) # ps))"

lemma strings_Split_not_Nil [simp]: "strings_Split s sep \<noteq> []"
  by (cases s) (auto split: list.splits)

lemma strings_Split_no_sep: "sep \<notin> set s \<Longrightarrow> strings_Split s sep = [s]"
  by (induction s) auto

lemma strings_Split_hd: "hd (strings_Split s sep) = takeWhile (\<lambda>c. c \<noteq> sep) s"
  by (induction s) (auto split: list.splits)

lemma strings_Join_Split: "strings_Join (strings_Split s sep) [sep] = s"
proof (induction s)
  case Nil
  then show ?case by simp
next
  case (Cons c s)
  obtain p ps where ps: "strings_Split s sep = p # ps"
    by (meson list.exhaust strings_Split_not_Nil)
  show ?case
  proof (cases ps)
    case Nil
    with Cons ps show ?thesis by auto
  next
    case (Cons q qs)
    with Cons.IH ps show ?thesis by auto
  qed
qed

text \<open>\<open>strings.Trim\<close> for a cut set of one character.\<close>

definition strings_Trim :: "string \<Rightarrow> char \<Rightarrow> string" where
  [go_defs]: "strings_Trim s c = rev (dropWhile (\<lambda>x. x = c) (rev (dropWhile (\<lambda>x. x = c) s)))"

text \<open>\<open>strings.Replace(s, cc, c, -1)\<close>: every non-overlapping pair \<open>cc\<close>, from the left, by \<open>c\<close>.\<close>

fun strings_ReplacePair :: "char \<Rightarrow> string \<Rightarrow> string" where
  "strings_ReplacePair c (x # y # s) =
     (if x = c \<and> y = c then c # strings_ReplacePair c s else x # strings_ReplacePair c (y # s))"
| "strings_ReplacePair c s = s"

subsection \<open>Decimal integers\<close>

fun nat_digits :: "nat \<Rightarrow> string" where
  "nat_digits n =
     (if n < 10 then [char_of (48 + n)]
      else nat_digits (n div 10) @ [char_of (48 + n mod 10)])"

declare nat_digits.simps [simp del]

text \<open>\<open>strconv.Itoa\<close>.\<close>

definition strconv_Itoa :: "int \<Rightarrow> string" where
  "strconv_Itoa i = (if i < 0 then CHR ''-'' # nat_digits (nat (- i)) else nat_digits (nat i))"

definition is_digit :: "char \<Rightarrow> bool" where
  "is_digit c = (48 \<le> (of_char c :: nat) \<and> (of_char c :: nat) \<le> 57)"

fun digits_val :: "nat \<Rightarrow> string \<Rightarrow> nat option" where
  "digits_val a [] = Some a"
| "digits_val a (c # cs) = (if is_digit c then digits_val (10 * a + (of_char c - 48)) cs else None)"

text \<open>
  \<open>strconv.Atoi\<close>: an optional sign, at least one digit, nothing else, and a value that fits
  in 64 bits.  \<open>None\<close> is the error.
\<close>

definition int64_of :: "int \<Rightarrow> int option" where
  "int64_of i = (if - (2 ^ 63) \<le> i \<and> i < 2 ^ 63 then Some i else None)"

definition strconv_Atoi :: "string \<Rightarrow> int option" where
  "strconv_Atoi s =
     (let neg = (s \<noteq> [] \<and> hd s = CHR ''-'');
          ds = (if s \<noteq> [] \<and> (hd s = CHR ''-'' \<or> hd s = CHR ''+'') then tl s else s)
      in if ds = [] then None
         else case digits_val 0 ds of
                None \<Rightarrow> None
              | Some n \<Rightarrow> int64_of (if neg then - int n else int n))"

lemma of_char_digit [simp]: "n < 10 \<Longrightarrow> of_char (char_of (48 + n) :: char) = (48 + n :: nat)"
  by (simp add: of_char_of)

lemma is_digit_char_of [simp]: "n < 10 \<Longrightarrow> is_digit (char_of (48 + n :: nat))"
  by (simp add: is_digit_def)

lemma digits_val_append:
  "digits_val a (xs @ ys) = (case digits_val a xs of None \<Rightarrow> None | Some b \<Rightarrow> digits_val b ys)"
  by (induction xs arbitrary: a) auto

lemma digits_val_nat_digits: "digits_val 0 (nat_digits n) = Some n"
proof (induction n rule: nat_digits.induct)
  case (1 n)
  show ?case
  proof (cases "n < 10")
    case True
    then show ?thesis by (simp add: nat_digits.simps [of n])
  next
    case False
    with 1 have "digits_val 0 (nat_digits (n div 10)) = Some (n div 10)" by simp
    with False show ?thesis by (simp add: nat_digits.simps [of n] digits_val_append)
  qed
qed

lemma nat_digits_not_Nil [simp]: "nat_digits n \<noteq> []"
  by (cases "n < 10") (simp_all add: nat_digits.simps [of n])

lemma digits_of_nat_digits: "c \<in> set (nat_digits n) \<Longrightarrow> is_digit c"
proof (induction n rule: nat_digits.induct)
  case (1 n)
  show ?case
  proof (cases "n < 10")
    case True
    with 1 show ?thesis by (simp add: nat_digits.simps [of n])
  next
    case False
    with 1 show ?thesis by (auto simp: nat_digits.simps [of n])
  qed
qed

lemma not_digit_sign [simp]: "\<not> is_digit CHR ''-''" "\<not> is_digit CHR ''+''"
  by (simp_all add: is_digit_def)

lemma hd_nat_digits_sign [simp]:
  "hd (nat_digits n) \<noteq> CHR ''-''" "hd (nat_digits n) \<noteq> CHR ''+''"
  using digits_of_nat_digits [of "hd (nat_digits n)" n] not_digit_sign
  by (metis hd_in_set nat_digits_not_Nil)+

lemma strconv_Atoi_Itoa: "strconv_Atoi (strconv_Itoa i) = int64_of i"
  by (simp add: strconv_Atoi_def strconv_Itoa_def digits_val_nat_digits Let_def)

subsection \<open>Windows of one slice\<close>

text \<open>
  \<open>copy(xs[d:], xs[s:])\<close>: the shorter of the two lengths is copied, as if through a buffer.
  The slice expressions are in range when \<open>d\<close> and \<open>s\<close> are at most the length.
\<close>

definition go_copy :: "'a list \<Rightarrow> nat \<Rightarrow> nat \<Rightarrow> 'a list" where
  "go_copy xs d s =
     (let n = min (length xs - d) (length xs - s)
      in take d xs @ take n (drop s xs) @ drop (d + n) xs)"

lemma length_go_copy [simp]:
  "d \<le> length xs \<Longrightarrow> s \<le> length xs \<Longrightarrow> length (go_copy xs d s) = length xs"
  by (simp add: go_copy_def Let_def)

text \<open>The insertion idiom: grow by one, shift the tail right, write the gap.\<close>

lemma go_copy_insert:
  assumes "p \<le> length xs"
  shows "(go_copy (xs @ [z]) (Suc p) p)[p := v] = take p xs @ v # drop p xs"
proof (cases "p = length xs")
  case True
  then show ?thesis by (simp add: go_copy_def)
next
  case False
  with assms have "p < length xs" by simp
  then have *: "go_copy (xs @ [z]) (Suc p) p = take (Suc p) xs @ drop p xs"
    by (simp add: go_copy_def Let_def)
  from \<open>p < length xs\<close> have "take (Suc p) xs = take p xs @ [xs ! p]"
    by (simp add: take_Suc_conv_app_nth)
  with * \<open>p < length xs\<close> show ?thesis by (simp add: list_update_append)
qed

text \<open>The removal idiom: shift the tail left, cut the last element.\<close>

lemma go_copy_remove:
  assumes "p < length xs"
  shows "take (length xs - 1) (go_copy xs p (Suc p)) = take p xs @ drop (Suc p) xs"
proof -
  from assms have "length xs - 1 = p + (length xs - Suc p)" by simp
  with assms show ?thesis by (simp add: go_copy_def Let_def take_add)
qed

subsection \<open>Lists\<close>

text \<open>The first index at which a predicate holds, the result of the sources' search loops.\<close>

primrec find_index :: "('a \<Rightarrow> bool) \<Rightarrow> 'a list \<Rightarrow> nat option" where
  "find_index P [] = None"
| "find_index P (x # xs) = (if P x then Some 0 else map_option Suc (find_index P xs))"

lemma find_index_None_iff: "find_index P xs = None \<longleftrightarrow> (\<forall>x\<in>set xs. \<not> P x)"
  by (induction xs) auto

lemma find_index_Some:
  "find_index P xs = Some i \<Longrightarrow> i < length xs \<and> P (xs ! i) \<and> (\<forall>j<i. \<not> P (xs ! j))"
proof (induction xs arbitrary: i)
  case Nil
  then show ?case by simp
next
  case (Cons x xs)
  then show ?case
    by (cases "P x") (auto simp: less_Suc_eq_0_disj)
qed

lemma find_index_Some_length: "find_index P xs = Some i \<Longrightarrow> i < length xs"
  by (simp add: find_index_Some)

lemma find_index_append:
  "find_index P (xs @ ys) =
     (case find_index P xs of Some i \<Rightarrow> Some i | None \<Rightarrow> map_option (\<lambda>i. length xs + i) (find_index P ys))"
  by (cases "find_index P ys"; induction xs) (auto split: option.splits)

lemma find_index_split:
  assumes "find_index P xs = Some p"
  shows "find_index P (take p xs) = None" "find_index P (drop p xs) = Some 0"
proof -
  from find_index_Some [OF assms] have p: "p < length xs" "P (xs ! p)" "\<forall>j<p. \<not> P (xs ! j)" by auto
  then show "find_index P (take p xs) = None" by (auto simp: find_index_None_iff in_set_conv_nth)
  from p show "find_index P (drop p xs) = Some 0" by (simp add: Cons_nth_drop_Suc [symmetric])
qed

lemma sublist_singleton_iff [simp]: "sublist [x] xs \<longleftrightarrow> x \<in> set xs"
proof
  assume "sublist [x] xs"
  then show "x \<in> set xs" by (auto simp: sublist_def)
next
  assume "x \<in> set xs"
  then obtain ys zs where "xs = ys @ [x] @ zs" by (auto simp: in_set_conv_decomp)
  then show "sublist [x] xs" unfolding sublist_def by blast
qed

end
