(* ===== verification/Errors.thy ===== *)
theory Errors
  imports Prelude
begin

text \<open>
  The error values of the program and their translation to HTTP errors
  (\<open>src/pkg/util/errors.go\<close>).  One datatype stands for Go's \<open>error\<close> interface: the two error
  structs with their own type (\<open>HTTPError\<close>, \<open>UnsupportedQueryError\<close>), one constructor for each
  package variable made by \<open>errors.New\<close> (such values are compared by identity), the two
  storage error structs, and \<open>ErrorString\<close> for an error built where it is returned, with its
  text.
\<close>

subsection \<open>Data\<close>

record http_error =
  ErrorType :: string
  Description :: string
  StatusCode :: int

datatype error =
    HTTPError http_error
  | UnsupportedQueryError string
  | ErrNotFoundInStorage
  | ErrSharedInstanceHasReferences
  | ErrUnsharingInstanceWithReferences
  | ErrAlreadyExistsInStorage
  | ErrConcurrentResourceModification
  | ErrInvalidNotificationRevision
  | ErrBadRequestStorage error
  | ErrForeignKeyViolation string string
  | ErrCatalogUsesReservedPlanName
  | ErrPlanMustBeBindable
  | ErrAsyncNotSupportedForSharing
  | ErrReferencedInstanceNotShared
  | ErrReferencedInstanceNotFound
  | ErrMultipleReferenceSelectorResults
  | ErrNoResultsForReferenceSelector
  | ErrReferenceWithWrongServiceOffering
  | ErrChangingPlanOfReferenceInstance
  | ErrNewPlanDoesNotSupportInstanceSharing
  | ErrPlanDoesNotSupportInstanceSharing
  | ErrChangingParametersOfReferenceInstance
  | ErrMissingOrInvalidReferenceParameter
  | ErrSharedPlanHasReferences
  | ErrInvalidShareRequest
  | ErrInvalidProvisionRequestWithSharedProperty
  | ErrRequestBodyContainsReferencedInstanceID
  | ErrorString string

text \<open>The \<open>net/http\<close> status codes the package uses.\<close>

abbreviation StatusBadRequest :: int where "StatusBadRequest \<equiv> 400"
abbreviation StatusForbidden :: int where "StatusForbidden \<equiv> 403"
abbreviation StatusNotFound :: int where "StatusNotFound \<equiv> 404"
abbreviation StatusConflict :: int where "StatusConflict \<equiv> 409"
abbreviation StatusPreconditionFailed :: int where "StatusPreconditionFailed \<equiv> 412"
abbreviation StatusUnprocessableEntity :: int where "StatusUnprocessableEntity \<equiv> 422"
abbreviation StatusInternalServerError :: int where "StatusInternalServerError \<equiv> 500"
abbreviation StatusBadGateway :: int where "StatusBadGateway \<equiv> 502"
abbreviation StatusServiceUnavailable :: int where "StatusServiceUnavailable \<equiv> 503"

abbreviation http_err :: "string \<Rightarrow> string \<Rightarrow> int \<Rightarrow> http_error" where
  "http_err t d c \<equiv> \<lparr>ErrorType = t, Description = d, StatusCode = c\<rparr>"

text \<open>A double quote and a typographic apostrophe (UTF-8), which occur in messages.\<close>

abbreviation dq :: string where "dq \<equiv> [CHR 0x22]"
abbreviation sq :: string where "sq \<equiv> [CHR 0x27]"
abbreviation rsquo :: string where "rsquo \<equiv> [CHR 0xE2, CHR 0x80, CHR 0x99]"

subsection \<open>Texts\<close>

text \<open>The method \<open>Error()\<close> of each error value.\<close>

primrec error_text :: "error \<Rightarrow> string" where
  "error_text (HTTPError h) = Description h"
| "error_text (UnsupportedQueryError m) = m"
| "error_text ErrNotFoundInStorage = ''not found''"
| "error_text ErrSharedInstanceHasReferences = ''shared instance has references''"
| "error_text ErrUnsharingInstanceWithReferences = ''failed un-sharing instance with references''"
| "error_text ErrAlreadyExistsInStorage = ''unique constraint violation''"
| "error_text ErrConcurrentResourceModification =
     ''another resource update happened concurrently. Please reattempt the update''"
| "error_text ErrInvalidNotificationRevision = ''notification revision is not valid''"
| "error_text (ErrBadRequestStorage c) = error_text c"
| "error_text (ErrForeignKeyViolation e r) =
     ''Could not delete entity '' @ e @ '' due to existing reference entity '' @ r"
| "error_text ErrCatalogUsesReservedPlanName = ''catalog contains a reserved plan name''"
| "error_text ErrPlanMustBeBindable = ''plan must be bindable''"
| "error_text ErrAsyncNotSupportedForSharing =
     ''can'' @ [CHR 0x27] @ ''t use async for sharing instances''"
| "error_text ErrReferencedInstanceNotShared = ''referenced-instance should be shared first''"
| "error_text ErrReferencedInstanceNotFound = ''referenced-instance not found''"
| "error_text ErrMultipleReferenceSelectorResults = ''multiple selector results''"
| "error_text ErrNoResultsForReferenceSelector = ''no results for reference selector''"
| "error_text ErrReferenceWithWrongServiceOffering =
     ''referenced-instance not matches the service offering''"
| "error_text ErrChangingPlanOfReferenceInstance = ''changing plan of reference instance''"
| "error_text ErrNewPlanDoesNotSupportInstanceSharing =
     ''changing shared instance plan to a non-shareable plan''"
| "error_text ErrPlanDoesNotSupportInstanceSharing = ''plan does not support instance sharing''"
| "error_text ErrChangingParametersOfReferenceInstance =
     ''changing parameters of reference instance''"
| "error_text ErrMissingOrInvalidReferenceParameter =
     ''missing or invalid referenced_instance_id parameter''"
| "error_text ErrSharedPlanHasReferences = ''shared plan has references''"
| "error_text ErrInvalidShareRequest = ''invalid share request''"
| "error_text ErrInvalidProvisionRequestWithSharedProperty = ''invalid provision request''"
| "error_text ErrRequestBodyContainsReferencedInstanceID =
     ''invalid provision request body with reference key''"
| "error_text (ErrorString m) = m"

text \<open>\<open>%s\<close> on a \<open>[]string\<close>: the elements between brackets, separated by blanks.\<close>

definition fmt_strings :: "string list \<Rightarrow> string" where
  "fmt_strings xs = ''['' @ strings_Join xs '' '' @ '']''"

subsection \<open>Translation\<close>

definition ToHTTPError :: "error \<Rightarrow> http_error" where
  "ToHTTPError err =
     (case err of
        UnsupportedQueryError m \<Rightarrow> http_err ''BadRequest'' (error_text err) StatusBadRequest
      | HTTPError t \<Rightarrow>
          (if StatusCode t = 0 then t\<lparr>StatusCode := StatusInternalServerError\<rparr> else t)
      | _ \<Rightarrow> http_err ''InternalError'' ''Internal server error'' StatusInternalServerError)"

definition HandleStorageError :: "error option \<Rightarrow> string \<Rightarrow> error option" where
  "HandleStorageError err entityName0 =
     (case err of
        None \<Rightarrow> None
      | Some (HTTPError h) \<Rightarrow> Some (HTTPError h)
      | Some e \<Rightarrow>
          (let entityName = (if length entityName0 = 0 then ''entity'' else entityName0)
           in case e of
                ErrAlreadyExistsInStorage \<Rightarrow>
                  Some (HTTPError (http_err ''Conflict''
                    (''found conflicting '' @ entityName) StatusConflict))
              | ErrNotFoundInStorage \<Rightarrow>
                  Some (HTTPError (http_err ''NotFound''
                    (''could not find such '' @ entityName) StatusNotFound))
              | ErrConcurrentResourceModification \<Rightarrow>
                  Some (HTTPError (http_err ''ConcurrentResourceUpdate''
                    ''Another concurrent resource update occurred. Please reattempt the update operation''
                    StatusPreconditionFailed))
              | ErrForeignKeyViolation ent ref \<Rightarrow>
                  Some (HTTPError (http_err ''ExistingReferenceEntity''
                    (''Error deleting entity '' @ entityName @ '': '' @ error_text e) StatusConflict))
              | ErrBadRequestStorage cause \<Rightarrow>
                  Some (HTTPError (http_err ''BadRequest''
                    (''storage err: '' @ error_text e) StatusBadRequest))
              | _ \<Rightarrow> Some e))"

definition HandleReferencesError :: "error option \<Rightarrow> string list \<Rightarrow> error option" where
  "HandleReferencesError err guidsArray =
     (case err of
        None \<Rightarrow> None
      | Some (HTTPError h) \<Rightarrow> Some (HTTPError h)
      | Some ErrSharedInstanceHasReferences \<Rightarrow>
          Some (HTTPError (http_err ''BadRequest''
            (''Couldn'' @ [CHR 0x27] @ ''t delete the service instance. Before you can delete it, you first need to delete these ''
             @ strconv_Itoa (int (length guidsArray)) @ '' references: '' @ fmt_strings guidsArray)
            StatusBadRequest))
      | Some ErrUnsharingInstanceWithReferences \<Rightarrow>
          Some (HTTPError (http_err ''BadRequest''
            (''Couldn'' @ [CHR 0x27] @ ''t unshare the service instance. Before you can unshare it, you first need to delete these ''
             @ strconv_Itoa (int (length guidsArray)) @ '' references: '' @ fmt_strings guidsArray)
            StatusBadRequest))
      | Some e \<Rightarrow> Some e)"

text \<open>\<open>instance_sharing.SupportsInstanceSharingKey\<close>.\<close>

definition SupportsInstanceSharingKey :: string where
  "SupportsInstanceSharingKey = ''supportsInstanceSharing''"

definition HandleInstanceSharingError :: "error option \<Rightarrow> string \<Rightarrow> error option" where
  "HandleInstanceSharingError err entityName =
     (case err of
        None \<Rightarrow> None
      | Some (HTTPError h) \<Rightarrow> Some (HTTPError h)
      | Some ErrCatalogUsesReservedPlanName \<Rightarrow>
          Some (HTTPError (http_err ''BadRequest''
            (''Catalog registration failed. The plan name '' @ dq @ entityName @ dq @ '' is a reserved name; you must choose a different plan name.'')
            StatusBadRequest))
      | Some ErrPlanMustBeBindable \<Rightarrow>
          Some (HTTPError (http_err ''BadRequest''
            (''The plan '' @ entityName @ '' must be defined as '' @ [CHR 0x27] @ ''bindable'' @ [CHR 0x27] @ '' so that it can support instance sharing.'')
            StatusBadRequest))
      | Some ErrReferencedInstanceNotShared \<Rightarrow>
          Some (HTTPError (http_err ''BadRequest''
            (''Failed to create the instance. The instance '' @ entityName @ '', to which you want to refer, must be shared first.'')
            StatusBadRequest))
      | Some ErrReferencedInstanceNotFound \<Rightarrow>
          Some (HTTPError (http_err ''NotFound''
            (''Failed to create the instance. The instance '' @ entityName @ '', to which you want to refer, was not found.'')
            StatusNotFound))
      | Some ErrReferenceWithWrongServiceOffering \<Rightarrow>
          Some (HTTPError (http_err ''NotFound''
            (''Failed to create the instance. The instance '' @ entityName @ '', to which you want to refer, does not belong to the specified service offering.'')
            StatusNotFound))
      | Some ErrMultipleReferenceSelectorResults \<Rightarrow>
          Some (HTTPError (http_err ''BadRequest''
            ''Failed to create the instance. There are multiple shared instances that match your criteria. Refine your search criteria or specify the shared instance ID.''
            StatusNotFound))
      | Some ErrNoResultsForReferenceSelector \<Rightarrow>
          Some (HTTPError (http_err ''NotFound''
            ''Failed to create the instance. Could not find a shared instance that matches your criteria. Refine your search criteria or specify the shared instance ID.''
            StatusNotFound))
      | Some ErrChangingPlanOfReferenceInstance \<Rightarrow>
          Some (HTTPError (http_err ''BadRequest''
            (''Failed to update the instance '' @ entityName @ ''. It is not allowed to change the plan of a reference instance.'')
            StatusBadRequest))
      | Some ErrNewPlanDoesNotSupportInstanceSharing \<Rightarrow>
          Some (HTTPError (http_err ''BadRequest''
            (''Failed to update the instance'' @ rsquo @ ''s plan. The new plan must support instance sharing.'')
            StatusBadRequest))
      | Some ErrPlanDoesNotSupportInstanceSharing \<Rightarrow>
          Some (HTTPError (http_err ''BadRequest''
            (''Failed to share the instance. The plan '' @ entityName @ '' does not support instance sharing.'')
            StatusBadRequest))
      | Some ErrChangingParametersOfReferenceInstance \<Rightarrow>
          Some (HTTPError (http_err ''BadRequest''
            (''Failed to update the instance '' @ entityName @ ''. It is not allowed to change the parameters of a reference instance.'')
            StatusBadRequest))
      | Some ErrMissingOrInvalidReferenceParameter \<Rightarrow>
          Some (HTTPError (http_err ''BadRequest''
            ''Failed to create the instance. Check your parameter specifications for the instance to which you want to refer and try again.''
            StatusBadRequest))
      | Some ErrSharedPlanHasReferences \<Rightarrow>
          Some (HTTPError (http_err ''BadRequest''
            (''Failed to update the service plan '' @ entityName @ ''. Before you can set '' @ SupportsInstanceSharingKey @ '' to false, you first need to unshare its shared instances.'')
            StatusBadRequest))
      | Some ErrInvalidShareRequest \<Rightarrow>
          Some (HTTPError (http_err ''BadRequest''
            (''Failed to update the instance '' @ entityName @ ''. It is not allowed to modify the '' @ dq @ ''shared'' @ dq @ '' property in the request that also modifies other properties.'')
            StatusBadRequest))
      | Some ErrInvalidProvisionRequestWithSharedProperty \<Rightarrow>
          Some (HTTPError (http_err ''BadRequest''
            (''Failed to create the instance. Setting the instance as '' @ dq @ ''shared'' @ dq @ '' is only possible after the instance has been created.'')
            StatusBadRequest))
      | Some ErrAsyncNotSupportedForSharing \<Rightarrow>
          Some (HTTPError (http_err ''BadRequest''
            (''Async requests are not supported when modifying the '' @ dq @ ''shared'' @ dq @ '' property. Try again with '' @ dq @ ''async'' @ dq @ '' = '' @ dq @ ''false'' @ dq @ ''.'')
            StatusBadRequest))
      | Some ErrRequestBodyContainsReferencedInstanceID \<Rightarrow>
          Some (HTTPError (http_err ''BadRequest''
            (''Invalid request. Place the '' @ dq @ entityName @ dq @ '' key in the '' @ dq @ ''parameters'' @ dq @ '' section of the request.'')
            StatusBadRequest))
      | Some e \<Rightarrow> Some e)"

subsection \<open>Properties\<close>

lemma HandleStorageError_HTTP [simp]:
  "HandleStorageError (Some (HTTPError h)) n = Some (HTTPError h)"
  by (simp add: HandleStorageError_def)

lemma HandleStorageError_None [simp]: "HandleStorageError None n = None"
  by (simp add: HandleStorageError_def)

text \<open>The storage errors with a status of their own, and that status.\<close>

definition storage_status :: "error \<Rightarrow> int option" where
  "storage_status e =
     (case e of
        ErrAlreadyExistsInStorage \<Rightarrow> Some StatusConflict
      | ErrNotFoundInStorage \<Rightarrow> Some StatusNotFound
      | ErrConcurrentResourceModification \<Rightarrow> Some StatusPreconditionFailed
      | ErrForeignKeyViolation _ _ \<Rightarrow> Some StatusConflict
      | ErrBadRequestStorage _ \<Rightarrow> Some StatusBadRequest
      | _ \<Rightarrow> None)"

lemma HandleStorageError_known:
  assumes "storage_status e = Some st"
  shows "\<exists>h. HandleStorageError (Some e) n = Some (HTTPError h) \<and> StatusCode h = st"
  using assms by (cases e) (simp_all add: HandleStorageError_def storage_status_def Let_def)

lemma HandleStorageError_other:
  assumes "storage_status e = None"
  shows "HandleStorageError (Some e) n = Some e"
  using assms by (cases e) (simp_all add: HandleStorageError_def storage_status_def Let_def)

lemma HandleStorageError_None_iff [simp]: "HandleStorageError err n = None \<longleftrightarrow> err = None"
proof (cases err)
  case None
  then show ?thesis by simp
next
  case (Some e)
  show ?thesis
  proof (cases "storage_status e")
    case None
    with Some show ?thesis by (simp add: HandleStorageError_other)
  next
    case (Some st)
    with \<open>err = Some e\<close> HandleStorageError_known [OF Some, of n] show ?thesis by auto
  qed
qed

lemma ToHTTPError_status_HTTP:
  "StatusCode h \<noteq> 0 \<Longrightarrow> StatusCode (ToHTTPError (HTTPError h)) = StatusCode h"
  by (simp add: ToHTTPError_def)

lemma storage_status_nonzero: "storage_status e = Some st \<Longrightarrow> st \<noteq> 0"
  by (cases e) (auto simp: storage_status_def)


text \<open>The status that the error type of an instance sharing error names.\<close>

definition type_status :: "string \<Rightarrow> int" where
  "type_status t = (if t = ''NotFound'' then StatusNotFound else StatusBadRequest)"

text \<open>
  \<open>HandleInstanceSharingError\<close> answers each instance sharing error that it translates with
  the status its error type names, apart from one: more than one selector result is typed
  \<open>BadRequest\<close> and sent as not found.
\<close>

theorem HandleInstanceSharingError_type_status:
  assumes "HandleInstanceSharingError (Some e) n = Some (HTTPError h)" and "\<And>h'. e \<noteq> HTTPError h'"
  shows "StatusCode h = type_status (ErrorType h) \<longleftrightarrow> e \<noteq> ErrMultipleReferenceSelectorResults"
  using assms by (cases e) (auto simp: HandleInstanceSharingError_def type_status_def)

theorem HandleInstanceSharingError_type_status_witness:
  "\<exists>h. HandleInstanceSharingError (Some ErrMultipleReferenceSelectorResults) ''i'' = Some (HTTPError h) \<and>
     StatusCode h \<noteq> type_status (ErrorType h)"
proof -
  obtain h where h: "HandleInstanceSharingError (Some ErrMultipleReferenceSelectorResults) ''i'' = Some (HTTPError h)"
    by (simp add: HandleInstanceSharingError_def)
  with HandleInstanceSharingError_type_status [OF h] show ?thesis by simp
qed

end
