(* ===== verification/Labels.thy ===== *)
theory Labels
  imports Errors
begin

text \<open>
  Labels and label changes: validation (\<open>src/pkg/types/labels.go\<close>) and the application of a
  list of label changes to a resource's labels (\<open>src/pkg/query/update.go\<close>).

  \<open>ApplyLabelChangesToLabels\<close> copies the map of the labels but not the slices it holds, and it
  removes a value by shifting the slice in place while it ranges over it.  What it returns,
  and what it does to its argument, depends on this aliasing, so the model has an explicit
  heap of backing arrays.  A slice is an array and a length; every slice the function makes
  starts at the first element of its array.  How much spare capacity \<open>append\<close> leaves when it
  allocates is up to the Go runtime: it is the parameter \<open>spare\<close> of the model.
\<close>

subsection \<open>Label changes and their validation\<close>

type_synonym LabelOperation = string

definition AddLabelOperation :: LabelOperation where "AddLabelOperation = ''add''"
definition AddLabelValuesOperation :: LabelOperation where "AddLabelValuesOperation = ''add_values''"
definition RemoveLabelOperation :: LabelOperation where "RemoveLabelOperation = ''remove''"
definition RemoveLabelValuesOperation :: LabelOperation where
  "RemoveLabelValuesOperation = ''remove_values''"

lemmas label_operation_defs = AddLabelOperation_def AddLabelValuesOperation_def
  RemoveLabelOperation_def RemoveLabelValuesOperation_def

record LabelChange =
  lc_Operation :: LabelOperation
  lc_Key :: string
  lc_Values :: "string list"

definition RequiresValues :: "LabelOperation \<Rightarrow> bool" where
  "RequiresValues op = (op \<noteq> RemoveLabelOperation \<and> op \<noteq> AddLabelOperation)"

definition LabelChange_Validate :: "LabelChange \<Rightarrow> (error, unit) result" where
  "LabelChange_Validate lc =
     (if RequiresValues (lc_Operation lc) \<and> length (lc_Values lc) = 0 then
        Inl (ErrorString (''operation '' @ lc_Operation lc @ '' requires values to be provided''))
      else if lc_Key lc = '''' \<or> lc_Operation lc = '''' then
        Inl (ErrorString ''both key and operation are missing but are required for label change'')
      else Inr ())"

definition LabelChanges_Validate :: "LabelChange list \<Rightarrow> (error, unit) result" where
  "LabelChanges_Validate lcs = check_all LabelChange_Validate lcs"

text \<open>
  \<open>Labels.Validate\<close>.  Go ranges over a map in an unspecified order: the labels are given as
  the list of the entries in the order of the iteration.
\<close>

definition Labels_Validate :: "(string \<times> string list) list \<Rightarrow> (error, unit) result" where
  "Labels_Validate l =
     check_all (\<lambda>(key, vals).
       if strings_ContainsRune key CHR '' '' \<or> strings_ContainsRune key CHR 0x0A then
         Inl (ErrorString (''label key '' @ dq @ key @ dq @ '' cannot contain whitespaces''))
       else check_all (\<lambda>val.
         if strings_ContainsRune val CHR 0x0A then
           Inl (ErrorString (''label with key '' @ dq @ key @ dq @ '' has value '' @ dq @ val @ dq
                @ '' contaning forbidden new line character''))
         else Inr ()) vals) l"

subsection \<open>Slices on a heap\<close>

datatype slice = NilSlice | Slice nat nat

record heap =
  arrays :: "nat \<Rightarrow> string list"
  next_arr :: nat

definition slice_cap :: "heap \<Rightarrow> slice \<Rightarrow> nat" where
  "slice_cap h s = (case s of NilSlice \<Rightarrow> 0 | Slice a n \<Rightarrow> length (arrays h a))"

definition slice_len :: "slice \<Rightarrow> nat" where
  "slice_len s = (case s of NilSlice \<Rightarrow> 0 | Slice a n \<Rightarrow> n)"

definition slice_vals :: "heap \<Rightarrow> slice \<Rightarrow> string list" where
  "slice_vals h s = (case s of NilSlice \<Rightarrow> [] | Slice a n \<Rightarrow> take n (arrays h a))"

text \<open>A fresh array that holds \<open>xs\<close> and some zero elements behind it.\<close>

definition go_alloc :: "(nat \<Rightarrow> nat) \<Rightarrow> heap \<Rightarrow> string list \<Rightarrow> heap \<times> slice" where
  "go_alloc spare h xs =
     (h\<lparr>arrays := (arrays h)(next_arr h := xs @ replicate (spare (length xs)) []),
        next_arr := Suc (next_arr h)\<rparr>,
      Slice (next_arr h) (length xs))"

text \<open>\<open>append(s, vs...)\<close>: in place when the capacity is enough, in a fresh array otherwise.\<close>

definition go_append :: "(nat \<Rightarrow> nat) \<Rightarrow> heap \<Rightarrow> slice \<Rightarrow> string list \<Rightarrow> heap \<times> slice" where
  "go_append spare h s vs =
     (if vs = [] then (h, s)
      else case s of
        NilSlice \<Rightarrow> go_alloc spare h vs
      | Slice a n \<Rightarrow>
          (let xs = arrays h a in
           if n + length vs \<le> length xs then
             (h\<lparr>arrays := (arrays h)(a := take n xs @ vs @ drop (n + length vs) xs)\<rparr>,
              Slice a (n + length vs))
           else go_alloc spare h (take n xs @ vs)))"

subsection \<open>Applying label changes\<close>

type_synonym labels = "string \<rightharpoonup> slice"

text \<open>Reading a key that a Go map does not have gives the nil slice.\<close>

definition label_get :: "labels \<Rightarrow> string \<Rightarrow> slice" where
  "label_get m k = (case m k of None \<Rightarrow> NilSlice | Some s \<Rightarrow> s)"

record apply_state =
  hp :: heap
  mergedLabels :: labels
  labelsToAdd :: labels
  labelsToRemove :: labels

definition addValue :: "(nat \<Rightarrow> nat) \<Rightarrow> LabelChange \<Rightarrow> string \<Rightarrow> apply_state \<Rightarrow> apply_state" where
  "addValue spare change value st =
     (let k = lc_Key change in
      if value \<in> set (slice_vals (hp st) (label_get (mergedLabels st) k)) then st
      else
        (let (h1, s1) = go_append spare (hp st) (label_get (labelsToAdd st) k) [value];
             (h2, s2) = go_append spare h1 (label_get (mergedLabels st) k) [value]
         in st\<lparr>hp := h2, labelsToAdd := (labelsToAdd st)(k \<mapsto> s1),
               mergedLabels := (mergedLabels st)(k \<mapsto> s2)\<rparr>))"

text \<open>
  \<open>mergedLabels[k] = append(mergedLabels[k][:i], mergedLabels[k][i+1:]...)\<close> and the test of its
  length after it.  \<open>None\<close> is the panic of a slice expression out of range; the appended part
  always fits, so the elements move within the array.
\<close>

definition removeIndex :: "string \<Rightarrow> nat \<Rightarrow> apply_state \<Rightarrow> apply_state option" where
  "removeIndex k i st =
     (let m = label_get (mergedLabels st) k in
      if i \<le> slice_cap (hp st) m \<and> Suc i \<le> slice_len m then
        case m of
          NilSlice \<Rightarrow> None
        | Slice a n \<Rightarrow>
            (let xs = arrays (hp st) a;
                 xs' = take i xs @ take (n - Suc i) (drop (Suc i) xs) @ drop (n - 1) xs
             in Some (st\<lparr>hp := (hp st)\<lparr>arrays := (arrays (hp st))(a := xs')\<rparr>,
                         mergedLabels := (if n - 1 = 0 then (mergedLabels st)(k := None)
                                          else (mergedLabels st)(k \<mapsto> Slice a (n - 1)))\<rparr>))
      else None)"

text \<open>
  \<open>for i, value := range mergedLabels[change.Key]\<close>: the slice is evaluated once, its elements
  are read from the backing array when the iteration reaches them.
\<close>

fun removeRange :: "string \<Rightarrow> string \<Rightarrow> slice \<Rightarrow> nat list \<Rightarrow> apply_state \<Rightarrow> apply_state option" where
  "removeRange k valueToRemove s [] st = Some st"
| "removeRange k valueToRemove s (i # is) st =
     (if slice_vals (hp st) s ! i = valueToRemove then
        (case removeIndex k i st of
           None \<Rightarrow> None
         | Some st' \<Rightarrow> removeRange k valueToRemove s is st')
      else removeRange k valueToRemove s is st)"

definition removeValue :: "string \<Rightarrow> string \<Rightarrow> apply_state \<Rightarrow> apply_state option" where
  "removeValue k valueToRemove st =
     (let s = label_get (mergedLabels st) k
      in removeRange k valueToRemove s [0..<slice_len s] st)"

fun removeValues :: "string \<Rightarrow> string list \<Rightarrow> apply_state \<Rightarrow> apply_state option" where
  "removeValues k [] st = Some st"
| "removeValues k (v # vs) st =
     (case removeValue k v st of None \<Rightarrow> None | Some st' \<Rightarrow> removeValues k vs st')"

text \<open>The body of the loop over the changes.\<close>

definition applyChange ::
  "(nat \<Rightarrow> nat) \<Rightarrow> labels \<Rightarrow> LabelChange \<Rightarrow> apply_state \<Rightarrow> apply_state option" where
  "applyChange spare labels change st =
     (let k = lc_Key change; op = lc_Operation change in
      if op = AddLabelOperation \<or> op = AddLabelValuesOperation then
        (let st' = (if length (lc_Values change) = 0 then addValue spare change '''' st else st)
         in Some (fold (addValue spare change) (lc_Values change) st'))
      else if op = RemoveLabelOperation \<or> op = RemoveLabelValuesOperation then
        (if length (lc_Values change) = 0 then
           Some (st\<lparr>labelsToRemove := (labelsToRemove st)(k \<mapsto> label_get labels k),
                    mergedLabels := (mergedLabels st)(k := None)\<rparr>)
         else
           (let (h1, s1) = go_append spare (hp st) (label_get (labelsToRemove st) k) (lc_Values change)
            in removeValues k (lc_Values change)
                 (st\<lparr>hp := h1, labelsToRemove := (labelsToRemove st)(k \<mapsto> s1)\<rparr>)))
      else Some st)"

fun applyChanges ::
  "(nat \<Rightarrow> nat) \<Rightarrow> labels \<Rightarrow> LabelChange list \<Rightarrow> apply_state \<Rightarrow> apply_state option" where
  "applyChanges spare labels [] st = Some st"
| "applyChanges spare labels (c # cs) st =
     (case applyChange spare labels c st of
        None \<Rightarrow> None
      | Some st' \<Rightarrow> applyChanges spare labels cs st')"

definition ApplyLabelChangesToLabels ::
  "(nat \<Rightarrow> nat) \<Rightarrow> heap \<Rightarrow> LabelChange list \<Rightarrow> labels \<Rightarrow> apply_state option" where
  "ApplyLabelChangesToLabels spare h changes labels =
     applyChanges spare labels changes
       \<lparr>hp = h, mergedLabels = labels, labelsToAdd = Map.empty, labelsToRemove = Map.empty\<rparr>"

subsection \<open>The abstract effect of a change\<close>

text \<open>
  What a reader of the API expects of a change: labels are a map from keys to lists of values;
  an added value goes to the end unless the key has it, a removed value disappears, and a key
  without values disappears.
\<close>

type_synonym label_map = "string \<rightharpoonup> string list"

definition spec_values :: "label_map \<Rightarrow> string \<Rightarrow> string list" where
  "spec_values m k = (case m k of None \<Rightarrow> [] | Some xs \<Rightarrow> xs)"

definition spec_add :: "string \<Rightarrow> string \<Rightarrow> label_map \<Rightarrow> label_map" where
  "spec_add k v m =
     (if v \<in> set (spec_values m k) then m else m(k \<mapsto> spec_values m k @ [v]))"

definition spec_remove :: "string \<Rightarrow> string \<Rightarrow> label_map \<Rightarrow> label_map" where
  "spec_remove k v m =
     (if v \<in> set (spec_values m k) then
        (let ys = filter (\<lambda>x. x \<noteq> v) (spec_values m k)
         in if ys = [] then m(k := None) else m(k \<mapsto> ys))
      else m)"

definition spec_change :: "LabelChange \<Rightarrow> label_map \<Rightarrow> label_map" where
  "spec_change c m =
     (if lc_Operation c = AddLabelOperation \<or> lc_Operation c = AddLabelValuesOperation then
        fold (spec_add (lc_Key c)) (if lc_Values c = [] then [''''] else lc_Values c) m
      else if lc_Operation c = RemoveLabelOperation \<or> lc_Operation c = RemoveLabelValuesOperation then
        (if lc_Values c = [] then m(lc_Key c := None)
         else fold (spec_remove (lc_Key c)) (lc_Values c) m)
      else m)"

definition labels_abs :: "heap \<Rightarrow> labels \<Rightarrow> label_map" where
  "labels_abs h m = (\<lambda>k. map_option (slice_vals h) (m k))"

subsection \<open>The heap invariant\<close>

definition slice_ok :: "heap \<Rightarrow> slice \<Rightarrow> bool" where
  "slice_ok h s = (case s of NilSlice \<Rightarrow> True | Slice a n \<Rightarrow> a < next_arr h \<and> n \<le> length (arrays h a))"

definition slice_arr :: "slice \<Rightarrow> nat option" where
  "slice_arr s = (case s of NilSlice \<Rightarrow> None | Slice a n \<Rightarrow> Some a)"

text \<open>
  The labels handed to the function: every slice is allocated, no value occurs twice under one
  key (the label tables have a unique constraint on key and value), and no two keys share a
  backing array.
\<close>

definition labels_wf :: "heap \<Rightarrow> labels \<Rightarrow> bool" where
  "labels_wf h m \<longleftrightarrow>
     (\<forall>k s. m k = Some s \<longrightarrow> slice_ok h s \<and> distinct (slice_vals h s)) \<and>
     (\<forall>k k' s s' a. m k = Some s \<longrightarrow> m k' = Some s' \<longrightarrow>
        slice_arr s = Some a \<longrightarrow> slice_arr s' = Some a \<longrightarrow> k = k')"

text \<open>
  The invariant of the loop: the merged labels are well-formed, what is collected in the two
  other maps is allocated and does not share an array with a merged label, and the array of
  an input label is used by the merged label with the same key only.
\<close>

definition foreign :: "labels \<Rightarrow> slice \<Rightarrow> bool" where
  "foreign m s \<longleftrightarrow> (\<forall>k s' a. m k = Some s' \<longrightarrow> slice_arr s = Some a \<longrightarrow> slice_arr s' \<noteq> Some a)"

definition apply_inv :: "labels \<Rightarrow> apply_state \<Rightarrow> bool" where
  "apply_inv labels st \<longleftrightarrow>
     labels_wf (hp st) (mergedLabels st) \<and>
     (\<forall>k s. labelsToAdd st k = Some s \<longrightarrow> slice_ok (hp st) s \<and> foreign (mergedLabels st) s) \<and>
     (\<forall>k s. labelsToRemove st k = Some s \<longrightarrow> slice_ok (hp st) s \<and> foreign (mergedLabels st) s) \<and>
     (\<forall>k s. labels k = Some s \<longrightarrow> slice_ok (hp st) s \<and> foreign ((mergedLabels st)(k := None)) s)"

lemma slice_simps [simp]:
  "slice_cap h NilSlice = 0" "slice_cap h (Slice a n) = length (arrays h a)"
  "slice_len NilSlice = 0" "slice_len (Slice a n) = n"
  "slice_vals h NilSlice = []" "slice_vals h (Slice a n) = take n (arrays h a)"
  "slice_ok h NilSlice" "slice_ok h (Slice a n) \<longleftrightarrow> a < next_arr h \<and> n \<le> length (arrays h a)"
  "slice_arr NilSlice = None" "slice_arr (Slice a n) = Some a"
  by (simp_all add: slice_cap_def slice_len_def slice_vals_def slice_ok_def slice_arr_def)

lemma foreign_Nil [simp]: "foreign m NilSlice"
  by (simp add: foreign_def)

lemma label_get_simps [simp]:
  "m k = None \<Longrightarrow> label_get m k = NilSlice" "m k = Some s \<Longrightarrow> label_get m k = s"
  by (simp_all add: label_get_def)

lemma slice_vals_label_get: "slice_vals h (label_get m k) = spec_values (labels_abs h m) k"
  by (cases "m k") (simp_all add: spec_values_def labels_abs_def)

subsection \<open>What \<open>append\<close> does to the heap\<close>

text \<open>
  A step of the heap: arrays other than \<open>x\<close> that exist keep their contents, and the arrays
  keep their capacity.
\<close>

definition heap_step :: "nat option \<Rightarrow> heap \<Rightarrow> heap \<Rightarrow> bool" where
  "heap_step x h h' \<longleftrightarrow> next_arr h \<le> next_arr h' \<and>
     (\<forall>a < next_arr h. length (arrays h' a) = length (arrays h a) \<and>
        (x \<noteq> Some a \<longrightarrow> arrays h' a = arrays h a))"

lemma heap_step_slice_ok: "heap_step x h h' \<Longrightarrow> slice_ok h s \<Longrightarrow> slice_ok h' s"
  by (cases s) (auto simp: heap_step_def)

lemma heap_step_slice_vals:
  "heap_step x h h' \<Longrightarrow> slice_ok h s \<Longrightarrow> x = None \<or> slice_arr s \<noteq> x \<Longrightarrow> slice_vals h' s = slice_vals h s"
  by (cases s) (auto simp: heap_step_def)

lemma go_append_step:
  assumes "go_append spare h s vs = (h', s')" and "slice_ok h s"
  shows "heap_step (slice_arr s) h h'" and "slice_ok h' s'"
    and "slice_vals h' s' = slice_vals h s @ vs"
    and "slice_arr s' = slice_arr s \<or> (\<exists>a. slice_arr s' = Some a \<and> next_arr h \<le> a)"
  using assms
  by (cases s; auto simp: go_append_def go_alloc_def heap_step_def Let_def split: if_splits)+

lemma labels_wfI:
  assumes "\<And>k s. m k = Some s \<Longrightarrow> slice_ok h s \<and> distinct (slice_vals h s)"
    and "\<And>k k' s s' a. m k = Some s \<Longrightarrow> m k' = Some s' \<Longrightarrow> slice_arr s = Some a \<Longrightarrow>
      slice_arr s' = Some a \<Longrightarrow> k = k'"
  shows "labels_wf h m"
  using assms unfolding labels_wf_def by blast

lemma labels_wf_ok: "labels_wf h m \<Longrightarrow> m k = Some s \<Longrightarrow> slice_ok h s"
  unfolding labels_wf_def by blast

lemma labels_wf_distinct: "labels_wf h m \<Longrightarrow> m k = Some s \<Longrightarrow> distinct (slice_vals h s)"
  unfolding labels_wf_def by blast

lemma labels_wf_inj:
  "labels_wf h m \<Longrightarrow> m k = Some s \<Longrightarrow> m k' = Some s' \<Longrightarrow> slice_arr s = Some a \<Longrightarrow>
    slice_arr s' = Some a \<Longrightarrow> k = k'"
  unfolding labels_wf_def by blast

lemma foreignI:
  "(\<And>k s' a. m k = Some s' \<Longrightarrow> slice_arr s = Some a \<Longrightarrow> slice_arr s' = Some a \<Longrightarrow> False) \<Longrightarrow> foreign m s"
  unfolding foreign_def by blast

lemma foreignD:
  "foreign m s \<Longrightarrow> m k = Some s' \<Longrightarrow> slice_arr s = Some a \<Longrightarrow> slice_arr s' = Some a \<Longrightarrow> False"
  unfolding foreign_def by blast

lemma slice_ok_arr: "slice_ok h s \<Longrightarrow> slice_arr s = Some a \<Longrightarrow> a < next_arr h"
  by (cases s) auto

lemma labels_wf_slice_ok: "labels_wf h m \<Longrightarrow> slice_ok h (label_get m k)"
  by (cases "m k") (auto intro: labels_wf_ok)

lemma labels_wf_remove: "labels_wf h m \<Longrightarrow> labels_wf h (m(k := None))"
  by (rule labels_wfI) (auto split: if_splits dest: labels_wf_ok labels_wf_distinct labels_wf_inj)

lemma fresh_foreign:
  assumes "labels_wf h m" and "slice_arr s = Some a" and "next_arr h \<le> a"
  shows "foreign m s"
proof (rule foreignI)
  fix k s' a'
  assume "m k = Some s'" "slice_arr s = Some a'" "slice_arr s' = Some a'"
  with assms show False using slice_ok_arr [of h s' a'] labels_wf_ok [of h m k s'] by simp
qed

text \<open>A write to an array that no merged label uses.\<close>

lemma labels_frame:
  assumes wf: "labels_wf h m" and step: "heap_step x h h'"
    and x: "\<And>k s a. x = Some a \<Longrightarrow> m k = Some s \<Longrightarrow> slice_arr s \<noteq> Some a"
  shows "labels_wf h' m" and "labels_abs h' m = labels_abs h m"
proof -
  have same: "slice_vals h' s = slice_vals h s" if m: "m k = Some s" for k s
  proof (rule heap_step_slice_vals [OF step labels_wf_ok [OF wf m]])
    show "x = None \<or> slice_arr s \<noteq> x" using x [OF _ m] by (cases x) auto
  qed
  show "labels_wf h' m"
  proof (rule labels_wfI)
    fix k s assume m: "m k = Some s"
    show "slice_ok h' s \<and> distinct (slice_vals h' s)"
      using same [OF m] labels_wf_ok [OF wf m] labels_wf_distinct [OF wf m]
      by (simp add: heap_step_slice_ok [OF step])
  qed (rule labels_wf_inj [OF wf])
  show "labels_abs h' m = labels_abs h m"
    unfolding labels_abs_def
  proof
    fix k
    show "map_option (slice_vals h') (m k) = map_option (slice_vals h) (m k)"
      using same by (cases "m k") auto
  qed
qed

text \<open>
  The entry of one key is replaced and at most its own array is written: the new slice uses
  the array of the old one or a fresh one.
\<close>

definition entry_step :: "labels \<Rightarrow> string \<Rightarrow> heap \<Rightarrow> slice option \<Rightarrow> heap \<Rightarrow> bool" where
  "entry_step m k h so h' \<longleftrightarrow>
     heap_step (slice_arr (label_get m k)) h h' \<and>
     (\<forall>s. so = Some s \<longrightarrow> slice_ok h' s \<and> distinct (slice_vals h' s) \<and>
        (\<forall>a. slice_arr s = Some a \<longrightarrow> slice_arr (label_get m k) = Some a \<or> next_arr h \<le> a))"

lemma entry_step_other:
  assumes "labels_wf h m" and "slice_arr (label_get m k) = Some a"
    and "(m(k := None)) k' = Some s" and "slice_arr s = Some a"
  shows False
proof -
  from assms(2) obtain t where "m k = Some t" "slice_arr t = Some a" by (cases "m k") auto
  with assms(3,4) labels_wf_inj [OF assms(1), of k t k' s a] show False
    by (simp split: if_splits)
qed

lemma entry_step_new:
  assumes wf: "labels_wf h m" and step: "entry_step m k h (Some s) h'"
    and "(m(k := None)) k' = Some s'" and "slice_arr s = Some a" and "slice_arr s' = Some a"
  shows False
proof -
  from labels_wf_ok [OF labels_wf_remove [OF wf] assms(3)] assms(5)
  have "a < next_arr h" by (rule slice_ok_arr)
  with step assms(4) have "slice_arr (label_get m k) = Some a"
    unfolding entry_step_def by auto
  from entry_step_other [OF wf this assms(3,5)] show False .
qed

lemma entry_step_wf:
  assumes wf: "labels_wf h m" and step: "entry_step m k h so h'"
  shows "labels_wf h' (m(k := so))"
    and "labels_abs h' (m(k := so)) = (labels_abs h m)(k := map_option (slice_vals h') so)"
proof -
  from step have hs: "heap_step (slice_arr (label_get m k)) h h'" by (simp add: entry_step_def)
  have other: "slice_arr s \<noteq> Some a"
    if "slice_arr (label_get m k) = Some a" "(m(k := None)) k' = Some s" for k' s a
    using entry_step_other [OF wf that] by blast
  have frame: "labels_wf h' (m(k := None))" "labels_abs h' (m(k := None)) = labels_abs h (m(k := None))"
    by (rule labels_frame [OF labels_wf_remove [OF wf] hs], erule (1) other)+
  show "labels_wf h' (m(k := so))"
  proof (rule labels_wfI)
    fix k' s assume m: "(m(k := so)) k' = Some s"
    show "slice_ok h' s \<and> distinct (slice_vals h' s)"
    proof (cases "k' = k")
      case True
      with m step show ?thesis by (simp add: entry_step_def)
    next
      case False
      with m have "(m(k := None)) k' = Some s" by simp
      with frame(1) show ?thesis using labels_wf_ok labels_wf_distinct by blast
    qed
  next
    fix k1 k2 s1 s2 a
    assume m: "(m(k := so)) k1 = Some s1" "(m(k := so)) k2 = Some s2"
      and a: "slice_arr s1 = Some a" "slice_arr s2 = Some a"
    show "k1 = k2"
    proof (cases "k1 = k")
      case True
      show ?thesis
      proof (rule ccontr)
        assume "k1 \<noteq> k2"
        with True m step have "entry_step m k h (Some s1) h'" "(m(k := None)) k2 = Some s2" by auto
        from entry_step_new [OF wf this a] show False .
      qed
    next
      case False
      show ?thesis
      proof (cases "k2 = k")
        case True
        with False m step have "entry_step m k h (Some s2) h'" "(m(k := None)) k1 = Some s1" by auto
        from entry_step_new [OF wf this a(2,1)] show ?thesis ..
      next
        case k2: False
        with False m have "m k1 = Some s1" "m k2 = Some s2" by simp_all
        from labels_wf_inj [OF wf this a] show ?thesis .
      qed
    qed
  qed
  show "labels_abs h' (m(k := so)) = (labels_abs h m)(k := map_option (slice_vals h') so)"
  proof
    fix k'
    show "labels_abs h' (m(k := so)) k' = ((labels_abs h m)(k := map_option (slice_vals h') so)) k'"
      using fun_cong [OF frame(2), of k'] by (cases "k' = k") (simp_all add: labels_abs_def)
  qed
qed

text \<open>What shares no array with the old labels shares none with the new ones.\<close>

lemma entry_step_foreign:
  assumes step: "entry_step m k h so h'" and t: "slice_ok h t" "foreign m0 t"
    and same: "\<And>j s. j \<noteq> k \<Longrightarrow> m' j = Some s \<Longrightarrow> m0 j = Some s"
    and new: "\<And>s. m' k = Some s \<Longrightarrow> so = Some s \<and> m0 k = m k"
  shows "foreign m' t"
proof (rule foreignI)
  fix j s a
  assume j: "m' j = Some s" and a: "slice_arr t = Some a" "slice_arr s = Some a"
  show False
  proof (cases "j = k")
    case False
    from foreignD [OF t(2) same [OF False j] a] show False .
  next
    case True
    with j new have so: "so = Some s" "m0 k = m k" by simp_all
    from slice_ok_arr [OF t(1) a(1)] step so(1) a(2) have "slice_arr (label_get m k) = Some a"
      unfolding entry_step_def by auto
    then obtain u where "m k = Some u" "slice_arr u = Some a" by (cases "m k") auto
    with so(2) foreignD [OF t(2), of k u a] a(1) show False by simp
  qed
qed

lemma apply_inv_update:
  assumes inv: "apply_inv labels st" and step: "entry_step (mergedLabels st) k (hp st) so h'"
  shows "apply_inv labels (st\<lparr>hp := h', mergedLabels := (mergedLabels st)(k := so)\<rparr>)"
    and "labels_abs h' ((mergedLabels st)(k := so)) =
      (labels_abs (hp st) (mergedLabels st))(k := map_option (slice_vals h') so)"
proof -
  from inv have wf: "labels_wf (hp st) (mergedLabels st)" by (simp add: apply_inv_def)
  from step have hs: "heap_step (slice_arr (label_get (mergedLabels st) k)) (hp st) h'"
    by (simp add: entry_step_def)
  have all: "foreign ((mergedLabels st)(k := so)) t" if "slice_ok (hp st) t" "foreign (mergedLabels st) t" for t
    by (rule entry_step_foreign [OF step that]) (auto split: if_splits)
  have but: "foreign ((mergedLabels st)(k := so, k' := None)) t"
    if "slice_ok (hp st) t" "foreign ((mergedLabels st)(k' := None)) t" for k' t
    by (rule entry_step_foreign [OF step that]) (auto split: if_splits)
  show "apply_inv labels (st\<lparr>hp := h', mergedLabels := (mergedLabels st)(k := so)\<rparr>)"
    using inv entry_step_wf(1) [OF wf step] all but heap_step_slice_ok [OF hs]
    unfolding apply_inv_def by simp
  show "labels_abs h' ((mergedLabels st)(k := so)) =
      (labels_abs (hp st) (mergedLabels st))(k := map_option (slice_vals h') so)"
    by (rule entry_step_wf(2) [OF wf step])
qed

subsection \<open>Each step keeps the invariant and implements the abstract change\<close>

text \<open>A write to the array of a collected label does not touch the merged labels.\<close>

lemma apply_inv_collect:
  assumes inv: "apply_inv labels st"
    and s: "slice_ok (hp st) s" "foreign (mergedLabels st) s"
    and app: "go_append spare (hp st) s vs = (h', s')"
  shows "labels_wf h' (mergedLabels st)"
    and "labels_abs h' (mergedLabels st) = labels_abs (hp st) (mergedLabels st)"
    and "foreign (mergedLabels st) s'" and "slice_ok h' s'"
    and "\<And>t. slice_ok (hp st) t \<Longrightarrow> slice_ok h' t"
proof -
  note st = go_append_step [OF app s(1)]
  from inv have wf: "labels_wf (hp st) (mergedLabels st)" by (simp add: apply_inv_def)
  have x: "slice_arr t \<noteq> Some a" if "slice_arr s = Some a" "mergedLabels st k = Some t" for k t a
    using foreignD [OF s(2) that(2,1)] by blast
  show "labels_wf h' (mergedLabels st)"
    and "labels_abs h' (mergedLabels st) = labels_abs (hp st) (mergedLabels st)"
    by (rule labels_frame [OF wf st(1)], erule (1) x)+
  show "foreign (mergedLabels st) s'"
    using st(4) s(2) fresh_foreign [OF wf, of s'] by (auto simp: foreign_def)
  show "slice_ok h' s'" by (rule st(2))
  show "slice_ok h' t" if "slice_ok (hp st) t" for t by (rule heap_step_slice_ok [OF st(1) that])
qed

lemma apply_inv_toAdd:
  assumes inv: "apply_inv labels st"
    and app: "go_append spare (hp st) (label_get (labelsToAdd st) k) vs = (h', s')"
  shows "apply_inv labels (st\<lparr>hp := h', labelsToAdd := (labelsToAdd st)(k \<mapsto> s')\<rparr>)"
    and "labels_abs h' (mergedLabels st) = labels_abs (hp st) (mergedLabels st)"
proof -
  have s: "slice_ok (hp st) (label_get (labelsToAdd st) k)"
    "foreign (mergedLabels st) (label_get (labelsToAdd st) k)"
    using inv by (cases "labelsToAdd st k"; simp add: apply_inv_def)+
  note * = apply_inv_collect [OF inv s app]
  show "apply_inv labels (st\<lparr>hp := h', labelsToAdd := (labelsToAdd st)(k \<mapsto> s')\<rparr>)"
    using inv * unfolding apply_inv_def by simp
  show "labels_abs h' (mergedLabels st) = labels_abs (hp st) (mergedLabels st)" by (rule *)
qed

lemma apply_inv_toRemove:
  assumes inv: "apply_inv labels st"
    and app: "go_append spare (hp st) (label_get (labelsToRemove st) k) vs = (h', s')"
  shows "apply_inv labels (st\<lparr>hp := h', labelsToRemove := (labelsToRemove st)(k \<mapsto> s')\<rparr>)"
    and "labels_abs h' (mergedLabels st) = labels_abs (hp st) (mergedLabels st)"
proof -
  have s: "slice_ok (hp st) (label_get (labelsToRemove st) k)"
    "foreign (mergedLabels st) (label_get (labelsToRemove st) k)"
    using inv by (cases "labelsToRemove st k"; simp add: apply_inv_def)+
  note * = apply_inv_collect [OF inv s app]
  show "apply_inv labels (st\<lparr>hp := h', labelsToRemove := (labelsToRemove st)(k \<mapsto> s')\<rparr>)"
    using inv * unfolding apply_inv_def by simp
  show "labels_abs h' (mergedLabels st) = labels_abs (hp st) (mergedLabels st)" by (rule *)
qed

text \<open>The labels a state stands for, and the pair of facts each step has to keep.\<close>

abbreviation merged_abs :: "apply_state \<Rightarrow> label_map" where
  "merged_abs st \<equiv> labels_abs (hp st) (mergedLabels st)"

lemma spec_values_distinct:
  assumes "apply_inv labels st"
  shows "distinct (spec_values (merged_abs st) k)"
proof (cases "mergedLabels st k")
  case (Some s)
  from assms have "labels_wf (hp st) (mergedLabels st)" by (simp add: apply_inv_def)
  from labels_wf_distinct [OF this Some] Some show ?thesis
    by (simp add: spec_values_def labels_abs_def)
qed (simp add: spec_values_def labels_abs_def)

lemma addValue_refines:
  assumes inv: "apply_inv labels st"
  shows "apply_inv labels (addValue spare c v st)"
    and "merged_abs (addValue spare c v st) = spec_add (lc_Key c) v (merged_abs st)"
proof -
  let ?k = "lc_Key c"
  obtain h1 s1 where a1: "go_append spare (hp st) (label_get (labelsToAdd st) ?k) [v] = (h1, s1)"
    by fastforce
  define st1 where "st1 = st\<lparr>hp := h1, labelsToAdd := (labelsToAdd st)(?k \<mapsto> s1)\<rparr>"
  from apply_inv_toAdd [OF inv a1] have inv1: "apply_inv labels st1" and abs1: "merged_abs st1 = merged_abs st"
    by (simp_all add: st1_def)
  obtain h2 s2 where a2: "go_append spare h1 (label_get (mergedLabels st) ?k) [v] = (h2, s2)"
    by fastforce
  from inv1 have wf1: "labels_wf h1 (mergedLabels st)" by (simp add: apply_inv_def st1_def)
  note st2 = go_append_step [OF a2 labels_wf_slice_ok [OF wf1]]
  have vals: "slice_vals h1 (label_get (mergedLabels st) ?k) = spec_values (merged_abs st) ?k"
    using abs1 by (simp add: slice_vals_label_get st1_def)
  have "apply_inv labels (addValue spare c v st) \<and>
    merged_abs (addValue spare c v st) = spec_add ?k v (merged_abs st)"
  proof (cases "v \<in> set (spec_values (merged_abs st) ?k)")
    case True
    with inv show ?thesis by (simp add: addValue_def slice_vals_label_get spec_add_def Let_def)
  next
    case False
    have step: "entry_step (mergedLabels st1) ?k (hp st1) (Some s2) h2"
      using st2 vals False spec_values_distinct [OF inv, of ?k]
      by (auto simp: entry_step_def st1_def)
    have eq: "addValue spare c v st = st1\<lparr>hp := h2, mergedLabels := (mergedLabels st1)(?k \<mapsto> s2)\<rparr>"
      using False a1 a2 by (simp add: addValue_def slice_vals_label_get st1_def Let_def)
    have "merged_abs (addValue spare c v st) = (merged_abs st)(?k \<mapsto> slice_vals h2 s2)"
      using apply_inv_update(2) [OF inv1 step] abs1 unfolding eq by (simp add: st1_def)
    with False st2(3) vals have "merged_abs (addValue spare c v st) = spec_add ?k v (merged_abs st)"
      by (simp add: spec_add_def)
    moreover from apply_inv_update(1) [OF inv1 step] have "apply_inv labels (addValue spare c v st)"
      unfolding eq .
    ultimately show ?thesis by simp
  qed
  then show "apply_inv labels (addValue spare c v st)"
    and "merged_abs (addValue spare c v st) = spec_add ?k v (merged_abs st)" by simp_all
qed

lemma addValues_refine:
  assumes "apply_inv labels st"
  shows "apply_inv labels (fold (addValue spare c) vs st) \<and>
    merged_abs (fold (addValue spare c) vs st) = fold (spec_add (lc_Key c)) vs (merged_abs st)"
  using assms
proof (induction vs arbitrary: st)
  case (Cons v vs)
  from Cons.IH [OF addValue_refines(1) [OF Cons.prems]] addValue_refines(2) [OF Cons.prems]
  show ?case by simp
qed simp

text \<open>Removing one occurrence of a value from a list without duplicates.\<close>

lemma filter_neq_nth:
  assumes "distinct xs" and "p < length xs" and "xs ! p = v"
  shows "filter (\<lambda>x. x \<noteq> v) xs = take p xs @ drop (Suc p) xs"
proof -
  have xs: "xs = take p xs @ v # drop (Suc p) xs" using assms(2,3) id_take_nth_drop [of p xs] by simp
  with assms(1) have "distinct (take p xs @ v # drop (Suc p) xs)" by simp
  then have "v \<notin> set (take p xs)" "v \<notin> set (drop (Suc p) xs)" by auto
  then have "filter (\<lambda>x. x \<noteq> v) (take p xs) = take p xs"
    "filter (\<lambda>x. x \<noteq> v) (drop (Suc p) xs) = drop (Suc p) xs"
    by (auto simp: filter_id_conv)
  then have "filter (\<lambda>x. x \<noteq> v) (take p xs @ v # drop (Suc p) xs) = take p xs @ drop (Suc p) xs"
    by simp
  with xs show ?thesis by simp
qed

lemma removeRange_skip:
  assumes "\<And>i. i \<in> set is \<Longrightarrow> slice_vals (hp st) s ! i \<noteq> v"
  shows "removeRange k v s (is @ js) st = removeRange k v s js st"
  using assms by (induction "is") auto

lemma removeRange_none:
  assumes "\<And>i. i \<in> set is \<Longrightarrow> slice_vals (hp st) s ! i \<noteq> v"
  shows "removeRange k v s is st = Some st"
  using removeRange_skip [of "is" st s v k "[]"] assms by simp

text \<open>
  The range loop on a label without duplicates: the value is found at most once, and after the
  shift none of the elements read later is that value.
\<close>

lemma removeValue_refines:
  assumes inv: "apply_inv labels st"
  shows "\<exists>st'. removeValue k v st = Some st' \<and> apply_inv labels st' \<and>
    merged_abs st' = spec_remove k v (merged_abs st)"
proof (cases "v \<in> set (spec_values (merged_abs st) k)")
  case False
  have "slice_vals (hp st) (label_get (mergedLabels st) k) ! i \<noteq> v"
    if "i < slice_len (label_get (mergedLabels st) k)" for i
  proof -
    from inv have "slice_ok (hp st) (label_get (mergedLabels st) k)"
      by (intro labels_wf_slice_ok) (simp add: apply_inv_def)
    with that have "i < length (slice_vals (hp st) (label_get (mergedLabels st) k))"
      by (cases "label_get (mergedLabels st) k") auto
    then have "slice_vals (hp st) (label_get (mergedLabels st) k) ! i \<in> set (spec_values (merged_abs st) k)"
      unfolding slice_vals_label_get by (rule nth_mem)
    with False show ?thesis by metis
  qed
  then have "removeValue k v st = Some st"
    unfolding removeValue_def Let_def by (intro removeRange_none) simp
  with inv False show ?thesis by (simp add: spec_remove_def)
next
  case True
  from inv have wf: "labels_wf (hp st) (mergedLabels st)" by (simp add: apply_inv_def)
  from True obtain s where m: "mergedLabels st k = Some s"
    by (cases "mergedLabels st k") (auto simp: spec_values_def labels_abs_def)
  with True have vin: "v \<in> set (slice_vals (hp st) s)" by (simp add: spec_values_def labels_abs_def)
  then obtain a n where s: "s = Slice a n" by (cases s) auto
  let ?xs = "arrays (hp st) a"
  from labels_wf_ok [OF wf m] s have ok: "a < next_arr (hp st)" "n \<le> length ?xs" by simp_all
  from labels_wf_distinct [OF wf m] s have dist: "distinct (take n ?xs)" by simp
  from vin s obtain p where p: "p < n" "?xs ! p = v"
    using ok(2) by (auto simp: in_set_conv_nth)
  have uniq: "i = p" if "i < n" "?xs ! i = v" for i
    using nth_eq_iff_index_eq [OF dist, of i p] that p ok(2) by simp
  define xs' where "xs' = take p ?xs @ take (n - Suc p) (drop (Suc p) ?xs) @ drop (n - 1) ?xs"
  define h' where "h' = (hp st)\<lparr>arrays := (arrays (hp st))(a := xs')\<rparr>"
  define so where "so = (if n - 1 = 0 then None else Some (Slice a (n - 1)))"
  define st' where "st' = st\<lparr>hp := h', mergedLabels := (mergedLabels st)(k := so)\<rparr>"
  have len: "length xs' = length ?xs" using p ok(2) by (simp add: xs'_def)
  have short: "take (n - 1) xs' = take p (take n ?xs) @ drop (Suc p) (take n ?xs)"
  proof -
    from p have "n - 1 = p + (n - Suc p)" by simp
    with p ok(2) show ?thesis by (simp add: xs'_def take_add drop_take min_absorb1)
  qed
  have filt: "filter (\<lambda>x. x \<noteq> v) (take n ?xs) = take (n - 1) xs'"
    unfolding short using p ok(2) by (intro filter_neq_nth [OF dist]) auto
  have index: "removeIndex k p st = Some st'"
    using p ok(2) m s by (simp add: removeIndex_def Let_def st'_def h'_def xs'_def so_def)
  have step: "entry_step (mergedLabels st) k (hp st) so h'"
    using m s len ok p dist filt [symmetric]
    by (auto simp: entry_step_def heap_step_def h'_def so_def distinct_take)
  have inv': "apply_inv labels st'"
    unfolding st'_def by (rule apply_inv_update(1) [OF inv step])
  have later: "take n xs' ! i \<noteq> v" if "i \<in> set [Suc p..<n]" for i
  proof (cases "i = n - 1")
    case True
    with that p ok(2) have "xs' ! i = ?xs ! (n - 1)" by (simp add: xs'_def nth_append min_def)
    with that True uniq [of "n - 1"] show ?thesis by auto
  next
    case False
    with that p ok(2) have "i - p < n - Suc p" "n - Suc p \<le> length ?xs - Suc p" "p \<le> length ?xs"
      "Suc i \<le> length ?xs" by auto
    with that p have "xs' ! i = ?xs ! Suc i" by (simp add: xs'_def nth_append min_absorb1 min_absorb2)
    moreover from that False have "Suc i < n" by auto
    ultimately show ?thesis using that uniq [of "Suc i"] by auto
  qed
  have "removeRange k v s [0..<n] st = removeRange k v s ([0..<p] @ p # [Suc p..<n]) st"
    using p(1) upt_add_eq_append [of 0 p "n - p"] by (simp add: upt_conv_Cons)
  also have "\<dots> = removeRange k v s (p # [Suc p..<n]) st"
  proof (rule removeRange_skip)
    fix i assume "i \<in> set [0..<p]"
    with s p uniq [of i] show "slice_vals (hp st) s ! i \<noteq> v" by auto
  qed
  also have "\<dots> = removeRange k v s [Suc p..<n] st'"
    using s p index by simp
  also have "\<dots> = Some st'"
    using later s by (intro removeRange_none) (simp add: st'_def h'_def)
  finally have run: "removeValue k v st = Some st'"
    using m s by (simp add: removeValue_def)
  have "merged_abs st' = spec_remove k v (merged_abs st)"
  proof -
    have sv: "spec_values (merged_abs st) k = take n ?xs"
      using m s by (simp add: spec_values_def labels_abs_def)
    have "merged_abs st' = (merged_abs st)(k := map_option (slice_vals h') so)"
      using apply_inv_update(2) [OF inv step] by (simp add: st'_def)
    moreover have "take (n - 1) xs' = [] \<longleftrightarrow> n - 1 = 0"
      using len ok(2) p by auto
    ultimately show ?thesis
      using True by (auto simp: spec_remove_def sv filt so_def h'_def Let_def)
  qed
  with run inv' show ?thesis by blast
qed

lemma removeValues_refine:
  assumes "apply_inv labels st"
  shows "\<exists>st'. removeValues k vs st = Some st' \<and> apply_inv labels st' \<and>
    merged_abs st' = fold (spec_remove k) vs (merged_abs st)"
  using assms
proof (induction vs arbitrary: st)
  case (Cons v vs)
  from removeValue_refines [OF Cons.prems, of k v] obtain st1
    where 1: "removeValue k v st = Some st1" "apply_inv labels st1"
      "merged_abs st1 = spec_remove k v (merged_abs st)" by blast
  from Cons.IH [OF 1(2)] 1(1,3) show ?case by auto
qed simp

lemma applyChange_refines:
  assumes inv: "apply_inv labels st"
  shows "\<exists>st'. applyChange spare labels c st = Some st' \<and> apply_inv labels st' \<and>
    merged_abs st' = spec_change c (merged_abs st)"
proof -
  let ?k = "lc_Key c" and ?vs = "lc_Values c"
  consider (add) "lc_Operation c = AddLabelOperation \<or> lc_Operation c = AddLabelValuesOperation"
    | (rem) "\<not> (lc_Operation c = AddLabelOperation \<or> lc_Operation c = AddLabelValuesOperation)"
        "lc_Operation c = RemoveLabelOperation \<or> lc_Operation c = RemoveLabelValuesOperation"
    | (other) "\<not> (lc_Operation c = AddLabelOperation \<or> lc_Operation c = AddLabelValuesOperation)"
        "\<not> (lc_Operation c = RemoveLabelOperation \<or> lc_Operation c = RemoveLabelValuesOperation)"
    by blast
  then show ?thesis
  proof cases
    case add
    then show ?thesis
      using addValues_refine [OF inv, of spare c ?vs] addValue_refines [OF inv, of spare c "[]"]
      by (cases "?vs = []") (auto simp: applyChange_def spec_change_def Let_def)
  next
    case rem
    show ?thesis
    proof (cases "?vs = []")
      case True
      define st' where "st' = st\<lparr>labelsToRemove := (labelsToRemove st)(?k \<mapsto> label_get labels ?k),
        mergedLabels := (mergedLabels st)(?k := None)\<rparr>"
      have step: "entry_step (mergedLabels st) ?k (hp st) None (hp st)"
        by (simp add: entry_step_def heap_step_def)
      note upd = apply_inv_update [OF inv step]
      have s: "slice_ok (hp st) (label_get labels ?k)"
        "foreign ((mergedLabels st)(?k := None)) (label_get labels ?k)"
        using inv by (cases "labels ?k"; simp add: apply_inv_def)+
      have "apply_inv labels st'"
        using upd(1) s unfolding apply_inv_def st'_def by simp
      moreover have "merged_abs st' = (merged_abs st)(?k := None)"
        using upd(2) by (simp add: st'_def)
      ultimately show ?thesis
        using rem True by (auto simp: applyChange_def spec_change_def Let_def st'_def)
    next
      case False
      obtain h1 s1 where a1: "go_append spare (hp st) (label_get (labelsToRemove st) ?k) ?vs = (h1, s1)"
        by fastforce
      note c1 = apply_inv_toRemove [OF inv a1]
      from removeValues_refine [OF c1(1), of ?k ?vs] c1(2) rem False a1 show ?thesis
        by (auto simp: applyChange_def spec_change_def Let_def)
    qed
  next
    case other
    with inv show ?thesis by (simp add: applyChange_def spec_change_def)
  qed
qed

lemma applyChanges_refine:
  assumes "apply_inv labels st"
  shows "\<exists>st'. applyChanges spare labels cs st = Some st' \<and> apply_inv labels st' \<and>
    merged_abs st' = fold spec_change cs (merged_abs st)"
  using assms
proof (induction cs arbitrary: st)
  case (Cons c cs)
  from applyChange_refines [OF Cons.prems, of spare c] obtain st1
    where 1: "applyChange spare labels c st = Some st1" "apply_inv labels st1"
      "merged_abs st1 = spec_change c (merged_abs st)" by blast
  from Cons.IH [OF 1(2)] 1(1,3) show ?case by auto
qed simp

lemma apply_inv_init:
  assumes "labels_wf h labels"
  shows "apply_inv labels \<lparr>hp = h, mergedLabels = labels, labelsToAdd = Map.empty, labelsToRemove = Map.empty\<rparr>"
proof -
  have "foreign (labels(k := None)) s" if "labels k = Some s" for k s
  proof (rule foreignI)
    fix k' s' a
    assume "(labels(k := None)) k' = Some s'" "slice_arr s = Some a" "slice_arr s' = Some a"
    with that labels_wf_inj [OF assms that, of k' s' a] show False by (simp split: if_splits)
  qed
  with assms show ?thesis by (auto simp: apply_inv_def labels_wf_ok)
qed

subsection \<open>Properties\<close>


text \<open>An example heap: one label \<open>k\<close> with the given values in an array of exactly their length.\<close>

definition one_label_heap :: "string list \<Rightarrow> heap" where
  "one_label_heap xs = \<lparr>arrays = (\<lambda>a. if a = 0 then xs else []), next_arr = 1\<rparr>"

definition one_label :: "string list \<Rightarrow> labels" where
  "one_label xs = [''k'' \<mapsto> Slice 0 (length xs)]"

lemma one_label_wf: "distinct xs \<Longrightarrow> labels_wf (one_label_heap xs) (one_label xs)"
  by (simp add: labels_wf_def one_label_def one_label_heap_def)


definition remove_a :: "string \<Rightarrow> LabelChange list" where
  "remove_a a = [\<lparr>lc_Operation = RemoveLabelValuesOperation, lc_Key = ''k'', lc_Values = [a]\<rparr>]"



end
