(* ===== verification/Query.thy ===== *)
theory Query
  imports Errors "HOL-Library.Char_ord" "HOL-Library.List_Lexorder" "HOL-Library.Multiset"
begin

text \<open>
  Query criteria: the operators (\<open>src/pkg/query/operators.go\<close>), the criteria with their
  validation and the criteria a request context carries (\<open>src/pkg/query/selection.go\<close>), and
  the listener that builds criteria from a parsed query expression
  (\<open>src/pkg/query/listener.go\<close>).

  The lexer and the parser are generated by ANTLR and run on its runtime library, which is not
  part of the sources.  They are a parameter: the sequence of callbacks they make on the
  listener for an expression.  \<open>strconv.ParseFloat\<close> and \<open>time.Parse\<close> enter the validation only
  through the question whether they accept a string; the record \<open>go_parsers\<close> holds these two
  answers and the text of the error of \<open>strconv.Atoi\<close>.  Go's \<open><\<close> on strings is the
  lexicographic order on bytes, the order on \<open>string\<close> here.
\<close>

subsection \<open>Operators\<close>

datatype OperatorType = UnivariateOperator | MultivariateOperator

datatype Operator =
    EqualsOperator | NotEqualsOperator | GreaterThanOperator | GreaterThanOrEqualOperator
  | ContainsOperator | LessThanOperator | LessThanOrEqualOperator | InOperator
  | InSubqueryOperator | NotInOperator | NotExistsSubquery | ExistsSubquery
  | EqualsOrNilOperator | NoOperator

primrec Operator_String :: "Operator \<Rightarrow> string" where
  "Operator_String EqualsOperator = ''eq''"
| "Operator_String NotEqualsOperator = ''ne''"
| "Operator_String GreaterThanOperator = ''gt''"
| "Operator_String GreaterThanOrEqualOperator = ''ge''"
| "Operator_String ContainsOperator = ''contains''"
| "Operator_String LessThanOperator = ''lt''"
| "Operator_String LessThanOrEqualOperator = ''le''"
| "Operator_String InOperator = ''in''"
| "Operator_String InSubqueryOperator = ''inSubquery''"
| "Operator_String NotInOperator = ''notin''"
| "Operator_String NotExistsSubquery = ''notexists''"
| "Operator_String ExistsSubquery = ''exists''"
| "Operator_String EqualsOrNilOperator = ''en''"
| "Operator_String NoOperator = ''nop''"

primrec Operator_Type :: "Operator \<Rightarrow> OperatorType" where
  "Operator_Type EqualsOperator = UnivariateOperator"
| "Operator_Type NotEqualsOperator = UnivariateOperator"
| "Operator_Type GreaterThanOperator = UnivariateOperator"
| "Operator_Type LessThanOperator = UnivariateOperator"
| "Operator_Type InOperator = MultivariateOperator"
| "Operator_Type NotInOperator = MultivariateOperator"
| "Operator_Type ContainsOperator = UnivariateOperator"
| "Operator_Type InSubqueryOperator = UnivariateOperator"
| "Operator_Type ExistsSubquery = UnivariateOperator"
| "Operator_Type NotExistsSubquery = UnivariateOperator"
| "Operator_Type EqualsOrNilOperator = UnivariateOperator"
| "Operator_Type GreaterThanOrEqualOperator = UnivariateOperator"
| "Operator_Type LessThanOrEqualOperator = UnivariateOperator"
| "Operator_Type NoOperator = MultivariateOperator"

definition Operator_IsNullable :: "Operator \<Rightarrow> bool" where
  "Operator_IsNullable op = (op = EqualsOrNilOperator)"

definition Operator_IsNumeric :: "Operator \<Rightarrow> bool" where
  "Operator_IsNumeric op =
     (case op of
        GreaterThanOperator \<Rightarrow> True | LessThanOperator \<Rightarrow> True
      | GreaterThanOrEqualOperator \<Rightarrow> True | LessThanOrEqualOperator \<Rightarrow> True
      | _ \<Rightarrow> False)"

text \<open>The operators a query expression may name.\<close>

definition Operators :: "Operator list" where
  "Operators =
     [EqualsOperator, NotEqualsOperator,
      GreaterThanOperator, LessThanOperator,
      GreaterThanOrEqualOperator, LessThanOrEqualOperator,
      InOperator, NotInOperator, EqualsOrNilOperator, ContainsOperator]"

subsection \<open>Criteria\<close>

datatype CriterionType = FieldQuery | LabelQuery | ResultQuery | ExistQuery | Subquery

primrec CriterionType_String :: "CriterionType \<Rightarrow> string" where
  "CriterionType_String FieldQuery = ''fieldQuery''"
| "CriterionType_String LabelQuery = ''labelQuery''"
| "CriterionType_String ResultQuery = ''resultQuery''"
| "CriterionType_String ExistQuery = ''existQuery''"
| "CriterionType_String Subquery = ''subQuery''"

definition Separator :: string where "Separator = ''and''"
definition OrderBy :: string where "OrderBy = ''orderBy''"
definition Limit :: string where "Limit = ''limit''"

datatype OrderType = AscOrder | DescOrder

primrec OrderType_String :: "OrderType \<Rightarrow> string" where
  "OrderType_String AscOrder = ''ASC''"
| "OrderType_String DescOrder = ''DESC''"

record Criterion =
  LeftOp :: string
  COperator :: Operator
  RightOp :: "string list"
  CType :: CriterionType

definition NewCriterion :: "string \<Rightarrow> Operator \<Rightarrow> string list \<Rightarrow> CriterionType \<Rightarrow> Criterion" where
  "NewCriterion leftOp operator rightOp criteriaType =
     \<lparr>LeftOp = leftOp, COperator = operator, RightOp = rightOp, CType = criteriaType\<rparr>"

definition ByField :: "Operator \<Rightarrow> string \<Rightarrow> string list \<Rightarrow> Criterion" where
  "ByField operator leftOp rightOp = NewCriterion leftOp operator rightOp FieldQuery"

definition ByNotExists :: "string \<Rightarrow> Criterion" where
  "ByNotExists subQuery = NewCriterion '''' NotExistsSubquery [subQuery] ExistQuery"

definition ByExists :: "string \<Rightarrow> Criterion" where
  "ByExists subQuery = NewCriterion '''' ExistsSubquery [subQuery] ExistQuery"

definition BySubquery :: "Operator \<Rightarrow> string \<Rightarrow> string \<Rightarrow> Criterion" where
  "BySubquery operator leftOp subQuery = NewCriterion leftOp operator [subQuery] Subquery"

definition ByLabel :: "Operator \<Rightarrow> string \<Rightarrow> string list \<Rightarrow> Criterion" where
  "ByLabel operator leftOp rightOp = NewCriterion leftOp operator rightOp LabelQuery"

definition OrderResultBy :: "string \<Rightarrow> OrderType \<Rightarrow> Criterion" where
  "OrderResultBy field orderType =
     NewCriterion OrderBy NoOperator [field, OrderType_String orderType] ResultQuery"

definition LimitResultBy :: "int \<Rightarrow> Criterion" where
  "LimitResultBy limit = NewCriterion Limit NoOperator [strconv_Itoa limit] ResultQuery"

subsection \<open>Validation\<close>

record go_parsers =
  ParseFloat_ok :: "string \<Rightarrow> bool"
  RFC3339_ok :: "string \<Rightarrow> bool"
  Atoi_error :: "string \<Rightarrow> string"

definition isNumeric :: "go_parsers \<Rightarrow> string \<Rightarrow> bool" where
  "isNumeric gp str = (strconv_Atoi str \<noteq> None \<or> ParseFloat_ok gp str)"

definition isDateTime :: "go_parsers \<Rightarrow> string \<Rightarrow> bool" where
  "isDateTime gp str = RFC3339_ok gp str"

text \<open>The four tests for the separator in a left operand.\<close>

definition separator_in :: "string \<Rightarrow> bool" where
  "separator_in leftOp =
     (strings_Contains leftOp ('' '' @ Separator @ '' '') \<or>
      strings_Contains leftOp (Separator @ '' '') \<or>
      strings_Contains leftOp ('' '' @ Separator) \<or>
      leftOp = Separator)"

definition newline_check :: "Criterion \<Rightarrow> string \<Rightarrow> (error, unit) result" where
  "newline_check c op =
     (if strings_ContainsRune op CHR 0x0A \<and> CType c \<noteq> ExistQuery \<and> CType c \<noteq> Subquery then
        Inl (UnsupportedQueryError (CriterionType_String (CType c) @ '' with key '' @ dq @ LeftOp c @ dq
          @ '' has value '' @ dq @ op @ dq @ '' contaning forbidden new line character''))
      else Inr ())"

definition Validate :: "go_parsers \<Rightarrow> Criterion \<Rightarrow> (error, unit) result" where
  "Validate gp c =
     (if length (RightOp c) = 0 then Inl (ErrorString ''missing right operand'')
      else if CType c = ResultQuery then
        (let check_order =
           (if LeftOp c = OrderBy \<and> length (RightOp c) < 2 then
              Inl (UnsupportedQueryError ''order by result expects field name and order type'')
            else Inr ())
         in if LeftOp c = Limit then
              (case strconv_Atoi (RightOp c ! 0) of
                 None \<Rightarrow> Inl (ErrorString (''could not convert string to int: '' @ Atoi_error gp (RightOp c ! 0)))
               | Some limit \<Rightarrow>
                   (if limit < 0 then
                      Inl (UnsupportedQueryError (''limit ('' @ strconv_Itoa limit
                        @ '') is invalid. Limit should be positive number''))
                    else check_order))
            else check_order)
      else if length (RightOp c) > 1 \<and> Operator_Type (COperator c) = UnivariateOperator then
        Inl (UnsupportedQueryError (''multiple values '' @ fmt_strings (RightOp c)
          @ '' received for single value operation '' @ Operator_String (COperator c)))
      else if Operator_IsNullable (COperator c) \<and> CType c \<noteq> FieldQuery then
        Inl (UnsupportedQueryError ''nullable operations are supported only for field queries'')
      else if Operator_IsNumeric (COperator c) \<and> \<not> isNumeric gp (RightOp c ! 0)
              \<and> \<not> isDateTime gp (RightOp c ! 0) then
        Inl (UnsupportedQueryError (Operator_String (COperator c)
          @ '' is numeric operator, but the right operand '' @ RightOp c ! 0
          @ '' is not numeric or datetime''))
      else if separator_in (LeftOp c) then
        Inl (UnsupportedQueryError (''separator '' @ Separator @ '' is not allowed in ''
          @ CriterionType_String (CType c) @ '' with left operand '' @ dq @ LeftOp c @ dq @ ''.''))
      else check_all (newline_check c) (RightOp c))"

text \<open>The loop of \<open>validateWholeCriteria\<close>, with its flag \<open>isLimited\<close>.\<close>

fun validateWholeCriteria_from :: "bool \<Rightarrow> Criterion list \<Rightarrow> (error, unit) result" where
  "validateWholeCriteria_from isLimited [] = Inr ()"
| "validateWholeCriteria_from isLimited (criterion # criteria) =
     (if LeftOp criterion = Limit then
        (if isLimited then Inl (ErrorString ''zero/one limit criterion expected but multiple provided'')
         else validateWholeCriteria_from True criteria)
      else validateWholeCriteria_from isLimited criteria)"

definition validateWholeCriteria :: "Criterion list \<Rightarrow> (error, unit) result" where
  "validateWholeCriteria criteria = validateWholeCriteria_from False criteria"

text \<open>\<open>labelQueryLeftOperands\<close>: how often a key is the left operand of a label query.\<close>

definition labelQueryLeftOperands :: "Criterion list \<Rightarrow> string \<Rightarrow> nat" where
  "labelQueryLeftOperands criteria k =
     length (filter (\<lambda>c. CType c = LabelQuery \<and> LeftOp c = k) criteria)"

definition validateCriteria :: "go_parsers \<Rightarrow> Criterion list \<Rightarrow> (error, unit) result" where
  "validateCriteria gp criteria =
     try_then
       (check_all (\<lambda>c.
          if labelQueryLeftOperands criteria (LeftOp c) > 1 \<and> CType c = LabelQuery then
            Inl (UnsupportedQueryError (''duplicate label query key: '' @ LeftOp c))
          else Validate gp c) criteria)
       (\<lambda>_. validateWholeCriteria criteria)"

subsection \<open>Criteria of a request context\<close>

text \<open>The value a context holds under \<open>criteriaCtxKey\<close>; \<open>None\<close> when it holds none.\<close>

type_synonym ctx_criteria = "Criterion list option"

definition CriteriaForContext :: "ctx_criteria \<Rightarrow> Criterion list" where
  "CriteriaForContext ctx = (case ctx of None \<Rightarrow> [] | Some cs \<Rightarrow> cs)"

definition AddCriteria :: "go_parsers \<Rightarrow> ctx_criteria \<Rightarrow> Criterion list \<Rightarrow> (error, ctx_criteria) result" where
  "AddCriteria gp ctx newCriteria =
     (let criteria = CriteriaForContext ctx @ newCriteria
      in try_then (validateCriteria gp criteria) (\<lambda>_. Inr (Some criteria)))"

definition ContextWithCriteria :: "go_parsers \<Rightarrow> ctx_criteria \<Rightarrow> Criterion list \<Rightarrow> (error, ctx_criteria) result" where
  "ContextWithCriteria gp ctx criteria =
     try_then (validateCriteria gp criteria) (\<lambda>_. Inr (Some criteria))"

text \<open>
  \<open>None\<close> is the panic of \<open>criterion.RightOp[0]\<close> on a criterion without right operand.
\<close>

fun RetrieveFromCriteria :: "string \<Rightarrow> Criterion list \<Rightarrow> string option" where
  "RetrieveFromCriteria key [] = Some ''''"
| "RetrieveFromCriteria key (criterion # criteria) =
     (if LeftOp criterion = key then
        (case RightOp criterion of [] \<Rightarrow> None | v # _ \<Rightarrow> Some v)
      else RetrieveFromCriteria key criteria)"

subsection \<open>The listener\<close>

text \<open>
  The callbacks the parser and the tree walker make, with the texts of the terminal nodes the
  listener reads.  Syntax errors are reported while the expression is parsed, before the walk.
\<close>

datatype walk_event =
    ExitUnivariate string string string
  | ExitManyValues string
  | ExitMultivariate string string
  | SyntaxError nat string

text \<open>\<open>rightOp\<close> is a slice that may be nil, which \<open>ExitMultivariate\<close> tests.\<close>

record queryListener =
  l_err :: "error option"
  l_leftOp :: string
  l_rightOp :: "string list option"
  l_op :: string
  l_criteriaType :: CriterionType
  l_result :: "Criterion list"

text \<open>The text of a value node: doubled quotes are single ones, enclosing quotes are cut.\<close>

definition value_text :: "string \<Rightarrow> string" where
  "value_text right = strings_Trim (strings_ReplacePair CHR 0x27 right) CHR 0x27"

definition findOpByString :: "string \<Rightarrow> (error, Operator) result" where
  "findOpByString op =
     (case find (\<lambda>operator. Operator_String operator = op) Operators of
        Some operator \<Rightarrow> Inr operator
      | None \<Rightarrow> Inl (ErrorString (''provided operator '' @ op @ '' is not supported'')))"

definition storeCriterion :: "go_parsers \<Rightarrow> queryListener \<Rightarrow> queryListener" where
  "storeCriterion gp s =
     (case findOpByString (l_op s) of
        Inl err \<Rightarrow> s\<lparr>l_err := Some err\<rparr>
      | Inr operator \<Rightarrow>
          (let rightOp = (case l_rightOp s of None \<Rightarrow> [] | Some r \<Rightarrow> r);
               criterion = NewCriterion (l_leftOp s) operator rightOp (l_criteriaType s)
           in case Validate gp criterion of
                Inl err \<Rightarrow> s\<lparr>l_err := Some err\<rparr>
              | Inr _ \<Rightarrow> s\<lparr>l_result := l_result s @ [criterion], l_rightOp := Some [], l_err := None\<rparr>))"

fun listen :: "go_parsers \<Rightarrow> walk_event \<Rightarrow> queryListener \<Rightarrow> queryListener" where
  "listen gp (ExitUnivariate key op right) s =
     (if l_err s \<noteq> None then s
      else storeCriterion gp (s\<lparr>l_leftOp := key, l_op := op, l_rightOp := Some [value_text right]\<rparr>))"
| "listen gp (ExitManyValues right) s =
     (if l_err s \<noteq> None then s
      else s\<lparr>l_rightOp := Some ((case l_rightOp s of None \<Rightarrow> [] | Some r \<Rightarrow> r) @ [value_text right])\<rparr>)"
| "listen gp (ExitMultivariate key op) s =
     (if l_err s \<noteq> None then s
      else storeCriterion gp (s\<lparr>l_leftOp := key, l_op := op,
             l_rightOp := (if l_rightOp s = None then Some [''''] else l_rightOp s)\<rparr>))"
| "listen gp (SyntaxError column msg) s =
     s\<lparr>l_err := Some (UnsupportedQueryError (''error while parsing ''
          @ CriterionType_String (l_criteriaType s) @ '' at column '' @ strconv_Itoa (int column)
          @ '': '' @ msg))\<rparr>"

definition new_listener :: "CriterionType \<Rightarrow> queryListener" where
  "new_listener t = \<lparr>l_err = None, l_leftOp = '''', l_rightOp = None, l_op = '''',
     l_criteriaType = t, l_result = []\<rparr>"

text \<open>
  \<open>Parse\<close>.  The parameter \<open>walk\<close> stands for the generated parser and the tree walker.
  \<open>sort.Slice\<close> sorts by the left operand; among equal left operands Go leaves the order open
  and the model keeps the order of the expression.
\<close>

definition Parse ::
  "go_parsers \<Rightarrow> (string \<Rightarrow> walk_event list) \<Rightarrow> CriterionType \<Rightarrow> string \<Rightarrow> (error, Criterion list) result" where
  "Parse gp walk criterionType expression =
     (if expression = '''' then Inr []
      else
        (let s = fold (listen gp) (walk expression) (new_listener criterionType)
         in case l_err s of
              Some err \<Rightarrow> Inl err
            | None \<Rightarrow>
                try_then (validateCriteria gp (l_result s))
                  (\<lambda>_. Inr (sort_key LeftOp (l_result s)))))"

subsection \<open>Lemmas on validation\<close>

lemma Validate_Inr_iff:
  "Validate gp c = Inr () \<longleftrightarrow>
     RightOp c \<noteq> [] \<and>
     (if CType c = ResultQuery then
        (LeftOp c = Limit \<longrightarrow> (\<exists>n\<ge>0. strconv_Atoi (hd (RightOp c)) = Some n)) \<and>
        (LeftOp c = OrderBy \<longrightarrow> length (RightOp c) \<ge> 2)
      else
        (Operator_Type (COperator c) = UnivariateOperator \<longrightarrow> length (RightOp c) = 1) \<and>
        (Operator_IsNullable (COperator c) \<longrightarrow> CType c = FieldQuery) \<and>
        (Operator_IsNumeric (COperator c) \<longrightarrow>
           isNumeric gp (hd (RightOp c)) \<or> isDateTime gp (hd (RightOp c))) \<and>
        \<not> separator_in (LeftOp c) \<and>
        (CType c \<noteq> ExistQuery \<longrightarrow> CType c \<noteq> Subquery \<longrightarrow> (\<forall>v\<in>set (RightOp c). CHR 0x0A \<notin> set v)))"
proof (cases "RightOp c")
  case Nil
  then show ?thesis by (simp add: Validate_def)
next
  case (Cons r rs)
  show ?thesis
  proof (cases "CType c = ResultQuery")
    case True
    have "Limit \<noteq> OrderBy" by (simp add: Limit_def OrderBy_def)
    with True Cons show ?thesis
      by (auto simp: Validate_def Let_def Suc_le_eq split: option.splits)
  next
    case False
    have nl: "check_all (newline_check c) (RightOp c) = Inr () \<longleftrightarrow>
      (CType c \<noteq> ExistQuery \<longrightarrow> CType c \<noteq> Subquery \<longrightarrow> (\<forall>v\<in>set (RightOp c). CHR 0x0A \<notin> set v))"
      by (auto simp: check_all_Inr_iff newline_check_def go_defs)
    from Cons have one: "length (RightOp c) > 1 \<longleftrightarrow> length (RightOp c) \<noteq> 1" by simp
    from False Cons nl one show ?thesis by (auto simp: Validate_def)
  qed
qed

lemma validateWholeCriteria_from_Inr_iff:
  "validateWholeCriteria_from b cs = Inr () \<longleftrightarrow>
     length (filter (\<lambda>c. LeftOp c = Limit) cs) \<le> (if b then 0 else 1)"
  by (induction b cs rule: validateWholeCriteria_from.induct) auto

lemma validateWholeCriteria_Inr_iff:
  "validateWholeCriteria cs = Inr () \<longleftrightarrow> length (filter (\<lambda>c. LeftOp c = Limit) cs) \<le> 1"
  by (simp add: validateWholeCriteria_def validateWholeCriteria_from_Inr_iff)

text \<open>The label queries of a list have pairwise different keys.\<close>

definition label_keys :: "Criterion list \<Rightarrow> string list" where
  "label_keys cs = map LeftOp (filter (\<lambda>c. CType c = LabelQuery) cs)"

lemma labelQueryLeftOperands_count: "labelQueryLeftOperands cs k = count_list (label_keys cs) k"
  by (induction cs) (auto simp: labelQueryLeftOperands_def label_keys_def)

lemma distinct_iff_count_list: "distinct xs \<longleftrightarrow> (\<forall>x\<in>set xs. count_list xs x \<le> 1)"
proof (induction xs)
  case (Cons a xs)
  have "count_list xs a = 0 \<longleftrightarrow> a \<notin> set xs" by (simp add: count_list_0_iff)
  with Cons show ?case by (auto simp: le_Suc_eq)
qed simp

lemma validateCriteria_Inr_iff:
  "validateCriteria gp cs = Inr () \<longleftrightarrow>
     distinct (label_keys cs) \<and> (\<forall>c\<in>set cs. Validate gp c = Inr ()) \<and>
     length (filter (\<lambda>c. LeftOp c = Limit) cs) \<le> 1"
proof -
  have "(\<forall>c\<in>set cs. CType c = LabelQuery \<longrightarrow> labelQueryLeftOperands cs (LeftOp c) \<le> 1) \<longleftrightarrow>
    distinct (label_keys cs)"
    unfolding distinct_iff_count_list labelQueryLeftOperands_count by (auto simp: label_keys_def)
  then show ?thesis
    unfolding validateCriteria_def
    by (auto simp: try_then_Inr_iff check_all_Inr_iff validateWholeCriteria_Inr_iff not_less)
qed

lemma validateCriteria_mset:
  assumes "mset cs = mset ds"
  shows "validateCriteria gp cs = Inr () \<longleftrightarrow> validateCriteria gp ds = Inr ()"
proof -
  have "mset (label_keys cs) = mset (label_keys ds)"
    unfolding label_keys_def by (simp add: assms)
  then have "distinct (label_keys cs) \<longleftrightarrow> distinct (label_keys ds)"
    by (metis mset_eq_imp_distinct_iff)
  moreover have "length (filter P cs) = length (filter P ds)" for P
    using assms by (metis mset_filter size_mset)
  moreover have "set cs = set ds" using assms by (rule mset_eq_setD)
  ultimately show ?thesis by (simp add: validateCriteria_Inr_iff)
qed

subsection \<open>Lemmas on the listener\<close>

lemma findOpByString_Inr: "findOpByString op = Inr oper \<Longrightarrow> oper \<in> set Operators \<and> Operator_String oper = op"
  by (auto simp: findOpByString_def find_Some_iff split: option.splits)

text \<open>What holds of every criterion the listener has stored.\<close>

definition parsed_ok :: "go_parsers \<Rightarrow> CriterionType \<Rightarrow> Criterion \<Rightarrow> bool" where
  "parsed_ok gp t c = (CType c = t \<and> COperator c \<in> set Operators \<and> Validate gp c = Inr ())"

definition listener_inv :: "go_parsers \<Rightarrow> CriterionType \<Rightarrow> queryListener \<Rightarrow> bool" where
  "listener_inv gp t s = (l_criteriaType s = t \<and> list_all (parsed_ok gp t) (l_result s))"

lemma storeCriterion_inv: "listener_inv gp t s \<Longrightarrow> listener_inv gp t (storeCriterion gp s)"
  by (auto simp: listener_inv_def storeCriterion_def parsed_ok_def NewCriterion_def Let_def
      dest: findOpByString_Inr split: sum.splits option.splits)

lemma listener_inv_frame [simp]:
  "listener_inv gp t (s\<lparr>l_leftOp := a\<rparr>) = listener_inv gp t s"
  "listener_inv gp t (s\<lparr>l_op := b\<rparr>) = listener_inv gp t s"
  "listener_inv gp t (s\<lparr>l_rightOp := c\<rparr>) = listener_inv gp t s"
  "listener_inv gp t (s\<lparr>l_err := d\<rparr>) = listener_inv gp t s"
  by (simp_all add: listener_inv_def)

lemma listen_inv: "listener_inv gp t s \<Longrightarrow> listener_inv gp t (listen gp e s)"
  by (cases e) (simp_all add: storeCriterion_inv)

lemma listen_all_inv: "listener_inv gp t s \<Longrightarrow> listener_inv gp t (fold (listen gp) es s)"
  by (induction es arbitrary: s) (auto intro: listen_inv)

lemma new_listener_inv: "listener_inv gp t (new_listener t)"
  by (simp add: listener_inv_def new_listener_def)

text \<open>Once the listener has an error it keeps one, and stores nothing more.\<close>

lemma listen_error: "l_err s \<noteq> None \<Longrightarrow> l_err (listen gp e s) \<noteq> None \<and> l_result (listen gp e s) = l_result s"
  by (cases e) auto

lemma listen_all_error: "l_err s \<noteq> None \<Longrightarrow> l_err (fold (listen gp) es s) \<noteq> None"
proof (induction es arbitrary: s)
  case (Cons e es)
  from Cons.IH [of "listen gp e s"] listen_error [OF Cons.prems, of gp e] show ?case by simp
qed simp

lemma Parse_Inr:
  assumes "Parse gp walk t e = Inr cs"
  shows "sorted (map LeftOp cs)" and "validateCriteria gp cs = Inr ()" and "list_all (parsed_ok gp t) cs"
proof -
  let ?s = "fold (listen gp) (walk e) (new_listener t)"
  have "sorted (map LeftOp cs) \<and> validateCriteria gp cs = Inr () \<and> list_all (parsed_ok gp t) cs"
  proof (cases "e = ''''")
    case True
    with assms have "cs = []" by (simp add: Parse_def)
    then show ?thesis by (simp add: validateCriteria_Inr_iff label_keys_def)
  next
    case False
    with assms have v: "validateCriteria gp (l_result ?s) = Inr ()" and cs: "cs = sort_key LeftOp (l_result ?s)"
      by (auto simp: Parse_def Let_def try_then_Inr_iff split: option.splits)
    from listen_all_inv [OF new_listener_inv] have "list_all (parsed_ok gp t) (l_result ?s)"
      by (simp add: listener_inv_def)
    with cs have "list_all (parsed_ok gp t) cs" by (simp add: list_all_iff)
    moreover from v cs have "validateCriteria gp cs = Inr ()"
      using validateCriteria_mset [of cs "l_result ?s" gp] by simp
    ultimately show ?thesis using cs by simp
  qed
  then show "sorted (map LeftOp cs)" "validateCriteria gp cs = Inr ()" "list_all (parsed_ok gp t) cs"
    by simp_all
qed

text \<open>A value as the grammar writes it: between quotes, with every quote in it doubled.\<close>

definition quote_value :: "string \<Rightarrow> string" where
  "quote_value v = CHR 0x27 # concat (map (\<lambda>c. if c = CHR 0x27 then [c, c] else [c]) v) @ [CHR 0x27]"

abbreviation esc :: "char \<Rightarrow> string \<Rightarrow> string" where
  "esc q v \<equiv> concat (map (\<lambda>c. if c = q then [c, c] else [c]) v)"

lemma ReplacePair_esc: "strings_ReplacePair q (esc q v @ [q]) = v @ [q]"
proof (induction v)
  case (Cons x v)
  show ?case
  proof (cases "x = q")
    case True
    with Cons show ?thesis by simp
  next
    case False
    obtain y s where ys: "esc q v @ [q] = y # s" by (cases "esc q v @ [q]") auto
    from False have "strings_ReplacePair q (esc q (x # v) @ [q]) = strings_ReplacePair q (x # y # s)"
      using ys by simp
    also have "\<dots> = x # strings_ReplacePair q (y # s)" using False by simp
    also have "\<dots> = x # v @ [q]" using Cons.IH ys by simp
    finally show ?thesis by simp
  qed
qed simp

lemma ReplacePair_quoted:
  assumes "x \<noteq> q"
  shows "strings_ReplacePair q (q # esc q (x # v) @ [q]) = q # x # v @ [q]"
  using ReplacePair_esc [of q "x # v"] assms by simp

lemma strings_Trim_ends:
  "strings_Trim s c = r \<Longrightarrow> r = [] \<or> hd r \<noteq> c \<and> last r \<noteq> c"
proof -
  assume r: "strings_Trim s c = r"
  define u where "u = dropWhile (\<lambda>x. x = c) s"
  define w where "w = dropWhile (\<lambda>x. x = c) (rev u)"
  from r have r': "r = rev w" by (simp add: strings_Trim_def u_def w_def)
  show "r = [] \<or> hd r \<noteq> c \<and> last r \<noteq> c"
  proof (cases "w = []")
    case True
    with r' show ?thesis by simp
  next
    case False
    then have hw: "hd w \<noteq> c" unfolding w_def by (rule hd_dropWhile)
    have "suffix w (rev u)" unfolding w_def by (rule suffix_dropWhile)
    then have "prefix (rev w) u" by (metis rev_rev_ident suffix_to_prefix)
    with False have "hd (rev w) = hd u" "u \<noteq> []" by (auto simp: prefix_def)
    moreover have "hd u \<noteq> c" if "u \<noteq> []" using hd_dropWhile [of "\<lambda>x. x = c" s] that by (simp add: u_def)
    ultimately show ?thesis using r' hw False by (simp add: last_rev)
  qed
qed

lemma strings_Trim_quoted:
  assumes "hd v \<noteq> q" and "last v \<noteq> q" and "v \<noteq> []"
  shows "strings_Trim (q # v @ [q]) q = v"
proof -
  obtain x xs where v: "v = x # xs" using assms(3) by (cases v) auto
  obtain ys y where v': "v = ys @ [y]" using assms(3) by (cases v rule: rev_cases) auto
  from v assms(1) have "dropWhile (\<lambda>x. x = q) (q # v @ [q]) = v @ [q]" by simp
  moreover from v' assms(2) have "dropWhile (\<lambda>x. x = q) (rev (v @ [q])) = rev v" by simp
  ultimately show ?thesis by (simp add: strings_Trim_def)
qed

subsection \<open>Properties\<close>

text \<open>
  Validation of a list of criteria accepts exactly the lists in which the label queries
  have pairwise different keys, every criterion is valid on its own, and at most one criterion
  has the left operand \<open>limit\<close>, whatever its type: a field or label named like that counts too.
\<close>

theorem validateCriteria_accepts:
  "validateCriteria gp cs = Inr () \<longleftrightarrow>
     distinct (label_keys cs) \<and> list_all (\<lambda>c. Validate gp c = Inr ()) cs \<and>
     length (filter (\<lambda>c. LeftOp c = Limit) cs) \<le> 1"
  by (simp add: validateCriteria_Inr_iff list_all_iff)

text \<open>
  The contexts that calls of \<open>AddCriteria\<close> and \<open>ContextWithCriteria\<close> can make from a context
  without criteria.
\<close>

inductive ctx_reachable :: "go_parsers \<Rightarrow> ctx_criteria \<Rightarrow> bool" for gp where
  ctx_start: "ctx_reachable gp None"
| ctx_add: "ctx_reachable gp ctx \<Longrightarrow> AddCriteria gp ctx new = Inr ctx' \<Longrightarrow> ctx_reachable gp ctx'"
| ctx_with: "ctx_reachable gp ctx \<Longrightarrow> ContextWithCriteria gp ctx cs = Inr ctx' \<Longrightarrow> ctx_reachable gp ctx'"

lemma ctx_reachable_valid: "ctx_reachable gp ctx \<Longrightarrow> validateCriteria gp (CriteriaForContext ctx) = Inr ()"
proof (induction rule: ctx_reachable.induct)
  case ctx_start
  then show ?case by (simp add: CriteriaForContext_def validateCriteria_Inr_iff label_keys_def)
next
  case (ctx_add ctx new ctx')
  then show ?case
    by (auto simp: AddCriteria_def CriteriaForContext_def Let_def try_then_Inr_iff)
next
  case (ctx_with ctx cs ctx')
  then show ?case
    by (auto simp: ContextWithCriteria_def CriteriaForContext_def try_then_Inr_iff)
qed

lemma RetrieveFromCriteria_total:
  "\<forall>c\<in>set cs. RightOp c \<noteq> [] \<Longrightarrow> RetrieveFromCriteria key cs \<noteq> None"
  by (induction cs) (auto split: list.splits)

text \<open>
  Whatever sequence of calls built it, the criteria of a request context are valid as a
  whole, so reading the value of a key from them never indexes an empty right operand.
\<close>

theorem ctx_criteria_valid:
  assumes "ctx_reachable gp ctx"
  shows "validateCriteria gp (CriteriaForContext ctx) = Inr () \<and>
    RetrieveFromCriteria key (CriteriaForContext ctx) \<noteq> None"
proof -
  from ctx_reachable_valid [OF assms] have v: "validateCriteria gp (CriteriaForContext ctx) = Inr ()" .
  then have "\<forall>c\<in>set (CriteriaForContext ctx). RightOp c \<noteq> []"
    by (simp add: validateCriteria_Inr_iff Validate_Inr_iff)
  with v RetrieveFromCriteria_total show ?thesis by blast
qed

definition no_parsers :: go_parsers where
  "no_parsers = \<lparr>ParseFloat_ok = (\<lambda>_. False), RFC3339_ok = (\<lambda>_. False), Atoi_error = (\<lambda>_. '''')\<rparr>"

theorem ctx_criteria_valid_witness:
  "ctx_reachable no_parsers (Some [ByField EqualsOperator ''id'' [''x'']]) \<and>
   RetrieveFromCriteria ''id'' (CriteriaForContext (Some [ByField EqualsOperator ''id'' [''x'']])) \<noteq> None"
proof -
  let ?c = "ByField EqualsOperator ''id'' [''x'']"
  have "Validate no_parsers ?c = Inr ()"
    by (simp add: Validate_Inr_iff ByField_def NewCriterion_def Operator_IsNullable_def
        Operator_IsNumeric_def separator_in_def Separator_def)
  then have "AddCriteria no_parsers None [?c] = Inr (Some [?c])"
    by (simp add: AddCriteria_def CriteriaForContext_def try_then_Inr_iff validateCriteria_Inr_iff
        label_keys_def Let_def)
  then have r: "ctx_reachable no_parsers (Some [?c])"
    by (rule ctx_add [OF ctx_start])
  from ctx_criteria_valid [OF r, of "''id''"] r show ?thesis by simp
qed

text \<open>
  C23.  The criteria \<open>Parse\<close> returns, for every parser: they are sorted by their left operand,
  valid as a whole, of the requested type, and their operators are among the ten public ones.
  So no query expression of a client yields a sub-query or an exists criterion, whose right
  operand would go into the SQL text as it is.
\<close>

theorem Parse_sound:
  assumes "Parse gp walk t e = Inr cs"
  shows "sorted (map LeftOp cs) \<and> validateCriteria gp cs = Inr () \<and>
    list_all (\<lambda>c. CType c = t \<and>
      COperator c \<notin> {InSubqueryOperator, ExistsSubquery, NotExistsSubquery, NoOperator}) cs"
proof -
  from Parse_Inr(3) [OF assms] have "list_all (\<lambda>c. CType c = t \<and>
      COperator c \<notin> {InSubqueryOperator, ExistsSubquery, NotExistsSubquery, NoOperator}) cs"
    by (rule list.pred_mono_strong) (auto simp: parsed_ok_def Operators_def)
  with Parse_Inr(1,2) [OF assms] show ?thesis by simp
qed

text \<open>A parser for one expression, to evaluate \<open>Parse\<close> on: \<open>name eq 'b' and id in ('x')\<close>.\<close>

definition example_walk :: "string \<Rightarrow> walk_event list" where
  "example_walk e =
     [ExitUnivariate ''name'' ''eq'' (quote_value ''b''), ExitManyValues (quote_value ''x''),
      ExitMultivariate ''id'' ''in'']"

lemmas parse_eval = Parse_def new_listener_def storeCriterion_def findOpByString_def
  Operators_def NewCriterion_def Validate_def Operator_IsNullable_def Operator_IsNumeric_def
  separator_in_def Separator_def newline_check_def strings_ContainsRune_def value_text_def
  quote_value_def strings_Trim_def Let_def

theorem Parse_sound_witness:
  "\<exists>cs. Parse no_parsers example_walk FieldQuery ''q'' = Inr cs \<and> map LeftOp cs = [''id'', ''name''] \<and>
     sorted (map LeftOp cs)"
proof -
  have v: "validateCriteria no_parsers
      [NewCriterion ''name'' EqualsOperator [''b''] FieldQuery, NewCriterion ''id'' InOperator [''x''] FieldQuery] = Inr ()"
    by (simp add: validateCriteria_Inr_iff label_keys_def Validate_Inr_iff NewCriterion_def
        Operator_IsNullable_def Operator_IsNumeric_def separator_in_def Separator_def Limit_def)
  have run: "Parse no_parsers example_walk FieldQuery ''q'' =
     Inr [NewCriterion ''id'' InOperator [''x''] FieldQuery, NewCriterion ''name'' EqualsOperator [''b''] FieldQuery]"
    using v by (simp add: parse_eval example_walk_def)
  show ?thesis
    using Parse_sound [OF run] run by (simp add: NewCriterion_def)
qed


text \<open>
  An empty list of values is accepted only when no criterion was stored before: \<open>k in ()\<close>
  alone stands for the empty string, while behind another criterion the listener's right operand
  is empty but not nil and the whole expression is rejected.
\<close>

theorem Parse_empty_in:
  assumes k: "\<not> separator_in k" "k \<noteq> Limit" and k1: "\<not> separator_in k1" "k1 \<noteq> Limit"
    and e: "e \<noteq> ''''" and t: "t = FieldQuery \<or> t = LabelQuery" and v: "CHR 0x0A \<notin> set (value_text v)"
  shows "Parse gp (\<lambda>_. [ExitMultivariate k ''in'']) t e = Inr [NewCriterion k InOperator [''''] t] \<and>
    Parse gp (\<lambda>_. [ExitUnivariate k1 ''eq'' v, ExitMultivariate k ''in'']) t e =
      Inl (ErrorString ''missing right operand'')"
proof -
  have ops: "findOpByString ''in'' = Inr InOperator" "findOpByString ''eq'' = Inr EqualsOperator"
    by (simp_all add: findOpByString_def Operators_def)
  have v1: "Validate gp (NewCriterion k InOperator [''''] t) = Inr ()"
    and v2: "Validate gp (NewCriterion k1 EqualsOperator [value_text v] t) = Inr ()"
    using k k1 t v by (auto simp: Validate_Inr_iff NewCriterion_def Operator_IsNullable_def Operator_IsNumeric_def)
  have v3: "Validate gp (NewCriterion k InOperator [] t) = Inl (ErrorString ''missing right operand'')"
    by (simp add: Validate_def NewCriterion_def)
  have w: "validateCriteria gp [NewCriterion k InOperator [''''] t] = Inr ()"
    using v1 k by (simp add: validateCriteria_Inr_iff label_keys_def NewCriterion_def)
  show ?thesis
    using e v1 v2 v3 w ops by (simp add: Parse_def new_listener_def storeCriterion_def Let_def)
qed

theorem Parse_empty_in_witness:
  "Parse no_parsers (\<lambda>_. [ExitMultivariate ''id'' ''in'']) FieldQuery ''q'' =
     Inr [NewCriterion ''id'' InOperator [''''] FieldQuery] \<and>
   Parse no_parsers (\<lambda>_. [ExitUnivariate ''name'' ''eq'' ''x'', ExitMultivariate ''id'' ''in'']) FieldQuery ''q'' =
     Inl (ErrorString ''missing right operand'')"
  by (rule Parse_empty_in)
    (simp_all add: separator_in_def Separator_def Limit_def value_text_def strings_Trim_def)

end
