(* ===== verification/Slices.thy ===== *)
theory Slices
  imports Prelude
begin

text \<open>
  The helpers on string slices (\<open>src/pkg/util/slice/strings.go\<close>).  A result is the list of the
  values in the order in which the code appends them.
\<close>

definition StringsIntersection :: "string list \<Rightarrow> string list \<Rightarrow> string list" where
  "StringsIntersection str1 str2 =
     (let strings = fold (\<lambda>v m. m(v := True)) str1 (\<lambda>_. False)
      in filter (\<lambda>v. strings v) str2)"

definition StringsContaining :: "string list \<Rightarrow> string \<Rightarrow> string list" where
  "StringsContaining stringSlice str = filter (\<lambda>v. strings_Contains v str) stringSlice"

definition StringsAnyPrefix :: "string list \<Rightarrow> string \<Rightarrow> bool" where
  "StringsAnyPrefix stringSlice pre = list_ex (\<lambda>v. strings_HasPrefix v pre) stringSlice"

definition StringsAnyEquals :: "string list \<Rightarrow> string \<Rightarrow> bool" where
  "StringsAnyEquals stringSlice str = list_ex (\<lambda>v. v = str) stringSlice"

definition StringsAnySuffix :: "string list \<Rightarrow> string \<Rightarrow> bool" where
  "StringsAnySuffix stringSlice suf = list_ex (\<lambda>v. strings_HasSuffix v suf) stringSlice"

definition StringsDistinct :: "string list \<Rightarrow> string list \<Rightarrow> string list" where
  "StringsDistinct str1 str2 =
     filter (\<lambda>s1. \<not> StringsAnyEquals str2 s1) str1 @
     (if length str2 > length str1 then drop (length str1) str2 else [])"

lemma StringsAnyEquals_iff [simp]: "StringsAnyEquals xs x \<longleftrightarrow> x \<in> set xs"
  by (auto simp: StringsAnyEquals_def list_ex_iff)

lemma fold_set_True: "fold (\<lambda>v m. m(v := True)) xs f = (\<lambda>v. f v \<or> v \<in> set xs)"
  by (induction xs arbitrary: f) (auto simp: fun_eq_iff)

lemma StringsIntersection_filter [simp]: "StringsIntersection xs ys = filter (\<lambda>y. y \<in> set xs) ys"
  by (simp add: StringsIntersection_def fold_set_True)

lemma StringsAnyPrefix_iff: "StringsAnyPrefix xs p \<longleftrightarrow> (\<exists>x\<in>set xs. prefix p x)"
  by (auto simp: StringsAnyPrefix_def list_ex_iff go_defs)

lemma StringsContaining_Nil_iff:
  "StringsContaining xs s = [] \<longleftrightarrow> (\<forall>x\<in>set xs. \<not> sublist s x)"
  by (auto simp: StringsContaining_def filter_empty_conv strings_Contains_iff_sublist)

text \<open>The difference of the two slices, as long as the second is not the longer one.\<close>

lemma StringsDistinct_difference:
  "length ys \<le> length xs \<Longrightarrow> StringsDistinct xs ys = filter (\<lambda>x. x \<notin> set ys) xs"
  by (simp add: StringsDistinct_def)

end
