(* ===== verification/Chains.thy ===== *)
theory Chains
  imports Prelude
begin

text \<open>
  The contract of a chain of wrappers: filters around a request handler (\<open>src/pkg/web/filter.go\<close>)
  and storage interceptors around a storage operation (\<open>src/storage/interceptors_create.go\<close> and
  its update and delete counterparts) are put around an inner function so that the first one is
  the outermost.  The components interpret the locale on their own chain functions.
\<close>

locale wrapper_chain =
  fixes wrap :: "'f \<Rightarrow> 'h \<Rightarrow> 'h"
    and chain :: "'f list \<Rightarrow> 'h \<Rightarrow> 'h"
  assumes chain_Nil: "chain [] h = h"
    and chain_Cons: "chain (f # fs) h = wrap f (chain fs h)"
begin

lemma chain_foldr: "chain fs h = foldr wrap fs h"
  by (induction fs) (simp_all add: chain_Nil chain_Cons)

lemma chain_append: "chain (fs @ gs) h = chain fs (chain gs h)"
  by (simp add: chain_foldr)

text \<open>A wrapper that never calls what it wraps hides everything behind it.\<close>

lemma chain_cut:
  assumes "\<And>h h'. wrap f h = wrap f h'"
  shows "chain (fs @ f # gs) h = chain (fs @ f # gs') h'"
proof -
  have "wrap f (chain gs h) = wrap f (chain gs' h')" by (rule assms)
  then show ?thesis by (simp add: chain_append chain_Cons)
qed

text \<open>Wrappers that only call through can be left out.\<close>

lemma chain_transparent:
  assumes "\<And>f h. f \<in> set fs \<Longrightarrow> \<not> P f \<Longrightarrow> wrap f h = h"
  shows "chain fs h = chain (filter P fs) h"
  using assms by (induction fs) (simp_all add: chain_Nil chain_Cons)

text \<open>A property of the inner function that every wrapper keeps holds of the chain.\<close>

lemma chain_keeps:
  assumes "Q h" and "\<And>f h. f \<in> set fs \<Longrightarrow> Q h \<Longrightarrow> Q (wrap f h)"
  shows "Q (chain fs h)"
  using assms by (induction fs) (simp_all add: chain_Nil chain_Cons)

end

end
