(* ===== verification/Web.thy ===== *)
theory Web
  imports Errors Slices Chains
begin

text \<open>
  Filters, matchers and the registration of filters and plugins
  (\<open>src/pkg/web/filter.go\<close>, \<open>matcher.go\<close>, \<open>dynamic_matching_filter.go\<close>, \<open>plugin.go\<close>,
  \<open>api.go\<close>), the registration of the routes at the router (\<open>src/pkg/server/server.go\<close>) and the
  translation of a handled request to writes on the response (\<open>src/api/http_handler.go\<close>).

  A handler is a function from requests to outcomes; both types are parameters, so an outcome may
  be a state transformer.  Glob patterns are compiled by a library, which is the parameter
  \<open>compile\<close>: the predicate of a pattern, or \<open>None\<close> when it is malformed.
\<close>

subsection \<open>Endpoints and matchers\<close>

record Endpoint =
  ep_Method :: string
  ep_Path :: string

type_synonym matcher = "Endpoint \<Rightarrow> (error, bool) result"
type_synonym glob = "string \<Rightarrow> (string \<Rightarrow> bool) option"

definition matchInArray :: "string list \<Rightarrow> string \<Rightarrow> bool" where
  "matchInArray arr v = list_ex (\<lambda>a. a = v) arr"

definition Methods :: "string list \<Rightarrow> matcher" where
  "Methods methods endpoint =
     (if length methods = 0 then Inl (ErrorString ''empty http methods not allowed'')
      else Inr (matchInArray methods (ep_Method endpoint)))"

fun Path_loop :: "glob \<Rightarrow> string list \<Rightarrow> matcher" where
  "Path_loop compile [] endpoint = Inr False"
| "Path_loop compile (pattern # patterns) endpoint =
     (case compile pattern of
        None \<Rightarrow> Inl (ErrorString ''invalid path pattern'')
      | Some pat \<Rightarrow>
          (if pat (ep_Path endpoint) \<or> pat (ep_Path endpoint @ ''/'') then Inr True
           else Path_loop compile patterns endpoint))"

definition Path :: "glob \<Rightarrow> string list \<Rightarrow> matcher" where
  "Path compile patterns endpoint =
     (if length patterns = 0 then Inl (ErrorString ''empty path pattern not allowed'')
      else Path_loop compile patterns endpoint)"

fun Not :: "matcher list \<Rightarrow> matcher" where
  "Not [] endpoint = Inr False"
| "Not (m # matchers) endpoint =
     (case m endpoint of
        Inl err \<Rightarrow> Inl err
      | Inr match \<Rightarrow> (if \<not> match then Inr True else Not matchers endpoint))"

type_synonym FilterMatcher = "matcher list"

text \<open>The inner loop of \<open>Matching\<close>: \<open>True\<close> when no matcher misses.\<close>

fun matchers_match :: "matcher list \<Rightarrow> matcher" where
  "matchers_match [] endpoint = Inr True"
| "matchers_match (matcher # matchers) endpoint =
     (case matcher endpoint of
        Inl err \<Rightarrow> Inl err
      | Inr match \<Rightarrow> (if \<not> match then Inr False else matchers_match matchers endpoint))"

fun Matching :: "FilterMatcher list \<Rightarrow> matcher" where
  "Matching [] endpoint = Inr False"
| "Matching (routeMatcher # filterMatchers) endpoint =
     (case matchers_match routeMatcher endpoint of
        Inl err \<Rightarrow> Inl err
      | Inr matched \<Rightarrow> (if matched then Inr True else Matching filterMatchers endpoint))"

subsection \<open>Filters\<close>

type_synonym ('q, 'r) handler = "'q \<Rightarrow> 'r"
type_synonym ('q, 'r) middleware = "'q \<Rightarrow> ('q, 'r) handler \<Rightarrow> 'r"

record ('q, 'r) Filter =
  Name :: string
  Run :: "('q, 'r) middleware"
  FilterMatchers :: "FilterMatcher list"

text \<open>
  The slots of \<open>wrappedFilters\<close>: slot \<open>i\<close> runs filter \<open>i\<close> with the handler in slot \<open>i+1\<close>, the
  last slot is the wrapped handler.
\<close>

function wrappedFilters :: "('q, 'r) Filter list \<Rightarrow> ('q, 'r) handler \<Rightarrow> nat \<Rightarrow> ('q, 'r) handler" where
  "wrappedFilters fs h i =
     (if i < length fs then (\<lambda>r. Run (fs ! i) r (wrappedFilters fs h (Suc i))) else h)"
  by pat_completeness auto
termination by (relation "measure (\<lambda>(fs, h, i). length fs - i)") auto

declare wrappedFilters.simps [simp del]

definition Chain :: "('q, 'r) Filter list \<Rightarrow> ('q, 'r) handler \<Rightarrow> ('q, 'r) handler" where
  "Chain fs h = wrappedFilters fs h 0"

text \<open>\<open>Filters.Matching\<close>: a matcher that reports an error makes it panic, here \<open>Inl\<close>.\<close>

fun Filters_Matching :: "('q, 'r) Filter list \<Rightarrow> Endpoint \<Rightarrow> (error, ('q, 'r) Filter list) result" where
  "Filters_Matching [] endpoint = Inr []"
| "Filters_Matching (flt # fs) endpoint =
     (case Matching (FilterMatchers flt) endpoint of
        Inl err \<Rightarrow> Inl err
      | Inr matches \<Rightarrow>
          (case Filters_Matching fs endpoint of
             Inl err \<Rightarrow> Inl err
           | Inr rest \<Rightarrow>
               Inr ((if length (FilterMatchers flt) = 0 then [flt] else []) @
                    (if matches then [flt] else []) @ rest)))"

record ('q, 'r) Route =
  rt_Endpoint :: Endpoint
  rt_Handler :: "('q, 'r) handler"
  DisableHTTPTimeouts :: bool

definition ChainMatching :: "('q, 'r) Filter list \<Rightarrow> ('q, 'r) Route \<Rightarrow> (error, ('q, 'r) handler) result" where
  "ChainMatching fs route =
     (case Filters_Matching fs (rt_Endpoint route) of
        Inl err \<Rightarrow> Inl err
      | Inr filters \<Rightarrow> Inr (Chain filters (rt_Handler route)))"

subsection \<open>The dynamic filter\<close>

text \<open>
  \<open>DynamicMatchingFilter\<close>: the filters added at run time, chained around the next handler for
  the endpoint of the request at hand.  \<open>endpoint_of\<close> reads method and path from a request;
  a panic of the matching is the parameter outcome \<open>panics\<close>.
\<close>

record ('q, 'r) DynamicMatchingFilter =
  dmf_filters :: "('q, 'r) Filter list"
  dmf_name :: string

definition NewDynamicMatchingFilter :: "string \<Rightarrow> ('q, 'r) DynamicMatchingFilter" where
  "NewDynamicMatchingFilter name = \<lparr>dmf_filters = [], dmf_name = name\<rparr>"

definition AddFilter :: "('q, 'r) Filter \<Rightarrow> ('q, 'r) DynamicMatchingFilter \<Rightarrow> ('q, 'r) DynamicMatchingFilter" where
  "AddFilter dynamicFilter dmf = dmf\<lparr>dmf_filters := dmf_filters dmf @ [dynamicFilter]\<rparr>"

definition ClearFilters :: "('q, 'r) DynamicMatchingFilter \<Rightarrow> ('q, 'r) DynamicMatchingFilter" where
  "ClearFilters dmf = dmf\<lparr>dmf_filters := []\<rparr>"

definition DynamicMatchingFilter_Run ::
  "('q \<Rightarrow> Endpoint) \<Rightarrow> (error \<Rightarrow> 'r) \<Rightarrow> ('q, 'r) DynamicMatchingFilter \<Rightarrow> ('q, 'r) middleware" where
  "DynamicMatchingFilter_Run endpoint_of panics dmf req next =
     (let route = \<lparr>rt_Endpoint = endpoint_of req, rt_Handler = next, DisableHTTPTimeouts = False\<rparr>
      in case ChainMatching (dmf_filters dmf) route of
           Inl err \<Rightarrow> panics err
         | Inr h \<Rightarrow> h req)"

definition DynamicMatchingFilter_Filter ::
  "glob \<Rightarrow> ('q \<Rightarrow> Endpoint) \<Rightarrow> (error \<Rightarrow> 'r) \<Rightarrow> ('q, 'r) DynamicMatchingFilter \<Rightarrow> ('q, 'r) Filter" where
  "DynamicMatchingFilter_Filter compile endpoint_of panics dmf =
     \<lparr>Name = dmf_name dmf,
      Run = DynamicMatchingFilter_Run endpoint_of panics dmf,
      FilterMatchers =
        [[Path compile [''/**''],
          Methods [''GET'', ''POST'', ''PUT'', ''PATCH'', ''DELETE'', ''HEAD'']]]\<rparr>"

subsection \<open>Plugins\<close>

text \<open>
  A plugin implements any of the eleven operation interfaces; \<open>None\<close> is a failed type assertion.
\<close>

record ('q, 'r) Plugin =
  pl_Name :: string
  FetchCatalog :: "('q, 'r) middleware option"
  FetchService :: "('q, 'r) middleware option"
  Provision :: "('q, 'r) middleware option"
  UpdateService :: "('q, 'r) middleware option"
  Deprovision :: "('q, 'r) middleware option"
  FetchBinding :: "('q, 'r) middleware option"
  Bind :: "('q, 'r) middleware option"
  Unbind :: "('q, 'r) middleware option"
  PollInstance :: "('q, 'r) middleware option"
  PollBinding :: "('q, 'r) middleware option"
  AdaptCredentials :: "('q, 'r) middleware option"

definition newPluginSegment ::
  "glob \<Rightarrow> string \<Rightarrow> string \<Rightarrow> string \<Rightarrow> ('q, 'r) middleware \<Rightarrow> ('q, 'r) Filter" where
  "newPluginSegment compile name method pathPattern f =
     \<lparr>Name = name, Run = f, FilterMatchers = [[Methods [method], Path compile [pathPattern]]]\<rparr>"

text \<open>One \<open>if p, ok := plug.(I); ok\<close> step of the decomposition.\<close>

definition pluginStep ::
  "glob \<Rightarrow> ('q, 'r) Plugin \<Rightarrow> string \<Rightarrow> string \<Rightarrow> string \<Rightarrow> ('q, 'r) middleware option \<Rightarrow> ('q, 'r) Filter list" where
  "pluginStep compile plug op method pathPattern impl =
     (case impl of
        None \<Rightarrow> []
      | Some f \<Rightarrow> [newPluginSegment compile (pl_Name plug @ '':'' @ op) method pathPattern f])"

definition decomposePlugin :: "glob \<Rightarrow> ('q, 'r) Plugin \<Rightarrow> ('q, 'r) Filter list" where
  "decomposePlugin compile plug =
     pluginStep compile plug ''FetchCatalog'' ''GET'' ''/v1/osb/*/v2/catalog/*'' (FetchCatalog plug) @
     pluginStep compile plug ''FetchService'' ''GET'' ''/v1/osb/*/v2/service_instances/*'' (FetchService plug) @
     pluginStep compile plug ''Provision'' ''PUT'' ''/v1/osb/*/v2/service_instances/*'' (Provision plug) @
     pluginStep compile plug ''UpdateService'' ''PATCH'' ''/v1/osb/*/v2/service_instances/*'' (UpdateService plug) @
     pluginStep compile plug ''Deprovision'' ''DELETE'' ''/v1/osb/*/v2/service_instances/*'' (Deprovision plug) @
     pluginStep compile plug ''FetchBinding'' ''GET'' ''/v1/osb/*/v2/service_instances/*/service_bindings/*'' (FetchBinding plug) @
     pluginStep compile plug ''Bind'' ''PUT'' ''/v1/osb/*/v2/service_instances/*/service_bindings/*'' (Bind plug) @
     pluginStep compile plug ''Unbind'' ''DELETE'' ''/v1/osb/*/v2/service_instances/*/service_bindings/*'' (Unbind plug) @
     pluginStep compile plug ''PollInstance'' ''GET'' ''/v1/osb/*/v2/service_instances/*/last_operation'' (PollInstance plug) @
     pluginStep compile plug ''PollBinding'' ''GET'' ''/v1/osb/*/v2/service_instances/*/service_bindings/*/last_operation'' (PollBinding plug) @
     pluginStep compile plug ''AdaptCredentials'' ''POST'' ''/v1/osb/*/v2/service_instances/*/service_bindings/*/adapt_credentials'' (AdaptCredentials plug)"

subsection \<open>The API\<close>

type_synonym ('q, 'r) Controller = "('q, 'r) Route list"

record ('q, 'r) API =
  Controllers :: "('q, 'r) Controller list"
  Filters :: "('q, 'r) Filter list"

text \<open>The panics of the registration functions.\<close>

datatype api_panic =
    EmptyFilterName
  | FiltersAlreadyRegistered "string list"
  | ColonInFilterNames "string list"
  | FilterNotFound string
  | PluginAlreadyRegistered string
  | EmptyPluginName
  | NoPluginOperation
  | IndexOutOfRange

definition RegisterControllers :: "('q, 'r) Controller list \<Rightarrow> ('q, 'r) API \<Rightarrow> ('q, 'r) API" where
  "RegisterControllers controllers api = api\<lparr>Controllers := Controllers api @ controllers\<rparr>"

definition filterNames :: "('q, 'r) Filter list \<Rightarrow> string list" where
  "filterNames filters = map Name filters"

text \<open>\<open>None\<close> is the position \<open>-1\<close>.\<close>

definition findFilterPosition :: "string \<Rightarrow> ('q, 'r) API \<Rightarrow> nat option" where
  "findFilterPosition filterName api = find_index (\<lambda>f. Name f = filterName) (Filters api)"

definition validateFilters :: "('q, 'r) Filter list \<Rightarrow> ('q, 'r) API \<Rightarrow> (api_panic, unit) result" where
  "validateFilters filters api =
     (let newFilterNames = filterNames filters;
          registeredFilterNames = filterNames (Filters api);
          commonFilterNames = StringsIntersection registeredFilterNames newFilterNames;
          filterNamesWithColon = StringsContaining newFilterNames '':''
      in if StringsAnyEquals newFilterNames '''' then Inl EmptyFilterName
         else if length commonFilterNames > 0 then Inl (FiltersAlreadyRegistered commonFilterNames)
         else if length filterNamesWithColon > 0 then Inl (ColonInFilterNames filterNamesWithColon)
         else Inr ())"

definition RegisterFilters :: "('q, 'r) Filter list \<Rightarrow> ('q, 'r) API \<Rightarrow> (api_panic, ('q, 'r) API) result" where
  "RegisterFilters filters api =
     try_then (validateFilters filters api) (\<lambda>_. Inr (api\<lparr>Filters := Filters api @ filters\<rparr>))"

text \<open>
  Growing the slice by one, shifting its tail and writing the gap.  The code grows it by \<open>nil\<close>;
  the value of the new slot is never read, and the model puts the new filter there.
\<close>

definition insertFilter :: "('q, 'r) Filter \<Rightarrow> nat \<Rightarrow> ('q, 'r) API \<Rightarrow> (api_panic, ('q, 'r) API) result" where
  "insertFilter newFilter filterPosition api =
     (if filterPosition > length (Filters api) then Inl IndexOutOfRange
      else Inr (api\<lparr>Filters :=
             (go_copy (Filters api @ [newFilter]) (Suc filterPosition) filterPosition)
               [filterPosition := newFilter]\<rparr>))"

definition registerFilterRelativelyOrDie ::
  "string \<Rightarrow> ('q, 'r) Filter \<Rightarrow> (nat \<Rightarrow> nat) \<Rightarrow> ('q, 'r) API \<Rightarrow> (api_panic, ('q, 'r) API) result" where
  "registerFilterRelativelyOrDie filterName newFilter newFilterPosition api =
     (case findFilterPosition filterName api of
        None \<Rightarrow> Inl (FilterNotFound filterName)
      | Some registeredFilterPosition \<Rightarrow>
          insertFilter newFilter (newFilterPosition registeredFilterPosition) api)"

definition registerFilterRelatively ::
  "string \<Rightarrow> ('q, 'r) Filter \<Rightarrow> (nat \<Rightarrow> nat) \<Rightarrow> ('q, 'r) API \<Rightarrow> (api_panic, ('q, 'r) API) result" where
  "registerFilterRelatively filterName newFilter newFilterPosition api =
     (case findFilterPosition filterName api of
        None \<Rightarrow> Inr (api\<lparr>Filters := Filters api @ [newFilter]\<rparr>)
      | Some registeredFilterPosition \<Rightarrow>
          insertFilter newFilter (newFilterPosition registeredFilterPosition) api)"

fun RegisterFiltersBefore :: "string \<Rightarrow> ('q, 'r) Filter list \<Rightarrow> ('q, 'r) API \<Rightarrow> (api_panic, ('q, 'r) API) result" where
  "RegisterFiltersBefore beforeFilterName [] api = Inr api"
| "RegisterFiltersBefore beforeFilterName (flt # filters) api =
     try_then (validateFilters [flt] api) (\<lambda>_.
       try_then (registerFilterRelativelyOrDie beforeFilterName flt (\<lambda>p. p) api)
         (RegisterFiltersBefore beforeFilterName filters))"

text \<open>The loop of \<open>RegisterFiltersAfter\<close>, with its index \<open>i\<close>.\<close>

fun RegisterFiltersAfter_from ::
  "nat \<Rightarrow> string \<Rightarrow> ('q, 'r) Filter list \<Rightarrow> ('q, 'r) API \<Rightarrow> (api_panic, ('q, 'r) API) result" where
  "RegisterFiltersAfter_from i afterFilterName [] api = Inr api"
| "RegisterFiltersAfter_from i afterFilterName (flt # filters) api =
     try_then (validateFilters [flt] api) (\<lambda>_.
       try_then (registerFilterRelativelyOrDie afterFilterName flt (\<lambda>p. p + 1 + i) api)
         (RegisterFiltersAfter_from (Suc i) afterFilterName filters))"

definition RegisterFiltersAfter :: "string \<Rightarrow> ('q, 'r) Filter list \<Rightarrow> ('q, 'r) API \<Rightarrow> (api_panic, ('q, 'r) API) result" where
  "RegisterFiltersAfter = RegisterFiltersAfter_from 0"

definition ReplaceFilter :: "string \<Rightarrow> ('q, 'r) Filter \<Rightarrow> ('q, 'r) API \<Rightarrow> (api_panic, ('q, 'r) API) result" where
  "ReplaceFilter replacedFilterName flt api =
     try_then (validateFilters [flt] api) (\<lambda>_.
       case findFilterPosition replacedFilterName api of
         None \<Rightarrow> Inl IndexOutOfRange
       | Some p \<Rightarrow> Inr (api\<lparr>Filters := (Filters api)[p := flt]\<rparr>))"

definition RemoveFilter :: "string \<Rightarrow> ('q, 'r) API \<Rightarrow> (api_panic, ('q, 'r) API) result" where
  "RemoveFilter name api =
     (case findFilterPosition name api of
        None \<Rightarrow> Inl IndexOutOfRange
      | Some position \<Rightarrow>
          Inr (api\<lparr>Filters :=
            take (length (Filters api) - 1) (go_copy (Filters api) position (Suc position))\<rparr>))"

definition decomposePluginOrDie :: "glob \<Rightarrow> ('q, 'r) Plugin \<Rightarrow> (api_panic, ('q, 'r) Filter list) result" where
  "decomposePluginOrDie compile plugin =
     (let pluginSegments = decomposePlugin compile plugin
      in if length pluginSegments = 0 then Inl NoPluginOperation else Inr pluginSegments)"

fun RegisterPlugins :: "glob \<Rightarrow> ('q, 'r) Plugin list \<Rightarrow> ('q, 'r) API \<Rightarrow> (api_panic, ('q, 'r) API) result" where
  "RegisterPlugins compile [] api = Inr api"
| "RegisterPlugins compile (plugin # plugins) api =
     (if StringsAnyPrefix (filterNames (Filters api)) (pl_Name plugin @ '':'') then
        Inl (PluginAlreadyRegistered (pl_Name plugin))
      else
        try_then (decomposePluginOrDie compile plugin) (\<lambda>pluginSegments.
          RegisterPlugins compile plugins (api\<lparr>Filters := Filters api @ pluginSegments\<rparr>)))"

definition getFirstFilterNameOfPlugin :: "string \<Rightarrow> ('q, 'r) API \<Rightarrow> string" where
  "getFirstFilterNameOfPlugin pluginName api =
     (case find (\<lambda>name. strings_Split name CHR '':'' ! 0 = pluginName) (filterNames (Filters api)) of
        None \<Rightarrow> ''''
      | Some name \<Rightarrow> name)"

fun registerSegments :: "string \<Rightarrow> ('q, 'r) Filter list \<Rightarrow> ('q, 'r) API \<Rightarrow> (api_panic, ('q, 'r) API) result" where
  "registerSegments beforeName [] api = Inr api"
| "registerSegments beforeName (pluginSegment # pluginSegments) api =
     try_then (registerFilterRelatively beforeName pluginSegment (\<lambda>p. p) api)
       (registerSegments beforeName pluginSegments)"

fun RegisterPluginsBefore :: "glob \<Rightarrow> string \<Rightarrow> ('q, 'r) Plugin list \<Rightarrow> ('q, 'r) API \<Rightarrow> (api_panic, ('q, 'r) API) result" where
  "RegisterPluginsBefore compile beforePluginName [] api = Inr api"
| "RegisterPluginsBefore compile beforePluginName (plugin # plugins) api =
     (if length (pl_Name plugin) = 0 then Inl EmptyPluginName
      else if StringsAnyPrefix (filterNames (Filters api)) (pl_Name plugin @ '':'') then
        Inl (PluginAlreadyRegistered (pl_Name plugin))
      else
        try_then (decomposePluginOrDie compile plugin) (\<lambda>pluginSegments.
          try_then (registerSegments (getFirstFilterNameOfPlugin beforePluginName api) pluginSegments api)
            (RegisterPluginsBefore compile beforePluginName plugins)))"

subsection \<open>Chains and matching\<close>

lemma wrappedFilters_Cons: "wrappedFilters (f # fs) h (Suc i) = wrappedFilters fs h i"
proof (induction fs h i rule: wrappedFilters.induct)
  case (1 fs h i)
  then show ?case
    by (subst (1 2) wrappedFilters.simps) simp
qed

interpretation web_chain: wrapper_chain "\<lambda>f h r. Run f r h" Chain
proof
  show "Chain [] h = h" for h :: "('a, 'b) handler"
    by (simp add: Chain_def wrappedFilters.simps)
  show "Chain (f # fs) h = (\<lambda>r. Run f r (Chain fs h))" for f fs and h :: "('a, 'b) handler"
    unfolding Chain_def by (subst wrappedFilters.simps) (simp add: wrappedFilters_Cons)
qed

text \<open>Where a filter runs: at every endpoint, or where all matchers of one of its places match.\<close>

definition runs_at :: "Endpoint \<Rightarrow> ('q, 'r) Filter \<Rightarrow> bool" where
  "runs_at ep f \<longleftrightarrow> FilterMatchers f = [] \<or>
     (\<exists>ms\<in>set (FilterMatchers f). \<forall>m\<in>set ms. m ep = Inr True)"

lemma matchers_match_Inr: "matchers_match ms ep = Inr b \<Longrightarrow> b \<longleftrightarrow> (\<forall>m\<in>set ms. m ep = Inr True)"
  by (induction ms) (auto split: sum.splits if_splits)

lemma Matching_Inr:
  "Matching fms ep = Inr b \<Longrightarrow> b \<longleftrightarrow> (\<exists>ms\<in>set fms. \<forall>m\<in>set ms. m ep = Inr True)"
proof (induction fms)
  case (Cons ms fms)
  then show ?case
    by (auto split: sum.splits if_splits dest!: matchers_match_Inr)
qed simp

lemma Filters_Matching_Inr: "Filters_Matching fs ep = Inr gs \<Longrightarrow> gs = filter (runs_at ep) fs"
proof (induction fs arbitrary: gs)
  case (Cons f fs)
  then obtain b rest where b: "Matching (FilterMatchers f) ep = Inr b"
    and rest: "Filters_Matching fs ep = Inr rest"
    and gs: "gs = (if length (FilterMatchers f) = 0 then [f] else []) @ (if b then [f] else []) @ rest"
    by (auto split: sum.splits)
  from Cons.IH [OF rest] have "rest = filter (runs_at ep) fs" .
  moreover from Matching_Inr [OF b] have "runs_at ep f \<longleftrightarrow> FilterMatchers f = [] \<or> b"
    by (auto simp: runs_at_def)
  moreover have "FilterMatchers f = [] \<Longrightarrow> \<not> b" using b by simp
  ultimately show ?case using gs by auto
qed simp

lemma Filters_Matching_append:
  "Filters_Matching (fs @ gs) ep =
     try_then (Filters_Matching fs ep) (\<lambda>a. try_then (Filters_Matching gs ep) (\<lambda>b. Inr (a @ b)))"
  by (induction fs) (auto split: sum.splits simp: try_then_def)

subsection \<open>Registration\<close>

lemma validateFilters_Inr_iff:
  "validateFilters fs api = Inr () \<longleftrightarrow>
     '''' \<notin> set (map Name fs) \<and> (\<forall>f\<in>set fs. Name f \<notin> set (map Name (Filters api))) \<and>
     (\<forall>f\<in>set fs. CHR '':'' \<notin> set (Name f))"
proof -
  have "StringsContaining (map Name fs) '':'' = [] \<longleftrightarrow> (\<forall>f\<in>set fs. CHR '':'' \<notin> set (Name f))"
    by (simp add: StringsContaining_Nil_iff)
  then show ?thesis
    by (auto simp: validateFilters_def filterNames_def Let_def filter_empty_conv)
qed

lemma insertFilter_Inr_iff:
  "insertFilter f p api = Inr api' \<longleftrightarrow>
     p \<le> length (Filters api) \<and>
     api' = api\<lparr>Filters := take p (Filters api) @ f # drop p (Filters api)\<rparr>"
  by (auto simp: insertFilter_def go_copy_insert)

lemma findFilterPosition_insert:
  assumes "findFilterPosition n api = Some p" "Name f \<noteq> n"
  shows "findFilterPosition n (api\<lparr>Filters := take p (Filters api) @ f # drop p (Filters api)\<rparr>) = Some (Suc p)"
proof -
  from assms(1) have "find_index (\<lambda>f. Name f = n) (Filters api) = Some p"
    by (simp add: findFilterPosition_def)
  with find_index_split [OF this] find_index_Some_length [OF this] assms(2) show ?thesis
    by (simp add: findFilterPosition_def find_index_append)
qed

lemma findFilterPosition_insert_behind:
  assumes "findFilterPosition n api = Some p" "p < k" "k \<le> length (Filters api)"
  shows "findFilterPosition n (api\<lparr>Filters := take k (Filters api) @ f # drop k (Filters api)\<rparr>) = Some p"
proof -
  from assms(1) have p: "find_index (\<lambda>f. Name f = n) (Filters api) = Some p"
    by (simp add: findFilterPosition_def)
  have "find_index (\<lambda>f. Name f = n) (take k (Filters api) @ drop k (Filters api)) = Some p"
    using p by simp
  then have "find_index (\<lambda>f. Name f = n) (take k (Filters api)) = Some p"
    using assms(2,3) by (subst (asm) find_index_append) (auto split: option.splits)
  then show ?thesis by (simp add: findFilterPosition_def find_index_append)
qed

lemma registered_name:
  "findFilterPosition n api = Some p \<Longrightarrow> validateFilters [f] api = Inr () \<Longrightarrow> Name f \<noteq> n"
  by (auto simp: findFilterPosition_def validateFilters_Inr_iff dest!: find_index_Some)

lemma RegisterFiltersBefore_Inr:
  assumes "findFilterPosition n api = Some p" "RegisterFiltersBefore n fs api = Inr api'"
  shows "Filters api' = take p (Filters api) @ fs @ drop p (Filters api)"
  using assms
proof (induction fs arbitrary: api p)
  case (Cons f fs)
  let ?api1 = "api\<lparr>Filters := take p (Filters api) @ f # drop p (Filters api)\<rparr>"
  from Cons.prems have v: "validateFilters [f] api = Inr ()"
    and run: "RegisterFiltersBefore n fs ?api1 = Inr api'" and le: "p \<le> length (Filters api)"
    by (auto simp: try_then_Inr_iff registerFilterRelativelyOrDie_def insertFilter_Inr_iff)
  from Cons.IH [OF findFilterPosition_insert [OF Cons.prems(1) registered_name [OF Cons.prems(1) v]] run] le
  show ?case by simp
qed simp

lemma RegisterFiltersAfter_from_Inr:
  assumes "findFilterPosition n api = Some p" "p + 1 + i \<le> length (Filters api)"
    and "RegisterFiltersAfter_from i n fs api = Inr api'"
  shows "Filters api' = take (p + 1 + i) (Filters api) @ fs @ drop (p + 1 + i) (Filters api)"
  using assms
proof (induction fs arbitrary: api i)
  case (Cons f fs)
  let ?k = "p + 1 + i"
  let ?api1 = "api\<lparr>Filters := take ?k (Filters api) @ f # drop ?k (Filters api)\<rparr>"
  from Cons.prems have run: "RegisterFiltersAfter_from (Suc i) n fs ?api1 = Inr api'"
    by (auto simp: try_then_Inr_iff registerFilterRelativelyOrDie_def insertFilter_Inr_iff)
  have "findFilterPosition n ?api1 = Some p"
    using findFilterPosition_insert_behind [OF Cons.prems(1), of ?k f] Cons.prems(2) by simp
  from Cons.IH [OF this _ run] Cons.prems(2) show ?case by simp
qed simp

lemma RegisterFiltersAfter_Inr:
  assumes "findFilterPosition n api = Some p" "RegisterFiltersAfter n fs api = Inr api'"
  shows "Filters api' = take (Suc p) (Filters api) @ fs @ drop (Suc p) (Filters api)"
proof -
  have "p < length (Filters api)"
    using assms(1) by (auto simp: findFilterPosition_def dest: find_index_Some_length)
  with RegisterFiltersAfter_from_Inr [OF assms(1), of 0 fs api'] assms(2) show ?thesis
    by (simp add: RegisterFiltersAfter_def)
qed

subsection \<open>Plugins\<close>

text \<open>The steps of the decomposition as a table, to reason about them by induction.\<close>

definition plugin_table :: "(string \<times> string \<times> string \<times> (('q, 'r) Plugin \<Rightarrow> ('q, 'r) middleware option)) list" where
  "plugin_table =
     [(''FetchCatalog'', ''GET'', ''/v1/osb/*/v2/catalog/*'', FetchCatalog),
      (''FetchService'', ''GET'', ''/v1/osb/*/v2/service_instances/*'', FetchService),
      (''Provision'', ''PUT'', ''/v1/osb/*/v2/service_instances/*'', Provision),
      (''UpdateService'', ''PATCH'', ''/v1/osb/*/v2/service_instances/*'', UpdateService),
      (''Deprovision'', ''DELETE'', ''/v1/osb/*/v2/service_instances/*'', Deprovision),
      (''FetchBinding'', ''GET'', ''/v1/osb/*/v2/service_instances/*/service_bindings/*'', FetchBinding),
      (''Bind'', ''PUT'', ''/v1/osb/*/v2/service_instances/*/service_bindings/*'', Bind),
      (''Unbind'', ''DELETE'', ''/v1/osb/*/v2/service_instances/*/service_bindings/*'', Unbind),
      (''PollInstance'', ''GET'', ''/v1/osb/*/v2/service_instances/*/last_operation'', PollInstance),
      (''PollBinding'', ''GET'', ''/v1/osb/*/v2/service_instances/*/service_bindings/*/last_operation'', PollBinding),
      (''AdaptCredentials'', ''POST'', ''/v1/osb/*/v2/service_instances/*/service_bindings/*/adapt_credentials'', AdaptCredentials)]"

abbreviation table_step :: "glob \<Rightarrow> ('q, 'r) Plugin \<Rightarrow>
    string \<times> string \<times> string \<times> (('q, 'r) Plugin \<Rightarrow> ('q, 'r) middleware option) \<Rightarrow> ('q, 'r) Filter list" where
  "table_step c pl t \<equiv> (case t of (op, m, pat, get) \<Rightarrow> pluginStep c pl op m pat (get pl))"

lemma decomposePlugin_table: "decomposePlugin c pl = concat (map (table_step c pl) plugin_table)"
  by (simp add: decomposePlugin_def plugin_table_def)

lemma pluginStep_name: "f \<in> set (pluginStep c pl op m pat impl) \<Longrightarrow> Name f = pl_Name pl @ '':'' @ op"
  by (cases impl) (simp_all add: pluginStep_def newPluginSegment_def)

lemma table_step_names:
  assumes "f \<in> set (concat (map (table_step c pl) ts))"
  shows "\<exists>op\<in>set (map fst ts). Name f = pl_Name pl @ '':'' @ op"
proof -
  from assms obtain t where t: "t \<in> set ts" "f \<in> set (table_step c pl t)" by auto
  obtain op m pat get where "t = (op, m, pat, get)" by (rule prod_cases4)
  with t(2) have "Name f = pl_Name pl @ '':'' @ fst t" by (simp add: pluginStep_name)
  with t(1) show ?thesis by auto
qed

lemma distinct_table_step:
  "distinct (map fst ts) \<Longrightarrow> distinct (map Name (concat (map (table_step c pl) ts)))"
proof (induction ts)
  case (Cons t ts)
  obtain op m pat get where t: "t = (op, m, pat, get)" by (cases t)
  define gs where "gs = concat (map (table_step c pl) ts)"
  have "Name f \<noteq> pl_Name pl @ '':'' @ op" if "f \<in> set gs" for f
  proof -
    from table_step_names [of f c pl ts] that obtain op' where
      "op' \<in> set (map fst ts)" "Name f = pl_Name pl @ '':'' @ op'" by (auto simp: gs_def)
    with Cons.prems t show ?thesis by auto
  qed
  then have "pl_Name pl @ '':'' @ op \<notin> Name ` set gs" by force
  moreover from Cons have "distinct (map Name gs)" by (simp add: gs_def)
  moreover have "concat (map (table_step c pl) (t # ts)) = pluginStep c pl op m pat (get pl) @ gs"
    by (simp add: t gs_def)
  ultimately show ?case
    by (cases "get pl") (simp_all add: pluginStep_def newPluginSegment_def)
qed simp

lemma decomposePlugin_distinct: "distinct (map Name (decomposePlugin c pl))"
  unfolding decomposePlugin_table by (rule distinct_table_step) (simp add: plugin_table_def)

lemma decomposePlugin_name:
  "f \<in> set (decomposePlugin c pl) \<Longrightarrow> prefix (pl_Name pl @ '':'') (Name f)"
  unfolding decomposePlugin_table by (drule table_step_names) auto

lemma registerSegments_Inr:
  assumes "registerSegments n fs api = Inr api'" and "\<forall>f\<in>set fs. Name f \<noteq> n"
  shows "Filters api' = (case findFilterPosition n api of
      Some p \<Rightarrow> take p (Filters api) @ fs @ drop p (Filters api) | None \<Rightarrow> Filters api @ fs)"
  using assms
proof (induction fs arbitrary: api)
  case Nil
  then show ?case by (simp split: option.splits)
next
  case (Cons f fs)
  from Cons.prems(1) obtain api1 where
    r: "registerFilterRelatively n f (\<lambda>p. p) api = Inr api1" and run: "registerSegments n fs api1 = Inr api'"
    by (auto simp: try_then_Inr_iff)
  from Cons.prems(2) have f: "Name f \<noteq> n" and fs: "\<forall>f\<in>set fs. Name f \<noteq> n" by auto
  note IH = Cons.IH [OF run fs]
  show ?case
  proof (cases "findFilterPosition n api")
    case None
    with r have api1: "api1 = api\<lparr>Filters := Filters api @ [f]\<rparr>"
      by (simp add: registerFilterRelatively_def)
    with None f have "findFilterPosition n api1 = None"
      by (auto simp: findFilterPosition_def find_index_None_iff)
    with IH api1 None show ?thesis by simp
  next
    case (Some p)
    with r have api1: "api1 = api\<lparr>Filters := take p (Filters api) @ f # drop p (Filters api)\<rparr>"
      and le: "p \<le> length (Filters api)"
      by (auto simp: registerFilterRelatively_def insertFilter_Inr_iff)
    with IH Some findFilterPosition_insert [OF Some f] show ?thesis by simp
  qed
qed

text \<open>Segments always find their place: relative registration does not panic.\<close>

lemma registerSegments_total: "\<exists>api'. registerSegments n fs api = Inr api'"
proof (induction fs arbitrary: api)
  case (Cons f fs)
  have "\<exists>api1. registerFilterRelatively n f (\<lambda>p. p) api = Inr api1"
  proof (cases "findFilterPosition n api")
    case (Some p)
    then have "p < length (Filters api)"
      by (auto simp: findFilterPosition_def dest: find_index_Some_length)
    with Some show ?thesis by (simp add: registerFilterRelatively_def insertFilter_def)
  qed (simp add: registerFilterRelatively_def)
  with Cons.IH show ?case by auto
qed simp

subsection \<open>The names of the registered filters\<close>

definition names_ok :: "('q, 'r) API \<Rightarrow> bool" where
  "names_ok api \<longleftrightarrow> distinct (map Name (Filters api)) \<and> '''' \<notin> set (map Name (Filters api))"

lemma names_ok_insert:
  assumes "names_ok api" "distinct (map Name fs)" "'''' \<notin> set (map Name fs)"
    and "\<forall>f\<in>set fs. Name f \<notin> set (map Name (Filters api))"
    and "Filters api' = take p (Filters api) @ fs @ drop p (Filters api)"
  shows "names_ok api'"
proof -
  define xs ys where "xs = take p (Filters api)" and "ys = drop p (Filters api)"
  then have "Filters api = xs @ ys" by simp

  moreover have "Name ` set fs \<inter> Name ` set (Filters api) = {}" using assms(4) by auto
  ultimately have "Name ` set xs \<inter> Name ` set fs = {}" "Name ` set fs \<inter> Name ` set ys = {}" by auto
  moreover have "Filters api' = xs @ fs @ ys" unfolding xs_def ys_def by (rule assms(5))
  ultimately show ?thesis using \<open>Filters api = xs @ ys\<close> assms(1-3)
    by (simp add: names_ok_def Int_Un_distrib)
qed

lemma names_ok_plugin:
  assumes "names_ok api" "\<not> StringsAnyPrefix (filterNames (Filters api)) (pl_Name pl @ '':'')"
    and "Filters api' = take p (Filters api) @ decomposePlugin c pl @ drop p (Filters api)"
  shows "names_ok api'"
proof (rule names_ok_insert [OF assms(1) decomposePlugin_distinct _ _ assms(3)])
  have pre: "prefix (pl_Name pl @ '':'') n" if "n \<in> set (map Name (decomposePlugin c pl))" for n
    using that decomposePlugin_name by auto
  from pre [of "''''"] show "'''' \<notin> set (map Name (decomposePlugin c pl))" by auto
  show "\<forall>f\<in>set (decomposePlugin c pl). Name f \<notin> set (map Name (Filters api))"
  proof
    fix f assume "f \<in> set (decomposePlugin c pl)"
    with pre have "prefix (pl_Name pl @ '':'') (Name f)" by simp
    with assms(2) show "Name f \<notin> set (map Name (Filters api))"
      unfolding StringsAnyPrefix_iff filterNames_def by blast
  qed
qed

lemma RegisterFilters_names_ok_iff:
  assumes "names_ok api" "RegisterFilters fs api = Inr api'"
  shows "names_ok api' \<longleftrightarrow> distinct (map Name fs)"
proof -
  from assms(2) have v: "validateFilters fs api = Inr ()" and api': "api' = api\<lparr>Filters := Filters api @ fs\<rparr>"
    by (auto simp: RegisterFilters_def try_then_Inr_iff)
  show ?thesis
  proof
    assume "names_ok api'" then show "distinct (map Name fs)" by (simp add: names_ok_def api')
  next
    assume "distinct (map Name fs)"
    moreover have "Filters api' = take (length (Filters api)) (Filters api) @ fs @ drop (length (Filters api)) (Filters api)"
      by (simp add: api')
    moreover from v have "'''' \<notin> set (map Name fs)" "\<forall>f\<in>set fs. Name f \<notin> set (map Name (Filters api))"
      unfolding validateFilters_Inr_iff by blast+
    ultimately show "names_ok api'"
      using names_ok_insert [OF assms(1)] by blast
  qed
qed

subsection \<open>Properties of the registration\<close>

lemma ReplaceFilter_Inr:
  assumes "ReplaceFilter n f api = Inr api'"
  obtains p where "findFilterPosition n api = Some p" "validateFilters [f] api = Inr ()"
    "api' = api\<lparr>Filters := (Filters api)[p := f]\<rparr>"
  using assms by (auto simp: ReplaceFilter_def try_then_Inr_iff split: option.splits)

lemma RemoveFilter_Inr:
  assumes "RemoveFilter n api = Inr api'"
  obtains p where "findFilterPosition n api = Some p"
    "Filters api' = take p (Filters api) @ drop (Suc p) (Filters api)"
  using assms
  by (auto simp: RemoveFilter_def findFilterPosition_def find_index_Some_length
      go_copy_remove [simplified] split: option.splits)

lemma distinct_map_update:
  "distinct (map g xs) \<Longrightarrow> g x \<notin> set (map g xs) \<Longrightarrow> distinct (map g (xs[i := x]))"
  by (induction xs arbitrary: i) (auto split: nat.splits dest!: set_update_subset_insert [THEN subsetD])

lemma names_ok_ReplaceFilter:
  assumes "names_ok api" "ReplaceFilter n f api = Inr api'"
  shows "names_ok api'"
  using assms(2)
proof (rule ReplaceFilter_Inr)
  fix p assume v: "validateFilters [f] api = Inr ()" and api': "api' = api\<lparr>Filters := (Filters api)[p := f]\<rparr>"
  from v have f: "Name f \<noteq> ''''" "Name f \<notin> set (map Name (Filters api))"
    by (auto simp: validateFilters_Inr_iff)
  then have "distinct (map Name ((Filters api)[p := f]))"
    using assms(1) by (intro distinct_map_update) (simp_all add: names_ok_def)
  moreover have "set (map Name ((Filters api)[p := f])) \<subseteq> insert (Name f) (set (map Name (Filters api)))"
    by (simp add: map_update set_update_subset_insert del: set_map)
  ultimately show ?thesis
    using assms(1) f by (auto simp: names_ok_def api')
qed

lemma names_ok_RemoveFilter:
  assumes "names_ok api" "RemoveFilter n api = Inr api'"
  shows "names_ok api'"
  using assms(2)
proof (rule RemoveFilter_Inr)
  fix p assume p: "findFilterPosition n api = Some p"
    and f': "Filters api' = take p (Filters api) @ drop (Suc p) (Filters api)"
  define xs x ys where "xs = take p (Filters api)" and "x = Filters api ! p" and "ys = drop (Suc p) (Filters api)"
  from p have "p < length (Filters api)" by (simp add: findFilterPosition_def find_index_Some_length)
  then have "Filters api = xs @ x # ys" unfolding xs_def x_def ys_def by (rule id_take_nth_drop)
  moreover from f' have "Filters api' = xs @ ys" by (simp add: xs_def ys_def)
  ultimately show ?thesis using assms(1) by (simp add: names_ok_def)
qed

lemma names_ok_RegisterFiltersBefore:
  "names_ok api \<Longrightarrow> RegisterFiltersBefore n fs api = Inr api' \<Longrightarrow> names_ok api'"
proof (induction fs arbitrary: api)
  case (Cons f fs)
  from Cons.prems(2) obtain p where v: "validateFilters [f] api = Inr ()"
    and run: "RegisterFiltersBefore n fs (api\<lparr>Filters := take p (Filters api) @ [f] @ drop p (Filters api)\<rparr>) = Inr api'"
    by (auto simp: try_then_Inr_iff registerFilterRelativelyOrDie_def insertFilter_Inr_iff split: option.splits)
  from v have "names_ok (api\<lparr>Filters := take p (Filters api) @ [f] @ drop p (Filters api)\<rparr>)"
    by (intro names_ok_insert [OF Cons.prems(1), of "[f]"]) (auto simp: validateFilters_Inr_iff)
  from Cons.IH [OF this run] show ?case .
qed simp

lemma names_ok_RegisterFiltersAfter_from:
  "names_ok api \<Longrightarrow> RegisterFiltersAfter_from i n fs api = Inr api' \<Longrightarrow> names_ok api'"
proof (induction fs arbitrary: i api)
  case (Cons f fs)
  from Cons.prems(2) obtain p where v: "validateFilters [f] api = Inr ()"
    and run: "RegisterFiltersAfter_from (Suc i) n fs (api\<lparr>Filters := take p (Filters api) @ [f] @ drop p (Filters api)\<rparr>) = Inr api'"
    by (auto simp: try_then_Inr_iff registerFilterRelativelyOrDie_def insertFilter_Inr_iff split: option.splits)
  from v have "names_ok (api\<lparr>Filters := take p (Filters api) @ [f] @ drop p (Filters api)\<rparr>)"
    by (intro names_ok_insert [OF Cons.prems(1), of "[f]"]) (auto simp: validateFilters_Inr_iff)
  from Cons.IH [OF this run] show ?case .
qed simp

lemma names_ok_RegisterPlugins:
  "names_ok api \<Longrightarrow> RegisterPlugins c pls api = Inr api' \<Longrightarrow> names_ok api'"
proof (induction pls arbitrary: api)
  case (Cons pl pls)
  let ?api1 = "api\<lparr>Filters := Filters api @ decomposePlugin c pl\<rparr>"
  from Cons.prems(2) have n: "\<not> StringsAnyPrefix (filterNames (Filters api)) (pl_Name pl @ '':'')"
    and run: "RegisterPlugins c pls ?api1 = Inr api'"
    by (auto simp: try_then_Inr_iff decomposePluginOrDie_def Let_def split: if_splits)
  have "names_ok ?api1"
    by (rule names_ok_plugin [OF Cons.prems(1) n, of _ "length (Filters api)"]) simp
  from Cons.IH [OF this run] show ?case .
qed simp

lemma names_ok_registerSegments:
  assumes "names_ok api" "\<not> StringsAnyPrefix (filterNames (Filters api)) (pl_Name pl @ '':'')"
    and n: "n = '''' \<or> n \<in> set (map Name (Filters api))"
    and run: "registerSegments n (decomposePlugin c pl) api = Inr api'"
  shows "names_ok api'"
proof -
  have "Name f \<noteq> n" if "f \<in> set (decomposePlugin c pl)" for f
    using decomposePlugin_name [OF that] n assms(2)
    by (auto simp: StringsAnyPrefix_iff filterNames_def)
  then have "Filters api' = (case findFilterPosition n api of
      Some p \<Rightarrow> take p (Filters api) @ decomposePlugin c pl @ drop p (Filters api)
    | None \<Rightarrow> Filters api @ decomposePlugin c pl)"
    using registerSegments_Inr [OF run] by blast
  then show ?thesis
    using names_ok_plugin [OF assms(1,2), of api' "length (Filters api)"] names_ok_plugin [OF assms(1,2), of api']
    by (auto split: option.splits)
qed

lemma getFirstFilterNameOfPlugin_registered:
  "getFirstFilterNameOfPlugin n api = '''' \<or> getFirstFilterNameOfPlugin n api \<in> set (map Name (Filters api))"
  by (auto simp: getFirstFilterNameOfPlugin_def filterNames_def find_Some_iff split: option.splits)

lemma names_ok_RegisterPluginsBefore:
  "names_ok api \<Longrightarrow> RegisterPluginsBefore c n pls api = Inr api' \<Longrightarrow> names_ok api'"
proof (induction pls arbitrary: api)
  case (Cons pl pls)
  from Cons.prems(2) obtain api1 where
    n: "\<not> StringsAnyPrefix (filterNames (Filters api)) (pl_Name pl @ '':'')"
    and s: "registerSegments (getFirstFilterNameOfPlugin n api) (decomposePlugin c pl) api = Inr api1"
    and run: "RegisterPluginsBefore c n pls api1 = Inr api'"
    by (auto simp: try_then_Inr_iff decomposePluginOrDie_def Let_def split: if_splits)
  from Cons.IH [OF names_ok_registerSegments [OF Cons.prems(1) n getFirstFilterNameOfPlugin_registered s] run]
  show ?case .
qed simp

text \<open>Every way to change the filters of an API; the first rule is an API without filters.\<close>

inductive api_reachable :: "glob \<Rightarrow> ('q, 'r) API \<Rightarrow> bool" for c where
  api_start: "Filters api = [] \<Longrightarrow> api_reachable c api"
| api_controllers: "api_reachable c api \<Longrightarrow> api_reachable c (RegisterControllers cs api)"
| api_filters: "api_reachable c api \<Longrightarrow> distinct (map Name fs) \<Longrightarrow> RegisterFilters fs api = Inr api' \<Longrightarrow> api_reachable c api'"
| api_before: "api_reachable c api \<Longrightarrow> RegisterFiltersBefore n fs api = Inr api' \<Longrightarrow> api_reachable c api'"
| api_after: "api_reachable c api \<Longrightarrow> RegisterFiltersAfter n fs api = Inr api' \<Longrightarrow> api_reachable c api'"
| api_replace: "api_reachable c api \<Longrightarrow> ReplaceFilter n f api = Inr api' \<Longrightarrow> api_reachable c api'"
| api_remove: "api_reachable c api \<Longrightarrow> RemoveFilter n api = Inr api' \<Longrightarrow> api_reachable c api'"
| api_plugins: "api_reachable c api \<Longrightarrow> RegisterPlugins c pls api = Inr api' \<Longrightarrow> api_reachable c api'"
| api_plugins_before: "api_reachable c api \<Longrightarrow> RegisterPluginsBefore c n pls api = Inr api' \<Longrightarrow> api_reachable c api'"

lemma api_reachable_names_ok: "api_reachable c api \<Longrightarrow> names_ok api"
proof (induction rule: api_reachable.induct)
  case (api_start api)
  then show ?case by (simp add: names_ok_def)
next
  case (api_controllers api cs)
  then show ?case by (simp add: names_ok_def RegisterControllers_def)
next
  case (api_filters api fs api')
  then show ?case using RegisterFilters_names_ok_iff by blast
next
  case (api_after api n fs api')
  then show ?case using names_ok_RegisterFiltersAfter_from unfolding RegisterFiltersAfter_def by blast
qed (blast intro: names_ok_RegisterFiltersBefore names_ok_ReplaceFilter names_ok_RemoveFilter
      names_ok_RegisterPlugins names_ok_RegisterPluginsBefore)+

text \<open>
  However an API was put together from the registration functions, its filters have
  non-empty and pairwise different names, as long as no single call of \<open>RegisterFilters\<close> passes
  two filters of the same name; and removing a filter by name leaves exactly the filters of
  other names, in their order.
\<close>

theorem api_filter_names:
  assumes "api_reachable c api"
  shows "distinct (map Name (Filters api)) \<and> '''' \<notin> set (map Name (Filters api)) \<and>
    (\<forall>api'. RemoveFilter n api = Inr api' \<longrightarrow> Filters api' = filter (\<lambda>f. Name f \<noteq> n) (Filters api))"
proof -
  have ok: "names_ok api" using assms by (rule api_reachable_names_ok)
  have "Filters api' = filter (\<lambda>f. Name f \<noteq> n) (Filters api)" if "RemoveFilter n api = Inr api'" for api'
    using that
  proof (rule RemoveFilter_Inr)
    fix p assume p: "findFilterPosition n api = Some p"
      and f': "Filters api' = take p (Filters api) @ drop (Suc p) (Filters api)"
    define xs x ys where "xs = take p (Filters api)" and "x = Filters api ! p" and "ys = drop (Suc p) (Filters api)"
    from p have len: "p < length (Filters api)" and "Name x = n"
      unfolding x_def findFilterPosition_def by (auto dest!: find_index_Some)
    from len have F: "Filters api = xs @ x # ys" unfolding xs_def x_def ys_def by (rule id_take_nth_drop)
    moreover from ok have "n \<notin> Name ` set xs" "n \<notin> Name ` set ys"
      unfolding names_ok_def F using \<open>Name x = n\<close> by auto
    then have "filter (\<lambda>f. Name f \<noteq> n) xs = xs" "filter (\<lambda>f. Name f \<noteq> n) ys = ys"
      by (auto simp: filter_id_conv)
    moreover from f' have "Filters api' = xs @ ys" by (simp add: xs_def ys_def)
    ultimately show ?thesis using \<open>Name x = n\<close> by simp
  qed
  with ok show ?thesis by (simp add: names_ok_def)
qed

text \<open>A filter with a name, and a small API, to evaluate the registration on.\<close>

definition named_filter :: "string \<Rightarrow> (nat, nat list) Filter" where
  "named_filter n = \<lparr>Name = n, Run = (\<lambda>r h. length n # h r), FilterMatchers = []\<rparr>"

definition small_api :: "(nat, nat list) API" where
  "small_api = \<lparr>Controllers = [], Filters = [named_filter ''a'', named_filter ''bb'']\<rparr>"

lemma small_api_reachable: "api_reachable c small_api"
proof -
  let ?e = "\<lparr>Controllers = [], Filters = []\<rparr> :: (nat, nat list) API"
  have "RegisterFilters [named_filter ''a'', named_filter ''bb''] ?e = Inr small_api"
    by (simp add: RegisterFilters_def try_then_Inr_iff validateFilters_Inr_iff small_api_def named_filter_def)
  then show ?thesis
    by (rule api_filters [OF api_start, rotated 2]) (simp_all add: named_filter_def)
qed

theorem api_filter_names_witness:
  "RemoveFilter ''a'' small_api = Inr (small_api\<lparr>Filters := [named_filter ''bb'']\<rparr>) \<and>
   filter (\<lambda>f. Name f \<noteq> ''a'') (Filters small_api) = [named_filter ''bb'']"
proof -
  have r: "RemoveFilter ''a'' small_api = Inr (small_api\<lparr>Filters := [named_filter ''bb'']\<rparr>)"
    by (simp add: RemoveFilter_def findFilterPosition_def small_api_def named_filter_def go_copy_def)
  with api_filter_names [OF small_api_reachable [of "\<lambda>_. None"], of "''a''"]
  have "Filters (small_api\<lparr>Filters := [named_filter ''bb'']\<rparr>) = filter (\<lambda>f. Name f \<noteq> ''a'') (Filters small_api)"
    by blast
  with r show ?thesis by simp
qed

text \<open>
  \<open>RegisterFilters\<close> compares new names only with the registered ones: on an API with
  different names it keeps them different exactly when the new filters differ among themselves.
\<close>

theorem RegisterFilters_distinct_iff:
  assumes "api_reachable c api" and "RegisterFilters fs api = Inr api'"
  shows "distinct (map Name (Filters api')) \<longleftrightarrow> distinct (map Name fs)"
proof -
  from assms(2) have "'''' \<notin> set (map Name fs)" "Filters api' = Filters api @ fs"
    by (auto simp: RegisterFilters_def try_then_Inr_iff validateFilters_Inr_iff)
  with RegisterFilters_names_ok_iff [OF api_reachable_names_ok [OF assms(1)] assms(2)] show ?thesis
    using api_reachable_names_ok [OF assms(1)] by (auto simp: names_ok_def)
qed

theorem RegisterFilters_distinct_iff_witness:
  "\<exists>api'. RegisterFilters [named_filter ''x'', named_filter ''x''] small_api = Inr api' \<and>
     \<not> distinct (map Name (Filters api'))"
proof -
  have r: "RegisterFilters [named_filter ''x'', named_filter ''x''] small_api =
      Inr (small_api\<lparr>Filters := Filters small_api @ [named_filter ''x'', named_filter ''x'']\<rparr>)"
    by (simp add: RegisterFilters_def try_then_Inr_iff validateFilters_Inr_iff small_api_def named_filter_def)
  from RegisterFilters_distinct_iff [OF small_api_reachable [of "\<lambda>_. None"] r] r show ?thesis
    by (simp add: named_filter_def)
qed

text \<open>
  Filters registered before (after) a named filter run, at every endpoint, right before
  (after) the place of that filter: the handler of a route is the old chain up to the place,
  then the new filters that match, in the order given, then the old chain from the place on.
\<close>

theorem RegisterFiltersBefore_chain:
  assumes p: "findFilterPosition n api = Some p"
    and matching: "Filters_Matching (Filters api) ep = Inr old" "Filters_Matching fs ep = Inr new"
    and route: "route = \<lparr>rt_Endpoint = ep, rt_Handler = h, DisableHTTPTimeouts = d\<rparr>"
  shows "(\<forall>api'. RegisterFiltersBefore n fs api = Inr api' \<longrightarrow>
      ChainMatching (Filters api') route =
        Inr (Chain (filter (runs_at ep) (take p (Filters api))) (Chain new
              (Chain (filter (runs_at ep) (drop p (Filters api))) h)))) \<and>
    (\<forall>api'. RegisterFiltersAfter n fs api = Inr api' \<longrightarrow>
      ChainMatching (Filters api') route =
        Inr (Chain (filter (runs_at ep) (take (Suc p) (Filters api))) (Chain new
              (Chain (filter (runs_at ep) (drop (Suc p) (Filters api))) h))))"
proof -
  have *: "ChainMatching (Filters api') route =
      Inr (Chain (filter (runs_at ep) (take k (Filters api))) (Chain new
            (Chain (filter (runs_at ep) (drop k (Filters api))) h)))"
    if "Filters api' = take k (Filters api) @ fs @ drop k (Filters api)" for k api'
  proof -
    have "Filters_Matching (take k (Filters api) @ drop k (Filters api)) ep = Inr old"
      using matching(1) by simp
    then obtain a b where ab: "Filters_Matching (take k (Filters api)) ep = Inr a"
      "Filters_Matching (drop k (Filters api)) ep = Inr b"
      unfolding Filters_Matching_append by (auto simp: try_then_Inr_iff)
    then have "Filters_Matching (Filters api') ep = Inr (a @ new @ b)"
      unfolding that Filters_Matching_append using matching(2) by simp
    with Filters_Matching_Inr [OF ab(1)] Filters_Matching_Inr [OF ab(2)] show ?thesis
      by (simp add: ChainMatching_def route web_chain.chain_append)
  qed
  show ?thesis
    using * RegisterFiltersBefore_Inr [OF p] RegisterFiltersAfter_Inr [OF p] by blast
qed

definition trace_route :: "(nat, nat list) Route" where
  "trace_route = \<lparr>rt_Endpoint = \<lparr>ep_Method = ''GET'', ep_Path = ''/''\<rparr>, rt_Handler = (\<lambda>r. [r]),
     DisableHTTPTimeouts = False\<rparr>"

theorem RegisterFiltersBefore_chain_witness:
  "\<exists>api' h. RegisterFiltersBefore ''bb'' [named_filter ''ccc'', named_filter ''dddd''] small_api = Inr api' \<and>
     ChainMatching (Filters api') trace_route = Inr h \<and> h 0 = [1, 3, 4, 2, 0]"
proof -
  let ?fs = "[named_filter ''ccc'', named_filter ''dddd'']"
  let ?ep = "\<lparr>ep_Method = ''GET'', ep_Path = ''/''\<rparr>"
  have p: "findFilterPosition ''bb'' small_api = Some 1"
    by (simp add: findFilterPosition_def small_api_def named_filter_def)
  have m: "Filters_Matching (Filters small_api) ?ep = Inr (Filters small_api)" "Filters_Matching ?fs ?ep = Inr ?fs"
    by (simp_all add: small_api_def named_filter_def)
  obtain api' where run: "RegisterFiltersBefore ''bb'' ?fs small_api = Inr api'"
    by (simp add: small_api_def named_filter_def validateFilters_def filterNames_def Let_def
        StringsContaining_def registerFilterRelativelyOrDie_def findFilterPosition_def insertFilter_def
        go_copy_def)
  have "filter (runs_at ?ep) (take 1 (Filters small_api)) = [named_filter ''a'']"
    "filter (runs_at ?ep) (drop 1 (Filters small_api)) = [named_filter ''bb'']"
    by (simp_all add: small_api_def named_filter_def runs_at_def)
  with RegisterFiltersBefore_chain [OF p m trace_route_def, THEN conjunct1, rule_format, OF run]
  have "ChainMatching (Filters api') trace_route =
      Inr (Chain [named_filter ''a''] (Chain ?fs (Chain [named_filter ''bb''] (\<lambda>r. [r]))))"
    by simp
  moreover have "Chain [named_filter ''a''] (Chain ?fs (Chain [named_filter ''bb''] (\<lambda>r. [r]))) 0 = [1, 3, 4, 2, 0]"
    by (simp add: web_chain.chain_Cons web_chain.chain_Nil named_filter_def)
  ultimately show ?thesis using run by blast
qed

lemma find_map_index: "find P (map g xs) = map_option (\<lambda>i. g (xs ! i)) (find_index (\<lambda>x. P (g x)) xs)"
  by (induction xs) (auto simp: option.map_comp comp_def)

lemma distinct_name_position:
  assumes "distinct (map Name (Filters api))" "p < length (Filters api)"
  shows "findFilterPosition (Name (Filters api ! p)) api = Some p"
proof -
  let ?P = "\<lambda>f. Name f = Name (Filters api ! p)"
  from assms(2) have "find_index ?P (Filters api) \<noteq> None" by (auto simp: find_index_None_iff)
  then obtain i where i: "find_index ?P (Filters api) = Some i" by auto
  from find_index_Some [OF i] have "i < length (Filters api)" "Name (Filters api ! i) = Name (Filters api ! p)"
    by auto
  with assms have "i = p" by (auto simp: distinct_conv_nth)
  with i show ?thesis by (simp add: findFilterPosition_def)
qed

text \<open>
  A plugin registered before another one runs its segments, in the order of the
  decomposition, right before the first filter of that plugin; when no filter belongs to that
  plugin, behind all filters.  A filter belongs to a plugin when its name up to the first colon
  is the plugin's name.
\<close>

theorem RegisterPluginsBefore_position:
  assumes "api_reachable c api" and run: "RegisterPluginsBefore c n [pl] api = Inr api'"
  shows "Filters api' =
    (case find_index (\<lambda>f. takeWhile (\<lambda>ch. ch \<noteq> CHR '':'') (Name f) = n) (Filters api) of
       Some p \<Rightarrow> take p (Filters api) @ decomposePlugin c pl @ drop p (Filters api)
     | None \<Rightarrow> Filters api @ decomposePlugin c pl)"
proof -
  let ?P = "\<lambda>f. takeWhile (\<lambda>ch. ch \<noteq> CHR '':'') (Name f) = n"
  let ?first = "getFirstFilterNameOfPlugin n api"
  have ok: "distinct (map Name (Filters api))" "'''' \<notin> set (map Name (Filters api))"
    using api_reachable_names_ok [OF assms(1)] by (simp_all add: names_ok_def)
  from run have fresh: "\<not> StringsAnyPrefix (filterNames (Filters api)) (pl_Name pl @ '':'')"
    and s: "registerSegments ?first (decomposePlugin c pl) api = Inr api'"
    by (auto simp: try_then_Inr_iff decomposePluginOrDie_def Let_def split: if_splits)
  have "Name f \<noteq> ?first" if "f \<in> set (decomposePlugin c pl)" for f
    using decomposePlugin_name [OF that] getFirstFilterNameOfPlugin_registered [of n api] fresh
    by (auto simp: StringsAnyPrefix_iff filterNames_def)
  then have F: "Filters api' = (case findFilterPosition ?first api of
      Some p \<Rightarrow> take p (Filters api) @ decomposePlugin c pl @ drop p (Filters api)
    | None \<Rightarrow> Filters api @ decomposePlugin c pl)"
    using registerSegments_Inr [OF s] by blast
  have first: "?first = (case find_index ?P (Filters api) of None \<Rightarrow> '''' | Some i \<Rightarrow> Name (Filters api ! i))"
    unfolding getFirstFilterNameOfPlugin_def filterNames_def find_map_index
    by (simp add: hd_conv_nth [symmetric] strings_Split_hd split: option.splits)
  have "findFilterPosition ?first api = find_index ?P (Filters api)"
  proof (cases "find_index ?P (Filters api)")
    case None
    then have "?first = ''''" using first by simp
    moreover have "find_index (\<lambda>f. Name f = '''') (Filters api) = None"
      using ok(2) unfolding find_index_None_iff by force
    ultimately show ?thesis using None by (simp add: findFilterPosition_def)
  next
    case (Some p)
    with first distinct_name_position [OF ok(1) find_index_Some_length [OF Some]] show ?thesis by simp
  qed
  with F show ?thesis by simp
qed

definition small_plugin :: "string \<Rightarrow> (nat, nat list) Plugin" where
  "small_plugin n = \<lparr>pl_Name = n, FetchCatalog = Some (\<lambda>r h. h r), FetchService = None, Provision = None,
     UpdateService = None, Deprovision = None, FetchBinding = None, Bind = Some (\<lambda>r h. h r), Unbind = None,
     PollInstance = None, PollBinding = None, AdaptCredentials = None\<rparr>"

theorem RegisterPluginsBefore_position_witness:
  "\<exists>api'. RegisterPluginsBefore (\<lambda>_. None) ''bb'' [small_plugin ''p''] small_api = Inr api' \<and>
     map Name (Filters api') = [''a'', ''p:FetchCatalog'', ''p:Bind'', ''bb'']"
proof -
  have "decomposePlugin (\<lambda>_. None) (small_plugin ''p'') \<noteq> []"
    by (simp add: decomposePlugin_def pluginStep_def small_plugin_def)
  moreover have "\<not> StringsAnyPrefix (filterNames (Filters small_api)) ''p:''"
    by (simp add: StringsAnyPrefix_iff filterNames_def small_api_def named_filter_def)
  moreover obtain api' where "registerSegments (getFirstFilterNameOfPlugin ''bb'' small_api)
      (decomposePlugin (\<lambda>_. None) (small_plugin ''p'')) small_api = Inr api'"
    using registerSegments_total by blast
  ultimately have run: "RegisterPluginsBefore (\<lambda>_. None) ''bb'' [small_plugin ''p''] small_api = Inr api'"
    by (simp add: decomposePluginOrDie_def Let_def small_plugin_def)
  from RegisterPluginsBefore_position [OF small_api_reachable run] run show ?thesis
    by (simp add: small_api_def named_filter_def decomposePlugin_def pluginStep_def newPluginSegment_def small_plugin_def)
qed

end
