(* ===== verification/HttpHandler.thy ===== *)
theory HttpHandler
  imports Web
begin

text \<open>
  From an HTTP request to the writes on its response: the checks on the request body
  (\<open>RequestBodyToBytes\<close>, \<open>validJson\<close> and \<open>checkDuplicateKeys\<close> of \<open>src/pkg/util/api.go\<close>), the
  handler that runs a \<open>web.Handler\<close> (\<open>src/api/http_handler.go\<close>) and the registration of the
  routes with their filters at the router (\<open>src/pkg/server/server.go\<close>).

  The token stream of \<open>encoding/json\<close> is a list of tokens.  What the library makes of a text is
  the parameter \<open>parse\<close> (the JSON value, or \<open>None\<close> for an invalid text); \<open>json_tokens\<close> is the
  stream the decoder delivers for a value.
\<close>

abbreviation StatusUnsupportedMediaType :: int where "StatusUnsupportedMediaType \<equiv> 415"
abbreviation StatusRequestEntityTooLarge :: int where "StatusRequestEntityTooLarge \<equiv> 413"

subsection \<open>JSON bodies\<close>

datatype json = JScalar | JString string | JObject "(string \<times> json) list" | JArray "json list"

datatype json_token = Delim char | StringToken string | ScalarToken

text \<open>Braces are written with their codes.\<close>

abbreviation lbrace :: char where "lbrace \<equiv> CHR 0x7B"
abbreviation rbrace :: char where "rbrace \<equiv> CHR 0x7D"
abbreviation lbracket :: char where "lbracket \<equiv> CHR 0x5B"
abbreviation rbracket :: char where "rbracket \<equiv> CHR 0x5D"

fun json_tokens :: "json \<Rightarrow> json_token list" where
  "json_tokens JScalar = [ScalarToken]"
| "json_tokens (JString s) = [StringToken s]"
| "json_tokens (JObject kvs) =
     Delim lbrace # concat (map (\<lambda>kv. StringToken (fst kv) # json_tokens (snd kv)) kvs) @ [Delim rbrace]"
| "json_tokens (JArray vs) = Delim lbracket # concat (map json_tokens vs) @ [Delim rbracket]"

type_synonym decoder = "json_token list"

definition Token :: "decoder \<Rightarrow> (error, json_token \<times> decoder) result" where
  "Token d = (case d of [] \<Rightarrow> Inl (ErrorString ''EOF'') | t # ts \<Rightarrow> Inr (t, ts))"

definition More :: "decoder \<Rightarrow> bool" where
  "More d = (case d of [] \<Rightarrow> False | t # _ \<Rightarrow> t \<noteq> Delim rbrace \<and> t \<noteq> Delim rbracket)"

text \<open>
  \<open>checkDuplicateKeys\<close> with its two loops, each step spending one unit of fuel.  \<open>None\<close> is the
  panic of the assertion \<open>t.(string)\<close> on a key, or exhausted fuel; a result is an error or the
  decoder behind the value.  \<open>keys\<close> is the map of the keys seen in the object at hand.
\<close>

fun checkDuplicateKeys :: "nat \<Rightarrow> decoder \<Rightarrow> string list \<Rightarrow> (error, decoder) result option"
  and objectLoop :: "nat \<Rightarrow> (string \<Rightarrow> bool) \<Rightarrow> decoder \<Rightarrow> string list \<Rightarrow> (error, decoder) result option"
  and arrayLoop :: "nat \<Rightarrow> nat \<Rightarrow> decoder \<Rightarrow> string list \<Rightarrow> (error, decoder) result option" where
  "checkDuplicateKeys 0 d path = None"
| "checkDuplicateKeys (Suc n) d path =
     (case Token d of
        Inl err \<Rightarrow> Some (Inl err)
      | Inr (t, d) \<Rightarrow>
          (case t of
             Delim delim \<Rightarrow>
               (if delim = lbrace then objectLoop n (\<lambda>_. False) d path
                else if delim = lbracket then arrayLoop n 0 d path
                else Some (Inr d))
           | _ \<Rightarrow> Some (Inr d)))"
| "objectLoop 0 keys d path = None"
| "objectLoop (Suc n) keys d path =
     (if More d then
        (case Token d of
           Inl err \<Rightarrow> Some (Inl err)
         | Inr (StringToken key, d) \<Rightarrow>
             (if keys key then
                Some (Inl (ErrorString (''invalid json: duplicate key '' @ strings_Join (path @ [key]) ''.'')))
              else
                (case checkDuplicateKeys n d (path @ [key]) of
                   None \<Rightarrow> None
                 | Some (Inl err) \<Rightarrow> Some (Inl err)
                 | Some (Inr d) \<Rightarrow> objectLoop n (keys(key := True)) d path))
         | Inr _ \<Rightarrow> None)
      else Some (try_then (Token d) (\<lambda>(_, d). Inr d)))"
| "arrayLoop 0 i d path = None"
| "arrayLoop (Suc n) i d path =
     (if More d then
        (case checkDuplicateKeys n d (path @ [''['' @ strconv_Itoa (int i) @ '']'']) of
           None \<Rightarrow> None
         | Some (Inl err) \<Rightarrow> Some (Inl err)
         | Some (Inr d) \<Rightarrow> arrayLoop n (Suc i) d path)
      else Some (try_then (Token d) (\<lambda>(_, d). Inr d)))"

text \<open>\<open>validJson\<close>; the fuel is the number of tokens, which the check never exceeds.\<close>

definition validJson :: "(string \<Rightarrow> json option) \<Rightarrow> string \<Rightarrow> (error, unit) result option" where
  "validJson parse data =
     (case parse data of
        None \<Rightarrow> Some (Inl (ErrorString ''invalid json''))
      | Some j \<Rightarrow>
          (case checkDuplicateKeys (length (json_tokens j)) (json_tokens j) [] of
             None \<Rightarrow> None
           | Some r \<Rightarrow> Some (try_then r (\<lambda>_. Inr ()))))"

subsection \<open>The request body\<close>

definition jsonContentType :: string where
  "jsonContentType = ''application/json''"

definition supportedContentTypes :: "string list" where
  "supportedContentTypes = [jsonContentType, ''application/x-www-form-urlencoded'']"

text \<open>
  \<open>ParseMediaType\<close> is \<open>mime.ParseMediaType\<close>: the text of its error or the media type.  The
  result is the content type and the value of the request's header after the call.
\<close>

definition validateContentTypeIsSupported ::
  "(string \<Rightarrow> (string, string) result) \<Rightarrow> string \<Rightarrow> (error, string \<times> string) result" where
  "validateContentTypeIsSupported ParseMediaType contentTypeHeader =
     (if length contentTypeHeader = 0 then Inr (jsonContentType, jsonContentType)
      else
        (case ParseMediaType contentTypeHeader of
           Inl err \<Rightarrow>
             Inl (HTTPError (http_err ''UnsupportedMediaType'' (''media type error: '' @ err) StatusUnsupportedMediaType))
         | Inr mimeType \<Rightarrow>
             (if StringsAnyEquals supportedContentTypes mimeType then Inr (mimeType, contentTypeHeader)
              else Inl (HTTPError (http_err ''UnsupportedMediaType''
                     (''unsupported media type: '' @ contentTypeHeader) StatusUnsupportedMediaType)))))"

text \<open>An incoming request, as far as the handler looks at it: reading the body gives bytes or an error.\<close>

record http_request =
  hr_Method :: string
  hr_ContentType :: string
  hr_Body :: "(error, string) result"

record json_lib =
  parse :: "string \<Rightarrow> json option"
  ParseMediaType :: "string \<Rightarrow> (string, string) result"

definition RequestBodyToBytes :: "json_lib \<Rightarrow> http_request \<Rightarrow> (error, string) result option" where
  "RequestBodyToBytes lib request =
     (case validateContentTypeIsSupported (ParseMediaType lib) (hr_ContentType request) of
        Inl err \<Rightarrow> Some (Inl err)
      | Inr (contentType, _) \<Rightarrow>
          (case hr_Body request of
             Inl err \<Rightarrow> Some (Inl err)
           | Inr body \<Rightarrow>
               (if contentType = jsonContentType then
                  (case validJson (parse lib) body of
                     None \<Rightarrow> None
                   | Some (Inl err) \<Rightarrow>
                       Some (Inl (HTTPError (http_err ''BadRequest''
                         (''Request body is not valid: '' @ error_text err) StatusBadRequest)))
                   | Some (Inr _) \<Rightarrow> Some (Inr body))
                else Some (Inr body))))"

definition isPayloadTooLargeErr :: "error \<Rightarrow> error" where
  "isPayloadTooLargeErr err =
     (if error_text err = ''http: request body too large'' then
        HTTPError (http_err ''PayloadTooLarge'' ''Payload too large'' StatusRequestEntityTooLarge)
      else err)"

text \<open>The body of the \<open>web.Request\<close>; empty for the methods without body.\<close>

definition convertToWebRequest :: "json_lib \<Rightarrow> http_request \<Rightarrow> (error, string) result option" where
  "convertToWebRequest lib request =
     (if hr_Method request = ''PUT'' \<or> hr_Method request = ''POST'' \<or> hr_Method request = ''PATCH'' then
        (case RequestBodyToBytes lib request of
           None \<Rightarrow> None
         | Some (Inl err) \<Rightarrow> Some (Inl (isPayloadTooLargeErr err))
         | Some (Inr body) \<Rightarrow> Some (Inr body))
      else Some (Inr ''''))"

subsection \<open>Serving a request\<close>

record Response =
  rs_StatusCode :: int
  rs_Header :: "(string \<times> string list) list"
  rs_Body :: string

text \<open>The calls on the response writer.  An error is written as the JSON text of an HTTP error.\<close>

datatype http_write =
    SetHeader string "string list"
  | WriteHeader int
  | WriteBytes string
  | WriteErrorJSON http_error

definition WriteError :: "error \<Rightarrow> http_write list" where
  "WriteError err =
     (let respError = ToHTTPError err
      in [SetHeader ''Content-Type'' [''application/json''], WriteHeader (StatusCode respError),
          WriteErrorJSON respError])"

text \<open>
  \<open>ServeHTTP\<close>: the writes of one request.  \<open>handler\<close> gives the outcome of \<open>Handle\<close> and whether
  the response writer was hijacked; \<open>write_err\<close> is the error \<open>res.Write\<close> returns for a body.  The
  deferred function runs at every return and writes the error that \<open>err\<close> holds then.  \<open>None\<close> is a
  panic: of the body check, or of reading a nil response.
\<close>

definition ServeHTTP ::
  "json_lib \<Rightarrow> (string \<Rightarrow> error option) \<Rightarrow>
   (string \<Rightarrow> (error, Response option) result \<times> bool) \<Rightarrow> http_request \<Rightarrow> http_write list option" where
  "ServeHTTP lib write_err handler req =
     (case convertToWebRequest lib req of
        None \<Rightarrow> None
      | Some (Inl err) \<Rightarrow> Some (WriteError err)
      | Some (Inr request) \<Rightarrow>
          (let (outcome, hijacked) = handler request
           in if hijacked then Some []
              else
                (case outcome of
                   Inl err \<Rightarrow> Some (WriteError err)
                 | Inr None \<Rightarrow> None
                 | Inr (Some response) \<Rightarrow>
                     (let headers = map (\<lambda>(k, v). SetHeader k v)
                            (filter (\<lambda>(k, v). k \<noteq> ''Content-Length'') (rs_Header response));
                          deferred = (case write_err (rs_Body response) of
                             None \<Rightarrow> []
                           | Some err \<Rightarrow> WriteError err)
                      in Some (headers @ [WriteHeader (rs_StatusCode response), WriteBytes (rs_Body response)]
                           @ deferred)))))"

subsection \<open>Routes\<close>

record Settings =
  RequestTimeout :: int
  LongRequestTimeout :: int

definition ServiceBrokersURL :: string where
  "ServiceBrokersURL = ''/'' @ ''v1'' @ ''/service_brokers''"

text \<open>A call of the router: the handler, with the timeout and the content type it is wrapped in.\<close>

record ('q, 'r) registration =
  reg_Endpoint :: Endpoint
  reg_Handler :: "('q, 'r) handler"
  reg_Timeout :: "int option"

definition registerRoute :: "Settings \<Rightarrow> ('q, 'r) API \<Rightarrow> ('q, 'r) Route \<Rightarrow> (error, ('q, 'r) registration) result" where
  "registerRoute config api route =
     try_then (ChainMatching (Filters api) route) (\<lambda>h.
       Inr \<lparr>reg_Endpoint = rt_Endpoint route, reg_Handler = h,
            reg_Timeout =
              (if \<not> DisableHTTPTimeouts route then
                 Some (if LongRequestTimeout config \<noteq> 0
                          \<and> strings_HasPrefix (ep_Path (rt_Endpoint route)) ServiceBrokersURL
                          \<and> ep_Method (rt_Endpoint route) = ''PATCH''
                       then LongRequestTimeout config else RequestTimeout config)
               else None)\<rparr>)"

fun registerRoutes :: "Settings \<Rightarrow> ('q, 'r) API \<Rightarrow> ('q, 'r) Route list \<Rightarrow> (error, ('q, 'r) registration list) result" where
  "registerRoutes config api [] = Inr []"
| "registerRoutes config api (route # routes) =
     try_then (registerRoute config api route) (\<lambda>r.
       try_then (registerRoutes config api routes) (\<lambda>rs. Inr (r # rs)))"

definition registerControllers :: "Settings \<Rightarrow> ('q, 'r) API \<Rightarrow> (error, ('q, 'r) registration list) result" where
  "registerControllers config api = registerRoutes config api (concat (Controllers api))"

subsection \<open>Duplicate keys\<close>

text \<open>The specification: no object within the value has a key twice.\<close>

fun unique_keys :: "json \<Rightarrow> bool" where
  "unique_keys JScalar = True"
| "unique_keys (JString s) = True"
| "unique_keys (JObject kvs) = (distinct (map fst kvs) \<and> list_all (\<lambda>kv. unique_keys (snd kv)) kvs)"
| "unique_keys (JArray vs) = list_all unique_keys vs"

text \<open>The path of the first repeated key in the order of the text.\<close>

fun first_dup_obj :: "string list \<Rightarrow> (string \<Rightarrow> bool) \<Rightarrow> (string \<times> string list option) list \<Rightarrow> string list option" where
  "first_dup_obj path seen [] = None"
| "first_dup_obj path seen ((k, r) # rs) =
     (if seen k then Some (path @ [k])
      else (case r of Some p \<Rightarrow> Some p | None \<Rightarrow> first_dup_obj path (seen(k := True)) rs))"

fun first_Some :: "'a option list \<Rightarrow> 'a option" where
  "first_Some [] = None"
| "first_Some (r # rs) = (case r of Some p \<Rightarrow> Some p | None \<Rightarrow> first_Some rs)"

abbreviation elem_path :: "string list \<Rightarrow> nat \<Rightarrow> string list" where
  "elem_path path i \<equiv> path @ [''['' @ strconv_Itoa (int i) @ '']'']"

function dup_path :: "string list \<Rightarrow> json \<Rightarrow> string list option" where
  "dup_path path JScalar = None"
| "dup_path path (JString s) = None"
| "dup_path path (JObject kvs) =
     first_dup_obj path (\<lambda>_. False) (map (\<lambda>kv. (fst kv, dup_path (path @ [fst kv]) (snd kv))) kvs)"
| "dup_path path (JArray vs) = first_Some (map (\<lambda>iv. dup_path (elem_path path (fst iv)) (snd iv)) (enumerate 0 vs))"
  by pat_completeness auto
termination
proof (relation "measure (\<lambda>(path, j). size j)")
  show "((path @ [fst kv], snd kv), path, JObject kvs) \<in> measure (\<lambda>(path, j). size j)"
    if "kv \<in> set kvs" for path kvs kv
    using that by (induction kvs) (auto simp: less_Suc_eq_le intro: le_SucI trans_le_add2)
  show "((elem_path path (fst iv), snd iv), path, JArray vs) \<in> measure (\<lambda>(path, j). size j)"
    if "iv \<in> set (enumerate 0 vs)" for path vs iv
  proof -
    from that have "snd iv \<in> set (map snd (enumerate 0 vs))" unfolding set_map by (rule imageI)
    then have "snd iv \<in> set vs" by simp
    then show ?thesis by (induction vs) (auto simp: less_Suc_eq_le intro: le_SucI trans_le_add2)
  qed
qed simp

abbreviation dup_result :: "decoder \<Rightarrow> string list option \<Rightarrow> (error, decoder) result option" where
  "dup_result rest p \<equiv> Some (case p of None \<Rightarrow> Inr rest
     | Some q \<Rightarrow> Inl (ErrorString (''invalid json: duplicate key '' @ strings_Join q ''.'')))"

lemma json_tokens_not_Nil [simp]: "json_tokens j \<noteq> []"
  by (cases j) auto

lemma More_json_tokens [simp]: "More (json_tokens j @ d)"
  by (cases j) (auto simp: More_def)

lemma objectLoop_tokens:
  assumes "\<And>kv n d path. kv \<in> set kvs \<Longrightarrow> length (json_tokens (snd kv)) \<le> n \<Longrightarrow>
      checkDuplicateKeys n (json_tokens (snd kv) @ d) path = dup_result d (dup_path path (snd kv))"
    and "length (concat (map (\<lambda>kv. StringToken (fst kv) # json_tokens (snd kv)) kvs)) < n"
  shows "objectLoop n seen (concat (map (\<lambda>kv. StringToken (fst kv) # json_tokens (snd kv)) kvs) @ Delim rbrace # rest) path =
    dup_result rest (first_dup_obj path seen (map (\<lambda>kv. (fst kv, dup_path (path @ [fst kv]) (snd kv))) kvs))"
  using assms
proof (induction kvs arbitrary: n seen)
  case Nil
  then obtain m where "n = Suc m" by (cases n) auto
  then show ?case by (simp add: More_def Token_def)
next
  case (Cons kv kvs)
  define E where "E = concat (map (\<lambda>kv. StringToken (fst kv) # json_tokens (snd kv)) kvs)"
  from Cons.prems(2) obtain m where n: "n = Suc m" and m: "length (json_tokens (snd kv)) + length E < m"
    by (cases n) (auto simp: E_def)
  have v: "checkDuplicateKeys m (json_tokens (snd kv) @ E @ Delim rbrace # rest) (path @ [fst kv]) =
      dup_result (E @ Delim rbrace # rest) (dup_path (path @ [fst kv]) (snd kv))"
    using Cons.prems(1) [of kv m] m by simp
  have rest: "objectLoop m seen' (E @ Delim rbrace # rest) path =
    dup_result rest (first_dup_obj path seen' (map (\<lambda>kv. (fst kv, dup_path (path @ [fst kv]) (snd kv))) kvs))" for seen'
    unfolding E_def by (rule Cons.IH) (use Cons.prems(1) m in \<open>auto simp: E_def\<close>)
  show ?case
    by (simp add: n More_def Token_def v rest E_def [symmetric] split: option.splits)
qed

lemma arrayLoop_tokens:
  assumes "\<And>v n d path. v \<in> set vs \<Longrightarrow> length (json_tokens v) \<le> n \<Longrightarrow>
      checkDuplicateKeys n (json_tokens v @ d) path = dup_result d (dup_path path v)"
    and "length (concat (map json_tokens vs)) < n"
  shows "arrayLoop n i (concat (map json_tokens vs) @ Delim rbracket # rest) path =
    dup_result rest (first_Some (map (\<lambda>iv. dup_path (elem_path path (fst iv)) (snd iv)) (enumerate i vs)))"
  using assms
proof (induction vs arbitrary: n i)
  case Nil
  then obtain m where "n = Suc m" by (cases n) auto
  then show ?case by (simp add: More_def Token_def)
next
  case (Cons v vs)
  define E where "E = concat (map json_tokens vs)"
  obtain m where n: "n = Suc m" using Cons.prems(2) by (cases n) auto
  have "length (json_tokens v) \<noteq> 0" by simp
  moreover have "length (json_tokens v) + length E < Suc m"
    using Cons.prems(2) by (simp add: n E_def)
  ultimately have m: "length (json_tokens v) \<le> m" "length E < m" by linarith+
  have v: "checkDuplicateKeys m (json_tokens v @ E @ Delim rbracket # rest) (elem_path path i) =
      dup_result (E @ Delim rbracket # rest) (dup_path (elem_path path i) v)"
    using Cons.prems(1) [of v m] m by simp
  have rest: "arrayLoop m (Suc i) (E @ Delim rbracket # rest) path =
    dup_result rest (first_Some (map (\<lambda>iv. dup_path (elem_path path (fst iv)) (snd iv)) (enumerate (Suc i) vs)))"
    unfolding E_def by (rule Cons.IH) (use Cons.prems(1) m in \<open>auto simp: E_def\<close>)
  show ?case
    by (simp add: n v [simplified] rest [simplified] E_def [symmetric] split: option.splits)
qed

lemma checkDuplicateKeys_tokens:
  "length (json_tokens j) \<le> n \<Longrightarrow>
     checkDuplicateKeys n (json_tokens j @ rest) path = dup_result rest (dup_path path j)"
proof (induction j arbitrary: n rest path)
  case JScalar
  then show ?case by (cases n) (simp_all add: Token_def)
next
  case (JString s)
  then show ?case by (cases n) (simp_all add: Token_def)
next
  case (JObject kvs)
  from JObject.prems obtain m where n: "n = Suc m"
    and m: "length (concat (map (\<lambda>kv. StringToken (fst kv) # json_tokens (snd kv)) kvs)) < m"
    by (cases n) auto
  have "checkDuplicateKeys n (json_tokens (snd kv) @ d) path = dup_result d (dup_path path (snd kv))"
    if "kv \<in> set kvs" "length (json_tokens (snd kv)) \<le> n" for kv n d path
    by (rule JObject.IH [OF that(1) _ that(2)]) (cases kv, simp)
  from objectLoop_tokens [OF this m] show ?case
    by (simp add: n Token_def)
next
  case (JArray vs)
  from JArray.prems obtain m where n: "n = Suc m" and m: "length (concat (map json_tokens vs)) < m"
    by (cases n) auto
  from arrayLoop_tokens [OF JArray.IH m] show ?case
    by (simp add: n Token_def)
qed

lemma first_dup_obj_None:
  "first_dup_obj path seen rs = None \<longleftrightarrow>
     distinct (map fst rs) \<and> (\<forall>k\<in>set (map fst rs). \<not> seen k) \<and> (\<forall>r\<in>set rs. snd r = None)"
proof (induction rs arbitrary: seen)
  case (Cons r rs)
  obtain k q where r: "r = (k, q)" by (cases r)
  have "(\<forall>k'\<in>set (map fst rs). \<not> (seen(k := True)) k') \<longleftrightarrow>
      k \<notin> set (map fst rs) \<and> (\<forall>k'\<in>set (map fst rs). \<not> seen k')"
    by (metis fun_upd_apply)
  with Cons.IH [of "seen(k := True)"] show ?case by (cases q) (auto simp: r simp del: fun_upd_apply)
qed simp

lemma first_Some_None: "first_Some rs = None \<longleftrightarrow> (\<forall>r\<in>set rs. r = None)"
  by (induction rs) (auto split: option.splits)

lemma dup_path_None: "dup_path path j = None \<longleftrightarrow> unique_keys j"
proof (induction j arbitrary: path)
  case (JObject kvs)
  then have IH: "dup_path p (snd kv) = None \<longleftrightarrow> unique_keys (snd kv)" if "kv \<in> set kvs" for kv p
    by (cases kv) (use that in auto)
  show ?case by (auto simp: first_dup_obj_None comp_def IH list_all_iff)
next
  case (JArray vs)
  have "(\<forall>iv\<in>set (enumerate 0 vs). dup_path (elem_path path (fst iv)) (snd iv) = None) \<longleftrightarrow>
      (\<forall>v\<in>set vs. unique_keys v)"
  proof -
    have "dup_path (elem_path path (fst iv)) (snd iv) = None \<longleftrightarrow> unique_keys (snd iv)"
      if "iv \<in> set (enumerate 0 vs)" for iv
    proof (rule JArray)
      from that have "snd iv \<in> set (map snd (enumerate 0 vs))" unfolding set_map by (rule imageI)
      then show "snd iv \<in> set vs" by simp
    qed
    then have "(\<forall>iv\<in>set (enumerate 0 vs). dup_path (elem_path path (fst iv)) (snd iv) = None) \<longleftrightarrow>
        (\<forall>v\<in>set (map snd (enumerate 0 vs)). unique_keys v)" unfolding set_map by blast
    then show ?thesis by (simp only: map_snd_enumerate)
  qed
  then show ?case by (simp add: first_Some_None list_all_iff)
qed simp_all

subsection \<open>Properties\<close>

text \<open>
  C27.  On the token stream of a JSON value, \<open>checkDuplicateKeys\<close> with fuel for its tokens
  returns (it neither panics nor runs out): it accepts and leaves exactly the tokens behind the
  value when no object in it repeats a key, and otherwise reports the path of the first repeated
  key in the order of the text.
\<close>

theorem checkDuplicateKeys_correct:
  assumes "length (json_tokens j) \<le> n"
  shows "if unique_keys j then checkDuplicateKeys n (json_tokens j @ rest) path = Some (Inr rest)
    else \<exists>p. dup_path path j = Some p \<and> checkDuplicateKeys n (json_tokens j @ rest) path =
      Some (Inl (ErrorString (''invalid json: duplicate key '' @ strings_Join p ''.'')))"
  using checkDuplicateKeys_tokens [OF assms, of rest path] dup_path_None [of path j] by auto

definition nested_dup :: json where
  "nested_dup = JObject [(''a'', JArray [JScalar, JObject [(''k'', JScalar), (''k'', JString ''v'')]])]"

theorem checkDuplicateKeys_correct_witness:
  "\<not> unique_keys nested_dup \<and>
   checkDuplicateKeys 20 (json_tokens nested_dup) [] =
     Some (Inl (ErrorString ''invalid json: duplicate key a.[1].k''))"
proof -
  have len: "length (json_tokens nested_dup) \<le> 20" by (simp add: nested_dup_def)
  have u: "\<not> unique_keys nested_dup" by (simp add: nested_dup_def)
  have p: "dup_path [] nested_dup = Some [''a'', ''[1]'', ''k'']"
    by (simp add: nested_dup_def strconv_Itoa_def nat_digits.simps [of "Suc 0"] char_of_def bit_Suc_0_iff)
  from checkDuplicateKeys_correct [OF len, of "[]" "[]"] u p show ?thesis by simp
qed

lemma validJson_eq:
  "validJson pj data =
     Some (case pj data of
       None \<Rightarrow> Inl (ErrorString ''invalid json'')
     | Some j \<Rightarrow> (case dup_path [] j of None \<Rightarrow> Inr ()
         | Some p \<Rightarrow> Inl (ErrorString (''invalid json: duplicate key '' @ strings_Join p ''.''))))"
proof (cases "pj data")
  case (Some j)
  from checkDuplicateKeys_tokens [of j "length (json_tokens j)" "[]" "[]"] Some show ?thesis
    by (simp add: validJson_def split: option.splits)
qed (simp add: validJson_def)

lemma RequestBodyToBytes_total: "RequestBodyToBytes lib req \<noteq> None"
  by (auto simp: RequestBodyToBytes_def validJson_eq split: sum.splits option.splits)

text \<open>
  C28.  The body of a write request reaches its handler exactly when its content type is
  supported, it can be read and, for a JSON content type (also the one assumed when the header is
  missing), it is valid JSON without repeated keys; the handler then sees the body unchanged.
\<close>

theorem convertToWebRequest_accepts:
  assumes "hr_Method req \<in> {''PUT'', ''POST'', ''PATCH''}"
  shows "convertToWebRequest lib req = Some (Inr body) \<longleftrightarrow>
    hr_Body req = Inr body \<and>
    (\<exists>ct h. validateContentTypeIsSupported (ParseMediaType lib) (hr_ContentType req) = Inr (ct, h) \<and>
      (ct = jsonContentType \<longrightarrow> (\<exists>j. parse lib body = Some j \<and> unique_keys j)))"
  using assms
  by (auto simp: convertToWebRequest_def RequestBodyToBytes_def validJson_eq dup_path_None [of "[]", symmetric]
      split: sum.splits option.splits if_splits)

definition example_lib :: json_lib where
  "example_lib = \<lparr>parse = (\<lambda>s. if s = ''{}'' then Some (JObject []) else None),
     ParseMediaType = (\<lambda>s. Inr s)\<rparr>"

definition example_request :: http_request where
  "example_request = \<lparr>hr_Method = ''POST'', hr_ContentType = '''', hr_Body = Inr ''{}''\<rparr>"

theorem convertToWebRequest_accepts_witness:
  "convertToWebRequest example_lib example_request = Some (Inr ''{}'')"
proof -
  have "hr_Method example_request \<in> {''PUT'', ''POST'', ''PATCH''}" by (simp add: example_request_def)
  from convertToWebRequest_accepts [OF this, of example_lib "''{}''"] show ?thesis
    by (simp add: example_request_def example_lib_def validateContentTypeIsSupported_def)
qed

text \<open>The status codes written for one request, in order.\<close>

definition statuses :: "http_write list \<Rightarrow> int list" where
  "statuses ws = concat (map (\<lambda>w. case w of WriteHeader c \<Rightarrow> [c] | _ \<Rightarrow> []) ws)"

lemma statuses_simps [simp]:
  "statuses [] = []" "statuses (ws @ ws') = statuses ws @ statuses ws'"
  "statuses (WriteHeader c # ws) = c # statuses ws" "statuses (SetHeader k v # ws) = statuses ws"
  "statuses (WriteBytes b # ws) = statuses ws" "statuses (WriteErrorJSON h # ws) = statuses ws"
  by (simp_all add: statuses_def)

lemma statuses_headers [simp]: "statuses (map (\<lambda>(k, v). SetHeader k v) kvs) = []"
  by (induction kvs) auto

lemma statuses_WriteError [simp]: "statuses (WriteError e) = [StatusCode (ToHTTPError e)]"
  by (simp add: WriteError_def Let_def)



text \<open>
  When the routes can be registered, each route of each controller is registered once, in
  order, and its handler is the route's own handler inside exactly the filters that run at its
  endpoint, in the order in which they are registered.
\<close>

theorem registerControllers_routes:
  assumes "registerControllers config api = Inr regs"
  shows "map reg_Endpoint regs = map rt_Endpoint (concat (Controllers api)) \<and>
    map reg_Handler regs =
      map (\<lambda>r. Chain (filter (runs_at (rt_Endpoint r)) (Filters api)) (rt_Handler r)) (concat (Controllers api))"
proof -
  have route: "reg_Endpoint r = rt_Endpoint route \<and>
      reg_Handler r = Chain (filter (runs_at (rt_Endpoint route)) (Filters api)) (rt_Handler route)"
    if "registerRoute config api route = Inr r" for route r
    using that by (auto simp: registerRoute_def try_then_Inr_iff ChainMatching_def dest!: Filters_Matching_Inr
        split: sum.splits)
  have "map reg_Endpoint rs = map rt_Endpoint routes \<and> map reg_Handler rs =
      map (\<lambda>r. Chain (filter (runs_at (rt_Endpoint r)) (Filters api)) (rt_Handler r)) routes"
    if "registerRoutes config api routes = Inr rs" for routes rs
    using that
  proof (induction routes arbitrary: rs)
    case (Cons route routes)
    then obtain r rs' where "registerRoute config api route = Inr r" "registerRoutes config api routes = Inr rs'"
      "rs = r # rs'" by (auto simp: try_then_Inr_iff)
    with Cons.IH route show ?case by simp
  qed simp
  from this [of "concat (Controllers api)" regs] assms show ?thesis by (simp add: registerControllers_def)
qed

definition small_server :: "(nat, nat list) API" where
  "small_server = small_api\<lparr>Controllers := [[trace_route]]\<rparr>"

theorem registerControllers_routes_witness:
  "\<exists>reg. registerControllers \<lparr>RequestTimeout = 3, LongRequestTimeout = 0\<rparr> small_server = Inr [reg] \<and>
     reg_Handler reg 7 = [1, 2, 7]"
proof -
  obtain reg where reg: "registerControllers \<lparr>RequestTimeout = 3, LongRequestTimeout = 0\<rparr> small_server = Inr [reg]"
    by (simp add: registerControllers_def registerRoute_def small_server_def small_api_def trace_route_def
        ChainMatching_def named_filter_def)
  from registerControllers_routes [OF reg] reg show ?thesis
    by (simp add: small_server_def small_api_def trace_route_def runs_at_def named_filter_def
        web_chain.chain_Cons web_chain.chain_Nil)
qed

end
