(* ===== verification/Objects.thy ===== *)
theory Objects
  imports Labels Query
begin

text \<open>
  The stored objects (\<open>src/pkg/types/base.go\<close>, \<open>interfaces.go\<close>, \<open>operation.go\<close>,
  \<open>notification.go\<close>) and the operation a request context carries
  (\<open>src/operations/opcontext/context.go\<close>).

  Every object embeds \<open>Base\<close>.  Operations, notifications and the resources of the
  API have all their fields; \<open>ResourceObject\<close> stands for objects of other types, with the type and
  the remaining contents as a text.  Times are integers, the zero time
  is 0.  Labels are maps from keys to value lists: what \<open>ApplyLabelChangesToLabels_refines\<close> shows
  the slices to represent.  \<open>Errors\<close>, the JSON text of an HTTP error, is that error.  The field
  \<open>LastOperation\<close>, which only the listing of resources fills for the client, is left out.
\<close>

type_synonym ObjectType = string

text \<open>The method \<open>String\<close>, which the verb \<open>%s\<close> calls.\<close>

definition ObjectType_String :: "ObjectType \<Rightarrow> string" where
  "ObjectType_String ot = (if strings_HasPrefix ot ''types.'' then drop (length ''types.'') ot else ot)"

definition OperationType :: ObjectType where "OperationType = ''/v1/operations''"
definition NotificationType :: ObjectType where "NotificationType = ''/v1/notifications''"
definition PlatformType :: ObjectType where "PlatformType = ''/v1/platforms''"
definition ServicePlanType :: ObjectType where "ServicePlanType = ''/v1/service_plans''"
definition ServiceOfferingType :: ObjectType where "ServiceOfferingType = ''/v1/service_offerings''"
definition ServiceBrokerType :: ObjectType where "ServiceBrokerType = ''/v1/service_brokers''"
definition ServiceInstanceType :: ObjectType where "ServiceInstanceType = ''/v1/service_instances''"
definition ServiceBindingType :: ObjectType where "ServiceBindingType = ''/v1/service_bindings''"
definition BrokerPlatformCredentialType :: ObjectType where "BrokerPlatformCredentialType = ''/v1/credentials''"
definition VisibilityType :: ObjectType where "VisibilityType = ''/v1/visibilities''"
definition TenantType :: ObjectType where "TenantType = ''/v1/tenants''"

lemmas type_names = OperationType_def NotificationType_def PlatformType_def ServicePlanType_def
  ServiceOfferingType_def ServiceBrokerType_def ServiceInstanceType_def ServiceBindingType_def
  BrokerPlatformCredentialType_def VisibilityType_def TenantType_def

record Base =
  ID :: string
  CreatedAt :: int
  UpdatedAt :: int
  Labels :: label_map
  PagingSequence :: int
  Ready :: bool

type_synonym OperationCategory = string

definition CREATE :: OperationCategory where "CREATE = ''create''"
definition UPDATE :: OperationCategory where "UPDATE = ''update''"
definition DELETE :: OperationCategory where "DELETE = ''delete''"

type_synonym OperationState = string

definition PENDING :: OperationState where "PENDING = ''pending''"
definition SUCCEEDED :: OperationState where "SUCCEEDED = ''succeeded''"
definition IN_PROGRESS :: OperationState where "IN_PROGRESS = ''in progress''"
definition FAILED :: OperationState where "FAILED = ''failed''"

lemma operation_constants [simp]:
  "CREATE \<noteq> UPDATE" "CREATE \<noteq> DELETE" "UPDATE \<noteq> DELETE" "UPDATE \<noteq> CREATE" "DELETE \<noteq> CREATE" "DELETE \<noteq> UPDATE"
  "PENDING \<noteq> SUCCEEDED" "PENDING \<noteq> IN_PROGRESS" "PENDING \<noteq> FAILED" "SUCCEEDED \<noteq> PENDING"
  "SUCCEEDED \<noteq> IN_PROGRESS" "SUCCEEDED \<noteq> FAILED" "IN_PROGRESS \<noteq> PENDING" "IN_PROGRESS \<noteq> SUCCEEDED"
  "IN_PROGRESS \<noteq> FAILED" "FAILED \<noteq> PENDING" "FAILED \<noteq> SUCCEEDED" "FAILED \<noteq> IN_PROGRESS"
  "CREATE \<noteq> ''''" "UPDATE \<noteq> ''''" "DELETE \<noteq> ''''"
  "PENDING \<noteq> ''''" "SUCCEEDED \<noteq> ''''" "IN_PROGRESS \<noteq> ''''" "FAILED \<noteq> ''''"
  by (simp_all add: CREATE_def UPDATE_def DELETE_def PENDING_def SUCCEEDED_def IN_PROGRESS_def FAILED_def)

record RelatedType =
  rel_ID :: string
  rel_Criteria :: "Criterion list"
  rel_Type :: ObjectType
  rel_OperationType :: OperationCategory

record OperationContext =
  Async :: bool
  IsAsyncNotDefined :: bool
  Cascade :: bool
  ServicePlanID :: string
  ServiceInstanceID :: string
  UserInfo :: "(string \<times> string) option"
  Params :: "string \<rightharpoonup> string"

record Operation = Base +
  op_Description :: string
  op_Type :: OperationCategory
  op_State :: OperationState
  ResourceID :: string
  TransitiveResources :: "RelatedType list"
  ResourceType :: ObjectType
  op_Errors :: "http_error option"
  op_PlatformID :: string
  CorrelationID :: string
  ExternalID :: string
  ParentID :: string
  CascadeRootID :: string
  op_Context :: "OperationContext option"
  Reschedule :: bool
  RescheduleTimestamp :: int
  DeletionScheduled :: int

type_synonym NotificationOperation = string

definition CREATED :: NotificationOperation where "CREATED = ''CREATED''"
definition MODIFIED :: NotificationOperation where "MODIFIED = ''MODIFIED''"
definition DELETED :: NotificationOperation where "DELETED = ''DELETED''"

definition InvalidRevision :: int where "InvalidRevision = -1"

record Notification = Base +
  n_Resource :: ObjectType
  n_Type :: NotificationOperation
  n_PlatformID :: string
  n_Revision :: int
  n_Payload :: string
  n_CorrelationID :: string

text \<open>
  The resources.  A \<open>json.RawMessage\<close> is \<open>None\<close> when nil, since \<open>reflect.DeepEqual\<close> tells a nil
  from an empty slice.  \<open>Shared\<close> is a pointer, compared as such: the address and the value.
  \<open>UpdateValues\<close> and parameters are kept as texts.
\<close>

type_synonym json_raw = "string option"

record Basic =
  Username :: string
  Password :: string

record TLS =
  Certificate :: string
  Key :: string
  SMProvidedCredentials :: bool

record Credentials =
  cr_Basic :: "Basic option"
  cr_TLS :: "TLS option"
  cr_Integrity :: string

record Platform = Base +
  p_Type :: string
  p_Name :: string
  p_Description :: string
  p_Credentials :: "Credentials option"
  p_OldCredentials :: "Credentials option"
  p_Version :: string
  p_Active :: bool
  p_Suspended :: bool
  p_LastActive :: int
  p_Integrity :: string
  p_CredentialsActive :: bool
  p_Technical :: bool

record ServicePlan = Base +
  sp_Name :: string
  sp_Description :: string
  sp_CatalogID :: string
  sp_CatalogName :: string
  sp_Free :: "bool option"
  sp_Bindable :: "bool option"
  sp_PlanUpdatable :: "bool option"
  sp_Metadata :: json_raw
  sp_Schemas :: json_raw
  sp_MaximumPollingDuration :: int
  sp_MaintenanceInfo :: json_raw
  sp_ServiceOfferingID :: string

record ServiceOffering = Base +
  so_Name :: string
  so_Description :: string
  so_Bindable :: bool
  so_InstancesRetrievable :: bool
  so_BindingsRetrievable :: bool
  so_PlanUpdatable :: bool
  so_AllowContextUpdates :: bool
  so_Tags :: json_raw
  so_Requires :: json_raw
  so_Metadata :: json_raw
  so_BrokerID :: string
  so_CatalogID :: string
  so_CatalogName :: string
  so_Plans :: "ServicePlan list"

record ServiceBroker = Base +
  sb_Name :: string
  sb_Description :: string
  sb_BrokerURL :: string
  sb_Credentials :: "Credentials option"
  sb_Catalog :: json_raw
  sb_Services :: "ServiceOffering list"

record ServiceInstance = Base +
  si_Name :: string
  si_ServicePlanID :: string
  si_ReferencedInstanceID :: string
  si_PlatformID :: string
  si_DashboardURL :: string
  si_MaintenanceInfo :: json_raw
  si_Context :: json_raw
  si_UpdateValues :: string
  si_PreviousValues :: json_raw
  si_Parameters :: string
  si_Usable :: bool
  si_Shared :: "(nat \<times> bool) option"

record ServiceBinding = Base +
  bd_Name :: string
  bd_ServiceInstanceID :: string
  bd_SyslogDrainURL :: string
  bd_RouteServiceURL :: string
  bd_VolumeMounts :: json_raw
  bd_Endpoints :: json_raw
  bd_Context :: json_raw
  bd_BindResource :: json_raw
  bd_Credentials :: json_raw
  bd_Parameters :: string
  bd_Integrity :: string

record BrokerPlatformCredential = Base +
  bpc_Username :: string
  bpc_PasswordHash :: string
  bpc_OldUsername :: string
  bpc_OldPasswordHash :: string
  bpc_PlatformID :: string
  bpc_BrokerID :: string
  bpc_NotificationID :: string
  bpc_Integrity :: string
  bpc_Active :: bool

record Visibility = Base +
  v_PlatformID :: string
  v_ServicePlanID :: string

record resource = Base +
  res_Type :: ObjectType
  res_Data :: string

datatype Object =
    OperationObject Operation
  | NotificationObject Notification
  | PlatformObject Platform
  | ServicePlanObject ServicePlan
  | ServiceOfferingObject ServiceOffering
  | ServiceBrokerObject ServiceBroker
  | ServiceInstanceObject ServiceInstance
  | ServiceBindingObject ServiceBinding
  | BrokerPlatformCredentialObject BrokerPlatformCredential
  | VisibilityObject Visibility
  | ResourceObject resource

primrec GetID :: "Object \<Rightarrow> string" where
  "GetID (OperationObject p) = ID p"
| "GetID (NotificationObject n) = ID n"
| "GetID (PlatformObject x) = ID x"
| "GetID (ServicePlanObject x) = ID x"
| "GetID (ServiceOfferingObject x) = ID x"
| "GetID (ServiceBrokerObject x) = ID x"
| "GetID (ServiceInstanceObject x) = ID x"
| "GetID (ServiceBindingObject x) = ID x"
| "GetID (BrokerPlatformCredentialObject x) = ID x"
| "GetID (VisibilityObject x) = ID x"
| "GetID (ResourceObject r) = ID r"

primrec GetType :: "Object \<Rightarrow> ObjectType" where
  "GetType (OperationObject p) = OperationType"
| "GetType (NotificationObject n) = NotificationType"
| "GetType (PlatformObject x) = PlatformType"
| "GetType (ServicePlanObject x) = ServicePlanType"
| "GetType (ServiceOfferingObject x) = ServiceOfferingType"
| "GetType (ServiceBrokerObject x) = ServiceBrokerType"
| "GetType (ServiceInstanceObject x) = ServiceInstanceType"
| "GetType (ServiceBindingObject x) = ServiceBindingType"
| "GetType (BrokerPlatformCredentialObject x) = BrokerPlatformCredentialType"
| "GetType (VisibilityObject x) = VisibilityType"
| "GetType (ResourceObject r) = res_Type r"

primrec GetLabels :: "Object \<Rightarrow> label_map" where
  "GetLabels (OperationObject p) = Labels p"
| "GetLabels (NotificationObject n) = Labels n"
| "GetLabels (PlatformObject x) = Labels x"
| "GetLabels (ServicePlanObject x) = Labels x"
| "GetLabels (ServiceOfferingObject x) = Labels x"
| "GetLabels (ServiceBrokerObject x) = Labels x"
| "GetLabels (ServiceInstanceObject x) = Labels x"
| "GetLabels (ServiceBindingObject x) = Labels x"
| "GetLabels (BrokerPlatformCredentialObject x) = Labels x"
| "GetLabels (VisibilityObject x) = Labels x"
| "GetLabels (ResourceObject r) = Labels r"

primrec SetLabels :: "label_map \<Rightarrow> Object \<Rightarrow> Object" where
  "SetLabels l (OperationObject p) = OperationObject (p\<lparr>Labels := l\<rparr>)"
| "SetLabels l (NotificationObject n) = NotificationObject (n\<lparr>Labels := l\<rparr>)"
| "SetLabels l (PlatformObject x) = PlatformObject (x\<lparr>Labels := l\<rparr>)"
| "SetLabels l (ServicePlanObject x) = ServicePlanObject (x\<lparr>Labels := l\<rparr>)"
| "SetLabels l (ServiceOfferingObject x) = ServiceOfferingObject (x\<lparr>Labels := l\<rparr>)"
| "SetLabels l (ServiceBrokerObject x) = ServiceBrokerObject (x\<lparr>Labels := l\<rparr>)"
| "SetLabels l (ServiceInstanceObject x) = ServiceInstanceObject (x\<lparr>Labels := l\<rparr>)"
| "SetLabels l (ServiceBindingObject x) = ServiceBindingObject (x\<lparr>Labels := l\<rparr>)"
| "SetLabels l (BrokerPlatformCredentialObject x) = BrokerPlatformCredentialObject (x\<lparr>Labels := l\<rparr>)"
| "SetLabels l (VisibilityObject x) = VisibilityObject (x\<lparr>Labels := l\<rparr>)"
| "SetLabels l (ResourceObject r) = ResourceObject (r\<lparr>Labels := l\<rparr>)"

primrec GetCreatedAt :: "Object \<Rightarrow> int" where
  "GetCreatedAt (OperationObject p) = CreatedAt p"
| "GetCreatedAt (NotificationObject n) = CreatedAt n"
| "GetCreatedAt (PlatformObject x) = CreatedAt x"
| "GetCreatedAt (ServicePlanObject x) = CreatedAt x"
| "GetCreatedAt (ServiceOfferingObject x) = CreatedAt x"
| "GetCreatedAt (ServiceBrokerObject x) = CreatedAt x"
| "GetCreatedAt (ServiceInstanceObject x) = CreatedAt x"
| "GetCreatedAt (ServiceBindingObject x) = CreatedAt x"
| "GetCreatedAt (BrokerPlatformCredentialObject x) = CreatedAt x"
| "GetCreatedAt (VisibilityObject x) = CreatedAt x"
| "GetCreatedAt (ResourceObject r) = CreatedAt r"

primrec SetUpdatedAt :: "int \<Rightarrow> Object \<Rightarrow> Object" where
  "SetUpdatedAt t (OperationObject p) = OperationObject (p\<lparr>UpdatedAt := t\<rparr>)"
| "SetUpdatedAt t (NotificationObject n) = NotificationObject (n\<lparr>UpdatedAt := t\<rparr>)"
| "SetUpdatedAt t (PlatformObject x) = PlatformObject (x\<lparr>UpdatedAt := t\<rparr>)"
| "SetUpdatedAt t (ServicePlanObject x) = ServicePlanObject (x\<lparr>UpdatedAt := t\<rparr>)"
| "SetUpdatedAt t (ServiceOfferingObject x) = ServiceOfferingObject (x\<lparr>UpdatedAt := t\<rparr>)"
| "SetUpdatedAt t (ServiceBrokerObject x) = ServiceBrokerObject (x\<lparr>UpdatedAt := t\<rparr>)"
| "SetUpdatedAt t (ServiceInstanceObject x) = ServiceInstanceObject (x\<lparr>UpdatedAt := t\<rparr>)"
| "SetUpdatedAt t (ServiceBindingObject x) = ServiceBindingObject (x\<lparr>UpdatedAt := t\<rparr>)"
| "SetUpdatedAt t (BrokerPlatformCredentialObject x) = BrokerPlatformCredentialObject (x\<lparr>UpdatedAt := t\<rparr>)"
| "SetUpdatedAt t (VisibilityObject x) = VisibilityObject (x\<lparr>UpdatedAt := t\<rparr>)"
| "SetUpdatedAt t (ResourceObject r) = ResourceObject (r\<lparr>UpdatedAt := t\<rparr>)"

primrec SetReady :: "bool \<Rightarrow> Object \<Rightarrow> Object" where
  "SetReady b (OperationObject p) = OperationObject (p\<lparr>Ready := b\<rparr>)"
| "SetReady b (NotificationObject n) = NotificationObject (n\<lparr>Ready := b\<rparr>)"
| "SetReady b (PlatformObject x) = PlatformObject (x\<lparr>Ready := b\<rparr>)"
| "SetReady b (ServicePlanObject x) = ServicePlanObject (x\<lparr>Ready := b\<rparr>)"
| "SetReady b (ServiceOfferingObject x) = ServiceOfferingObject (x\<lparr>Ready := b\<rparr>)"
| "SetReady b (ServiceBrokerObject x) = ServiceBrokerObject (x\<lparr>Ready := b\<rparr>)"
| "SetReady b (ServiceInstanceObject x) = ServiceInstanceObject (x\<lparr>Ready := b\<rparr>)"
| "SetReady b (ServiceBindingObject x) = ServiceBindingObject (x\<lparr>Ready := b\<rparr>)"
| "SetReady b (BrokerPlatformCredentialObject x) = BrokerPlatformCredentialObject (x\<lparr>Ready := b\<rparr>)"
| "SetReady b (VisibilityObject x) = VisibilityObject (x\<lparr>Ready := b\<rparr>)"
| "SetReady b (ResourceObject r) = ResourceObject (r\<lparr>Ready := b\<rparr>)"

primrec GetReady :: "Object \<Rightarrow> bool" where
  "GetReady (OperationObject p) = Ready p"
| "GetReady (NotificationObject n) = Ready n"
| "GetReady (PlatformObject x) = Ready x"
| "GetReady (ServicePlanObject x) = Ready x"
| "GetReady (ServiceOfferingObject x) = Ready x"
| "GetReady (ServiceBrokerObject x) = Ready x"
| "GetReady (ServiceInstanceObject x) = Ready x"
| "GetReady (ServiceBindingObject x) = Ready x"
| "GetReady (BrokerPlatformCredentialObject x) = Ready x"
| "GetReady (VisibilityObject x) = Ready x"
| "GetReady (ResourceObject r) = Ready r"

lemma object_updates [simp]:
  "GetID (SetLabels l ob) = GetID ob" "GetID (SetUpdatedAt t ob) = GetID ob" "GetID (SetReady b ob) = GetID ob"
  "GetType (SetLabels l ob) = GetType ob" "GetType (SetUpdatedAt t ob) = GetType ob" "GetType (SetReady b ob) = GetType ob"
  "GetLabels (SetLabels l ob) = l" "GetLabels (SetUpdatedAt t ob) = GetLabels ob" "GetLabels (SetReady b ob) = GetLabels ob"
  "GetReady (SetReady b ob) = b" "GetReady (SetLabels l ob) = GetReady ob" "GetReady (SetUpdatedAt t ob) = GetReady ob"
  by (cases ob; simp)+

definition Equals :: "Object \<Rightarrow> Object \<Rightarrow> bool" where
  "Equals obj other =
     (GetID obj = GetID other \<and> GetType obj = GetType other \<and> GetCreatedAt obj = GetCreatedAt other)"

definition Operation_Equals :: "Operation \<Rightarrow> Object \<Rightarrow> bool" where
  "Operation_Equals e obj =
     (Equals (OperationObject e) obj \<and>
      (case obj of
         OperationObject operation \<Rightarrow>
           op_Description e = op_Description operation \<and>
           ResourceID e = ResourceID operation \<and>
           ResourceType e = ResourceType operation \<and>
           CorrelationID e = CorrelationID operation \<and>
           ExternalID e = ExternalID operation \<and>
           op_State e = op_State operation \<and>
           op_Type e = op_Type operation \<and>
           op_PlatformID e = op_PlatformID operation \<and>
           CascadeRootID e = CascadeRootID operation \<and>
           ParentID e = ParentID operation \<and>
           op_Errors e = op_Errors operation \<and>
           TransitiveResources e = TransitiveResources operation
       | ResourceObject _ \<Rightarrow> False))"

definition reservedSymbolsRFC3986 :: string where
  "reservedSymbolsRFC3986 = '':/?#[]@!$&'' @ [CHR 0x27] @ ''()*+,;=''"

definition HasRFC3986ReservedSymbols :: "string \<Rightarrow> bool" where
  "HasRFC3986ReservedSymbols input = list_ex (\<lambda>c. strings_ContainsRune reservedSymbolsRFC3986 c) input"

definition Operation_Validate :: "Operation \<Rightarrow> (error, unit) result" where
  "Operation_Validate e =
     (if HasRFC3986ReservedSymbols (ID e) then Inl (ErrorString (ID e @ '' contains invalid character(s)''))
      else if op_Type e = '''' then Inl (ErrorString ''missing operation type'')
      else if op_State e = '''' then Inl (ErrorString ''missing operation state'')
      else if ResourceID e = '''' then Inl (ErrorString ''missing resource id'')
      else if ResourceType e = '''' then Inl (ErrorString ''missing resource type'')
      else if op_State e = PENDING \<and> CascadeRootID e = '''' then
        Inl (ErrorString ''PENDING state only allowed for cascade operations'')
      else if length (CascadeRootID e) > 0 \<and> length (ParentID e) = 0 \<and> CascadeRootID e \<noteq> ID e then
        Inl (ErrorString ''root operation should have the same CascadeRootID and ID'')
      else Inr ())"

definition InOrphanMitigationState :: "Operation \<Rightarrow> bool" where
  "InOrphanMitigationState e = (DeletionScheduled e \<noteq> 0)"

definition Operation_Sanitize :: "Operation \<Rightarrow> Operation" where
  "Operation_Sanitize e = e\<lparr>op_Context := None\<rparr>"

definition IsForceDeleteCascadeOperation :: "Operation \<Rightarrow> bool" where
  "IsForceDeleteCascadeOperation e =
     (let hasForceLabel =
        (case Labels e ''force'' of
           None \<Rightarrow> False
         | Some forceCascade \<Rightarrow> length forceCascade > 0 \<and> forceCascade ! 0 = ''true'')
      in op_Type e = DELETE \<and> CascadeRootID e \<noteq> '''' \<and> hasForceLabel)"

definition Notification_Equals :: "Notification \<Rightarrow> Object \<Rightarrow> bool" where
  "Notification_Equals e obj =
     (Equals (NotificationObject e) obj \<and>
      (case obj of
         NotificationObject notification \<Rightarrow>
           n_PlatformID e = n_PlatformID notification \<and>
           n_Type e = n_Type notification \<and>
           n_Resource e = n_Resource notification \<and>
           n_Revision e = n_Revision notification \<and>
           n_CorrelationID e = n_CorrelationID notification \<and>
           n_Payload e = n_Payload notification
       | _ \<Rightarrow> False))"

definition Notification_Validate :: "Notification \<Rightarrow> (error, unit) result" where
  "Notification_Validate n =
     (if HasRFC3986ReservedSymbols (ID n) then Inl (ErrorString (ID n @ '' contains invalid character(s)''))
      else if n_Resource n = '''' then Inl (ErrorString ''notification resource missing'')
      else if n_Type n = '''' then Inl (ErrorString ''notification type missing'')
      else Inr ())"

definition ObjectListIDsToStringArray :: "Object list \<Rightarrow> string list" where
  "ObjectListIDsToStringArray objectList = map GetID objectList"

text \<open>The operation of a context.  \<open>opcontext_Set\<close> puts only valid operations there.\<close>

definition opcontext_Set :: "Operation \<Rightarrow> (error, Operation option) result" where
  "opcontext_Set operation = try_then (Operation_Validate operation) (\<lambda>_. Inr (Some operation))"

lemma Operation_Validate_Inr_iff:
  "Operation_Validate e = Inr () \<longleftrightarrow>
     \<not> HasRFC3986ReservedSymbols (ID e) \<and> op_Type e \<noteq> '''' \<and> op_State e \<noteq> '''' \<and>
     ResourceID e \<noteq> '''' \<and> ResourceType e \<noteq> '''' \<and>
     (op_State e = PENDING \<longrightarrow> CascadeRootID e \<noteq> '''') \<and>
     (CascadeRootID e \<noteq> '''' \<longrightarrow> ParentID e = '''' \<longrightarrow> CascadeRootID e = ID e)"
  by (auto simp: Operation_Validate_def)

end
