(* ===== verification/Interceptors.thy ===== *)
theory Interceptors
  imports Objects Chains
begin

text \<open>
  The registry of storage interceptors of \<open>InterceptableTransactionalRepository\<close>
  (\<open>src/storage/interceptable_repository.go\<close>) and the chains it provides
  (\<open>src/storage/interceptors_create.go\<close>, \<open>interceptors_update.go\<close>, \<open>interceptors_delete.go\<close>).

  The source has the same code three times, for the interceptors on create, update and delete.
  The record \<open>registry\<close> is one of the three groups of fields; the functions on it are instantiated
  for the three groups.  An interceptor is the function it puts around the next one
  (\<open>AroundTxCreate\<close>, \<open>OnTxCreate\<close>, ...), a provider is its name and what \<open>Provide\<close> returns.
\<close>

subsection \<open>Positions\<close>

datatype PositionType = PositionNone | PositionBefore | PositionAfter

record InterceptorPosition =
  ip_PositionType :: PositionType
  ip_Name :: string

record InterceptorOrder =
  OnTxPosition :: InterceptorPosition
  AroundTxPosition :: InterceptorPosition

datatype registry_panic =
    AlreadyRegistered string
  | InterceptorNotFound string
  | HookNotFound string

text \<open>\<open>None\<close> is the position \<open>-1\<close>.\<close>

definition findName :: "string list \<Rightarrow> string \<Rightarrow> nat option" where
  "findName names existingInterceptorName = find_index (\<lambda>name. name = existingInterceptorName) names"

definition insertName ::
  "string list \<Rightarrow> InterceptorPosition \<Rightarrow> string \<Rightarrow> (registry_panic, string list) result" where
  "insertName names position newInterceptorName =
     (if ip_PositionType position = PositionNone then Inr (names @ [newInterceptorName])
      else
        (case findName names (ip_Name position) of
           None \<Rightarrow> Inl (HookNotFound (ip_Name position))
         | Some pos0 \<Rightarrow>
             (let pos = (if ip_PositionType position = PositionAfter then pos0 + 1 else pos0)
              in Inr ((go_copy (names @ ['''']) (pos + 1) pos)[pos := newInterceptorName]))))"

subsection \<open>The registry\<close>

record ('ar, 'on) registry =
  orderedAroundTxProvidersNames :: "ObjectType \<rightharpoonup> string list"
  orderedOnTxProvidersNames :: "ObjectType \<rightharpoonup> string list"
  providers :: "ObjectType \<rightharpoonup> (string \<rightharpoonup> InterceptorOrder \<times> ('ar \<Rightarrow> 'ar) \<times> ('on \<Rightarrow> 'on))"
  aroundTxProviders :: "ObjectType \<rightharpoonup> (string \<rightharpoonup> InterceptorOrder \<times> ('ar \<Rightarrow> 'ar))"
  onTxProviders :: "ObjectType \<rightharpoonup> (string \<rightharpoonup> InterceptorOrder \<times> ('on \<Rightarrow> 'on))"

definition new_registry :: "('ar, 'on) registry" where
  "new_registry = \<lparr>orderedAroundTxProvidersNames = Map.empty, orderedOnTxProvidersNames = Map.empty,
     providers = Map.empty, aroundTxProviders = Map.empty, onTxProviders = Map.empty\<rparr>"

text \<open>Reading a nil or missing inner map, and a missing slice of names.\<close>

definition inner_map :: "('k \<rightharpoonup> (string \<rightharpoonup> 'v)) \<Rightarrow> 'k \<Rightarrow> string \<rightharpoonup> 'v" where
  "inner_map m k = (case m k of None \<Rightarrow> Map.empty | Some f \<Rightarrow> f)"

definition names_of :: "('k \<rightharpoonup> string list) \<Rightarrow> 'k \<Rightarrow> string list" where
  "names_of m k = (case m k of None \<Rightarrow> [] | Some ns \<Rightarrow> ns)"

text \<open>
  The keys of the three inner maps are the names of the providers, so the existing names are
  their keys.
\<close>

definition providerExists :: "('ar, 'on) registry \<Rightarrow> ObjectType \<Rightarrow> string \<Rightarrow> bool" where
  "providerExists r objectType name =
     (inner_map (aroundTxProviders r) objectType name \<noteq> None \<or>
      inner_map (onTxProviders r) objectType name \<noteq> None \<or>
      inner_map (providers r) objectType name \<noteq> None)"

definition validateProviderOrder ::
  "InterceptorOrder \<Rightarrow> (string \<Rightarrow> bool) \<Rightarrow> string \<Rightarrow> (registry_panic, unit) result" where
  "validateProviderOrder order exists providerName =
     (if exists providerName then Inl (AlreadyRegistered providerName)
      else if ip_PositionType (AroundTxPosition order) \<noteq> PositionNone \<and> \<not> exists (ip_Name (AroundTxPosition order)) then
        Inl (InterceptorNotFound (ip_Name (AroundTxPosition order)))
      else if ip_PositionType (OnTxPosition order) \<noteq> PositionNone \<and> \<not> exists (ip_Name (OnTxPosition order)) then
        Inl (InterceptorNotFound (ip_Name (OnTxPosition order)))
      else Inr ())"

definition validateProviders ::
  "ObjectType \<Rightarrow> string \<Rightarrow> InterceptorOrder \<Rightarrow> ('ar, 'on) registry \<Rightarrow> (registry_panic, unit) result" where
  "validateProviders objectType providerName order r =
     validateProviderOrder order (providerExists r objectType) providerName"

definition addAroundTx ::
  "ObjectType \<Rightarrow> string \<Rightarrow> ('ar \<Rightarrow> 'ar) \<Rightarrow> InterceptorOrder \<Rightarrow> ('ar, 'on) registry \<Rightarrow>
   (registry_panic, ('ar, 'on) registry) result" where
  "addAroundTx objectType name interceptor order r =
     try_then (validateProviders objectType name order r) (\<lambda>_.
       try_then (insertName (names_of (orderedAroundTxProvidersNames r) objectType) (AroundTxPosition order) name)
         (\<lambda>names.
           Inr (r\<lparr>orderedAroundTxProvidersNames := (orderedAroundTxProvidersNames r)(objectType \<mapsto> names),
                  aroundTxProviders := (aroundTxProviders r)
                    (objectType \<mapsto> (inner_map (aroundTxProviders r) objectType)(name \<mapsto> (order, interceptor)))\<rparr>)))"

definition addOnTx ::
  "ObjectType \<Rightarrow> string \<Rightarrow> ('on \<Rightarrow> 'on) \<Rightarrow> InterceptorOrder \<Rightarrow> ('ar, 'on) registry \<Rightarrow>
   (registry_panic, ('ar, 'on) registry) result" where
  "addOnTx objectType name interceptor order r =
     try_then (validateProviders objectType name order r) (\<lambda>_.
       try_then (insertName (names_of (orderedOnTxProvidersNames r) objectType) (OnTxPosition order) name)
         (\<lambda>names.
           Inr (r\<lparr>orderedOnTxProvidersNames := (orderedOnTxProvidersNames r)(objectType \<mapsto> names),
                  onTxProviders := (onTxProviders r)
                    (objectType \<mapsto> (inner_map (onTxProviders r) objectType)(name \<mapsto> (order, interceptor)))\<rparr>)))"

definition addBoth ::
  "ObjectType \<Rightarrow> string \<Rightarrow> ('ar \<Rightarrow> 'ar) \<times> ('on \<Rightarrow> 'on) \<Rightarrow> InterceptorOrder \<Rightarrow> ('ar, 'on) registry \<Rightarrow>
   (registry_panic, ('ar, 'on) registry) result" where
  "addBoth objectType name interceptor order r =
     try_then (validateProviders objectType name order r) (\<lambda>_.
       try_then (insertName (names_of (orderedAroundTxProvidersNames r) objectType) (AroundTxPosition order) name)
         (\<lambda>aroundNames.
           try_then (insertName (names_of (orderedOnTxProvidersNames r) objectType) (OnTxPosition order) name)
             (\<lambda>onNames.
               Inr (r\<lparr>orderedAroundTxProvidersNames := (orderedAroundTxProvidersNames r)(objectType \<mapsto> aroundNames),
                      orderedOnTxProvidersNames := (orderedOnTxProvidersNames r)(objectType \<mapsto> onNames),
                      providers := (providers r)
                        (objectType \<mapsto> (inner_map (providers r) objectType)(name \<mapsto> (order, interceptor)))\<rparr>))))"

subsection \<open>Chains\<close>

text \<open>
  A chain: ordered names, and the interceptors by name.  The loop runs over the names from the
  last to the first and wraps the function built so far.
\<close>

record 'h InterceptorChain =
  ch_names :: "string list"
  ch_funcs :: "string \<rightharpoonup> ('h \<Rightarrow> 'h)"

definition chain_step :: "(string \<rightharpoonup> ('h \<Rightarrow> 'h)) \<Rightarrow> string \<Rightarrow> 'h \<Rightarrow> 'h" where
  "chain_step funcs name f = (case funcs name of Some interceptor \<Rightarrow> interceptor f | None \<Rightarrow> f)"

definition chain_wrap :: "'h InterceptorChain \<Rightarrow> 'h \<Rightarrow> 'h" where
  "chain_wrap c f =
     fold (\<lambda>i. chain_step (ch_funcs c) (ch_names c ! (length (ch_names c) - 1 - i)))
       [0..<length (ch_names c)] f"

definition newOnTxInterceptorChain :: "('ar, 'on) registry \<Rightarrow> ObjectType \<Rightarrow> 'on InterceptorChain" where
  "newOnTxInterceptorChain r objectType =
     \<lparr>ch_names = names_of (orderedOnTxProvidersNames r) objectType,
      ch_funcs = (\<lambda>n. map_option snd (inner_map (onTxProviders r) objectType n))\<rparr>"

text \<open>The two halves of \<open>newCreateInterceptorChain\<close>; providers of both kinds override.\<close>

definition newInterceptorChain_AroundTx :: "('ar, 'on) registry \<Rightarrow> ObjectType \<Rightarrow> 'ar InterceptorChain" where
  "newInterceptorChain_AroundTx r objectType =
     \<lparr>ch_names = names_of (orderedAroundTxProvidersNames r) objectType,
      ch_funcs = (\<lambda>n. map_option snd (inner_map (aroundTxProviders r) objectType n)) ++
                 (\<lambda>n. map_option (\<lambda>p. fst (snd p)) (inner_map (providers r) objectType n))\<rparr>"

definition newInterceptorChain_OnTx :: "('ar, 'on) registry \<Rightarrow> ObjectType \<Rightarrow> 'on InterceptorChain" where
  "newInterceptorChain_OnTx r objectType =
     \<lparr>ch_names = names_of (orderedOnTxProvidersNames r) objectType,
      ch_funcs = (\<lambda>n. map_option snd (inner_map (onTxProviders r) objectType n)) ++
                 (\<lambda>n. map_option (\<lambda>p. snd (snd p)) (inner_map (providers r) objectType n))\<rparr>"

text \<open>The object types with a chain.\<close>

definition mergeObjectTypes :: "('ar, 'on) registry \<Rightarrow> ObjectType \<Rightarrow> bool" where
  "mergeObjectTypes r objectType =
     (orderedAroundTxProvidersNames r objectType \<noteq> None \<or> orderedOnTxProvidersNames r objectType \<noteq> None)"

text \<open>What \<open>provideInterceptors\<close> provides for one group: the two halves of the chain of a type.\<close>

definition provideInterceptors ::
  "('ar, 'on) registry \<Rightarrow> ObjectType \<rightharpoonup> ('ar \<Rightarrow> 'ar) \<times> ('on \<Rightarrow> 'on)" where
  "provideInterceptors r objectType =
     (if mergeObjectTypes r objectType then
        Some (chain_wrap (newInterceptorChain_AroundTx r objectType),
              chain_wrap (newInterceptorChain_OnTx r objectType))
      else None)"

definition provideOnTxInterceptors :: "('ar, 'on) registry \<Rightarrow> ObjectType \<rightharpoonup> ('on \<Rightarrow> 'on)" where
  "provideOnTxInterceptors r objectType =
     (if onTxProviders r objectType \<noteq> None then Some (chain_wrap (newOnTxInterceptorChain r objectType))
      else None)"

subsection \<open>The loop is a chain of wrappers\<close>

lemma map_nth_rev: "map (\<lambda>i. xs ! (length xs - 1 - i)) [0..<length xs] = rev xs"
  by (rule nth_equalityI) (simp_all add: rev_nth)

lemma chain_wrap_foldr: "chain_wrap c f = foldr (chain_step (ch_funcs c)) (ch_names c) f"
proof -
  have "chain_wrap c f =
      fold (chain_step (ch_funcs c)) (map (\<lambda>i. ch_names c ! (length (ch_names c) - 1 - i)) [0..<length (ch_names c)]) f"
    by (simp add: chain_wrap_def fold_map comp_def)
  also have "\<dots> = foldr (chain_step (ch_funcs c)) (ch_names c) f"
    unfolding map_nth_rev by (simp add: foldr_conv_fold)
  finally show ?thesis .
qed

interpretation itc_chain: wrapper_chain "chain_step funcs" "\<lambda>names. chain_wrap \<lparr>ch_names = names, ch_funcs = funcs\<rparr>"
  for funcs :: "string \<rightharpoonup> ('h \<Rightarrow> 'h)"
  by unfold_locales (simp_all add: chain_wrap_foldr)

lemma chain_step_Some [simp]: "funcs n = Some g \<Longrightarrow> chain_step funcs n f = g f"
  by (simp add: chain_step_def)

lemma foldr_chain_step_cong:
  "(\<And>n. n \<in> set names \<Longrightarrow> funcs n = funcs' n) \<Longrightarrow> foldr (chain_step funcs) names f = foldr (chain_step funcs') names f"
  by (induction names) (simp_all add: chain_step_def)

subsection \<open>Inserting names\<close>

lemma insertName_Inr:
  assumes "insertName names position new = Inr names'"
  shows "(ip_PositionType position = PositionNone \<and> names' = names @ [new]) \<or>
    (\<exists>as bs. names = as @ ip_Name position # bs \<and> ip_Name position \<notin> set as \<and>
      ((ip_PositionType position = PositionBefore \<and> names' = as @ new # ip_Name position # bs) \<or>
       (ip_PositionType position = PositionAfter \<and> names' = as @ ip_Name position # new # bs)))"
proof (cases "ip_PositionType position = PositionNone")
  case True
  with assms show ?thesis by (simp add: insertName_def)
next
  case False
  with assms obtain p where p: "find_index (\<lambda>n. n = ip_Name position) names = Some p"
    and names': "names' = (let pos = (if ip_PositionType position = PositionAfter then p + 1 else p)
      in (go_copy (names @ ['''']) (pos + 1) pos)[pos := new])"
    by (auto simp: insertName_def findName_def Let_def split: option.splits)
  define as bs where "as = take p names" and "bs = drop (Suc p) names"
  from find_index_Some [OF p] have len: "p < length names" and x: "names ! p = ip_Name position"
    and notin: "\<forall>j<p. names ! j \<noteq> ip_Name position" by auto
  from len x have names: "names = as @ ip_Name position # bs"
    unfolding as_def bs_def by (metis id_take_nth_drop)
  from notin len have nin: "ip_Name position \<notin> set as" by (auto simp: as_def in_set_conv_nth)
  have "(go_copy (names @ ['''']) (Suc q) q)[q := new] = take q names @ new # drop q names"
    if "q \<le> length names" for q by (rule go_copy_insert [OF that])
  with len names' have "names' = (if ip_PositionType position = PositionAfter
      then take (Suc p) names @ new # drop (Suc p) names else take p names @ new # drop p names)"
    by (simp add: Let_def)
  moreover have "take (Suc p) names = as @ [ip_Name position]" "drop p names = ip_Name position # bs"
    using len x by (simp_all add: as_def bs_def take_Suc_conv_app_nth Cons_nth_drop_Suc [symmetric])
  moreover have "take p names = as" "drop (Suc p) names = bs" by (simp_all add: as_def bs_def)
  ultimately have "names' = (if ip_PositionType position = PositionAfter
      then as @ ip_Name position # new # bs else as @ new # ip_Name position # bs)" by simp
  with nin names False show ?thesis by (cases "ip_PositionType position") auto
qed

lemma insertName_set:
  assumes "insertName names position new = Inr names'"
  shows "set names' = insert new (set names)" "distinct names \<Longrightarrow> new \<notin> set names \<Longrightarrow> distinct names'"
  using insertName_Inr [OF assms] by auto

lemma insertName_total_iff:
  "(\<exists>names'. insertName names position new = Inr names') \<longleftrightarrow>
     ip_PositionType position = PositionNone \<or> ip_Name position \<in> set names"
proof -
  have "find_index (\<lambda>n. n = ip_Name position) names = None \<longleftrightarrow> ip_Name position \<notin> set names"
    by (auto simp: find_index_None_iff)
  then show ?thesis by (auto simp: insertName_def findName_def Let_def split: option.splits)
qed

subsection \<open>The invariant of the registry\<close>

definition registry_ok :: "('ar, 'on) registry \<Rightarrow> bool" where
  "registry_ok r \<longleftrightarrow> (\<forall>t.
     distinct (names_of (orderedAroundTxProvidersNames r) t) \<and>
     distinct (names_of (orderedOnTxProvidersNames r) t) \<and>
     set (names_of (orderedAroundTxProvidersNames r) t) =
       dom (inner_map (aroundTxProviders r) t) \<union> dom (inner_map (providers r) t) \<and>
     set (names_of (orderedOnTxProvidersNames r) t) =
       dom (inner_map (onTxProviders r) t) \<union> dom (inner_map (providers r) t) \<and>
     dom (inner_map (aroundTxProviders r) t) \<inter> dom (inner_map (providers r) t) = {} \<and>
     dom (inner_map (onTxProviders r) t) \<inter> dom (inner_map (providers r) t) = {} \<and>
     dom (inner_map (aroundTxProviders r) t) \<inter> dom (inner_map (onTxProviders r) t) = {})"

lemma names_of_upd [simp]: "names_of (m(k \<mapsto> ns)) k' = (if k' = k then ns else names_of m k')"
  by (simp add: names_of_def)

lemma inner_map_upd [simp]: "inner_map (m(k \<mapsto> f)) k' = (if k' = k then f else inner_map m k')"
  by (simp add: inner_map_def)

lemma providerExists_iff:
  "providerExists r t n \<longleftrightarrow> n \<in> dom (inner_map (aroundTxProviders r) t) \<or>
     n \<in> dom (inner_map (onTxProviders r) t) \<or> n \<in> dom (inner_map (providers r) t)"
  by (auto simp: providerExists_def)

lemma validateProviders_Inr_iff:
  "validateProviders t n order r = Inr () \<longleftrightarrow> \<not> providerExists r t n \<and>
     (ip_PositionType (AroundTxPosition order) \<noteq> PositionNone \<longrightarrow> providerExists r t (ip_Name (AroundTxPosition order))) \<and>
     (ip_PositionType (OnTxPosition order) \<noteq> PositionNone \<longrightarrow> providerExists r t (ip_Name (OnTxPosition order)))"
  by (auto simp: validateProviders_def validateProviderOrder_def)

lemma registry_okD:
  assumes "registry_ok r"
  shows "distinct (names_of (orderedAroundTxProvidersNames r) t)" "distinct (names_of (orderedOnTxProvidersNames r) t)"
    "set (names_of (orderedAroundTxProvidersNames r) t) = dom (inner_map (aroundTxProviders r) t) \<union> dom (inner_map (providers r) t)"
    "set (names_of (orderedOnTxProvidersNames r) t) = dom (inner_map (onTxProviders r) t) \<union> dom (inner_map (providers r) t)"
    "dom (inner_map (aroundTxProviders r) t) \<inter> dom (inner_map (providers r) t) = {}"
    "dom (inner_map (onTxProviders r) t) \<inter> dom (inner_map (providers r) t) = {}"
    "dom (inner_map (aroundTxProviders r) t) \<inter> dom (inner_map (onTxProviders r) t) = {}"
  using assms unfolding registry_ok_def by blast+

lemma registry_ok_new: "registry_ok new_registry"
  by (simp add: registry_ok_def new_registry_def names_of_def inner_map_def)

lemma addAroundTx_Inr:
  assumes "addAroundTx t n i order r = Inr r'"
  obtains names where "\<not> providerExists r t n"
    "insertName (names_of (orderedAroundTxProvidersNames r) t) (AroundTxPosition order) n = Inr names"
    "r' = r\<lparr>orderedAroundTxProvidersNames := (orderedAroundTxProvidersNames r)(t \<mapsto> names),
       aroundTxProviders := (aroundTxProviders r)(t \<mapsto> (inner_map (aroundTxProviders r) t)(n \<mapsto> (order, i)))\<rparr>"
  using assms by (auto simp: addAroundTx_def try_then_Inr_iff validateProviders_Inr_iff)

lemma addOnTx_Inr:
  assumes "addOnTx t n i order r = Inr r'"
  obtains names where "\<not> providerExists r t n"
    "insertName (names_of (orderedOnTxProvidersNames r) t) (OnTxPosition order) n = Inr names"
    "r' = r\<lparr>orderedOnTxProvidersNames := (orderedOnTxProvidersNames r)(t \<mapsto> names),
       onTxProviders := (onTxProviders r)(t \<mapsto> (inner_map (onTxProviders r) t)(n \<mapsto> (order, i)))\<rparr>"
  using assms by (auto simp: addOnTx_def try_then_Inr_iff validateProviders_Inr_iff)

lemma addBoth_Inr:
  assumes "addBoth t n i order r = Inr r'"
  obtains aroundNames onNames where "\<not> providerExists r t n"
    "insertName (names_of (orderedAroundTxProvidersNames r) t) (AroundTxPosition order) n = Inr aroundNames"
    "insertName (names_of (orderedOnTxProvidersNames r) t) (OnTxPosition order) n = Inr onNames"
    "r' = r\<lparr>orderedAroundTxProvidersNames := (orderedAroundTxProvidersNames r)(t \<mapsto> aroundNames),
       orderedOnTxProvidersNames := (orderedOnTxProvidersNames r)(t \<mapsto> onNames),
       providers := (providers r)(t \<mapsto> (inner_map (providers r) t)(n \<mapsto> (order, i)))\<rparr>"
  using assms by (auto simp: addBoth_def try_then_Inr_iff validateProviders_Inr_iff)

lemma registry_ok_addAroundTx:
  assumes "registry_ok r" "addAroundTx t n i order r = Inr r'"
  shows "registry_ok r'"
  using assms(2)
proof (rule addAroundTx_Inr)
  fix names assume new: "\<not> providerExists r t n"
    and ins: "insertName (names_of (orderedAroundTxProvidersNames r) t) (AroundTxPosition order) n = Inr names"
    and r': "r' = r\<lparr>orderedAroundTxProvidersNames := (orderedAroundTxProvidersNames r)(t \<mapsto> names),
       aroundTxProviders := (aroundTxProviders r)(t \<mapsto> (inner_map (aroundTxProviders r) t)(n \<mapsto> (order, i)))\<rparr>"
  note ok = registry_okD [OF assms(1)]
  from new have "n \<notin> set (names_of (orderedAroundTxProvidersNames r) t)" by (simp add: providerExists_iff ok(3))
  with new show ?thesis
    unfolding registry_ok_def r' using ok insertName_set [OF ins]
    by (simp add: providerExists_iff)
qed

lemma registry_ok_addOnTx:
  assumes "registry_ok r" "addOnTx t n i order r = Inr r'"
  shows "registry_ok r'"
  using assms(2)
proof (rule addOnTx_Inr)
  fix names assume new: "\<not> providerExists r t n"
    and ins: "insertName (names_of (orderedOnTxProvidersNames r) t) (OnTxPosition order) n = Inr names"
    and r': "r' = r\<lparr>orderedOnTxProvidersNames := (orderedOnTxProvidersNames r)(t \<mapsto> names),
       onTxProviders := (onTxProviders r)(t \<mapsto> (inner_map (onTxProviders r) t)(n \<mapsto> (order, i)))\<rparr>"
  note ok = registry_okD [OF assms(1)]
  from new have "n \<notin> set (names_of (orderedOnTxProvidersNames r) t)" by (simp add: providerExists_iff ok(4))
  with new show ?thesis
    unfolding registry_ok_def r' using ok insertName_set [OF ins]
    by (simp add: providerExists_iff)
qed

lemma registry_ok_addBoth:
  assumes "registry_ok r" "addBoth t n i order r = Inr r'"
  shows "registry_ok r'"
  using assms(2)
proof (rule addBoth_Inr)
  fix aroundNames onNames assume new: "\<not> providerExists r t n"
    and ins: "insertName (names_of (orderedAroundTxProvidersNames r) t) (AroundTxPosition order) n = Inr aroundNames"
      "insertName (names_of (orderedOnTxProvidersNames r) t) (OnTxPosition order) n = Inr onNames"
    and r': "r' = r\<lparr>orderedAroundTxProvidersNames := (orderedAroundTxProvidersNames r)(t \<mapsto> aroundNames),
       orderedOnTxProvidersNames := (orderedOnTxProvidersNames r)(t \<mapsto> onNames),
       providers := (providers r)(t \<mapsto> (inner_map (providers r) t)(n \<mapsto> (order, i)))\<rparr>"
  note ok = registry_okD [OF assms(1)]
  from new have "n \<notin> set (names_of (orderedAroundTxProvidersNames r) t)" "n \<notin> set (names_of (orderedOnTxProvidersNames r) t)"
    by (simp_all add: providerExists_iff ok(3,4))
  with new show ?thesis
    unfolding registry_ok_def r' using ok insertName_set [OF ins(1)] insertName_set [OF ins(2)]
    by (simp add: providerExists_iff)
qed

inductive registry_reachable :: "('ar, 'on) registry \<Rightarrow> bool" where
  reg_new: "registry_reachable new_registry"
| reg_around: "registry_reachable r \<Longrightarrow> addAroundTx t n i order r = Inr r' \<Longrightarrow> registry_reachable r'"
| reg_on: "registry_reachable r \<Longrightarrow> addOnTx t n j order r = Inr r' \<Longrightarrow> registry_reachable r'"
| reg_both: "registry_reachable r \<Longrightarrow> addBoth t n ij order r = Inr r' \<Longrightarrow> registry_reachable r'"

lemma registry_reachable_ok: "registry_reachable r \<Longrightarrow> registry_ok r"
  by (induction rule: registry_reachable.induct)
    (blast intro: registry_ok_new registry_ok_addAroundTx registry_ok_addOnTx registry_ok_addBoth)+

subsection \<open>The three groups\<close>

text \<open>The providers of \<open>InterceptableTransactionalRepository\<close>; the raw repository is added with the operations.\<close>

record ('car, 'con, 'uar, 'uon, 'dar, 'don) itr_providers =
  creates :: "('car, 'con) registry"
  updates :: "('uar, 'uon) registry"
  deletes :: "('dar, 'don) registry"

definition NewInterceptableTransactionalRepository :: "('car, 'con, 'uar, 'uon, 'dar, 'don) itr_providers" where
  "NewInterceptableTransactionalRepository =
     \<lparr>creates = new_registry, updates = new_registry, deletes = new_registry\<rparr>"

definition AddCreateAroundTxInterceptorProvider where
  "AddCreateAroundTxInterceptorProvider objectType name provider order itr =
     try_then (addAroundTx objectType name provider order (creates itr)) (\<lambda>r. Inr (itr\<lparr>creates := r\<rparr>))"

definition AddCreateOnTxInterceptorProvider where
  "AddCreateOnTxInterceptorProvider objectType name provider order itr =
     try_then (addOnTx objectType name provider order (creates itr)) (\<lambda>r. Inr (itr\<lparr>creates := r\<rparr>))"

definition AddCreateInterceptorProvider where
  "AddCreateInterceptorProvider objectType name provider order itr =
     try_then (addBoth objectType name provider order (creates itr)) (\<lambda>r. Inr (itr\<lparr>creates := r\<rparr>))"

definition AddUpdateAroundTxInterceptorProvider where
  "AddUpdateAroundTxInterceptorProvider objectType name provider order itr =
     try_then (addAroundTx objectType name provider order (updates itr)) (\<lambda>r. Inr (itr\<lparr>updates := r\<rparr>))"

definition AddUpdateOnTxInterceptorProvider where
  "AddUpdateOnTxInterceptorProvider objectType name provider order itr =
     try_then (addOnTx objectType name provider order (updates itr)) (\<lambda>r. Inr (itr\<lparr>updates := r\<rparr>))"

definition AddUpdateInterceptorProvider where
  "AddUpdateInterceptorProvider objectType name provider order itr =
     try_then (addBoth objectType name provider order (updates itr)) (\<lambda>r. Inr (itr\<lparr>updates := r\<rparr>))"

definition AddDeleteAroundTxInterceptorProvider where
  "AddDeleteAroundTxInterceptorProvider objectType name provider order itr =
     try_then (addAroundTx objectType name provider order (deletes itr)) (\<lambda>r. Inr (itr\<lparr>deletes := r\<rparr>))"

definition AddDeleteOnTxInterceptorProvider where
  "AddDeleteOnTxInterceptorProvider objectType name provider order itr =
     try_then (addOnTx objectType name provider order (deletes itr)) (\<lambda>r. Inr (itr\<lparr>deletes := r\<rparr>))"

definition AddDeleteInterceptorProvider where
  "AddDeleteInterceptorProvider objectType name provider order itr =
     try_then (addBoth objectType name provider order (deletes itr)) (\<lambda>r. Inr (itr\<lparr>deletes := r\<rparr>))"

lemmas itr_add_defs = AddCreateAroundTxInterceptorProvider_def AddCreateOnTxInterceptorProvider_def
  AddCreateInterceptorProvider_def AddUpdateAroundTxInterceptorProvider_def AddUpdateOnTxInterceptorProvider_def
  AddUpdateInterceptorProvider_def AddDeleteAroundTxInterceptorProvider_def AddDeleteOnTxInterceptorProvider_def
  AddDeleteInterceptorProvider_def

inductive itr_reachable :: "('car, 'con, 'uar, 'uon, 'dar, 'don) itr_providers \<Rightarrow> bool" where
  itr_new: "itr_reachable NewInterceptableTransactionalRepository"
| itr_car: "itr_reachable itr \<Longrightarrow> AddCreateAroundTxInterceptorProvider t n p1 order itr = Inr itr' \<Longrightarrow> itr_reachable itr'"
| itr_con: "itr_reachable itr \<Longrightarrow> AddCreateOnTxInterceptorProvider t n p2 order itr = Inr itr' \<Longrightarrow> itr_reachable itr'"
| itr_cb: "itr_reachable itr \<Longrightarrow> AddCreateInterceptorProvider t n p3 order itr = Inr itr' \<Longrightarrow> itr_reachable itr'"
| itr_uar: "itr_reachable itr \<Longrightarrow> AddUpdateAroundTxInterceptorProvider t n p4 order itr = Inr itr' \<Longrightarrow> itr_reachable itr'"
| itr_uon: "itr_reachable itr \<Longrightarrow> AddUpdateOnTxInterceptorProvider t n p5 order itr = Inr itr' \<Longrightarrow> itr_reachable itr'"
| itr_ub: "itr_reachable itr \<Longrightarrow> AddUpdateInterceptorProvider t n p6 order itr = Inr itr' \<Longrightarrow> itr_reachable itr'"
| itr_dar: "itr_reachable itr \<Longrightarrow> AddDeleteAroundTxInterceptorProvider t n p7 order itr = Inr itr' \<Longrightarrow> itr_reachable itr'"
| itr_don: "itr_reachable itr \<Longrightarrow> AddDeleteOnTxInterceptorProvider t n p8 order itr = Inr itr' \<Longrightarrow> itr_reachable itr'"
| itr_db: "itr_reachable itr \<Longrightarrow> AddDeleteInterceptorProvider t n p9 order itr = Inr itr' \<Longrightarrow> itr_reachable itr'"

lemma itr_reachable_groups:
  "itr_reachable itr \<Longrightarrow>
     registry_reachable (creates itr) \<and> registry_reachable (updates itr) \<and> registry_reachable (deletes itr)"
proof (induction rule: itr_reachable.induct)
  case itr_new
  then show ?case by (simp add: NewInterceptableTransactionalRepository_def reg_new)
qed (auto simp: itr_add_defs try_then_Inr_iff intro: reg_around reg_on reg_both)

subsection \<open>Properties\<close>

lemma chain_complete:
  assumes "distinct (ch_names c)" "set (ch_names c) = dom (ch_funcs c)"
  shows "chain_wrap c f = foldr (\<lambda>n. the (ch_funcs c n)) (ch_names c) f"
proof -
  have "foldr (chain_step (ch_funcs c)) ns f = foldr (\<lambda>n. the (ch_funcs c n)) ns f"
    if "set ns \<subseteq> dom (ch_funcs c)" for ns
    using that by (induction ns) auto
  with assms(2) show ?thesis by (simp add: chain_wrap_foldr)
qed

lemma dom_map_option [simp]: "dom (\<lambda>n. map_option g (m n)) = dom m"
  by (auto simp: dom_def)

lemma registry_chain_names:
  assumes "registry_reachable r"
  shows "distinct (ch_names (newInterceptorChain_AroundTx r t)) \<and>
      set (ch_names (newInterceptorChain_AroundTx r t)) = dom (ch_funcs (newInterceptorChain_AroundTx r t))"
    "distinct (ch_names (newInterceptorChain_OnTx r t)) \<and>
      set (ch_names (newInterceptorChain_OnTx r t)) = dom (ch_funcs (newInterceptorChain_OnTx r t))"
  using registry_okD [OF registry_reachable_ok [OF assms], of t]
  by (auto simp: newInterceptorChain_AroundTx_def newInterceptorChain_OnTx_def)

definition runs_each_once :: "'h InterceptorChain \<Rightarrow> bool" where
  "runs_each_once c \<longleftrightarrow> distinct (ch_names c) \<and> set (ch_names c) = dom (ch_funcs c) \<and>
     (\<forall>f. chain_wrap c f = foldr (\<lambda>n. the (ch_funcs c n)) (ch_names c) f)"

lemma registry_runs_each_once:
  assumes "registry_reachable r"
  shows "runs_each_once (newInterceptorChain_AroundTx r t) \<and> runs_each_once (newInterceptorChain_OnTx r t)"
proof -
  note names = registry_chain_names [OF assms, of t]
  have "runs_each_once c" if "distinct (ch_names c) \<and> set (ch_names c) = dom (ch_funcs c)" for c :: "'h InterceptorChain"
    using that chain_complete [of c] by (simp add: runs_each_once_def)
  from this [OF names(1)] show ?thesis
    using names(2) chain_complete [of "newInterceptorChain_OnTx r t"] by (simp add: runs_each_once_def)
qed

text \<open>
  C30.  However interceptors were registered, the chain of every object type and of each of the
  three operations runs every registered interceptor exactly once, in the order of the names with
  the first one outermost: no interceptor is lost and none runs twice, around the transaction as
  well as inside it.
\<close>

theorem interceptor_chains_complete:
  assumes "itr_reachable itr"
  shows "runs_each_once (newInterceptorChain_AroundTx (creates itr) t) \<and>
    runs_each_once (newInterceptorChain_OnTx (creates itr) t) \<and>
    runs_each_once (newInterceptorChain_AroundTx (updates itr) t) \<and>
    runs_each_once (newInterceptorChain_OnTx (updates itr) t) \<and>
    runs_each_once (newInterceptorChain_AroundTx (deletes itr) t) \<and>
    runs_each_once (newInterceptorChain_OnTx (deletes itr) t)"
  using itr_reachable_groups [OF assms] by (simp add: registry_runs_each_once)

text \<open>Interceptors that write their letter before and behind what they wrap.\<close>

definition letter :: "char \<Rightarrow> string \<Rightarrow> string" where
  "letter c s = c # s @ [c]"

definition at_end :: InterceptorOrder where
  "at_end = \<lparr>OnTxPosition = \<lparr>ip_PositionType = PositionNone, ip_Name = ''''\<rparr>,
     AroundTxPosition = \<lparr>ip_PositionType = PositionNone, ip_Name = ''''\<rparr>\<rparr>"

definition on_before :: "string \<Rightarrow> InterceptorOrder" where
  "on_before n = at_end\<lparr>OnTxPosition := \<lparr>ip_PositionType = PositionBefore, ip_Name = n\<rparr>\<rparr>"

lemmas registry_eval = addOnTx_def addBoth_def addAroundTx_def validateProviders_def validateProviderOrder_def
  providerExists_def new_registry_def inner_map_def names_of_def insertName_def findName_def go_copy_def
  at_end_def on_before_def

theorem interceptor_chains_complete_witness:
  "\<exists>itr :: (string, string, string, string, string, string) itr_providers.
     AddCreateInterceptorProvider ''t'' ''b'' (letter CHR ''x'', letter CHR ''b'') at_end
       NewInterceptableTransactionalRepository = Inr itr \<and>
     runs_each_once (newInterceptorChain_OnTx (creates itr) ''t'')"
proof -
  obtain itr :: "(string, string, string, string, string, string) itr_providers" where
    add: "AddCreateInterceptorProvider ''t'' ''b'' (letter CHR ''x'', letter CHR ''b'') at_end
       NewInterceptableTransactionalRepository = Inr itr"
    by (simp add: AddCreateInterceptorProvider_def NewInterceptableTransactionalRepository_def registry_eval)
  have "itr_reachable itr" by (rule itr_cb [OF itr_new add])
  from interceptor_chains_complete [OF this, of "''t''"] add show ?thesis by blast
qed

text \<open>
  An interceptor registered before (after) another one of the same object type runs
  directly outside (inside) of it, and the order of all others stays as it was.
\<close>

theorem interceptor_position:
  assumes "registry_reachable r" and "addOnTx t n g order r = Inr r'"
    and "ip_PositionType (OnTxPosition order) = PositionBefore \<or> ip_PositionType (OnTxPosition order) = PositionAfter"
  shows "\<exists>as bs. ch_names (newInterceptorChain_OnTx r t) = as @ ip_Name (OnTxPosition order) # bs \<and>
    (\<forall>f. let old = (\<lambda>ns. chain_wrap \<lparr>ch_names = ns, ch_funcs = ch_funcs (newInterceptorChain_OnTx r t)\<rparr>);
             x = ip_Name (OnTxPosition order)
         in chain_wrap (newInterceptorChain_OnTx r' t) f =
              (if ip_PositionType (OnTxPosition order) = PositionBefore
               then old as (g (old (x # bs) f)) else old (as @ [x]) (g (old bs f))))"
  using assms(2)
proof (rule addOnTx_Inr)
  let ?x = "ip_Name (OnTxPosition order)" and ?F = "ch_funcs (newInterceptorChain_OnTx r t)"
  let ?old = "\<lambda>ns. chain_wrap \<lparr>ch_names = ns, ch_funcs = ?F\<rparr>"
  fix names assume new: "\<not> providerExists r t n"
    and ins: "insertName (names_of (orderedOnTxProvidersNames r) t) (OnTxPosition order) n = Inr names"
    and r': "r' = r\<lparr>orderedOnTxProvidersNames := (orderedOnTxProvidersNames r)(t \<mapsto> names),
       onTxProviders := (onTxProviders r)(t \<mapsto> (inner_map (onTxProviders r) t)(n \<mapsto> (order, g)))\<rparr>"
  from insertName_Inr [OF ins] assms(3) obtain as bs where
    old: "names_of (orderedOnTxProvidersNames r) t = as @ ?x # bs"
    and names: "names = (if ip_PositionType (OnTxPosition order) = PositionBefore then as @ n # ?x # bs else as @ ?x # n # bs)"
    by auto
  have F': "ch_funcs (newInterceptorChain_OnTx r' t) = ?F(n \<mapsto> g)"
    using new by (auto simp: newInterceptorChain_OnTx_def r' providerExists_def map_add_def split: option.splits)
  have "n \<notin> set (as @ ?x # bs)"
    using new registry_okD(4) [OF registry_reachable_ok [OF assms(1)], of t] by (simp add: providerExists_iff old)
  then have step: "foldr (chain_step (?F(n \<mapsto> g))) ns f = ?old ns f" if "set ns \<subseteq> set (as @ ?x # bs)" for ns f
    using that by (subst foldr_chain_step_cong [where funcs' = ?F]) (auto simp: chain_wrap_foldr)
  have g: "chain_step (?F(n \<mapsto> g)) n f = g f" for f by simp
  have "chain_wrap (newInterceptorChain_OnTx r' t) f = foldr (chain_step (?F(n \<mapsto> g))) names f" for f
    unfolding chain_wrap_foldr F' by (simp add: newInterceptorChain_OnTx_def r')
  moreover have "foldr (chain_step (?F(n \<mapsto> g))) (as @ n # ?x # bs) f = ?old as (g (?old (?x # bs) f))" for f
  proof -
    have "foldr (chain_step (?F(n \<mapsto> g))) (as @ n # ?x # bs) f =
        foldr (chain_step (?F(n \<mapsto> g))) as (chain_step (?F(n \<mapsto> g)) n (foldr (chain_step (?F(n \<mapsto> g))) (?x # bs) f))"
      by simp
    also have "\<dots> = ?old as (g (?old (?x # bs) f))"
      by (subst step, force, subst step, force, subst g, rule refl)
    finally show ?thesis .
  qed
  moreover have "foldr (chain_step (?F(n \<mapsto> g))) (as @ ?x # n # bs) f = ?old (as @ [?x]) (g (?old bs f))" for f
  proof -
    have "foldr (chain_step (?F(n \<mapsto> g))) (as @ ?x # n # bs) f =
        foldr (chain_step (?F(n \<mapsto> g))) (as @ [?x]) (chain_step (?F(n \<mapsto> g)) n (foldr (chain_step (?F(n \<mapsto> g))) bs f))"
      by simp
    also have "\<dots> = ?old (as @ [?x]) (g (?old bs f))"
      by (subst step, force, subst step, force, subst g, rule refl)
    finally show ?thesis .
  qed
  ultimately have "chain_wrap (newInterceptorChain_OnTx r' t) f =
      (if ip_PositionType (OnTxPosition order) = PositionBefore
       then ?old as (g (?old (?x # bs) f)) else ?old (as @ [?x]) (g (?old bs f)))" for f
    unfolding names by (cases "ip_PositionType (OnTxPosition order) = PositionBefore") (simp_all only: if_True if_False simp_thms)
  moreover have "ch_names (newInterceptorChain_OnTx r t) = as @ ?x # bs"
    using old by (simp add: newInterceptorChain_OnTx_def)
  ultimately show ?thesis by (intro exI [of _ as] exI [of _ bs]) (simp add: Let_def)
qed

definition reg_b :: "(string, string) registry" where
  "reg_b = \<lparr>orderedAroundTxProvidersNames = [''t'' \<mapsto> [''b'']], orderedOnTxProvidersNames = [''t'' \<mapsto> [''b'']],
     providers = [''t'' \<mapsto> [''b'' \<mapsto> (at_end, letter CHR ''x'', letter CHR ''b'')]],
     aroundTxProviders = Map.empty, onTxProviders = Map.empty\<rparr>"

lemma reg_b_reachable: "registry_reachable reg_b"
proof (rule reg_both [OF reg_new])
  show "addBoth ''t'' ''b'' (letter CHR ''x'', letter CHR ''b'') at_end new_registry = Inr reg_b"
    by (simp add: registry_eval reg_b_def)
qed

theorem interceptor_position_witness:
  "\<exists>r'. addOnTx ''t'' ''a'' (letter CHR ''a'') (on_before ''b'') reg_b = Inr r' \<and>
     chain_wrap (newInterceptorChain_OnTx r' ''t'') ''-'' = ''ab-ba''"
proof -
  obtain r' where add: "addOnTx ''t'' ''a'' (letter CHR ''a'') (on_before ''b'') reg_b = Inr r'"
    by (simp add: registry_eval reg_b_def)
  have names: "ch_names (newInterceptorChain_OnTx reg_b ''t'') = [''b'']"
    and fb: "ch_funcs (newInterceptorChain_OnTx reg_b ''t'') ''b'' = Some (letter CHR ''b'')"
    by (simp_all add: newInterceptorChain_OnTx_def reg_b_def names_of_def inner_map_def map_add_def)
  have "ip_PositionType (OnTxPosition (on_before ''b'')) = PositionBefore \<or>
      ip_PositionType (OnTxPosition (on_before ''b'')) = PositionAfter" by (simp add: on_before_def)
  from interceptor_position [OF reg_b_reachable add this] obtain as bs where ab: "[''b''] = as @ ''b'' # bs"
    and run: "chain_wrap (newInterceptorChain_OnTx r' ''t'') ''-'' =
      (let old = (\<lambda>ns. chain_wrap \<lparr>ch_names = ns, ch_funcs = ch_funcs (newInterceptorChain_OnTx reg_b ''t'')\<rparr>)
       in old as (letter CHR ''a'' (old (''b'' # bs) ''-'')))"
    by (auto simp: names on_before_def Let_def)
  from ab have "as = []" "bs = []" by (auto simp: Cons_eq_append_conv)
  with run fb have "chain_wrap (newInterceptorChain_OnTx r' ''t'') ''-'' = ''ab-ba''"
    by (simp add: chain_wrap_foldr chain_step_def letter_def)
  with add show ?thesis by blast
qed

text \<open>
  C31.  A transaction opened by a client of the repository runs, for each object type, the chain
  of the operations of the repository itself without the interceptors that are registered for both
  phases: only the interceptors registered for inside the transaction alone take part there.
\<close>

theorem provideOnTxInterceptors_chain:
  assumes "registry_reachable r" and "provideOnTxInterceptors r t = Some h"
  shows "h f = chain_wrap (newInterceptorChain_OnTx r t
    \<lparr>ch_names := filter (\<lambda>n. inner_map (providers r) t n = None) (names_of (orderedOnTxProvidersNames r) t)\<rparr>) f"
proof -
  let ?both = "\<lambda>n. inner_map (providers r) t n"
  from assms(2) have h: "h f = foldr (chain_step (\<lambda>n. map_option snd (inner_map (onTxProviders r) t n)))
      (names_of (orderedOnTxProvidersNames r) t) f"
    by (auto simp: provideOnTxInterceptors_def newOnTxInterceptorChain_def chain_wrap_foldr split: if_splits)
  have none: "?both n = None \<or> inner_map (onTxProviders r) t n = None" for n
    using registry_okD(6) [OF registry_reachable_ok [OF assms(1)], of t] by auto
  have "foldr (chain_step (\<lambda>n. map_option snd (inner_map (onTxProviders r) t n))) ns f =
      foldr (chain_step (ch_funcs (newInterceptorChain_OnTx r t))) (filter (\<lambda>n. ?both n = None) ns) f" for ns
  proof (induction ns)
    case (Cons n ns)
    with none [of n] show ?case
      by (auto simp: chain_step_def newInterceptorChain_OnTx_def map_add_def split: option.splits)
  qed simp
  with h show ?thesis by (simp add: chain_wrap_foldr)
qed

theorem provideOnTxInterceptors_chain_witness:
  "\<exists>r' h. addOnTx ''t'' ''a'' (letter CHR ''a'') (on_before ''b'') reg_b = Inr r' \<and>
     provideOnTxInterceptors r' ''t'' = Some h \<and> h ''-'' = ''a-a''"
proof -
  obtain r' where add: "addOnTx ''t'' ''a'' (letter CHR ''a'') (on_before ''b'') reg_b = Inr r'"
    and names: "names_of (orderedOnTxProvidersNames r') ''t'' = [''a'', ''b'']"
    and both: "inner_map (providers r') ''t'' ''a'' = None" "inner_map (providers r') ''t'' ''b'' \<noteq> None"
    and on: "inner_map (onTxProviders r') ''t'' ''a'' = Some (on_before ''b'', letter CHR ''a'')"
      "onTxProviders r' ''t'' \<noteq> None"
    by (simp add: registry_eval reg_b_def)
  have reach: "registry_reachable r'" by (rule reg_on [OF reg_b_reachable add])
  obtain h where h: "provideOnTxInterceptors r' ''t'' = Some h"
    using on(2) by (simp add: provideOnTxInterceptors_def)
  from provideOnTxInterceptors_chain [OF reach h, of "''-''"] have "h ''-'' = ''a-a''"
    using names both on by (simp add: chain_wrap_foldr chain_step_def newInterceptorChain_OnTx_def map_add_def letter_def)
  with add h show ?thesis by blast
qed

text \<open>
  A provider around the transaction can be registered exactly when its name is new, the
  interceptor its outer position refers to runs around the transaction, and the interceptor its
  inner position refers to is registered at all.  A position around the transaction relative to an
  interceptor registered for inside only passes the validation and still panics, when the name is
  inserted.
\<close>

theorem addAroundTx_succeeds_iff:
  assumes "registry_reachable r"
  shows "(\<exists>r'. addAroundTx t n g order r = Inr r') \<longleftrightarrow>
    \<not> providerExists r t n \<and>
    (ip_PositionType (AroundTxPosition order) = PositionNone \<or>
       inner_map (aroundTxProviders r) t (ip_Name (AroundTxPosition order)) \<noteq> None \<or>
       inner_map (providers r) t (ip_Name (AroundTxPosition order)) \<noteq> None) \<and>
    (ip_PositionType (OnTxPosition order) = PositionNone \<or> providerExists r t (ip_Name (OnTxPosition order)))"
proof -
  have "(\<exists>r'. addAroundTx t n g order r = Inr r') \<longleftrightarrow> validateProviders t n order r = Inr () \<and>
      (\<exists>names. insertName (names_of (orderedAroundTxProvidersNames r) t) (AroundTxPosition order) n = Inr names)"
    by (auto simp: addAroundTx_def try_then_Inr_iff)
  also have "\<dots> \<longleftrightarrow> validateProviders t n order r = Inr () \<and>
      (ip_PositionType (AroundTxPosition order) = PositionNone \<or>
       ip_Name (AroundTxPosition order) \<in> set (names_of (orderedAroundTxProvidersNames r) t))"
    by (simp only: insertName_total_iff)
  also have "ip_Name (AroundTxPosition order) \<in> set (names_of (orderedAroundTxProvidersNames r) t) \<longleftrightarrow>
      inner_map (aroundTxProviders r) t (ip_Name (AroundTxPosition order)) \<noteq> None \<or>
      inner_map (providers r) t (ip_Name (AroundTxPosition order)) \<noteq> None"
    unfolding registry_okD(3) [OF registry_reachable_ok [OF assms], of t] Un_iff domIff by (rule refl)
  finally show ?thesis
    unfolding validateProviders_Inr_iff providerExists_def by argo
qed

theorem addAroundTx_succeeds_iff_witness:
  "\<exists>r' :: (string, string) registry. addOnTx ''t'' ''i'' (letter CHR ''i'') at_end new_registry = Inr r' \<and>
     \<not> (\<exists>r''. addAroundTx ''t'' ''o'' (letter CHR ''o'')
          (at_end\<lparr>AroundTxPosition := \<lparr>ip_PositionType = PositionBefore, ip_Name = ''i''\<rparr>\<rparr>) r' = Inr r'')"
proof -
  obtain r' :: "(string, string) registry" where
    add: "addOnTx ''t'' ''i'' (letter CHR ''i'') at_end new_registry = Inr r'"
    and none: "inner_map (aroundTxProviders r') ''t'' ''i'' = None" "inner_map (providers r') ''t'' ''i'' = None"
    by (simp add: registry_eval)
  from addAroundTx_succeeds_iff [OF reg_on [OF reg_new add], of "''t''" "''o''" "letter CHR ''o''"
      "at_end\<lparr>AroundTxPosition := \<lparr>ip_PositionType = PositionBefore, ip_Name = ''i''\<rparr>\<rparr>"] none add
  show ?thesis by auto
qed

end
