(* ===== verification/ScopedRepository.thy ===== *)
theory ScopedRepository
  imports Interceptors
begin

text \<open>
  The repository that interceptors work on inside a transaction
  (\<open>queryScopedInterceptableRepository\<close>) and the operations of
  \<open>InterceptableTransactionalRepository\<close> (\<open>src/storage/interceptable_repository.go\<close>), with
  \<open>InTransaction\<close> of the storage (\<open>src/storage/postgres/storage.go\<close>).

  The raw repository is a record of operations on a state of the outside world, of type \<open>'s\<close>.
  An interceptor inside the transaction is given the scoped repository, whose operations run
  interceptors again.  What an interceptor does is therefore a program: a tree of calls on the
  repository it is given, of calls of the raw operation it wraps, and of other effects on the
  world, each with a continuation for the result.  The interpreter \<open>run\<close> executes programs on the
  state of the scoped repository.  That state holds the maps of chains, which the operations
  change while a chain runs.  Entering a chain spends one unit of fuel.
\<close>

subsection \<open>The raw repository\<close>

record 's raw_repository =
  r_Create :: "Object \<Rightarrow> 's \<Rightarrow> (error, Object) result \<times> 's"
  r_Get :: "ObjectType \<Rightarrow> Criterion list \<Rightarrow> 's \<Rightarrow> (error, Object) result \<times> 's"
  r_GetForUpdate :: "ObjectType \<Rightarrow> Criterion list \<Rightarrow> 's \<Rightarrow> (error, Object) result \<times> 's"
  r_List :: "ObjectType \<Rightarrow> Criterion list \<Rightarrow> 's \<Rightarrow> (error, Object list) result \<times> 's"
  r_ListNoLabels :: "ObjectType \<Rightarrow> Criterion list \<Rightarrow> 's \<Rightarrow> (error, Object list) result \<times> 's"
  r_Count :: "ObjectType \<Rightarrow> Criterion list \<Rightarrow> 's \<Rightarrow> (error, int) result \<times> 's"
  r_CountLabelValues :: "ObjectType \<Rightarrow> Criterion list \<Rightarrow> 's \<Rightarrow> (error, int) result \<times> 's"
  r_QueryForList :: "ObjectType \<Rightarrow> string \<Rightarrow> (string \<rightharpoonup> string) \<Rightarrow> 's \<Rightarrow> (error, Object list) result \<times> 's"
  r_DeleteReturning :: "ObjectType \<Rightarrow> Criterion list \<Rightarrow> 's \<Rightarrow> (error, Object list) result \<times> 's"
  r_Delete :: "ObjectType \<Rightarrow> Criterion list \<Rightarrow> 's \<Rightarrow> (error, unit) result \<times> 's"
  r_Update :: "Object \<Rightarrow> LabelChange list \<Rightarrow> Criterion list \<Rightarrow> 's \<Rightarrow> (error, Object) result \<times> 's"
  r_UpdateLabels :: "ObjectType \<Rightarrow> string \<Rightarrow> LabelChange list \<Rightarrow> Criterion list \<Rightarrow> 's \<Rightarrow> (error, unit) result \<times> 's"

subsection \<open>Programs\<close>

datatype read_call =
    GetCall ObjectType "Criterion list"
  | GetForUpdateCall ObjectType "Criterion list"
  | ListCall ObjectType "Criterion list"
  | ListNoLabelsCall ObjectType "Criterion list"
  | CountCall ObjectType "Criterion list"
  | CountLabelValuesCall ObjectType "Criterion list"
  | QueryForListCall ObjectType string "string \<rightharpoonup> string"

datatype read_result = AnObject Object | SomeObjects "Object list" | ANumber int

text \<open>
  The calls of a program: those on the scoped repository, the raw operations at the end of the
  chains, and other effects, which return a value of type \<open>'v\<close>.  A program ends with an error or
  an object; a delete ends without object.
\<close>

datatype ('s, 'v) call =
    Effect "'s \<Rightarrow> 'v \<times> 's"
  | ReadCall read_call
  | CreateCall Object
  | DeleteCall ObjectType "Criterion list"
  | DeleteReturningCall ObjectType "Criterion list"
  | UpdateCall Object "LabelChange list" "Criterion list"
  | UpdateLabelsCall ObjectType string "LabelChange list" "Criterion list"
  | RawCreate Object
  | RawDelete ObjectType "Criterion list"
  | RawDeleteReturning ObjectType "Criterion list"
  | RawUpdate Object "LabelChange list" "Criterion list"
  | RawUpdateLabels ObjectType string Object "LabelChange list" "Criterion list"

datatype 'v reply =
    ValueReply 'v
  | ReadReply "(error, read_result) result"
  | ObjectReply "(error, Object option) result"
  | UnitReply "(error, unit) result"
  | ListReply "(error, Object list option) result"

datatype ('s, 'v) prog =
    Return "(error, Object option) result"
  | Call "('s, 'v) call" "'v reply \<Rightarrow> ('s, 'v) prog"

text \<open>The program that makes one call and returns its reply.\<close>

definition last_call :: "('s, 'v) call \<Rightarrow> ('s, 'v) prog" where
  "last_call c = Call c (\<lambda>reply.
     case reply of
       ObjectReply r \<Rightarrow> Return r
     | UnitReply r \<Rightarrow> Return (map_sum (\<lambda>e. e) (\<lambda>_. None) r)
     | _ \<Rightarrow> Return (Inr None))"

text \<open>Sequencing: what an interceptor does with the result of the function it wraps.\<close>

primrec and_then :: "('s, 'v) prog \<Rightarrow> ((error, Object option) result \<Rightarrow> ('s, 'v) prog) \<Rightarrow> ('s, 'v) prog" where
  "and_then (Return r) k = k r"
| "and_then (Call c f) k = Call c (\<lambda>reply. and_then (f reply) k)"

type_synonym ('s, 'v) create_func = "Object \<Rightarrow> ('s, 'v) prog"
type_synonym ('s, 'v) update_func = "Object \<Rightarrow> Object \<Rightarrow> LabelChange list \<Rightarrow> ('s, 'v) prog"
type_synonym ('s, 'v) delete_func = "Object list \<Rightarrow> Criterion list \<Rightarrow> ('s, 'v) prog"

subsection \<open>The state of the scoped repository\<close>

text \<open>
  \<open>current_op\<close> is the operation in the context; \<open>resultList\<close> is the variable that
  \<open>DeleteReturning\<close> shares with the function it passes to the chain.
\<close>

record ('s, 'v) scoped =
  world :: 's
  createOnTxFuncs :: "ObjectType \<rightharpoonup> (('s, 'v) create_func \<Rightarrow> ('s, 'v) create_func)"
  updateOnTxFuncs :: "ObjectType \<rightharpoonup> (('s, 'v) update_func \<Rightarrow> ('s, 'v) update_func)"
  deleteOnTxFuncs :: "ObjectType \<rightharpoonup> (('s, 'v) delete_func \<Rightarrow> ('s, 'v) delete_func)"
  current_op :: "Operation option"
  resultList :: "Object list option"

type_synonym ('s, 'v) runner =
  "('s, 'v) prog \<Rightarrow> ('s, 'v) scoped \<Rightarrow> ((error, Object option) result \<times> ('s, 'v) scoped) option"

text \<open>Appending to the transitive resources of the operation in the context.\<close>

definition addTransitive :: "(Operation \<Rightarrow> bool) \<Rightarrow> RelatedType \<Rightarrow> ('s, 'v) scoped \<Rightarrow> ('s, 'v) scoped" where
  "addTransitive cond rel st =
     (case current_op st of
        None \<Rightarrow> st
      | Some operation \<Rightarrow>
          (if cond operation then
             st\<lparr>current_op := Some (operation\<lparr>TransitiveResources := TransitiveResources operation @ [rel]\<rparr>)\<rparr>
           else st))"

abbreviation related :: "string \<Rightarrow> Criterion list \<Rightarrow> ObjectType \<Rightarrow> OperationCategory \<Rightarrow> RelatedType" where
  "related i cs t c \<equiv> \<lparr>rel_ID = i, rel_Criteria = cs, rel_Type = t, rel_OperationType = c\<rparr>"

subsection \<open>The functions at the end of the chains\<close>

definition createObjectFunc ::
  "'s raw_repository \<Rightarrow> Object \<Rightarrow> ('s, 'v) scoped \<Rightarrow> (error, Object option) result \<times> ('s, 'v) scoped" where
  "createObjectFunc R newObject st =
     (case r_Create R newObject (world st) of
        (Inl err, w) \<Rightarrow> (Inl err, st\<lparr>world := w\<rparr>)
      | (Inr createdObj, w) \<Rightarrow>
          (Inr (Some createdObj),
           addTransitive (\<lambda>operation. ResourceID operation \<noteq> GetID createdObj)
             (related (GetID createdObj) [] (GetType createdObj) CREATE) (st\<lparr>world := w\<rparr>)))"

definition deleteObjectFunc ::
  "'s raw_repository \<Rightarrow> ObjectType \<Rightarrow> Criterion list \<Rightarrow> ('s, 'v) scoped \<Rightarrow> (error, unit) result \<times> ('s, 'v) scoped" where
  "deleteObjectFunc R objectType deletionCriteria st =
     (case r_Delete R objectType deletionCriteria (world st) of
        (Inl err, w) \<Rightarrow> (Inl err, st\<lparr>world := w\<rparr>)
      | (Inr _, w) \<Rightarrow>
          (Inr (),
           addTransitive (\<lambda>operation. ResourceType operation \<noteq> objectType)
             (related '''' deletionCriteria objectType DELETE) (st\<lparr>world := w\<rparr>)))"

definition deleteReturningFunc ::
  "'s raw_repository \<Rightarrow> ObjectType \<Rightarrow> Criterion list \<Rightarrow> ('s, 'v) scoped \<Rightarrow> (error, unit) result \<times> ('s, 'v) scoped" where
  "deleteReturningFunc R objectType deletionCriteria st =
     (case r_DeleteReturning R objectType deletionCriteria (world st) of
        (Inl err, w) \<Rightarrow> (Inl err, st\<lparr>world := w, resultList := None\<rparr>)
      | (Inr objects, w) \<Rightarrow>
          (Inr (),
           fold (\<lambda>ob. addTransitive (\<lambda>operation. ResourceID operation \<noteq> GetID ob)
                   (related (GetID ob) [] (GetType ob) DELETE))
             objects (st\<lparr>world := w, resultList := Some objects\<rparr>)))"

text \<open>The merged labels, by the specification of \<open>ApplyLabelChangesToLabels\<close>.\<close>

definition mergedLabels_of :: "LabelChange list \<Rightarrow> label_map \<Rightarrow> label_map" where
  "mergedLabels_of changes labels = fold spec_change changes labels"

definition updateObjFunc ::
  "'s raw_repository \<Rightarrow> Criterion list \<Rightarrow> Object \<Rightarrow> LabelChange list \<Rightarrow> ('s, 'v) scoped \<Rightarrow>
   (error, Object option) result \<times> ('s, 'v) scoped" where
  "updateObjFunc R criteria newObj labelChanges st =
     (case r_Update R newObj labelChanges criteria (world st) of
        (Inl err, w) \<Rightarrow> (Inl err, st\<lparr>world := w\<rparr>)
      | (Inr ob, w) \<Rightarrow>
          (Inr (Some (SetLabels (mergedLabels_of labelChanges (GetLabels newObj)) ob)),
           addTransitive (\<lambda>operation. ResourceID operation \<noteq> GetID ob \<and> ID operation \<noteq> GetID ob
                \<and> GetType ob \<noteq> OperationType)
             (related (GetID ob) [] (GetType ob) UPDATE) (st\<lparr>world := w\<rparr>)))"

definition updateLabelsFunc ::
  "'s raw_repository \<Rightarrow> ObjectType \<Rightarrow> string \<Rightarrow> Object \<Rightarrow> Criterion list \<Rightarrow> LabelChange list \<Rightarrow> ('s, 'v) scoped \<Rightarrow>
   (error, Object option) result \<times> ('s, 'v) scoped" where
  "updateLabelsFunc R objectType objectID obj criteria labelChanges st =
     (case r_UpdateLabels R objectType objectID labelChanges criteria (world st) of
        (Inl err, w) \<Rightarrow> (Inl err, st\<lparr>world := w\<rparr>)
      | (Inr _, w) \<Rightarrow>
          (Inr (Some obj),
           addTransitive (\<lambda>operation. ResourceID operation \<noteq> objectID \<and> ID operation \<noteq> objectID
                \<and> objectType \<noteq> OperationType)
             (related objectID [] objectType UPDATE) (st\<lparr>world := w\<rparr>)))"

subsection \<open>The operations of the scoped repository\<close>

text \<open>The read operations go to the raw repository; \<open>GetForUpdate\<close> calls \<open>Get\<close> there.\<close>

definition on_world :: "('s \<Rightarrow> (error, 'a) result \<times> 's) \<Rightarrow> ('a \<Rightarrow> 'b) \<Rightarrow> ('s, 'v) scoped \<Rightarrow>
    (error, 'b) result \<times> ('s, 'v) scoped" where
  "on_world f g st = (case f (world st) of (r, w) \<Rightarrow> (map_sum (\<lambda>e. e) g r, st\<lparr>world := w\<rparr>))"

primrec scoped_read :: "'s raw_repository \<Rightarrow> read_call \<Rightarrow> ('s, 'v) scoped \<Rightarrow> (error, read_result) result \<times> ('s, 'v) scoped" where
  "scoped_read R (GetCall t cs) st = on_world (r_Get R t cs) AnObject st"
| "scoped_read R (GetForUpdateCall t cs) st = on_world (r_Get R t cs) AnObject st"
| "scoped_read R (ListCall t cs) st = on_world (r_List R t cs) SomeObjects st"
| "scoped_read R (ListNoLabelsCall t cs) st = on_world (r_ListNoLabels R t cs) SomeObjects st"
| "scoped_read R (CountCall t cs) st = on_world (r_Count R t cs) ANumber st"
| "scoped_read R (CountLabelValuesCall t cs) st = on_world (r_CountLabelValues R t cs) ANumber st"
| "scoped_read R (QueryForListCall t q ps) st = on_world (r_QueryForList R t q ps) SomeObjects st"

definition scoped_Create ::
  "'s raw_repository \<Rightarrow> ('s, 'v) runner \<Rightarrow> Object \<Rightarrow> ('s, 'v) scoped \<Rightarrow>
   ((error, Object option) result \<times> ('s, 'v) scoped) option" where
  "scoped_Create R run_chain obj st =
     (let objectType = GetType obj
      in case createOnTxFuncs st objectType of
           Some createOnTxFunc \<Rightarrow>
             (case run_chain (createOnTxFunc (\<lambda>newObject. last_call (RawCreate newObject)) obj)
                     (st\<lparr>createOnTxFuncs := (createOnTxFuncs st)(objectType := None)\<rparr>) of
                None \<Rightarrow> None
              | Some (r, st') \<Rightarrow>
                  Some (r, st'\<lparr>createOnTxFuncs := (createOnTxFuncs st')(objectType \<mapsto> createOnTxFunc)\<rparr>))
         | None \<Rightarrow> Some (createObjectFunc R obj st))"

definition scoped_Delete ::
  "'s raw_repository \<Rightarrow> ('s, 'v) runner \<Rightarrow> ObjectType \<Rightarrow> Criterion list \<Rightarrow> ('s, 'v) scoped \<Rightarrow>
   ((error, unit) result \<times> ('s, 'v) scoped) option" where
  "scoped_Delete R run_chain objectType criteria st =
     (case deleteOnTxFuncs st objectType of
        Some deleteOnTxFunc \<Rightarrow>
          (case r_List R objectType criteria (world st) of
             (Inl err, w) \<Rightarrow> Some (Inl err, st\<lparr>world := w\<rparr>)
           | (Inr objects, w) \<Rightarrow>
               (case run_chain (deleteOnTxFunc (\<lambda>_ deletionCriteria. last_call (RawDelete objectType deletionCriteria)) objects criteria)
                       (st\<lparr>world := w, deleteOnTxFuncs := (deleteOnTxFuncs st)(objectType := None)\<rparr>) of
                  None \<Rightarrow> None
                | Some (r, st') \<Rightarrow>
                    Some (map_sum (\<lambda>e. e) (\<lambda>_. ()) r,
                          st'\<lparr>deleteOnTxFuncs := (deleteOnTxFuncs st')(objectType \<mapsto> deleteOnTxFunc)\<rparr>)))
      | None \<Rightarrow> Some (deleteObjectFunc R objectType criteria st))"

definition scoped_DeleteReturning ::
  "'s raw_repository \<Rightarrow> ('s, 'v) runner \<Rightarrow> ObjectType \<Rightarrow> Criterion list \<Rightarrow> ('s, 'v) scoped \<Rightarrow>
   ((error, Object list option) result \<times> ('s, 'v) scoped) option" where
  "scoped_DeleteReturning R run_chain objectType criteria st =
     (let outer = resultList st
      in case deleteOnTxFuncs st objectType of
           Some deleteOnTxFunc \<Rightarrow>
             (case r_List R objectType criteria (world st) of
                (Inl err, w) \<Rightarrow> Some (Inl err, st\<lparr>world := w\<rparr>)
              | (Inr objects, w) \<Rightarrow>
                  (case run_chain (deleteOnTxFunc (\<lambda>_ deletionCriteria. last_call (RawDeleteReturning objectType deletionCriteria)) objects criteria)
                          (st\<lparr>world := w, resultList := None, deleteOnTxFuncs := (deleteOnTxFuncs st)(objectType := None)\<rparr>) of
                     None \<Rightarrow> None
                   | Some (r, st') \<Rightarrow>
                       Some (map_sum (\<lambda>e. e) (\<lambda>_. resultList st') r,
                             st'\<lparr>deleteOnTxFuncs := (deleteOnTxFuncs st')(objectType \<mapsto> deleteOnTxFunc),
                                 resultList := outer\<rparr>)))
         | None \<Rightarrow>
             (case deleteReturningFunc R objectType criteria (st\<lparr>resultList := None\<rparr>) of
                (r, st') \<Rightarrow> Some (map_sum (\<lambda>e. e) (\<lambda>_. resultList st') r, st'\<lparr>resultList := outer\<rparr>)))"

definition byID :: "string \<Rightarrow> Criterion list" where
  "byID i = [ByField EqualsOperator ''id'' [i]]"

definition scoped_Update ::
  "'s raw_repository \<Rightarrow> ('s, 'v) runner \<Rightarrow> Object \<Rightarrow> LabelChange list \<Rightarrow> Criterion list \<Rightarrow> ('s, 'v) scoped \<Rightarrow>
   ((error, Object option) result \<times> ('s, 'v) scoped) option" where
  "scoped_Update R run_chain obj labelChanges criteria st =
     (let objectType = GetType obj
      in case r_Get R objectType (byID (GetID obj)) (world st) of
           (Inl err, w) \<Rightarrow> Some (Inl err, st\<lparr>world := w\<rparr>)
         | (Inr oldObj, w) \<Rightarrow>
             (case updateOnTxFuncs st objectType of
                Some updateOnTxFunc \<Rightarrow>
                  (case run_chain (updateOnTxFunc (\<lambda>_ newObj lcs. last_call (RawUpdate newObj lcs criteria)) oldObj obj labelChanges)
                          (st\<lparr>world := w, updateOnTxFuncs := (updateOnTxFuncs st)(objectType := None)\<rparr>) of
                     None \<Rightarrow> None
                   | Some (r, st') \<Rightarrow>
                       Some (r, st'\<lparr>updateOnTxFuncs := (updateOnTxFuncs st')(objectType \<mapsto> updateOnTxFunc)\<rparr>))
              | None \<Rightarrow> Some (updateObjFunc R criteria obj labelChanges (st\<lparr>world := w\<rparr>))))"

definition scoped_UpdateLabels ::
  "'s raw_repository \<Rightarrow> ('s, 'v) runner \<Rightarrow> ObjectType \<Rightarrow> string \<Rightarrow> LabelChange list \<Rightarrow> Criterion list \<Rightarrow> ('s, 'v) scoped \<Rightarrow>
   ((error, unit) result \<times> ('s, 'v) scoped) option" where
  "scoped_UpdateLabels R run_chain objectType objectID labelChanges criteria st =
     (case r_ListNoLabels R objectType (byID objectID) (world st) of
        (Inl err, w) \<Rightarrow> Some (Inl err, st\<lparr>world := w\<rparr>)
      | (Inr [], w) \<Rightarrow> Some (Inl ErrNotFoundInStorage, st\<lparr>world := w\<rparr>)
      | (Inr (obj # o2 # os), w) \<Rightarrow>
          Some (Inl (ErrorString (''found '' @ strconv_Itoa (int (length (obj # o2 # os))) @ '' ''
                @ ObjectType_String objectType @ '' with same id '' @ objectID)), st\<lparr>world := w\<rparr>)
      | (Inr [obj], w) \<Rightarrow>
          (case updateOnTxFuncs st objectType of
             Some updateOnTxFunc \<Rightarrow>
               (case run_chain (updateOnTxFunc (\<lambda>_ _ lcs. last_call (RawUpdateLabels objectType objectID obj lcs criteria)) obj obj labelChanges)
                       (st\<lparr>world := w, updateOnTxFuncs := (updateOnTxFuncs st)(objectType := None)\<rparr>) of
                  None \<Rightarrow> None
                | Some (r, st') \<Rightarrow>
                    Some (map_sum (\<lambda>e. e) (\<lambda>_. ()) r,
                          st'\<lparr>updateOnTxFuncs := (updateOnTxFuncs st')(objectType \<mapsto> updateOnTxFunc)\<rparr>))
           | None \<Rightarrow>
               (case updateLabelsFunc R objectType objectID obj criteria labelChanges (st\<lparr>world := w\<rparr>) of
                  (r, st') \<Rightarrow> Some (map_sum (\<lambda>e. e) (\<lambda>_. ()) r, st'))))"

subsection \<open>Running programs\<close>

text \<open>
  \<open>step\<close> answers one call; a chain that a call enters is executed by \<open>run_chain\<close>.  \<open>exec\<close> walks
  through a program, and \<open>run n\<close> allows chains to be nested \<open>n\<close> deep.
\<close>

fun answer :: "('a \<Rightarrow> 'v reply) \<Rightarrow> 'a \<times> 'st \<Rightarrow> 'v reply \<times> 'st" where
  "answer f (r, st) = (f r, st)"

primrec step :: "'s raw_repository \<Rightarrow> ('s, 'v) runner \<Rightarrow> ('s, 'v) call \<Rightarrow> ('s, 'v) scoped \<Rightarrow>
    ('v reply \<times> ('s, 'v) scoped) option" where
  "step R run_chain (Effect f) st = (case f (world st) of (v, w) \<Rightarrow> Some (ValueReply v, st\<lparr>world := w\<rparr>))"
| "step R run_chain (ReadCall c) st = Some (answer ReadReply (scoped_read R c st))"
| "step R run_chain (CreateCall obj) st = map_option (answer ObjectReply) (scoped_Create R run_chain obj st)"
| "step R run_chain (DeleteCall t cs) st = map_option (answer UnitReply) (scoped_Delete R run_chain t cs st)"
| "step R run_chain (DeleteReturningCall t cs) st =
     map_option (answer ListReply) (scoped_DeleteReturning R run_chain t cs st)"
| "step R run_chain (UpdateCall obj lcs cs) st =
     map_option (answer ObjectReply) (scoped_Update R run_chain obj lcs cs st)"
| "step R run_chain (UpdateLabelsCall t i lcs cs) st =
     map_option (answer UnitReply) (scoped_UpdateLabels R run_chain t i lcs cs st)"
| "step R run_chain (RawCreate obj) st = Some (answer ObjectReply (createObjectFunc R obj st))"
| "step R run_chain (RawDelete t cs) st = Some (answer UnitReply (deleteObjectFunc R t cs st))"
| "step R run_chain (RawDeleteReturning t cs) st = Some (answer UnitReply (deleteReturningFunc R t cs st))"
| "step R run_chain (RawUpdate obj lcs cs) st = Some (answer ObjectReply (updateObjFunc R cs obj lcs st))"
| "step R run_chain (RawUpdateLabels t i obj lcs cs) st =
     Some (answer ObjectReply (updateLabelsFunc R t i obj cs lcs st))"

primrec exec :: "'s raw_repository \<Rightarrow> ('s, 'v) runner \<Rightarrow> ('s, 'v) runner" where
  "exec R run_chain (Return r) = (\<lambda>st. Some (r, st))"
| "exec R run_chain (Call c k) =
     (\<lambda>st. case step R run_chain c st of
        None \<Rightarrow> None
      | Some (reply, st') \<Rightarrow> exec R run_chain (k reply) st')"

primrec run :: "'s raw_repository \<Rightarrow> nat \<Rightarrow> ('s, 'v) runner" where
  "run R 0 = exec R (\<lambda>_ _. None)"
| "run R (Suc n) = exec R (run R n)"

subsection \<open>The chains are put back\<close>

definition same_chains :: "('s, 'v) scoped \<Rightarrow> ('s, 'v) scoped \<Rightarrow> bool" where
  "same_chains st st' \<longleftrightarrow> createOnTxFuncs st' = createOnTxFuncs st \<and>
     updateOnTxFuncs st' = updateOnTxFuncs st \<and> deleteOnTxFuncs st' = deleteOnTxFuncs st"

lemma same_chains_refl [simp]: "same_chains st st"
  by (simp add: same_chains_def)

lemma same_chains_trans: "same_chains st st' \<Longrightarrow> same_chains st' st'' \<Longrightarrow> same_chains st st''"
  by (simp add: same_chains_def)

lemma same_chains_fields [simp]:
  "same_chains st (st'\<lparr>world := w\<rparr>) = same_chains st st'"
  "same_chains st (st'\<lparr>current_op := p\<rparr>) = same_chains st st'"
  "same_chains st (st'\<lparr>resultList := l\<rparr>) = same_chains st st'"
  "same_chains (st\<lparr>world := w\<rparr>) st' = same_chains st st'"
  "same_chains (st\<lparr>resultList := l\<rparr>) st' = same_chains st st'"
  by (simp_all add: same_chains_def)

lemma same_chains_addTransitive [simp]: "same_chains st (addTransitive c rel st') = same_chains st st'"
  by (simp add: addTransitive_def split: option.splits)

lemma same_chains_fold_addTransitive [simp]:
  "same_chains st (fold (\<lambda>ob. addTransitive (c ob) (rel ob)) obs st') = same_chains st st'"
  by (induction obs arbitrary: st') simp_all

lemma same_chains_raw:
  "createObjectFunc R obj st = (r, st') \<Longrightarrow> same_chains st st'"
  "deleteObjectFunc R t cs st = (q, st') \<Longrightarrow> same_chains st st'"
  "deleteReturningFunc R t cs st = (q, st') \<Longrightarrow> same_chains st st'"
  "updateObjFunc R cs obj lcs st = (r, st') \<Longrightarrow> same_chains st st'"
  "updateLabelsFunc R t i obj cs lcs st = (r, st') \<Longrightarrow> same_chains st st'"
  by (auto simp: createObjectFunc_def deleteObjectFunc_def deleteReturningFunc_def updateObjFunc_def
      updateLabelsFunc_def split: prod.splits sum.splits)

lemma same_chains_read: "scoped_read R c st = (r, st') \<Longrightarrow> same_chains st st'"
  by (cases c) (auto simp: on_world_def split: prod.splits)

text \<open>The contract of a runner: it leaves the chains as it found them.\<close>

definition restoring :: "('s, 'v) runner \<Rightarrow> bool" where
  "restoring rn \<longleftrightarrow> (\<forall>p st r st'. rn p st = Some (r, st') \<longrightarrow> same_chains st st')"

lemma restoringD: "restoring rn \<Longrightarrow> rn p st = Some (r, st') \<Longrightarrow> same_chains st st'"
  by (simp add: restoring_def)

lemma same_chains_Create:
  assumes "restoring rn" "scoped_Create R rn obj st = Some (r, st')"
  shows "same_chains st st'"
proof (cases "createOnTxFuncs st (GetType obj)")
  case None
  with assms(2) show ?thesis by (auto simp: scoped_Create_def intro: same_chains_raw)
next
  case (Some f)
  with assms(2) obtain st1 where
    "rn (f (\<lambda>newObject. last_call (RawCreate newObject)) obj)
       (st\<lparr>createOnTxFuncs := (createOnTxFuncs st)(GetType obj := None)\<rparr>) = Some (r, st1)"
    and st': "st' = st1\<lparr>createOnTxFuncs := (createOnTxFuncs st1)(GetType obj \<mapsto> f)\<rparr>"
    by (auto simp: scoped_Create_def Let_def split: option.splits)
  from restoringD [OF assms(1) this(1)] st' Some show ?thesis
    by (auto simp: same_chains_def fun_eq_iff)
qed

lemma same_chains_Delete:
  assumes "restoring rn" "scoped_Delete R rn t cs st = Some (r, st')"
  shows "same_chains st st'"
proof (cases "deleteOnTxFuncs st t")
  case None
  with assms(2) show ?thesis by (auto simp: scoped_Delete_def intro: same_chains_raw)
next
  case (Some f)
  show ?thesis
  proof (cases "r_List R t cs (world st)")
    case (Pair l w)
    show ?thesis
    proof (cases l)
      case (Inl err)
      with assms(2) Some Pair show ?thesis by (auto simp: scoped_Delete_def)
    next
      case (Inr objects)
      with assms(2) Some Pair obtain q st1 where
        "rn (f (\<lambda>_ deletionCriteria. last_call (RawDelete t deletionCriteria)) objects cs)
           (st\<lparr>world := w, deleteOnTxFuncs := (deleteOnTxFuncs st)(t := None)\<rparr>) = Some (q, st1)"
        and st': "st' = st1\<lparr>deleteOnTxFuncs := (deleteOnTxFuncs st1)(t \<mapsto> f)\<rparr>"
        by (auto simp: scoped_Delete_def split: option.splits)
      from restoringD [OF assms(1) this(1)] st' Some show ?thesis
        by (auto simp: same_chains_def fun_eq_iff)
    qed
  qed
qed

lemma same_chains_DeleteReturning:
  assumes "restoring rn" "scoped_DeleteReturning R rn t cs st = Some (r, st')"
  shows "same_chains st st'"
proof (cases "deleteOnTxFuncs st t")
  case None
  obtain q st1 where *: "deleteReturningFunc R t cs (st\<lparr>resultList := None\<rparr>) = (q, st1)" by (rule prod.exhaust)
  from same_chains_raw(3) [OF *] None assms(2) * show ?thesis
    by (auto simp: scoped_DeleteReturning_def Let_def)
next
  case (Some f)
  show ?thesis
  proof (cases "r_List R t cs (world st)")
    case (Pair l w)
    show ?thesis
    proof (cases l)
      case (Inl err)
      with assms(2) Some Pair show ?thesis by (auto simp: scoped_DeleteReturning_def Let_def)
    next
      case (Inr objects)
      with assms(2) Some Pair obtain q st1 where
        "rn (f (\<lambda>_ deletionCriteria. last_call (RawDeleteReturning t deletionCriteria)) objects cs)
           (st\<lparr>world := w, resultList := None, deleteOnTxFuncs := (deleteOnTxFuncs st)(t := None)\<rparr>) = Some (q, st1)"
        and st': "st' = st1\<lparr>deleteOnTxFuncs := (deleteOnTxFuncs st1)(t \<mapsto> f), resultList := resultList st\<rparr>"
        by (auto simp: scoped_DeleteReturning_def Let_def split: option.splits)
      from restoringD [OF assms(1) this(1)] st' Some show ?thesis
        by (auto simp: same_chains_def fun_eq_iff)
    qed
  qed
qed

lemma same_chains_Update:
  assumes "restoring rn" "scoped_Update R rn obj lcs cs st = Some (r, st')"
  shows "same_chains st st'"
proof (cases "r_Get R (GetType obj) (byID (GetID obj)) (world st)")
  case (Pair g w)
  show ?thesis
  proof (cases g)
    case (Inl err)
    with assms(2) Pair show ?thesis by (auto simp: scoped_Update_def Let_def)
  next
    case (Inr old)
    show ?thesis
    proof (cases "updateOnTxFuncs st (GetType obj)")
      case None
      with assms(2) Pair Inr have "updateObjFunc R cs obj lcs (st\<lparr>world := w\<rparr>) = (r, st')"
        by (auto simp: scoped_Update_def Let_def)
      from same_chains_raw(4) [OF this] show ?thesis by simp
    next
      case (Some f)
      with assms(2) Pair Inr obtain st1 where
        "rn (f (\<lambda>_ newObj lcs. last_call (RawUpdate newObj lcs cs)) old obj lcs)
           (st\<lparr>world := w, updateOnTxFuncs := (updateOnTxFuncs st)(GetType obj := None)\<rparr>) = Some (r, st1)"
        and st': "st' = st1\<lparr>updateOnTxFuncs := (updateOnTxFuncs st1)(GetType obj \<mapsto> f)\<rparr>"
        by (auto simp: scoped_Update_def Let_def split: option.splits)
      from restoringD [OF assms(1) this(1)] st' Some show ?thesis
        by (auto simp: same_chains_def fun_eq_iff)
    qed
  qed
qed

text \<open>The only object of a list of length one decides \<open>UpdateLabels\<close>.\<close>

lemma scoped_UpdateLabels_cases:
  assumes "r_ListNoLabels R t (byID i) (world st) = (l, w)"
  shows "(\<exists>e. scoped_UpdateLabels R rn t i lcs cs st = Some (Inl e, st\<lparr>world := w\<rparr>)) \<or>
    (\<exists>obj. l = Inr [obj])"
  using assms by (cases l) (auto simp: scoped_UpdateLabels_def split: list.splits)

lemma same_chains_UpdateLabels:
  assumes "restoring rn" "scoped_UpdateLabels R rn t i lcs cs st = Some (r, st')"
  shows "same_chains st st'"
proof (cases "r_ListNoLabels R t (byID i) (world st)")
  case (Pair l w)
  from scoped_UpdateLabels_cases [OF Pair, of rn lcs cs] assms(2) show ?thesis
  proof (elim disjE exE)
    fix obj assume l: "l = Inr [obj]"
    show ?thesis
    proof (cases "updateOnTxFuncs st t")
      case None
      with assms(2) Pair l obtain q where "updateLabelsFunc R t i obj cs lcs (st\<lparr>world := w\<rparr>) = (q, st')"
        by (auto simp: scoped_UpdateLabels_def split: prod.splits)
      from same_chains_raw(5) [OF this] show ?thesis by simp
    next
      case (Some f)
      with assms(2) Pair l obtain q st1 where
        "rn (f (\<lambda>_ _ lcs. last_call (RawUpdateLabels t i obj lcs cs)) obj obj lcs)
           (st\<lparr>world := w, updateOnTxFuncs := (updateOnTxFuncs st)(t := None)\<rparr>) = Some (q, st1)"
        and st': "st' = st1\<lparr>updateOnTxFuncs := (updateOnTxFuncs st1)(t \<mapsto> f)\<rparr>"
        by (auto simp: scoped_UpdateLabels_def split: option.splits)
      from restoringD [OF assms(1) this(1)] st' Some show ?thesis
        by (auto simp: same_chains_def fun_eq_iff)
    qed
  qed auto
qed

lemma answer_eq: "answer f x = (rep, st') \<longleftrightarrow> (\<exists>r. x = (r, st') \<and> rep = f r)"
  by (cases x) auto

lemma same_chains_step:
  assumes "restoring rn" "step R rn c st = Some (rep, st')"
  shows "same_chains st st'"
  using assms(2) same_chains_Create [OF assms(1)] same_chains_Delete [OF assms(1)]
    same_chains_DeleteReturning [OF assms(1)] same_chains_Update [OF assms(1)]
    same_chains_UpdateLabels [OF assms(1)] same_chains_raw same_chains_read
  by (cases c) (auto simp: answer_eq split: prod.splits)

lemma restoring_exec:
  assumes "restoring rn"
  shows "exec R rn p st = Some (r, st') \<Longrightarrow> same_chains st st'"
proof (induction p arbitrary: st)
  case (Call c k)
  then obtain rep st1 where c: "step R rn c st = Some (rep, st1)" and e: "exec R rn (k rep) st1 = Some (r, st')"
    by (auto split: option.splits)
  from same_chains_trans [OF same_chains_step [OF assms c] Call.IH [OF rangeI e]] show ?case .
qed simp

lemma restoring_exec_runner: "restoring rn \<Longrightarrow> restoring (exec R rn)"
  using restoring_exec by (auto simp: restoring_def [of "exec R rn"])

lemma restoring_run: "restoring (run R n)"
proof (induction n)
  case 0
  have "restoring (\<lambda>_ _. None)" by (simp add: restoring_def)
  then show ?case unfolding run.simps by (rule restoring_exec_runner)
next
  case (Suc n)
  then show ?case unfolding run.simps by (rule restoring_exec_runner)
qed

subsection \<open>Chains cannot recurse for ever\<close>

definition finite_chains :: "('s, 'v) scoped \<Rightarrow> bool" where
  "finite_chains st \<longleftrightarrow> finite (dom (createOnTxFuncs st)) \<and> finite (dom (updateOnTxFuncs st)) \<and>
     finite (dom (deleteOnTxFuncs st))"

definition chain_count :: "('s, 'v) scoped \<Rightarrow> nat" where
  "chain_count st = card (dom (createOnTxFuncs st)) + card (dom (updateOnTxFuncs st)) + card (dom (deleteOnTxFuncs st))"

lemma same_chains_count:
  "same_chains st st' \<Longrightarrow> chain_count st' = chain_count st \<and> finite_chains st' = finite_chains st"
  by (simp add: same_chains_def chain_count_def finite_chains_def)

lemma card_dom_remove:
  "m t = Some f \<Longrightarrow> finite (dom m) \<Longrightarrow> card (dom (m(t := None))) < card (dom m) \<and> finite (dom (m(t := None)))"
proof -
  assume "m t = Some f" "finite (dom m)"
  then have "t \<in> dom m" by auto
  with \<open>finite (dom m)\<close> show ?thesis by (simp add: card_gt_0_iff) (metis card_gt_0_iff diff_less empty_iff lessI zero_less_Suc)
qed

lemma remove_chain:
  assumes "finite_chains st"
  shows "createOnTxFuncs st t = Some f \<Longrightarrow>
      finite_chains (st\<lparr>createOnTxFuncs := (createOnTxFuncs st)(t := None)\<rparr>) \<and>
      chain_count (st\<lparr>createOnTxFuncs := (createOnTxFuncs st)(t := None)\<rparr>) < chain_count st"
    and "updateOnTxFuncs st t = Some g \<Longrightarrow>
      finite_chains (st\<lparr>world := w, updateOnTxFuncs := (updateOnTxFuncs st)(t := None)\<rparr>) \<and>
      chain_count (st\<lparr>world := w, updateOnTxFuncs := (updateOnTxFuncs st)(t := None)\<rparr>) < chain_count st"
    and "deleteOnTxFuncs st t = Some h \<Longrightarrow>
      finite_chains (st\<lparr>world := w, deleteOnTxFuncs := (deleteOnTxFuncs st)(t := None)\<rparr>) \<and>
      chain_count (st\<lparr>world := w, deleteOnTxFuncs := (deleteOnTxFuncs st)(t := None)\<rparr>) < chain_count st"
    and "deleteOnTxFuncs st t = Some h \<Longrightarrow>
      finite_chains (st\<lparr>world := w, resultList := l, deleteOnTxFuncs := (deleteOnTxFuncs st)(t := None)\<rparr>) \<and>
      chain_count (st\<lparr>world := w, resultList := l, deleteOnTxFuncs := (deleteOnTxFuncs st)(t := None)\<rparr>) < chain_count st"
  using assms card_dom_remove [of "createOnTxFuncs st" t f] card_dom_remove [of "updateOnTxFuncs st" t g]
    card_dom_remove [of "deleteOnTxFuncs st" t h]
  by (simp_all add: finite_chains_def chain_count_def)

text \<open>The contract: a runner that returns whenever fewer than \<open>n\<close> chains are left.\<close>

definition returns_below :: "nat \<Rightarrow> ('s, 'v) runner \<Rightarrow> bool" where
  "returns_below n rn \<longleftrightarrow> (\<forall>p st. finite_chains st \<longrightarrow> chain_count st < n \<longrightarrow> rn p st \<noteq> None)"

lemma returns_belowD:
  "returns_below n rn \<Longrightarrow> chain_count st \<le> n \<Longrightarrow> finite_chains st' \<and> chain_count st' < chain_count st \<Longrightarrow>
     \<exists>r st''. rn p st' = Some (r, st'')"
  unfolding returns_below_def by (metis not_None_eq order_less_le_trans surj_pair)

lemma step_returns:
  assumes rn: "returns_below n rn" and st: "finite_chains st" "chain_count st \<le> n"
  shows "step R rn c st \<noteq> None"
proof (cases c)
  case (CreateCall obj)
  show ?thesis
  proof (cases "createOnTxFuncs st (GetType obj)")
    case (Some f)
    from returns_belowD [OF rn st(2) remove_chain(1) [OF st(1) Some]] show ?thesis
      by (simp add: CreateCall scoped_Create_def Some Let_def) (metis (no_types, lifting) option.simps(5) case_prod_conv option.distinct(1))
  qed (simp add: CreateCall scoped_Create_def)
next
  case (DeleteCall t cs)
  show ?thesis
  proof (cases "deleteOnTxFuncs st t")
    case (Some f)
    obtain l w where l: "r_List R t cs (world st) = (l, w)" by (rule prod.exhaust)
    have "\<exists>r st''. rn p (st\<lparr>world := w, deleteOnTxFuncs := (deleteOnTxFuncs st)(t := None)\<rparr>) = Some (r, st'')" for p
      by (rule returns_belowD [OF rn st(2) remove_chain(3) [OF st(1) Some]])
    then show ?thesis
      by (cases l) (auto simp: DeleteCall scoped_Delete_def Some l split: option.splits)
  qed (simp add: DeleteCall scoped_Delete_def)
next
  case (DeleteReturningCall t cs)
  show ?thesis
  proof (cases "deleteOnTxFuncs st t")
    case None
    then show ?thesis by (simp add: DeleteReturningCall scoped_DeleteReturning_def Let_def split: prod.splits)
  next
    case (Some f)
    obtain l w where l: "r_List R t cs (world st) = (l, w)" by (rule prod.exhaust)
    have "\<exists>r st''. rn p (st\<lparr>world := w, resultList := None, deleteOnTxFuncs := (deleteOnTxFuncs st)(t := None)\<rparr>) = Some (r, st'')" for p
      by (rule returns_belowD [OF rn st(2) remove_chain(4) [OF st(1) Some]])
    then show ?thesis
      by (cases l) (auto simp: DeleteReturningCall scoped_DeleteReturning_def Let_def Some l split: option.splits)
  qed
next
  case (UpdateCall obj lcs cs)
  obtain g w where g: "r_Get R (GetType obj) (byID (GetID obj)) (world st) = (g, w)" by (rule prod.exhaust)
  show ?thesis
  proof (cases "updateOnTxFuncs st (GetType obj)")
    case None
    then show ?thesis by (cases g) (simp_all add: UpdateCall scoped_Update_def Let_def g)
  next
    case (Some f)
    have "\<exists>r st''. rn p (st\<lparr>world := w, updateOnTxFuncs := (updateOnTxFuncs st)(GetType obj := None)\<rparr>) = Some (r, st'')" for p
      by (rule returns_belowD [OF rn st(2) remove_chain(2) [OF st(1) Some]])
    then show ?thesis
      by (cases g) (auto simp: UpdateCall scoped_Update_def Let_def Some g split: option.splits)
  qed
next
  case (UpdateLabelsCall t i lcs cs)
  obtain l w where l: "r_ListNoLabels R t (byID i) (world st) = (l, w)" by (rule prod.exhaust)
  from scoped_UpdateLabels_cases [OF l, of rn lcs cs] show ?thesis
  proof (elim disjE exE)
    fix obj assume obj: "l = Inr [obj]"
    show ?thesis
    proof (cases "updateOnTxFuncs st t")
      case None
      then show ?thesis by (simp add: UpdateLabelsCall scoped_UpdateLabels_def l obj split: prod.splits)
    next
      case (Some f)
      have "\<exists>r st''. rn p (st\<lparr>world := w, updateOnTxFuncs := (updateOnTxFuncs st)(t := None)\<rparr>) = Some (r, st'')" for p
        by (rule returns_belowD [OF rn st(2) remove_chain(2) [OF st(1) Some]])
      then show ?thesis
        by (auto simp: UpdateLabelsCall scoped_UpdateLabels_def Some l obj split: option.splits)
    qed
  qed (simp add: UpdateLabelsCall)
qed (simp_all split: prod.splits)

lemma exec_returns:
  assumes rn: "restoring rn" "returns_below n rn"
  shows "finite_chains st \<Longrightarrow> chain_count st \<le> n \<Longrightarrow> exec R rn p st \<noteq> None"
proof (induction p arbitrary: st)
  case (Call c k)
  obtain rep st1 where c: "step R rn c st = Some (rep, st1)"
    using step_returns [OF rn(2) Call.prems, of R c] by auto
  from same_chains_count [OF same_chains_step [OF rn(1) c]] Call.prems
  have "exec R rn (k rep) st1 \<noteq> None" by (intro Call.IH) auto
  with c show ?case by simp
qed simp

lemma run_returns:
  fixes st :: "('s, 'v) scoped"
  shows "finite_chains st \<Longrightarrow> chain_count st \<le> n \<Longrightarrow> run R n p st \<noteq> None"
proof (induction n arbitrary: p st)
  case 0
  have "restoring ((\<lambda>_ _. None) :: ('s, 'v) runner)" "returns_below 0 ((\<lambda>_ _. None) :: ('s, 'v) runner)"
    by (simp_all add: restoring_def returns_below_def)
  from exec_returns [OF this] 0 show ?case by simp
next
  case (Suc n)
  have "returns_below (Suc n) (run R n :: ('s, 'v) runner)"
    unfolding returns_below_def by (intro allI impI, rule Suc.IH) (simp_all only: less_Suc_eq_le)
  from exec_returns [OF restoring_run this] Suc.prems show ?case by simp
qed

subsection \<open>The operation in the context\<close>

text \<open>The operation stays the same but for resources appended to its transitive resources.\<close>

definition op_grows :: "Operation option \<Rightarrow> Operation option \<Rightarrow> bool" where
  "op_grows a b \<longleftrightarrow> (case a of None \<Rightarrow> b = None
     | Some p \<Rightarrow> \<exists>rs. b = Some (p\<lparr>TransitiveResources := TransitiveResources p @ rs\<rparr>))"

lemma op_grows_refl [simp]: "op_grows a a"
  by (auto simp: op_grows_def split: option.splits intro: exI [of _ "[]"])

lemma op_grows_trans: "op_grows a b \<Longrightarrow> op_grows b c \<Longrightarrow> op_grows a c"
  by (auto simp: op_grows_def split: option.splits)

lemma op_grows_addTransitive [simp]: "op_grows (current_op st) (current_op (addTransitive c rel st))"
  by (auto simp: addTransitive_def op_grows_def split: option.splits intro: exI [of _ "[]"])

lemma op_grows_fold_addTransitive:
  "op_grows (current_op st) (current_op (fold (\<lambda>ob. addTransitive (c ob) (rel ob)) obs st))"
proof (induction obs arbitrary: st)
  case (Cons ob obs)
  from op_grows_trans [OF op_grows_addTransitive Cons.IH [of "addTransitive (c ob) (rel ob) st"]] show ?case by simp
qed simp

lemma op_grows_raw:
  "createObjectFunc R obj st = (r, st') \<Longrightarrow> op_grows (current_op st) (current_op st')"
  "deleteObjectFunc R t cs st = (q, st') \<Longrightarrow> op_grows (current_op st) (current_op st')"
  "deleteReturningFunc R t cs st = (q, st') \<Longrightarrow> op_grows (current_op st) (current_op st')"
  "updateObjFunc R cs obj lcs st = (r, st') \<Longrightarrow> op_grows (current_op st) (current_op st')"
  "updateLabelsFunc R t i obj cs lcs st = (r, st') \<Longrightarrow> op_grows (current_op st) (current_op st')"
  using op_grows_addTransitive [of "st\<lparr>world := w\<rparr>" for w]
    op_grows_fold_addTransitive [of "st\<lparr>world := w, resultList := l\<rparr>" for w l]
  by (auto simp: createObjectFunc_def deleteObjectFunc_def deleteReturningFunc_def updateObjFunc_def
      updateLabelsFunc_def split: prod.splits sum.splits)

definition growing :: "('s, 'v) runner \<Rightarrow> bool" where
  "growing rn \<longleftrightarrow> (\<forall>p st r st'. rn p st = Some (r, st') \<longrightarrow> op_grows (current_op st) (current_op st'))"

lemma op_grows_step:
  assumes rn: "growing rn" and c: "step R rn c st = Some (rep, st')"
  shows "op_grows (current_op st) (current_op st')"
proof -
  have g: "rn p st1 = Some (r, st2) \<Longrightarrow> current_op st1 = current_op st \<Longrightarrow> op_grows (current_op st) (current_op st2)"
    for p st1 r st2 using rn unfolding growing_def by metis
  show ?thesis
  proof (cases c)
    case (ReadCall rc)
    with c show ?thesis by (cases rc) (auto simp: on_world_def split: prod.splits)
  next
    case (CreateCall obj)
    with c show ?thesis
      by (auto simp: answer_eq scoped_Create_def Let_def split: option.splits dest: g op_grows_raw)
  next
    case (DeleteCall t cs)
    with c show ?thesis
      by (auto simp: answer_eq scoped_Delete_def split: option.splits prod.splits sum.splits dest: g op_grows_raw)
  next
    case (DeleteReturningCall t cs)
    obtain q st1 where q: "deleteReturningFunc R t cs (st\<lparr>resultList := None\<rparr>) = (q, st1)" by (rule prod.exhaust)
    from DeleteReturningCall c op_grows_raw(3) [OF q] q show ?thesis
      by (auto simp: answer_eq scoped_DeleteReturning_def Let_def split: option.splits prod.splits sum.splits dest: g)
  next
    case (UpdateCall obj lcs cs)
    obtain u w where u: "r_Get R (GetType obj) (byID (GetID obj)) (world st) = (u, w)" by (rule prod.exhaust)
    obtain q st1 where q: "updateObjFunc R cs obj lcs (st\<lparr>world := w\<rparr>) = (q, st1)" by (rule prod.exhaust)
    from UpdateCall c u op_grows_raw(4) [OF q] q show ?thesis
      by (auto simp: answer_eq scoped_Update_def Let_def split: option.splits sum.splits dest: g)
  next
    case (UpdateLabelsCall t i lcs cs)
    obtain l w where l: "r_ListNoLabels R t (byID i) (world st) = (l, w)" by (rule prod.exhaust)
    from scoped_UpdateLabels_cases [OF l, of rn lcs cs] show ?thesis
    proof (elim disjE exE)
      fix obj assume obj: "l = Inr [obj]"
      obtain q st1 where q: "updateLabelsFunc R t i obj cs lcs (st\<lparr>world := w\<rparr>) = (q, st1)" by (rule prod.exhaust)
      from UpdateLabelsCall c l obj op_grows_raw(5) [OF q] q show ?thesis
        by (auto simp: answer_eq scoped_UpdateLabels_def split: option.splits dest: g)
    qed (use c UpdateLabelsCall in auto)
  qed (use c in \<open>auto simp: answer_eq split: prod.splits dest: op_grows_raw\<close>)
qed

lemma op_grows_exec:
  assumes "growing rn"
  shows "exec R rn p st = Some (r, st') \<Longrightarrow> op_grows (current_op st) (current_op st')"
proof (induction p arbitrary: st)
  case (Call c k)
  then obtain rep st1 where c: "step R rn c st = Some (rep, st1)" and e: "exec R rn (k rep) st1 = Some (r, st')"
    by (auto split: option.splits)
  from op_grows_trans [OF op_grows_step [OF assms c] Call.IH [OF rangeI e]] show ?case .
qed simp

lemma growing_run: "growing (run R n)"
proof (induction n)
  case 0
  have "growing (\<lambda>_ _. None)" by (simp add: growing_def)
  then show ?case unfolding run.simps growing_def [of "exec _ _"] using op_grows_exec by blast
next
  case (Suc n)
  then show ?case unfolding run.simps growing_def [of "exec _ _"] using op_grows_exec by blast
qed

subsection \<open>The locking read\<close>

text \<open>No program calls the locking read of the raw repository.\<close>

lemma scoped_no_lock:
  "createObjectFunc (R\<lparr>r_GetForUpdate := g\<rparr>) = createObjectFunc R"
  "deleteObjectFunc (R\<lparr>r_GetForUpdate := g\<rparr>) = deleteObjectFunc R"
  "deleteReturningFunc (R\<lparr>r_GetForUpdate := g\<rparr>) = deleteReturningFunc R"
  "updateObjFunc (R\<lparr>r_GetForUpdate := g\<rparr>) = updateObjFunc R"
  "updateLabelsFunc (R\<lparr>r_GetForUpdate := g\<rparr>) = updateLabelsFunc R"
  by (simp_all add: fun_eq_iff createObjectFunc_def deleteObjectFunc_def deleteReturningFunc_def
      updateObjFunc_def updateLabelsFunc_def)

lemma no_lock_fields:
  "r_Get (R\<lparr>r_GetForUpdate := g\<rparr>) = r_Get R" "r_List (R\<lparr>r_GetForUpdate := g\<rparr>) = r_List R"
  "r_ListNoLabels (R\<lparr>r_GetForUpdate := g\<rparr>) = r_ListNoLabels R"
  by simp_all

lemma scoped_no_lock_calls:
  "scoped_Create (R\<lparr>r_GetForUpdate := g\<rparr>) rn obj st = scoped_Create R rn obj st"
  "scoped_Delete (R\<lparr>r_GetForUpdate := g\<rparr>) rn t cs st = scoped_Delete R rn t cs st"
  "scoped_DeleteReturning (R\<lparr>r_GetForUpdate := g\<rparr>) rn t cs st = scoped_DeleteReturning R rn t cs st"
  "scoped_Update (R\<lparr>r_GetForUpdate := g\<rparr>) rn obj lcs cs st = scoped_Update R rn obj lcs cs st"
  "scoped_UpdateLabels (R\<lparr>r_GetForUpdate := g\<rparr>) rn t i lcs cs st = scoped_UpdateLabels R rn t i lcs cs st"
  unfolding scoped_Create_def scoped_Delete_def scoped_DeleteReturning_def scoped_Update_def
    scoped_UpdateLabels_def scoped_no_lock no_lock_fields by (rule refl)+

lemma step_no_lock: "step (R\<lparr>r_GetForUpdate := g\<rparr>) rn c = step R rn c"
proof (cases c)
  case (ReadCall rc)
  then show ?thesis by (cases rc) (simp_all add: fun_eq_iff)
qed (simp_all add: fun_eq_iff scoped_no_lock scoped_no_lock_calls)

lemma exec_no_lock: "exec (R\<lparr>r_GetForUpdate := g\<rparr>) rn p = exec R rn p"
proof (induction p)
  case (Call c k)
  then have "exec (R\<lparr>r_GetForUpdate := g\<rparr>) rn (k rep) = exec R rn (k rep)" for rep by blast
  then show ?case by (simp add: step_no_lock fun_eq_iff split: option.splits)
qed simp

lemma run_no_lock: "run (R\<lparr>r_GetForUpdate := g\<rparr>) n = run R n"
proof (induction n)
  case (Suc n)
  show ?case by (rule ext) (simp only: run.simps Suc exec_no_lock)
qed (rule ext, simp only: run.simps exec_no_lock)

subsection \<open>Fuel\<close>

text \<open>A runner that returns whenever another one does, with the same result.\<close>

definition extends :: "('s, 'v) runner \<Rightarrow> ('s, 'v) runner \<Rightarrow> bool" where
  "extends rn rn' \<longleftrightarrow> (\<forall>p st x. rn p st = Some x \<longrightarrow> rn' p st = Some x)"

lemma extendsD: "extends rn rn' \<Longrightarrow> rn p st = Some x \<Longrightarrow> rn' p st = Some x"
  unfolding extends_def by blast

lemma extends_calls:
  assumes e: "extends rn rn'"
  shows "scoped_Create R rn obj st = Some x1 \<Longrightarrow> scoped_Create R rn' obj st = Some x1"
    "scoped_Delete R rn t cs st = Some x2 \<Longrightarrow> scoped_Delete R rn' t cs st = Some x2"
    "scoped_DeleteReturning R rn t cs st = Some x3 \<Longrightarrow> scoped_DeleteReturning R rn' t cs st = Some x3"
    "scoped_Update R rn obj lcs cs st = Some x1 \<Longrightarrow> scoped_Update R rn' obj lcs cs st = Some x1"
    "scoped_UpdateLabels R rn t i lcs cs st = Some x2 \<Longrightarrow> scoped_UpdateLabels R rn' t i lcs cs st = Some x2"
proof -
  note e' = extendsD [OF e]
  show "scoped_Create R rn obj st = Some x1 \<Longrightarrow> scoped_Create R rn' obj st = Some x1"
    unfolding scoped_Create_def Let_def by (auto split: option.splits dest!: e')
  show "scoped_Delete R rn t cs st = Some x2 \<Longrightarrow> scoped_Delete R rn' t cs st = Some x2"
    unfolding scoped_Delete_def by (auto split: option.splits prod.splits sum.splits dest!: e')
  show "scoped_DeleteReturning R rn t cs st = Some x3 \<Longrightarrow> scoped_DeleteReturning R rn' t cs st = Some x3"
    unfolding scoped_DeleteReturning_def Let_def by (auto split: option.splits prod.splits sum.splits dest!: e')
  show "scoped_Update R rn obj lcs cs st = Some x1 \<Longrightarrow> scoped_Update R rn' obj lcs cs st = Some x1"
    unfolding scoped_Update_def Let_def by (auto split: option.splits prod.splits sum.splits dest!: e')
  show "scoped_UpdateLabels R rn t i lcs cs st = Some x2 \<Longrightarrow> scoped_UpdateLabels R rn' t i lcs cs st = Some x2"
    unfolding scoped_UpdateLabels_def by (auto split: option.splits prod.splits sum.splits list.splits dest!: e')
qed

lemma extends_step:
  assumes "extends rn rn'" "step R rn c st = Some x"
  shows "step R rn' c st = Some x"
  using assms(2) extends_calls [OF assms(1)] by (cases c) auto

lemma extends_exec:
  assumes "extends rn rn'"
  shows "exec R rn p st = Some x \<Longrightarrow> exec R rn' p st = Some x"
proof (induction p arbitrary: st)
  case (Call c k)
  then obtain rep st1 where c: "step R rn c st = Some (rep, st1)" and e: "exec R rn (k rep) st1 = Some x"
    by (auto split: option.splits)
  from extends_step [OF assms c] Call.IH [OF rangeI e] show ?case by simp
qed simp

lemma extends_exec_runner: "extends rn rn' \<Longrightarrow> extends (exec R rn) (exec R rn')"
  using extends_exec by (auto simp: extends_def [of "exec R rn"])

lemma extends_run_Suc: "extends (run R n) (run R (Suc n))"
proof (induction n)
  case 0
  have "extends (\<lambda>_ _. None) (run R 0)" by (simp add: extends_def)
  then show ?case unfolding run.simps by (rule extends_exec_runner)
next
  case (Suc n)
  from extends_exec_runner [OF Suc.IH] show ?case by simp
qed

lemma run_more_fuel: "run R n p st = Some x \<Longrightarrow> n \<le> m \<Longrightarrow> run R m p st = Some x"
proof (induction m)
  case (Suc m)
  show ?case
  proof (cases "n = Suc m")
    case False
    with Suc have "run R m p st = Some x" by simp
    then show ?thesis by (rule extendsD [OF extends_run_Suc])
  qed (use Suc in simp)
qed simp

subsection \<open>Properties\<close>


text \<open>
  A world that is a list of objects, and an interceptor on the creation of resources that first
  creates a second object of the same type through the repository.
\<close>

definition list_repository :: "Object list raw_repository" where
  "list_repository =
     \<lparr>r_Create = (\<lambda>ob s. (Inr ob, s @ [ob])),
      r_Get = (\<lambda>t cs s. case s of [] \<Rightarrow> (Inl ErrNotFoundInStorage, s) | ob # _ \<Rightarrow> (Inr ob, s)),
      r_GetForUpdate = (\<lambda>t cs s. case s of [] \<Rightarrow> (Inl ErrNotFoundInStorage, s) | ob # _ \<Rightarrow> (Inr ob, s)),
      r_List = (\<lambda>t cs s. (Inr s, s)), r_ListNoLabels = (\<lambda>t cs s. (Inr s, s)),
      r_Count = (\<lambda>t cs s. (Inr (int (length s)), s)), r_CountLabelValues = (\<lambda>t cs s. (Inr 0, s)),
      r_QueryForList = (\<lambda>t q ps s. (Inr s, s)), r_DeleteReturning = (\<lambda>t cs s. (Inr s, [])),
      r_Delete = (\<lambda>t cs s. (Inr (), [])), r_Update = (\<lambda>ob lcs cs s. (Inr ob, s)),
      r_UpdateLabels = (\<lambda>t i lcs cs s. (Inr (), s))\<rparr>"

definition a_resource :: "string \<Rightarrow> Object" where
  "a_resource i = ResourceObject
     \<lparr>ID = i, CreatedAt = 0, UpdatedAt = 0, Labels = Map.empty, PagingSequence = 0, Ready = True,
      res_Type = ''t'', res_Data = ''''\<rparr>"

definition copying :: "(Object list, unit) create_func \<Rightarrow> (Object list, unit) create_func" where
  "copying h ob = Call (CreateCall (a_resource ''copy'')) (\<lambda>_. h ob)"

definition scoped_copying :: "(Object list, unit) scoped" where
  "scoped_copying = \<lparr>world = [], createOnTxFuncs = [''t'' \<mapsto> copying], updateOnTxFuncs = Map.empty,
     deleteOnTxFuncs = Map.empty, current_op = None, resultList = None\<rparr>"




definition an_operation :: Operation where
  "an_operation = \<lparr>ID = ''op'', CreatedAt = 0, UpdatedAt = 0, Labels = Map.empty, PagingSequence = 0,
     Ready = True, op_Description = '''', op_Type = CREATE, op_State = IN_PROGRESS, ResourceID = ''x'',
     TransitiveResources = [], ResourceType = ''t'', op_Errors = None, op_PlatformID = '''',
     CorrelationID = '''', ExternalID = '''', ParentID = '''', CascadeRootID = '''', op_Context = None,
     Reschedule = False, RescheduleTimestamp = 0, DeletionScheduled = 0\<rparr>"


end
