(* ===== verification/TransactionalRepository.thy ===== *)
theory TransactionalRepository
  imports ScopedRepository
begin

text \<open>
  The operations of \<open>InterceptableTransactionalRepository\<close>
  (\<open>src/storage/interceptable_repository.go\<close>): the chain around the transaction, the transaction
  (\<open>InTransaction\<close> of \<open>src/storage/postgres/storage.go\<close>), and inside it the operation of a new
  scoped repository with the chains of the registry.  Interceptors around the transaction are
  functions on the state outside of transactions; \<open>None\<close> is a computation that does not return.
\<close>

subsection \<open>The operations of the interceptable repository\<close>

text \<open>
  The state outside of transactions: the world, the operation in the context, and the variable
  \<open>result\<close> of \<open>DeleteReturning\<close>.
\<close>

record 's mem =
  m_world :: 's
  m_op :: "Operation option"
  m_result :: "Object list option"

type_synonym ('s, 'a) mem_op = "'s mem \<Rightarrow> ((error, 'a) result \<times> 's mem) option"

type_synonym ('s, 'v) itr =
  "(Object \<Rightarrow> ('s, Object option) mem_op, ('s, 'v) create_func,
    Object \<Rightarrow> LabelChange list \<Rightarrow> ('s, Object option) mem_op, ('s, 'v) update_func,
    Criterion list \<Rightarrow> ('s, Object option) mem_op, ('s, 'v) delete_func) itr_providers"

text \<open>The database under the storage: each call returns an error or none.\<close>

record 's tx_db =
  Beginx :: "'s \<Rightarrow> error option \<times> 's"
  Commit :: "'s \<Rightarrow> error option \<times> 's"
  Rollback :: "'s \<Rightarrow> error option \<times> 's"

text \<open>\<open>Storage.InTransaction\<close>; the deferred rollback runs whenever the commit did not succeed.\<close>

definition InTransaction :: "'s tx_db \<Rightarrow> ('s, 'a) mem_op \<Rightarrow> ('s, 'a) mem_op" where
  "InTransaction db f m =
     (case Beginx db (m_world m) of
        (Some err, w) \<Rightarrow> Some (Inl err, m\<lparr>m_world := w\<rparr>)
      | (None, w) \<Rightarrow>
          (case f (m\<lparr>m_world := w\<rparr>) of
             None \<Rightarrow> None
           | Some (Inl err, m') \<Rightarrow> Some (Inl err, m'\<lparr>m_world := snd (Rollback db (m_world m'))\<rparr>)
           | Some (Inr x, m') \<Rightarrow>
               (case Commit db (m_world m') of
                  (Some err, w') \<Rightarrow> Some (Inl err, m'\<lparr>m_world := snd (Rollback db w')\<rparr>)
                | (None, w') \<Rightarrow> Some (Inr x, m'\<lparr>m_world := w'\<rparr>))))"

definition newScopedRepositoryWithOnTxInterceptors ::
  "(ObjectType \<rightharpoonup> (('s, 'v) create_func \<Rightarrow> ('s, 'v) create_func)) \<Rightarrow>
   (ObjectType \<rightharpoonup> (('s, 'v) update_func \<Rightarrow> ('s, 'v) update_func)) \<Rightarrow>
   (ObjectType \<rightharpoonup> (('s, 'v) delete_func \<Rightarrow> ('s, 'v) delete_func)) \<Rightarrow> 's mem \<Rightarrow> ('s, 'v) scoped" where
  "newScopedRepositoryWithOnTxInterceptors c u d m =
     \<lparr>world = m_world m, createOnTxFuncs = c, updateOnTxFuncs = u, deleteOnTxFuncs = d,
      current_op = m_op m, resultList = None\<rparr>"

definition newScopedRepositoryWithInterceptors :: "('s, 'v) itr \<Rightarrow> 's mem \<Rightarrow> ('s, 'v) scoped" where
  "newScopedRepositoryWithInterceptors itr m =
     newScopedRepositoryWithOnTxInterceptors
       (\<lambda>t. map_option snd (provideInterceptors (creates itr) t))
       (\<lambda>t. map_option snd (provideInterceptors (updates itr) t))
       (\<lambda>t. map_option snd (provideInterceptors (deletes itr) t)) m"

text \<open>An operation of a new scoped repository, as a function to run in a transaction.\<close>

definition in_scope :: "('s mem \<Rightarrow> ('s, 'v) scoped) \<Rightarrow>
    (('s, 'v) scoped \<Rightarrow> ((error, 'a) result \<times> ('s, 'v) scoped) option) \<Rightarrow> ('s, 'a) mem_op" where
  "in_scope new f m =
     (case f (new m) of
        None \<Rightarrow> None
      | Some (r, st) \<Rightarrow> Some (r, m\<lparr>m_world := world st, m_op := current_op st\<rparr>))"

definition itr_Create :: "'s tx_db \<Rightarrow> 's raw_repository \<Rightarrow> nat \<Rightarrow> ('s, 'v) itr \<Rightarrow> Object \<Rightarrow> ('s, Object option) mem_op" where
  "itr_Create db R n itr obj m =
     (let onTxInterceptorChain = (\<lambda>obj. InTransaction db
            (in_scope (newScopedRepositoryWithInterceptors itr) (scoped_Create R (run R n) obj)))
      in case provideInterceptors (creates itr) (GetType obj) of
           Some (aroundTxCreate, _) \<Rightarrow> aroundTxCreate onTxInterceptorChain obj m
         | None \<Rightarrow> onTxInterceptorChain obj m)"

definition itr_Delete :: "'s tx_db \<Rightarrow> 's raw_repository \<Rightarrow> nat \<Rightarrow> ('s, 'v) itr \<Rightarrow> ObjectType \<Rightarrow> Criterion list \<Rightarrow>
    ('s, Object option) mem_op" where
  "itr_Delete db R n itr objectType criteria m =
     (let finalInterceptor = (\<lambda>criteria. InTransaction db
            (in_scope (newScopedRepositoryWithInterceptors itr) (\<lambda>st.
               map_option (\<lambda>(r, st'). (map_sum (\<lambda>e. e) (\<lambda>_. None) r, st'))
                 (scoped_Delete R (run R n) objectType criteria st))))
      in case provideInterceptors (deletes itr) objectType of
           Some (aroundTxDelete, _) \<Rightarrow> aroundTxDelete finalInterceptor criteria m
         | None \<Rightarrow> finalInterceptor criteria m)"

definition itr_DeleteReturning :: "'s tx_db \<Rightarrow> 's raw_repository \<Rightarrow> nat \<Rightarrow> ('s, 'v) itr \<Rightarrow> ObjectType \<Rightarrow> Criterion list \<Rightarrow>
    ('s, Object list option) mem_op" where
  "itr_DeleteReturning db R n itr objectType criteria m =
     (let finalInterceptor = (\<lambda>criteria. InTransaction db (\<lambda>m.
            case in_scope (newScopedRepositoryWithInterceptors itr)
                   (scoped_DeleteReturning R (run R n) objectType criteria) m of
              None \<Rightarrow> None
            | Some (Inl err, m') \<Rightarrow> Some (Inl err, m'\<lparr>m_result := None\<rparr>)
            | Some (Inr objects, m') \<Rightarrow> Some (Inr None, m'\<lparr>m_result := objects\<rparr>)));
          m0 = m\<lparr>m_result := None\<rparr>
      in case (case provideInterceptors (deletes itr) objectType of
                 Some (aroundTxDelete, _) \<Rightarrow> aroundTxDelete finalInterceptor criteria m0
               | None \<Rightarrow> finalInterceptor criteria m0) of
           None \<Rightarrow> None
         | Some (r, m') \<Rightarrow> Some (map_sum (\<lambda>e. e) (\<lambda>_. m_result m') r, m'\<lparr>m_result := m_result m\<rparr>))"

definition itr_Update :: "'s tx_db \<Rightarrow> 's raw_repository \<Rightarrow> nat \<Rightarrow> ('s, 'v) itr \<Rightarrow> Object \<Rightarrow> LabelChange list \<Rightarrow>
    Criterion list \<Rightarrow> ('s, Object option) mem_op" where
  "itr_Update db R n itr obj labelChanges criteria m =
     (let finalInterceptor = (\<lambda>obj labelChanges. InTransaction db
            (in_scope (newScopedRepositoryWithInterceptors itr) (scoped_Update R (run R n) obj labelChanges criteria)))
      in case provideInterceptors (updates itr) (GetType obj) of
           Some (aroundTxUpdate, _) \<Rightarrow> aroundTxUpdate finalInterceptor obj labelChanges m
         | None \<Rightarrow> finalInterceptor obj labelChanges m)"

definition itr_UpdateLabels :: "'s tx_db \<Rightarrow> 's raw_repository \<Rightarrow> nat \<Rightarrow> ('s, 'v) itr \<Rightarrow> ObjectType \<Rightarrow> string \<Rightarrow>
    LabelChange list \<Rightarrow> Criterion list \<Rightarrow> ('s, Object option) mem_op" where
  "itr_UpdateLabels db R n itr objectType objectID labelChanges criteria m =
     (let finalInterceptor = (\<lambda>_ labelChanges. InTransaction db
            (in_scope (newScopedRepositoryWithInterceptors itr) (\<lambda>st.
               map_option (\<lambda>(r, st'). (map_sum (\<lambda>e. e) (\<lambda>_. None) r, st'))
                 (scoped_UpdateLabels R (run R n) objectType objectID labelChanges criteria st))))
      in case r_Get R objectType (byID objectID) (m_world m) of
           (Inl err, w) \<Rightarrow> Some (Inl err, m\<lparr>m_world := w\<rparr>)
         | (Inr obj, w) \<Rightarrow>
             (case provideInterceptors (updates itr) objectType of
                Some (aroundTxUpdate, _) \<Rightarrow> aroundTxUpdate finalInterceptor obj labelChanges (m\<lparr>m_world := w\<rparr>)
              | None \<Rightarrow> finalInterceptor obj labelChanges (m\<lparr>m_world := w\<rparr>)))"

text \<open>\<open>InTransaction\<close> with a function of the client, a program on the scoped repository.\<close>

definition itr_InTransaction :: "'s tx_db \<Rightarrow> 's raw_repository \<Rightarrow> nat \<Rightarrow> ('s, 'v) itr \<Rightarrow> ('s, 'v) prog \<Rightarrow>
    ('s, Object option) mem_op" where
  "itr_InTransaction db R n itr f =
     InTransaction db (in_scope
       (newScopedRepositoryWithOnTxInterceptors (provideOnTxInterceptors (creates itr))
          (provideOnTxInterceptors (updates itr)) (provideOnTxInterceptors (deletes itr)))
       (run R n f))"

subsection \<open>Every operation returns\<close>

lemma registry_finite:
  "registry_reachable r \<Longrightarrow> finite (dom (orderedAroundTxProvidersNames r)) \<and>
     finite (dom (orderedOnTxProvidersNames r)) \<and> finite (dom (onTxProviders r))"
proof (induction rule: registry_reachable.induct)
  case reg_new
  then show ?case by (simp add: new_registry_def)
qed (auto elim!: addAroundTx_Inr addOnTx_Inr addBoth_Inr simp del: fun_upd_apply)

lemma dom_provideInterceptors:
  "dom (provideInterceptors r) = dom (orderedAroundTxProvidersNames r) \<union> dom (orderedOnTxProvidersNames r)"
  by (auto simp: provideInterceptors_def mergeObjectTypes_def split: if_splits)

lemma dom_provideOnTxInterceptors: "dom (provideOnTxInterceptors r) = dom (onTxProviders r)"
  by (auto simp: provideOnTxInterceptors_def split: if_splits)

text \<open>The number of chains of the registry: the fuel that is enough.\<close>

definition itr_chain_count :: "('s, 'v) itr \<Rightarrow> nat" where
  "itr_chain_count itr = card (dom (provideInterceptors (creates itr))) +
     card (dom (provideInterceptors (updates itr))) + card (dom (provideInterceptors (deletes itr)))"

lemma new_scope_chains:
  assumes "itr_reachable itr"
  shows "finite_chains (newScopedRepositoryWithInterceptors itr m)"
    "chain_count (newScopedRepositoryWithInterceptors itr m) = itr_chain_count itr"
  using itr_reachable_groups [OF assms]
  by (simp_all add: finite_chains_def chain_count_def newScopedRepositoryWithInterceptors_def itr_chain_count_def
      newScopedRepositoryWithOnTxInterceptors_def dom_provideInterceptors registry_finite)

lemma step_run_returns:
  fixes st :: "('s, 'v) scoped"
  assumes "finite_chains st" "chain_count st \<le> n"
  shows "step R (run R n) c st \<noteq> None"
proof (rule step_returns)
  show "returns_below (Suc n) (run R n :: ('s, 'v) runner)"
    unfolding returns_below_def by (intro allI impI, rule run_returns) (simp_all only: less_Suc_eq_le)
qed (use assms in auto)

lemma InTransaction_returns: "(\<And>m. f m \<noteq> None) \<Longrightarrow> InTransaction db f m \<noteq> None"
proof -
  assume f: "\<And>m. f m \<noteq> None"
  obtain e w where b: "Beginx db (m_world m) = (e, w)" by (rule prod.exhaust)
  obtain r m' where "f (m\<lparr>m_world := w\<rparr>) = Some (r, m')" using f by fastforce
  with b show ?thesis by (auto simp: InTransaction_def split: prod.splits option.splits sum.splits)
qed

definition returning1 :: "('a \<Rightarrow> 's mem \<Rightarrow> 'b option) \<Rightarrow> bool" where
  "returning1 h \<longleftrightarrow> (\<forall>x m. h x m \<noteq> None)"

definition returning2 :: "('a \<Rightarrow> 'c \<Rightarrow> 's mem \<Rightarrow> 'b option) \<Rightarrow> bool" where
  "returning2 h \<longleftrightarrow> (\<forall>x y m. h x y m \<noteq> None)"

text \<open>Interceptors that return when what they wrap returns make chains that do.\<close>

lemma chain_returns:
  assumes "Q h" and "\<And>g h. g \<in> ran (ch_funcs c) \<Longrightarrow> Q h \<Longrightarrow> Q (g h)"
  shows "Q (chain_wrap c h)"
proof -
  obtain names funcs where c: "c = \<lparr>ch_names = names, ch_funcs = funcs\<rparr>" by (cases c)
  have step: "Q (chain_step (ch_funcs c) n h)" if "Q h" for n h
  proof (cases "ch_funcs c n")
    case (Some g)
    then show ?thesis using assms(2) that by (auto simp: chain_step_def ran_def)
  qed (use that in \<open>simp add: chain_step_def\<close>)
  have "Q (chain_wrap \<lparr>ch_names = ch_names c, ch_funcs = ch_funcs c\<rparr> h)"
    by (rule itc_chain.chain_keeps [where Q = Q, OF assms(1) step])
  then show ?thesis by (simp add: c)
qed

lemma provided_around:
  assumes "provideInterceptors r t = Some (ar, tx)"
  shows "ar = chain_wrap (newInterceptorChain_AroundTx r t)"
  using assms by (auto simp: provideInterceptors_def split: if_splits)

abbreviation keeps_returning where
  "keeps_returning Q c \<equiv> \<forall>g\<in>ran (ch_funcs c). \<forall>h. Q h \<longrightarrow> Q (g h)"

lemma itr_Create_returns:
  assumes itr: "itr_reachable itr" "itr_chain_count itr \<le> n"
    and around: "keeps_returning returning1 (newInterceptorChain_AroundTx (creates itr) (GetType obj))"
  shows "itr_Create db R n itr obj m \<noteq> None"
proof -
  let ?tx = "\<lambda>obj. InTransaction db (in_scope (newScopedRepositoryWithInterceptors itr) (scoped_Create R (run R n) obj))"
  have "in_scope (newScopedRepositoryWithInterceptors itr) (scoped_Create R (run R n) ob) m \<noteq> None" for ob m
    using step_run_returns [of "newScopedRepositoryWithInterceptors itr m" n R "CreateCall ob"] itr new_scope_chains [OF itr(1)]
    by (auto simp: in_scope_def split: option.splits)
  then have tx: "returning1 ?tx" unfolding returning1_def using InTransaction_returns by blast
  from chain_returns [where Q = returning1, OF tx, of "newInterceptorChain_AroundTx (creates itr) (GetType obj)"] around
  have "returning1 (chain_wrap (newInterceptorChain_AroundTx (creates itr) (GetType obj)) ?tx)" by blast
  with tx show ?thesis
    by (auto simp: itr_Create_def Let_def returning1_def dest!: provided_around split: option.splits)
qed

lemma itr_Update_returns:
  assumes itr: "itr_reachable itr" "itr_chain_count itr \<le> n"
    and around: "keeps_returning returning2 (newInterceptorChain_AroundTx (updates itr) (GetType obj))"
  shows "itr_Update db R n itr obj lcs cs m \<noteq> None"
proof -
  let ?tx = "\<lambda>obj lcs. InTransaction db (in_scope (newScopedRepositoryWithInterceptors itr) (scoped_Update R (run R n) obj lcs cs))"
  have "in_scope (newScopedRepositoryWithInterceptors itr) (scoped_Update R (run R n) ob l cs) m \<noteq> None" for ob l m
    using step_run_returns [of "newScopedRepositoryWithInterceptors itr m" n R "UpdateCall ob l cs"] itr new_scope_chains [OF itr(1)]
    by (auto simp: in_scope_def split: option.splits)
  then have tx: "returning2 ?tx" unfolding returning2_def using InTransaction_returns by blast
  from chain_returns [where Q = returning2, OF tx, of "newInterceptorChain_AroundTx (updates itr) (GetType obj)"] around
  have "returning2 (chain_wrap (newInterceptorChain_AroundTx (updates itr) (GetType obj)) ?tx)" by blast
  with tx show ?thesis
    by (auto simp: itr_Update_def Let_def returning2_def dest!: provided_around split: option.splits)
qed

lemma itr_Delete_returns:
  assumes itr: "itr_reachable itr" "itr_chain_count itr \<le> n"
    and around: "keeps_returning returning1 (newInterceptorChain_AroundTx (deletes itr) t)"
  shows "itr_Delete db R n itr t cs m \<noteq> None"
proof -
  let ?tx = "\<lambda>cs. InTransaction db (in_scope (newScopedRepositoryWithInterceptors itr) (\<lambda>st.
      map_option (\<lambda>(r, st'). (map_sum (\<lambda>e. e) (\<lambda>_. None) r, st')) (scoped_Delete R (run R n) t cs st)))"
  have "in_scope (newScopedRepositoryWithInterceptors itr) (\<lambda>st.
      map_option (\<lambda>(r, st'). (map_sum (\<lambda>e. e) (\<lambda>_. None) r, st')) (scoped_Delete R (run R n) t c st)) m \<noteq> None" for c m
    using step_run_returns [of "newScopedRepositoryWithInterceptors itr m" n R "DeleteCall t c"] itr new_scope_chains [OF itr(1)]
    by (auto simp: in_scope_def split: option.splits)
  then have tx: "returning1 ?tx" unfolding returning1_def using InTransaction_returns by blast
  from chain_returns [where Q = returning1, OF tx, of "newInterceptorChain_AroundTx (deletes itr) t"] around
  have "returning1 (chain_wrap (newInterceptorChain_AroundTx (deletes itr) t) ?tx)" by blast
  with tx show ?thesis
    by (auto simp: itr_Delete_def Let_def returning1_def dest!: provided_around split: option.splits)
qed


definition list_db :: "Object list tx_db" where
  "list_db = \<lparr>Beginx = (\<lambda>w. (None, w)), Commit = (\<lambda>w. (None, w)), Rollback = (\<lambda>w. (None, []))\<rparr>"

definition copying_itr :: "(Object list, unit) itr" where
  "copying_itr = NewInterceptableTransactionalRepository\<lparr>creates := new_registry\<lparr>
     orderedOnTxProvidersNames := [''t'' \<mapsto> [''c'']], onTxProviders := [''t'' \<mapsto> [''c'' \<mapsto> (at_end, copying)]]\<rparr>\<rparr>"




end
