(* ===== verification/ResourceTypes.thy ===== *)
theory ResourceTypes
  imports Objects Slices
begin

text \<open>
  The methods of the resource types (\<open>src/pkg/types/*.go\<close>): validation, equality, sanitizing, the
  in-place transformation of secrets that encryption and decryption use, and the data that the
  integrity of an object is computed from.

  A transformation function is an arbitrary stateful function (encryption draws a random nonce).
  A method that changes its receiver returns the changed receiver also when it fails, since the
  caller still holds it.  \<open>None\<close> is a panic.  \<open>Validate\<close> takes the labels as the list of entries in
  the order in which \<open>range\<close> visits them.  X.509 parsing, JSON decoding and the \<open>gjson\<close> queries on
  plan metadata are arguments.
\<close>

subsection \<open>Credentials\<close>

record cred_env =
  X509KeyPair :: "string \<Rightarrow> string \<Rightarrow> error option"
  ServerCertificate :: string

definition CertificateExists :: "Credentials \<Rightarrow> bool" where
  "CertificateExists c =
     (case cr_TLS c of None \<Rightarrow> False | Some t \<Rightarrow> \<not> (Certificate t = '''' \<and> Key t = ''''))"

definition TLSExists :: "Credentials \<Rightarrow> bool" where
  "TLSExists c =
     (case cr_TLS c of None \<Rightarrow> False
      | Some t \<Rightarrow> t \<noteq> \<lparr>Certificate = '''', Key = '''', SMProvidedCredentials = False\<rparr>)"

definition BasicExists :: "Credentials \<Rightarrow> bool" where
  "BasicExists c =
     (case cr_Basic c of None \<Rightarrow> False | Some b \<Rightarrow> b \<noteq> \<lparr>Username = '''', Password = ''''\<rparr>)"

definition validateSMProvidedCredentials :: "cred_env \<Rightarrow> (error, unit) result" where
  "validateSMProvidedCredentials env =
     (if length (ServerCertificate env) > 0 then Inr ()
      else Inl (ErrorString ''SM provided credentials are not supported in this region, set another type of credentials''))"

definition validateTLS :: "cred_env \<Rightarrow> TLS \<Rightarrow> (error, unit) result" where
  "validateTLS env t =
     (if Certificate t = '''' \<or> Key t = '''' then
        Inl (ErrorString ''tls public certificate and key should be provided'')
      else if SMProvidedCredentials t then
        Inl (ErrorString ''only one of the options could be set, SM provided credentials or tls'')
      else case X509KeyPair env (Certificate t) (Key t) of
          Some err \<Rightarrow> Inl (ErrorString (''invalidate TLS configuration: '' @ error_text err))
        | None \<Rightarrow> Inr ())"

definition validateBasic :: "Basic \<Rightarrow> (error, unit) result" where
  "validateBasic b =
     (if Username b = '''' then Inl (ErrorString ''missing broker username'')
      else if Password b = '''' then Inl (ErrorString ''missing broker password'')
      else Inr ())"

definition Credentials_Validate :: "cred_env \<Rightarrow> Credentials \<Rightarrow> (error, unit) result" where
  "Credentials_Validate env c =
     (if \<not> BasicExists c \<and> \<not> TLSExists c then
        Inl (ErrorString (''missing broker credentials: set SM provided credentials to true, or configure ''
                          @ ''basic or tls credentials''))
      else try_then (if BasicExists c then validateBasic (the (cr_Basic c)) else Inr ())
        (\<lambda>_. try_then (if CertificateExists c then validateTLS env (the (cr_TLS c)) else Inr ())
          (\<lambda>_. case cr_TLS c of
             None \<Rightarrow> Inr ()
           | Some t \<Rightarrow> if SMProvidedCredentials t then validateSMProvidedCredentials env else Inr ())))"

text \<open>The standard base64 alphabet with padding, and generated credentials from two random reads.\<close>

definition base64_alphabet :: string where
  "base64_alphabet = ''ABCDEFGHIJKLMNOPQRSTUVWXYZabcdefghijklmnopqrstuvwxyz0123456789+/''"

definition base64_char :: "nat \<Rightarrow> char" where
  "base64_char i = base64_alphabet ! (i mod 64)"

fun base64_encode :: "string \<Rightarrow> string" where
  "base64_encode [] = []"
| "base64_encode [a] =
     (let n = of_char a * 16 in [base64_char (n div 64), base64_char n, CHR ''='', CHR ''=''])"
| "base64_encode [a, b] =
     (let n = (of_char a * 256 + of_char b) * 4
      in [base64_char (n div 4096), base64_char (n div 64), base64_char n, CHR ''=''])"
| "base64_encode (a # b # c # cs) =
     (let n = (of_char a * 256 + of_char b) * 256 + of_char c
      in base64_char (n div 262144) # base64_char (n div 4096) # base64_char (n div 64) # base64_char n
           # base64_encode cs)"

definition GenerateCredentials :: "(error, string) result \<Rightarrow> (error, string) result \<Rightarrow> (error, Credentials) result" where
  "GenerateCredentials read_user read_password =
     try_then read_user (\<lambda>user. try_then read_password (\<lambda>password.
       Inr \<lparr>cr_Basic = Some \<lparr>Username = base64_encode user, Password = base64_encode password\<rparr>,
            cr_TLS = None, cr_Integrity = ''''\<rparr>))"

subsection \<open>Transformations of secrets\<close>

type_synonym 'w transformation = "string \<Rightarrow> 'w \<Rightarrow> (error, string) result \<times> 'w"

type_synonym ('w, 'a) in_place = "'a \<Rightarrow> 'w \<Rightarrow> (error, unit) result \<times> 'a \<times> 'w"

text \<open>One secret of an object: skipped when the condition does not hold.\<close>

definition transform_secret ::
  "('a \<Rightarrow> string option) \<Rightarrow> (string \<Rightarrow> 'a \<Rightarrow> 'a) \<Rightarrow> 'w transformation \<Rightarrow> ('w, 'a) in_place" where
  "transform_secret getter setter f x w =
     (case getter x of
        None \<Rightarrow> (Inr (), x, w)
      | Some s \<Rightarrow>
          (case f s w of
             (Inl err, w) \<Rightarrow> (Inl err, x, w)
           | (Inr s', w) \<Rightarrow> (Inr (), setter s' x, w)))"

definition in_place_then :: "('w, 'a) in_place \<Rightarrow> ('w, 'a) in_place \<Rightarrow> ('w, 'a) in_place" where
  "in_place_then f g x w =
     (case f x w of (Inl err, x, w) \<Rightarrow> (Inl err, x, w) | (Inr _, x, w) \<Rightarrow> g x w)"

definition basic_password :: "Credentials option \<Rightarrow> string option" where
  "basic_password c = (case c of None \<Rightarrow> None | Some c \<Rightarrow> map_option Password (cr_Basic c))"

definition set_basic_password :: "string \<Rightarrow> Credentials option \<Rightarrow> Credentials option" where
  "set_basic_password s = map_option (\<lambda>c. c\<lparr>cr_Basic := map_option (Password_update (\<lambda>_. s)) (cr_Basic c)\<rparr>)"

definition tls_key :: "Credentials option \<Rightarrow> string option" where
  "tls_key c =
     (case c of None \<Rightarrow> None
      | Some c \<Rightarrow> (case cr_TLS c of None \<Rightarrow> None | Some t \<Rightarrow> if Key t \<noteq> '''' then Some (Key t) else None))"

definition set_tls_key :: "string \<Rightarrow> Credentials option \<Rightarrow> Credentials option" where
  "set_tls_key s = map_option (\<lambda>c. c\<lparr>cr_TLS := map_option (Key_update (\<lambda>_. s)) (cr_TLS c)\<rparr>)"

definition Platform_transform :: "'w transformation \<Rightarrow> ('w, Platform) in_place" where
  "Platform_transform f = in_place_then
     (transform_secret (\<lambda>e. basic_password (p_Credentials e))
        (\<lambda>s. p_Credentials_update (set_basic_password s)) f)
     (transform_secret (\<lambda>e. basic_password (p_OldCredentials e))
        (\<lambda>s. p_OldCredentials_update (set_basic_password s)) f)"

definition Platform_Encrypt :: "'w transformation \<Rightarrow> ('w, Platform) in_place" where
  "Platform_Encrypt f e w = (if \<not> p_Technical e then Platform_transform f e w else (Inr (), e, w))"

definition Platform_Decrypt :: "'w transformation \<Rightarrow> ('w, Platform) in_place" where
  "Platform_Decrypt f e w = (if \<not> p_Technical e then Platform_transform f e w else (Inr (), e, w))"

definition ServiceBroker_transform :: "'w transformation \<Rightarrow> ('w, ServiceBroker) in_place" where
  "ServiceBroker_transform f = in_place_then
     (transform_secret (\<lambda>e. basic_password (sb_Credentials e))
        (\<lambda>s. sb_Credentials_update (set_basic_password s)) f)
     (transform_secret (\<lambda>e. tls_key (sb_Credentials e))
        (\<lambda>s. sb_Credentials_update (set_tls_key s)) f)"

definition ServiceBinding_transform :: "'w transformation \<Rightarrow> ('w, ServiceBinding) in_place" where
  "ServiceBinding_transform f =
     transform_secret
       (\<lambda>e. case bd_Credentials e of None \<Rightarrow> None | Some s \<Rightarrow> if length s = 0 then None else Some s)
       (\<lambda>s e. e\<lparr>bd_Credentials := Some s\<rparr>) f"

definition BrokerPlatformCredential_transform :: "'w transformation \<Rightarrow> ('w, BrokerPlatformCredential) in_place" where
  "BrokerPlatformCredential_transform f = in_place_then
     (transform_secret (\<lambda>e. Some (bpc_PasswordHash e)) (\<lambda>s e. e\<lparr>bpc_PasswordHash := s\<rparr>) f)
     (transform_secret (\<lambda>e. if bpc_OldPasswordHash e \<noteq> '''' then Some (bpc_OldPasswordHash e) else None)
        (\<lambda>s e. e\<lparr>bpc_OldPasswordHash := s\<rparr>) f)"


subsection \<open>Integral data\<close>

definition Platform_IntegralData :: "Platform \<Rightarrow> string option" where
  "Platform_IntegralData e =
     (if p_Technical e then Some ''''
      else
        let oldCredentials =
          (case p_OldCredentials e of None \<Rightarrow> ''''
           | Some oc \<Rightarrow> (case cr_Basic oc of None \<Rightarrow> '''' | Some b \<Rightarrow> '':'' @ Username b @ '':'' @ Password b))
        in case p_Credentials e of
             None \<Rightarrow> Some ''''
           | Some c \<Rightarrow> (case cr_Basic c of
                 None \<Rightarrow> None
               | Some b \<Rightarrow> Some (Username b @ '':'' @ Password b @ oldCredentials)))"

definition ServiceBroker_IntegralData :: "ServiceBroker \<Rightarrow> string option" where
  "ServiceBroker_IntegralData e =
     (case sb_Credentials e of
        None \<Rightarrow> None
      | Some c \<Rightarrow>
          let tls = (case cr_TLS c of None \<Rightarrow> []
                     | Some t \<Rightarrow> if Certificate t \<noteq> '''' \<and> Key t \<noteq> '''' then [Certificate t, Key t] else []);
              basic = (case cr_Basic c of None \<Rightarrow> []
                       | Some b \<Rightarrow> if Username b \<noteq> '''' \<and> Password b \<noteq> '''' then [Username b, Password b] else [])
          in Some (strings_Join (tls @ basic @ [sb_BrokerURL e]) '':''))"

definition ServiceBroker_SetIntegrity :: "string \<Rightarrow> ServiceBroker \<Rightarrow> ServiceBroker option" where
  "ServiceBroker_SetIntegrity i e =
     (case sb_Credentials e of None \<Rightarrow> None
      | Some c \<Rightarrow> Some (e\<lparr>sb_Credentials := Some (c\<lparr>cr_Integrity := i\<rparr>)\<rparr>))"

definition ServiceBroker_GetIntegrity :: "ServiceBroker \<Rightarrow> string option" where
  "ServiceBroker_GetIntegrity e = map_option cr_Integrity (sb_Credentials e)"

definition ServiceBinding_IntegralData :: "ServiceBinding \<Rightarrow> string" where
  "ServiceBinding_IntegralData e = (case bd_Credentials e of None \<Rightarrow> '''' | Some s \<Rightarrow> s)"

definition BrokerPlatformCredential_IntegralData :: "BrokerPlatformCredential \<Rightarrow> string" where
  "BrokerPlatformCredential_IntegralData e =
     strings_Join [bpc_Username e, bpc_PasswordHash e, bpc_OldUsername e, bpc_OldPasswordHash e,
                   bpc_BrokerID e, bpc_PlatformID e] '':''"

subsection \<open>Sanitizing\<close>

text \<open>The flag says whether the request generates platform credentials.\<close>

definition Platform_Sanitize :: "bool \<Rightarrow> Platform \<Rightarrow> Platform" where
  "Platform_Sanitize generate e =
     (if generate then e else e\<lparr>p_Credentials := None\<rparr>)
       \<lparr>p_OldCredentials := None, p_CredentialsActive := False, p_Technical := False\<rparr>"

definition ServiceBroker_Sanitize :: "ServiceBroker \<Rightarrow> ServiceBroker" where
  "ServiceBroker_Sanitize e = e\<lparr>sb_Credentials := None\<rparr>"

datatype tls_config = BrokerCertificate string string | SMCertificates

definition GetTLSConfig :: "cred_env \<Rightarrow> ServiceBroker \<Rightarrow> (error, tls_config option) result option" where
  "GetTLSConfig env e =
     (case sb_Credentials e of
        None \<Rightarrow> None
      | Some c \<Rightarrow> Some
          (case cr_TLS c of
             None \<Rightarrow> Inr None
           | Some t \<Rightarrow>
               if Certificate t \<noteq> '''' \<and> Key t \<noteq> '''' then
                 (case X509KeyPair env (Certificate t) (Key t) of
                    Some err \<Rightarrow> Inl err
                  | None \<Rightarrow> Inr (Some (BrokerCertificate (Certificate t) (Key t))))
               else if SMProvidedCredentials t then Inr (Some SMCertificates)
               else Inr None))"

subsection \<open>Equality\<close>

definition Platform_Equals :: "Platform \<Rightarrow> Object \<Rightarrow> bool" where
  "Platform_Equals e obj =
     (Equals (PlatformObject e) obj \<and>
      (case obj of
         PlatformObject platform \<Rightarrow>
           p_Description e = p_Description platform \<and> p_Type e = p_Type platform \<and>
           p_Name e = p_Name platform \<and> p_Active e = p_Active platform \<and>
           p_Version e = p_Version platform \<and> p_LastActive e = p_LastActive platform \<and>
           p_Credentials e = p_Credentials platform
       | _ \<Rightarrow> False))"

definition ServiceBroker_Equals :: "ServiceBroker \<Rightarrow> Object \<Rightarrow> bool" where
  "ServiceBroker_Equals e obj =
     (Equals (ServiceBrokerObject e) obj \<and>
      (case obj of
         ServiceBrokerObject broker \<Rightarrow>
           sb_Name e = sb_Name broker \<and> sb_BrokerURL e = sb_BrokerURL broker \<and>
           sb_Description e = sb_Description broker \<and> sb_Catalog e = sb_Catalog broker \<and>
           sb_Credentials e = sb_Credentials broker
       | _ \<Rightarrow> False))"

definition ServiceInstance_Equals :: "ServiceInstance \<Rightarrow> Object \<Rightarrow> bool" where
  "ServiceInstance_Equals e obj =
     (Equals (ServiceInstanceObject e) obj \<and>
      (case obj of
         ServiceInstanceObject inst \<Rightarrow>
           si_Name e = si_Name inst \<and> si_PlatformID e = si_PlatformID inst \<and>
           si_ServicePlanID e = si_ServicePlanID inst \<and> si_DashboardURL e = si_DashboardURL inst \<and>
           Ready e = Ready inst \<and> map_option fst (si_Shared e) = map_option fst (si_Shared inst) \<and>
           si_UpdateValues e = si_UpdateValues inst \<and> si_Context e = si_Context inst \<and>
           si_MaintenanceInfo e = si_MaintenanceInfo inst
       | _ \<Rightarrow> False))"

definition ServiceBinding_Equals :: "ServiceBinding \<Rightarrow> Object \<Rightarrow> bool" where
  "ServiceBinding_Equals e obj =
     (Equals (ServiceBindingObject e) obj \<and>
      (case obj of
         ServiceBindingObject binding \<Rightarrow>
           bd_Name e = bd_Name binding \<and> bd_ServiceInstanceID e = bd_ServiceInstanceID binding \<and>
           bd_SyslogDrainURL e = bd_SyslogDrainURL binding \<and> bd_RouteServiceURL e = bd_RouteServiceURL binding \<and>
           bd_VolumeMounts e = bd_VolumeMounts binding \<and> bd_Endpoints e = bd_Endpoints binding \<and>
           bd_Context e = bd_Context binding \<and> bd_BindResource e = bd_BindResource binding \<and>
           bd_Credentials e = bd_Credentials binding
       | _ \<Rightarrow> False))"

definition BrokerPlatformCredential_Equals :: "BrokerPlatformCredential \<Rightarrow> Object \<Rightarrow> bool" where
  "BrokerPlatformCredential_Equals e obj =
     (Equals (BrokerPlatformCredentialObject e) obj \<and>
      (case obj of
         BrokerPlatformCredentialObject c \<Rightarrow>
           bpc_Username e = bpc_Username c \<and> bpc_PasswordHash e = bpc_PasswordHash c \<and>
           bpc_OldUsername e = bpc_OldUsername c \<and> bpc_OldPasswordHash e = bpc_OldPasswordHash c \<and>
           bpc_PlatformID e = bpc_PlatformID c \<and> bpc_BrokerID e = bpc_BrokerID c \<and>
           bpc_NotificationID e = bpc_NotificationID c
       | _ \<Rightarrow> False))"

definition ServiceOffering_Equals :: "ServiceOffering \<Rightarrow> Object \<Rightarrow> bool" where
  "ServiceOffering_Equals e obj =
     (Equals (ServiceOfferingObject e) obj \<and>
      (case obj of
         ServiceOfferingObject offering \<Rightarrow>
           so_Name e = so_Name offering \<and> so_PlanUpdatable e = so_PlanUpdatable offering \<and>
           so_Bindable e = so_Bindable offering \<and> so_BindingsRetrievable e = so_BindingsRetrievable offering \<and>
           so_BrokerID e = so_BrokerID offering \<and> so_CatalogID e = so_CatalogID offering \<and>
           so_CatalogName e = so_CatalogName offering \<and> so_Description e = so_Description offering \<and>
           so_InstancesRetrievable e = so_InstancesRetrievable offering \<and> so_Tags e = so_Tags offering \<and>
           so_Requires e = so_Requires offering \<and> so_Metadata e = so_Metadata offering
       | _ \<Rightarrow> False))"

definition ServicePlan_Equals :: "ServicePlan \<Rightarrow> Object \<Rightarrow> bool" where
  "ServicePlan_Equals e obj =
     (Equals (ServicePlanObject e) obj \<and>
      (case obj of
         ServicePlanObject plan \<Rightarrow>
           sp_Name e = sp_Name plan \<and> sp_ServiceOfferingID e = sp_ServiceOfferingID plan \<and>
           sp_Free e = sp_Free plan \<and> sp_Bindable e = sp_Bindable plan \<and>
           sp_PlanUpdatable e = sp_PlanUpdatable plan \<and> sp_CatalogID e = sp_CatalogID plan \<and>
           sp_CatalogName e = sp_CatalogName plan \<and> sp_Description e = sp_Description plan \<and>
           sp_Schemas e = sp_Schemas plan \<and> sp_Metadata e = sp_Metadata plan
       | _ \<Rightarrow> False))"

definition Visibility_Equals :: "Visibility \<Rightarrow> Object \<Rightarrow> bool" where
  "Visibility_Equals e obj =
     (Equals (VisibilityObject e) obj \<and>
      (case obj of
         VisibilityObject visibility \<Rightarrow>
           v_PlatformID e = v_PlatformID visibility \<and> v_ServicePlanID e = v_ServicePlanID visibility
       | _ \<Rightarrow> False))"

text \<open>The method \<open>Equals\<close> of an object.\<close>

primrec Object_Equals :: "Object \<Rightarrow> Object \<Rightarrow> bool" where
  "Object_Equals (OperationObject x) = Operation_Equals x"
| "Object_Equals (NotificationObject x) = Notification_Equals x"
| "Object_Equals (PlatformObject x) = Platform_Equals x"
| "Object_Equals (ServicePlanObject x) = ServicePlan_Equals x"
| "Object_Equals (ServiceOfferingObject x) = ServiceOffering_Equals x"
| "Object_Equals (ServiceBrokerObject x) = ServiceBroker_Equals x"
| "Object_Equals (ServiceInstanceObject x) = ServiceInstance_Equals x"
| "Object_Equals (ServiceBindingObject x) = ServiceBinding_Equals x"
| "Object_Equals (BrokerPlatformCredentialObject x) = BrokerPlatformCredential_Equals x"
| "Object_Equals (VisibilityObject x) = Visibility_Equals x"
| "Object_Equals (ResourceObject x) = (\<lambda>other. GetID other = ID x)"


subsection \<open>Plan metadata\<close>

text \<open>
  \<open>gjson_array m k\<close> is the array at the key \<open>k\<close> of the JSON text \<open>m\<close>, with the strings of its
  elements, and \<open>None\<close> when there is no array; \<open>gjson_raw m k\<close> is the raw text there.
  \<open>unmarshal_array\<close> and \<open>unmarshal_object\<close> tell whether a text decodes into a slice or a map.
\<close>

record json_env =
  gjson_array :: "string \<Rightarrow> string \<Rightarrow> string list option"
  gjson_raw :: "string \<Rightarrow> string \<Rightarrow> string"
  unmarshal_array :: "string \<Rightarrow> bool"
  unmarshal_object :: "string \<Rightarrow> bool"

definition raw_bytes :: "json_raw \<Rightarrow> string" where
  "raw_bytes r = (case r of None \<Rightarrow> '''' | Some s \<Rightarrow> s)"

definition metadataPropertyAsStringArray :: "json_env \<Rightarrow> string \<Rightarrow> ServicePlan \<Rightarrow> string list" where
  "metadataPropertyAsStringArray env propertyKey e =
     (case gjson_array env (raw_bytes (sp_Metadata e)) propertyKey of None \<Rightarrow> [] | Some xs \<Rightarrow> xs)"

definition SupportedPlatformTypes :: "json_env \<Rightarrow> ServicePlan \<Rightarrow> string list" where
  "SupportedPlatformTypes env = metadataPropertyAsStringArray env ''supportedPlatforms''"

definition SupportedPlatformNames :: "json_env \<Rightarrow> ServicePlan \<Rightarrow> string list" where
  "SupportedPlatformNames env = metadataPropertyAsStringArray env ''supportedPlatformNames''"

definition ExcludedPlatformNames :: "json_env \<Rightarrow> ServicePlan \<Rightarrow> string list" where
  "ExcludedPlatformNames env = metadataPropertyAsStringArray env ''excludedPlatformNames''"

definition SupportsInstanceSharing :: "json_env \<Rightarrow> ServicePlan \<Rightarrow> bool" where
  "SupportsInstanceSharing env e =
     (gjson_raw env (raw_bytes (sp_Metadata e)) SupportsInstanceSharingKey = ''true'')"

definition SMPlatform :: string where
  "SMPlatform = ''service-manager''"

definition SupportsPlatformType :: "json_env \<Rightarrow> string list \<Rightarrow> string \<Rightarrow> ServicePlan \<Rightarrow> bool" where
  "SupportsPlatformType env smSupportedPlatformType platformType e =
     (let inputPlatformTypes = (if platformType = SMPlatform then smSupportedPlatformType else [platformType]);
          supportedPlatformTypes = SupportedPlatformTypes env e;
          intersect = StringsIntersection supportedPlatformTypes inputPlatformTypes
      in length supportedPlatformTypes = 0 \<or> length intersect > 0)"

definition SupportsPlatformInstance :: "json_env \<Rightarrow> string list \<Rightarrow> Platform \<Rightarrow> ServicePlan \<Rightarrow> bool" where
  "SupportsPlatformInstance env smTypes platform e =
     (let excludedPlatformNames = ExcludedPlatformNames env e; platformNames = SupportedPlatformNames env e
      in if length excludedPlatformNames > 0 then \<not> StringsAnyEquals excludedPlatformNames (p_Name platform)
         else if length platformNames > 0 then StringsAnyEquals platformNames (p_Name platform)
         else SupportsPlatformType env smTypes (p_Type platform) e)"

definition SupportsAllPlatforms :: "json_env \<Rightarrow> ServicePlan \<Rightarrow> bool" where
  "SupportsAllPlatforms env e =
     (length (SupportedPlatformNames env e) = 0 \<and> length (SupportedPlatformTypes env e) = 0 \<and>
      length (ExcludedPlatformNames env e) = 0)"

subsection \<open>Validation\<close>

definition check_id :: "string \<Rightarrow> (error, unit) result \<Rightarrow> (error, unit) result" where
  "check_id i r = (if HasRFC3986ReservedSymbols i then Inl (ErrorString (i @ '' contains invalid character(s)'')) else r)"

text \<open>A sequence of checks \<open>if c { return errors.New(msg) }\<close>.\<close>

primrec first_failure :: "(bool \<times> string) list \<Rightarrow> (error, unit) result \<Rightarrow> (error, unit) result" where
  "first_failure [] r = r"
| "first_failure (c # cs) r = (if fst c then Inl (ErrorString (snd c)) else first_failure cs r)"

definition Platform_Validate :: "Platform \<Rightarrow> (error, unit) result" where
  "Platform_Validate e =
     first_failure [(p_Type e = '''', ''missing platform type''), (p_Name e = '''', ''missing platform name'')]
       (check_id (ID e) (Inr ()))"

definition maxNameLength :: nat where "maxNameLength = 255"

definition ServiceBroker_Validate :: "cred_env \<Rightarrow> (string \<times> string list) list \<Rightarrow> ServiceBroker \<Rightarrow> (error, unit) result" where
  "ServiceBroker_Validate env ls e =
     first_failure
       [(sb_Name e = '''', ''missing broker name''),
        (length (sb_Name e) > maxNameLength,
         ''broker name cannot exceed '' @ strconv_Itoa (int maxNameLength) @ '' symbols''),
        (sb_BrokerURL e = '''', ''missing broker url'')]
       (try_then (Labels_Validate ls) (\<lambda>_.
          case sb_Credentials e of
            None \<Rightarrow> Inl (ErrorString ''missing credentials'')
          | Some c \<Rightarrow> Credentials_Validate env c))"

definition ServiceInstance_Validate :: "(string \<times> string list) list \<Rightarrow> ServiceInstance \<Rightarrow> (error, unit) result" where
  "ServiceInstance_Validate ls e =
     check_id (ID e) (first_failure
       [(si_Name e = '''', ''missing service instance name''),
        (si_ServicePlanID e = '''', ''missing service plan id''),
        (si_PlatformID e = '''', ''missing platform id'')]
       (Labels_Validate ls))"

definition IsShared :: "ServiceInstance \<Rightarrow> bool" where
  "IsShared e = (case si_Shared e of None \<Rightarrow> False | Some (a, b) \<Rightarrow> b)"

definition ServiceBinding_Validate :: "(string \<times> string list) list \<Rightarrow> ServiceBinding \<Rightarrow> (error, unit) result" where
  "ServiceBinding_Validate ls e =
     check_id (ID e) (first_failure
       [(bd_Name e = '''', ''missing service binding name''),
        (bd_ServiceInstanceID e = '''', ''missing service binding service instance ID'')]
       (Labels_Validate ls))"

definition BrokerPlatformCredential_Validate :: "BrokerPlatformCredential \<Rightarrow> (error, unit) result" where
  "BrokerPlatformCredential_Validate e =
     check_id (ID e) (first_failure
       [(bpc_Username e = '''', ''missing username''),
        (bpc_PasswordHash e = '''', ''missing password_hash''),
        (bpc_BrokerID e = '''', ''missing broker id'')]
       (Inr ()))"

definition Visibility_Validate :: "(string \<times> string list) list \<Rightarrow> Visibility \<Rightarrow> (error, unit) result" where
  "Visibility_Validate ls e =
     first_failure [(v_ServicePlanID e = '''', ''missing visibility service plan id'')]
       (check_id (ID e) (Labels_Validate ls))"

definition ServiceOffering_Validate :: "json_env \<Rightarrow> ServiceOffering \<Rightarrow> (error, unit) result" where
  "ServiceOffering_Validate env e =
     check_id (ID e) (first_failure
       [(so_Name e = '''', ''service offering catalog name missing''),
        (so_CatalogID e = '''', ''service offering catalog id missing''),
        (so_CatalogName e = '''', ''service offering catalog name missing''),
        (so_BrokerID e = '''', ''service offering broker id missing''),
        (raw_bytes (so_Tags e) \<noteq> '''' \<and> \<not> unmarshal_array env (raw_bytes (so_Tags e)),
         ''service offering tags is invalid JSON''),
        (raw_bytes (so_Requires e) \<noteq> '''' \<and> \<not> unmarshal_array env (raw_bytes (so_Requires e)),
         ''service offering requires is invalid JSON''),
        (raw_bytes (so_Metadata e) \<noteq> '''' \<and> \<not> unmarshal_object env (raw_bytes (so_Metadata e)),
         ''service offering metadata is invalid JSON'')]
       (Inr ()))"

definition validateSupportedPlatformsMetadata :: "json_env \<Rightarrow> ServicePlan \<Rightarrow> (error, unit) result" where
  "validateSupportedPlatformsMetadata env e =
     (let hasSupportedPlatformNames = min (length (SupportedPlatformNames env e)) 1;
          hasSupportedPlatformTypes = min (length (SupportedPlatformTypes env e)) 1;
          hasExcludedPlatformNames = min (length (ExcludedPlatformNames env e)) 1
      in if hasExcludedPlatformNames + hasSupportedPlatformNames + hasSupportedPlatformTypes > 1 then
           Inl (ErrorString (''only one of supportedPlatforms, supportedPlatformNames and ''
                             @ ''excludedPlatformNames can be defined in plan metadata''))
         else Inr ())"

definition ServicePlan_Validate :: "json_env \<Rightarrow> ServicePlan \<Rightarrow> (error, unit) result" where
  "ServicePlan_Validate env e =
     check_id (ID e) (first_failure
       [(sp_Name e = '''', ''service plan name missing''),
        (sp_CatalogID e = '''', ''service plan catalog id missing''),
        (sp_CatalogName e = '''', ''service plan catalog name missing''),
        (sp_ServiceOfferingID e = '''', ''service plan service offering id missing''),
        (sp_Description e = '''', ''service plan description is missing''),
        (raw_bytes (sp_Schemas e) \<noteq> '''' \<and> \<not> unmarshal_object env (raw_bytes (sp_Schemas e)),
         ''service plan schemas is invalid JSON''),
        (raw_bytes (sp_Metadata e) \<noteq> '''' \<and> \<not> unmarshal_object env (raw_bytes (sp_Metadata e)),
         ''service plan metadata is invalid JSON''),
        (length (SupportedPlatformNames env e) \<noteq> 0 \<and> length (SupportedPlatformTypes env e) \<noteq> 0,
         ''only one of supportedPlatforms and supportedPlatformNames can be defined in plan metadata'')]
       (validateSupportedPlatformsMetadata env e))"

definition IsVirtualType :: "ObjectType \<Rightarrow> bool" where
  "IsVirtualType objectType = (objectType = TenantType)"


subsection \<open>Facts\<close>

lemma check_id_Inr: "check_id i r = Inr x \<longleftrightarrow> \<not> HasRFC3986ReservedSymbols i \<and> r = Inr x"
  by (simp add: check_id_def)

lemma first_failure_Inr: "first_failure cs r = Inr x \<longleftrightarrow> (\<forall>c\<in>set cs. \<not> fst c) \<and> r = Inr x"
  by (induction cs) auto

lemma ServicePlan_Validate_platforms:
  assumes "ServicePlan_Validate env e = Inr ()"
  shows "(SupportedPlatformNames env e = [] \<or> SupportedPlatformTypes env e = []) \<and>
    (ExcludedPlatformNames env e = [] \<or> SupportedPlatformNames env e = [] \<and> SupportedPlatformTypes env e = [])"
proof -
  have "min n (1::nat) = (if n = 0 then 0 else 1)" for n by simp
  with assms show ?thesis
    by (simp add: ServicePlan_Validate_def check_id_Inr first_failure_Inr validateSupportedPlatformsMetadata_def Let_def
        split: if_splits)
qed

text \<open>For a plan that passed its validation the order of the checks in
  \<open>SupportsPlatformInstance\<close> does not matter: a platform is supported exactly when it meets each of the
  three restrictions of the metadata that is given, where the platform of the service manager itself
  counts as each of its configured types.  A plan without restrictions supports every platform.\<close>

theorem SupportsPlatformInstance_iff:
  assumes "ServicePlan_Validate env e = Inr ()"
  shows "(SupportsPlatformInstance env smTypes platform e \<longleftrightarrow>
      p_Name platform \<notin> set (ExcludedPlatformNames env e) \<and>
      (SupportedPlatformNames env e = [] \<or> p_Name platform \<in> set (SupportedPlatformNames env e)) \<and>
      (SupportedPlatformTypes env e = [] \<or>
        set (if p_Type platform = SMPlatform then smTypes else [p_Type platform]) \<inter> set (SupportedPlatformTypes env e) \<noteq> {})) \<and>
    (SupportsAllPlatforms env e \<longrightarrow> SupportsPlatformInstance env smTypes platform e)"
proof -
  have types: "SupportsPlatformType env smTypes t e \<longleftrightarrow> SupportedPlatformTypes env e = [] \<or>
      set (if t = SMPlatform then smTypes else [t]) \<inter> set (SupportedPlatformTypes env e) \<noteq> {}" for t
    by (auto simp: SupportsPlatformType_def Let_def filter_empty_conv)
  show ?thesis
    using ServicePlan_Validate_platforms [OF assms]
    by (auto simp: SupportsPlatformInstance_def SupportsAllPlatforms_def Let_def types)
qed

definition names_env :: json_env where
  "names_env = \<lparr>gjson_array = (\<lambda>m k. if k = ''supportedPlatformNames'' then Some [m] else None),
     gjson_raw = (\<lambda>m k. ''''), unmarshal_array = (\<lambda>_. True), unmarshal_object = (\<lambda>_. True)\<rparr>"

definition a_plan :: ServicePlan where
  "a_plan = \<lparr>ID = ''id'', CreatedAt = 0, UpdatedAt = 0, Labels = Map.empty, PagingSequence = 0, Ready = True,
     sp_Name = ''small'', sp_Description = ''d'', sp_CatalogID = ''c'', sp_CatalogName = ''n'',
     sp_Free = None, sp_Bindable = None, sp_PlanUpdatable = None, sp_Metadata = Some ''k8s'', sp_Schemas = None,
     sp_MaximumPollingDuration = 0, sp_MaintenanceInfo = None, sp_ServiceOfferingID = ''o''\<rparr>"

definition named_platform :: "string \<Rightarrow> Platform" where
  "named_platform n = \<lparr>ID = ''p'', CreatedAt = 0, UpdatedAt = 0, Labels = Map.empty, PagingSequence = 0, Ready = True,
     p_Type = ''kubernetes'', p_Name = n, p_Description = '''', p_Credentials = None, p_OldCredentials = None,
     p_Version = '''', p_Active = False, p_Suspended = False, p_LastActive = 0, p_Integrity = '''',
     p_CredentialsActive = False, p_Technical = False\<rparr>"

lemma SupportsPlatformInstance_iff_witness:
  "ServicePlan_Validate names_env a_plan = Inr () \<and>
   SupportsPlatformInstance names_env [] (named_platform ''k8s'') a_plan \<and>
   \<not> SupportsPlatformInstance names_env [] (named_platform ''cf'') a_plan"
proof -
  have "ServicePlan_Validate names_env a_plan = Inr ()"
    by (simp add: ServicePlan_Validate_def check_id_def HasRFC3986ReservedSymbols_def reservedSymbolsRFC3986_def a_plan_def
        names_env_def raw_bytes_def SupportedPlatformNames_def SupportedPlatformTypes_def ExcludedPlatformNames_def
        metadataPropertyAsStringArray_def validateSupportedPlatformsMetadata_def strings_ContainsRune_def)
  with SupportsPlatformInstance_iff [OF this, of "[]" "named_platform ''k8s''"]
    SupportsPlatformInstance_iff [OF this, of "[]" "named_platform ''cf''"]
  show ?thesis
    by (simp add: named_platform_def SupportedPlatformNames_def SupportedPlatformTypes_def ExcludedPlatformNames_def
        metadataPropertyAsStringArray_def names_env_def a_plan_def raw_bytes_def)
qed

lemma append_colon_inject:
  assumes "c \<notin> set a" "c \<notin> set b"
  shows "a @ c # r = b @ c # s \<longleftrightarrow> a = b \<and> r = s"
proof
  assume "a @ c # r = b @ c # s"
  with assms show "a = b \<and> r = s"
  proof (induction a arbitrary: b)
    case Nil
    then show ?case by (cases b) auto
  next
    case (Cons x a)
    then show ?case by (cases b) auto
  qed
qed simp

text \<open>C37.  The integrity of a broker platform credential covers all its six fields as long as none of the
  first five contains a colon (the platform id may): then equal integral data means equal fields.
  Without that the colon as separator is ambiguous: moving it from one field to the next gives a
  different credential with the same integral data.\<close>

theorem BrokerPlatformCredential_IntegralData_covers:
  "(\<forall>e e'. (\<forall>x \<in> {e, e'}. \<forall>f \<in> {bpc_Username, bpc_PasswordHash, bpc_OldUsername, bpc_OldPasswordHash, bpc_BrokerID}.
        CHR '':'' \<notin> set (f x)) \<longrightarrow>
      BrokerPlatformCredential_IntegralData e = BrokerPlatformCredential_IntegralData e' \<longrightarrow>
      (\<forall>f \<in> {bpc_Username, bpc_PasswordHash, bpc_OldUsername, bpc_OldPasswordHash, bpc_BrokerID, bpc_PlatformID}. f e = f e')) \<and>
   (\<forall>e a b c. BrokerPlatformCredential_IntegralData (e\<lparr>bpc_Username := a @ '':'' @ b, bpc_PasswordHash := c\<rparr>) =
      BrokerPlatformCredential_IntegralData (e\<lparr>bpc_Username := a, bpc_PasswordHash := b @ '':'' @ c\<rparr>))"
  by (auto simp: BrokerPlatformCredential_IntegralData_def append_colon_inject)

definition a_credential :: "string \<Rightarrow> BrokerPlatformCredential" where
  "a_credential u = \<lparr>ID = ''id'', CreatedAt = 0, UpdatedAt = 0, Labels = Map.empty, PagingSequence = 0, Ready = True,
     bpc_Username = u, bpc_PasswordHash = ''h'', bpc_OldUsername = '''', bpc_OldPasswordHash = '''', bpc_PlatformID = ''p'',
     bpc_BrokerID = ''b'', bpc_NotificationID = '''', bpc_Integrity = '''', bpc_Active = True\<rparr>"

lemma BrokerPlatformCredential_IntegralData_covers_witness:
  "BrokerPlatformCredential_IntegralData (a_credential ''u'') \<noteq> BrokerPlatformCredential_IntegralData (a_credential ''v'') \<and>
   BrokerPlatformCredential_IntegralData ((a_credential ''u'')\<lparr>bpc_Username := ''x:y'', bpc_PasswordHash := ''z''\<rparr>) =
     BrokerPlatformCredential_IntegralData ((a_credential ''u'')\<lparr>bpc_Username := ''x'', bpc_PasswordHash := ''y:z''\<rparr>)"
proof -
  have 1: "bpc_Username (a_credential ''u'') \<noteq> bpc_Username (a_credential ''v'')"
    by (simp add: a_credential_def)
  have 2: "\<forall>x \<in> {a_credential ''u'', a_credential ''v''}.
      \<forall>f \<in> {bpc_Username, bpc_PasswordHash, bpc_OldUsername, bpc_OldPasswordHash, bpc_BrokerID}. CHR '':'' \<notin> set (f x)"
    by (simp add: a_credential_def)
  note covers = BrokerPlatformCredential_IntegralData_covers [THEN conjunct1, rule_format, of "a_credential ''u''" "a_credential ''v''"]
  have "BrokerPlatformCredential_IntegralData (a_credential ''u'') \<noteq> BrokerPlatformCredential_IntegralData (a_credential ''v'')"
    using covers 1 2 by blast
  then show ?thesis
    using BrokerPlatformCredential_IntegralData_covers [THEN conjunct2, rule_format, where e = "a_credential ''u''" and a = "''x''" and b = "''y''" and c = "''z''"]
    by simp
qed

end
