(* ===== verification/SecuredRepositories.thy ===== *)
theory SecuredRepositories
  imports ResourceTypes ScopedRepository
begin

text \<open>
  The repositories that protect secrets: \<open>src/storage/encrypting_repository.go\<close>,
  \<open>src/storage/integrity_repository.go\<close>, \<open>src/pkg/security/integrity.go\<close> and
  \<open>src/pkg/security/encrypter.go\<close>.

  Both decorate a repository.  Writes change the object the caller passes in (its secrets are
  encrypted in place, its integrity is set in place), so here a write also returns the object as the
  caller sees it afterwards.  \<open>None\<close> is a panic.  The state \<open>'s\<close> holds the database and the source
  of randomness.
\<close>

subsection \<open>Repositories whose writes change their argument\<close>

type_synonym ('s, 'a) effect = "'s \<Rightarrow> ((error, 'a) result \<times> 's) option"

type_synonym 's write_effect = "Object \<Rightarrow> 's \<Rightarrow> ((error, Object) result \<times> Object \<times> 's) option"

record 's repository =
  m_Create :: "'s write_effect"
  m_Get :: "ObjectType \<Rightarrow> Criterion list \<Rightarrow> ('s, Object) effect"
  m_GetForUpdate :: "ObjectType \<Rightarrow> Criterion list \<Rightarrow> ('s, Object) effect"
  m_List :: "ObjectType \<Rightarrow> Criterion list \<Rightarrow> ('s, Object list) effect"
  m_ListNoLabels :: "ObjectType \<Rightarrow> Criterion list \<Rightarrow> ('s, Object list) effect"
  m_QueryForList :: "ObjectType \<Rightarrow> string \<Rightarrow> (string \<rightharpoonup> string) \<Rightarrow> ('s, Object list) effect"
  m_Count :: "ObjectType \<Rightarrow> Criterion list \<Rightarrow> ('s, int) effect"
  m_CountLabelValues :: "ObjectType \<Rightarrow> Criterion list \<Rightarrow> ('s, int) effect"
  m_Update :: "LabelChange list \<Rightarrow> Criterion list \<Rightarrow> 's write_effect"
  m_UpdateLabels :: "ObjectType \<Rightarrow> string \<Rightarrow> LabelChange list \<Rightarrow> Criterion list \<Rightarrow> ('s, unit) effect"
  m_DeleteReturning :: "ObjectType \<Rightarrow> Criterion list \<Rightarrow> ('s, Object list) effect"
  m_Delete :: "ObjectType \<Rightarrow> Criterion list \<Rightarrow> ('s, unit) effect"

text \<open>The storage itself leaves the object of a write alone and never panics.\<close>

definition plain :: "('s \<Rightarrow> (error, 'a) result \<times> 's) \<Rightarrow> ('s, 'a) effect" where
  "plain f s = Some (f s)"

definition plain_write :: "(Object \<Rightarrow> 's \<Rightarrow> (error, Object) result \<times> 's) \<Rightarrow> 's write_effect" where
  "plain_write f obj s = (case f obj s of (r, s') \<Rightarrow> Some (r, obj, s'))"

definition of_storage :: "'s raw_repository \<Rightarrow> 's repository" where
  "of_storage R = \<lparr>
     m_Create = plain_write (r_Create R),
     m_Get = (\<lambda>t cs. plain (r_Get R t cs)),
     m_GetForUpdate = (\<lambda>t cs. plain (r_GetForUpdate R t cs)),
     m_List = (\<lambda>t cs. plain (r_List R t cs)),
     m_ListNoLabels = (\<lambda>t cs. plain (r_ListNoLabels R t cs)),
     m_QueryForList = (\<lambda>t q ps. plain (r_QueryForList R t q ps)),
     m_Count = (\<lambda>t cs. plain (r_Count R t cs)),
     m_CountLabelValues = (\<lambda>t cs. plain (r_CountLabelValues R t cs)),
     m_Update = (\<lambda>lcs cs. plain_write (\<lambda>obj. r_Update R obj lcs cs)),
     m_UpdateLabels = (\<lambda>t i lcs cs. plain (r_UpdateLabels R t i lcs cs)),
     m_DeleteReturning = (\<lambda>t cs. plain (r_DeleteReturning R t cs)),
     m_Delete = (\<lambda>t cs. plain (r_Delete R t cs))\<rparr>"

text \<open>What follows a call that returned an error or a value.\<close>

definition after_call :: "('s, 'a) effect \<Rightarrow> ('a \<Rightarrow> ('s, 'b) effect) \<Rightarrow> ('s, 'b) effect" where
  "after_call f g s =
     (case f s of
        None \<Rightarrow> None
      | Some (Inl err, s') \<Rightarrow> Some (Inl err, s')
      | Some (Inr x, s') \<Rightarrow> g x s')"

definition call_err :: "error \<Rightarrow> ('s, 'a) effect" where
  "call_err err s = Some (Inl err, s)"

definition call_ret :: "'a \<Rightarrow> ('s, 'a) effect" where
  "call_ret x s = Some (Inr x, s)"

primrec map_calls :: "('a \<Rightarrow> ('s, 'b) effect) \<Rightarrow> 'a list \<Rightarrow> ('s, 'b list) effect" where
  "map_calls f [] = call_ret []"
| "map_calls f (x # xs) = after_call (f x) (\<lambda>y. after_call (map_calls f xs) (\<lambda>ys. call_ret (y # ys)))"

subsection \<open>AES encryption\<close>

text \<open>
  The authenticated cipher of the standard library: \<open>NewCipher\<close> accepts or refuses a key, sealing
  appends to the nonce, opening may fail.  Random reads come from the state.
\<close>

record 's gcm_lib =
  NewCipher :: "string \<Rightarrow> error option"
  NonceSize :: nat
  ReadNonce :: "'s \<Rightarrow> (error, string) result \<times> 's"
  Seal :: "string \<Rightarrow> string \<Rightarrow> string \<Rightarrow> string"
  Open :: "string \<Rightarrow> string \<Rightarrow> string \<Rightarrow> (error, string) result"

definition AES_Encrypt :: "'s gcm_lib \<Rightarrow> string \<Rightarrow> 's transformation" where
  "AES_Encrypt g key plaintext s =
     (case NewCipher g key of
        Some err \<Rightarrow> (Inl err, s)
      | None \<Rightarrow>
          (case ReadNonce g s of
             (Inl err, s') \<Rightarrow> (Inl err, s')
           | (Inr nonce, s') \<Rightarrow> (Inr (nonce @ Seal g key nonce plaintext), s')))"

definition AES_Decrypt :: "'s gcm_lib \<Rightarrow> string \<Rightarrow> 's transformation" where
  "AES_Decrypt g key ciphertext s =
     (case NewCipher g key of
        Some err \<Rightarrow> (Inl err, s)
      | None \<Rightarrow>
          if length ciphertext < NonceSize g then (Inl (ErrorString ''malformed ciphertext''), s)
          else (Open g key (take (NonceSize g) ciphertext) (drop (NonceSize g) ciphertext), s))"

subsection \<open>The encrypting repository\<close>

definition lift_in_place :: "('a \<Rightarrow> Object) \<Rightarrow> ('s, 'a) in_place \<Rightarrow> 'a \<Rightarrow> 's \<Rightarrow> (error, unit) result \<times> Object \<times> 's" where
  "lift_in_place c f x s = (case f x s of (r, x', s') \<Rightarrow> (r, c x', s'))"

definition er_encrypt :: "'s transformation \<Rightarrow> ('s, Object) in_place" where
  "er_encrypt f obj s =
     (case obj of
        PlatformObject x \<Rightarrow> lift_in_place PlatformObject (Platform_Encrypt f) x s
      | ServiceBrokerObject x \<Rightarrow> lift_in_place ServiceBrokerObject (ServiceBroker_transform f) x s
      | ServiceBindingObject x \<Rightarrow> lift_in_place ServiceBindingObject (ServiceBinding_transform f) x s
      | BrokerPlatformCredentialObject x \<Rightarrow>
          lift_in_place BrokerPlatformCredentialObject (BrokerPlatformCredential_transform f) x s
      | _ \<Rightarrow> (Inr (), obj, s))"

definition er_decrypt :: "'s transformation \<Rightarrow> ('s, Object) in_place" where
  "er_decrypt f obj s =
     (case obj of
        PlatformObject x \<Rightarrow> lift_in_place PlatformObject (Platform_Decrypt f) x s
      | ServiceBrokerObject x \<Rightarrow> lift_in_place ServiceBrokerObject (ServiceBroker_transform f) x s
      | ServiceBindingObject x \<Rightarrow> lift_in_place ServiceBindingObject (ServiceBinding_transform f) x s
      | BrokerPlatformCredentialObject x \<Rightarrow>
          lift_in_place BrokerPlatformCredentialObject (BrokerPlatformCredential_transform f) x s
      | _ \<Rightarrow> (Inr (), obj, s))"

text \<open>The encrypter with the key of the repository.\<close>

record 's keyed_encrypter =
  enc :: "'s transformation"
  dec :: "'s transformation"

definition decrypted :: "'s keyed_encrypter \<Rightarrow> Object \<Rightarrow> ('s, Object) effect" where
  "decrypted k obj s =
     (case er_decrypt (dec k) obj s of
        (Inl err, _, s') \<Rightarrow> Some (Inl err, s')
      | (Inr _, obj', s') \<Rightarrow> Some (Inr obj', s'))"

definition encrypted_write :: "'s keyed_encrypter \<Rightarrow> 's write_effect \<Rightarrow> 's write_effect" where
  "encrypted_write k write obj s =
     (case er_encrypt (enc k) obj s of
        (Inl err, obj', s') \<Rightarrow> Some (Inl err, obj', s')
      | (Inr _, obj', s') \<Rightarrow>
          (case write obj' s' of
             None \<Rightarrow> None
           | Some (Inl err, obj'', s'') \<Rightarrow> Some (Inl err, obj'', s'')
           | Some (Inr newObj, obj'', s'') \<Rightarrow>
               (case decrypted k newObj s'' of
                  None \<Rightarrow> None
                | Some (r, s3) \<Rightarrow> Some (r, obj'', s3))))"

definition er_Create :: "'s keyed_encrypter \<Rightarrow> 's repository \<Rightarrow> 's write_effect" where
  "er_Create k R = encrypted_write k (m_Create R)"

definition er_Update :: "'s keyed_encrypter \<Rightarrow> 's repository \<Rightarrow> LabelChange list \<Rightarrow> Criterion list \<Rightarrow> 's write_effect" where
  "er_Update k R labelChanges _ = encrypted_write k (m_Update R labelChanges [])"

definition er_Get :: "'s keyed_encrypter \<Rightarrow> 's repository \<Rightarrow> ObjectType \<Rightarrow> Criterion list \<Rightarrow> ('s, Object) effect" where
  "er_Get k R t criteria = after_call (m_Get R t criteria) (decrypted k)"

definition er_GetForUpdate :: "'s keyed_encrypter \<Rightarrow> 's repository \<Rightarrow> ObjectType \<Rightarrow> Criterion list \<Rightarrow> ('s, Object) effect" where
  "er_GetForUpdate k R t criteria = after_call (m_Get R t criteria) (decrypted k)"

definition er_list :: "'s keyed_encrypter \<Rightarrow> 's repository \<Rightarrow> ObjectType \<Rightarrow> bool \<Rightarrow> Criterion list \<Rightarrow> ('s, Object list) effect" where
  "er_list k R t withLabels criteria =
     after_call (if withLabels then m_List R t criteria else m_ListNoLabels R t criteria) (map_calls (decrypted k))"

definition er_QueryForList :: "'s keyed_encrypter \<Rightarrow> 's repository \<Rightarrow> ObjectType \<Rightarrow> string \<Rightarrow> (string \<rightharpoonup> string) \<Rightarrow>
    ('s, Object list) effect" where
  "er_QueryForList k R t q ps = after_call (m_QueryForList R t q ps) (map_calls (decrypted k))"

definition er_DeleteReturning :: "'s keyed_encrypter \<Rightarrow> 's repository \<Rightarrow> ObjectType \<Rightarrow> Criterion list \<Rightarrow> ('s, Object list) effect" where
  "er_DeleteReturning k R t criteria = after_call (m_DeleteReturning R t criteria) (map_calls (decrypted k))"

definition encryptingRepository :: "'s keyed_encrypter \<Rightarrow> 's repository \<Rightarrow> 's repository" where
  "encryptingRepository k R = R\<lparr>
     m_Create := er_Create k R,
     m_Get := er_Get k R,
     m_GetForUpdate := er_GetForUpdate k R,
     m_List := (\<lambda>t. er_list k R t True),
     m_ListNoLabels := (\<lambda>t. er_list k R t False),
     m_QueryForList := er_QueryForList k R,
     m_Update := er_Update k R,
     m_DeleteReturning := er_DeleteReturning k R\<rparr>"

subsection \<open>The integrity repository\<close>

text \<open>\<open>None\<close> for an object without integrity, \<open>Some None\<close> for a panic.\<close>

primrec IntegralData :: "Object \<Rightarrow> string option option" where
  "IntegralData (OperationObject x) = None"
| "IntegralData (NotificationObject x) = None"
| "IntegralData (PlatformObject x) = Some (Platform_IntegralData x)"
| "IntegralData (ServicePlanObject x) = None"
| "IntegralData (ServiceOfferingObject x) = None"
| "IntegralData (ServiceBrokerObject x) = Some (ServiceBroker_IntegralData x)"
| "IntegralData (ServiceInstanceObject x) = None"
| "IntegralData (ServiceBindingObject x) = Some (Some (ServiceBinding_IntegralData x))"
| "IntegralData (BrokerPlatformCredentialObject x) = Some (Some (BrokerPlatformCredential_IntegralData x))"
| "IntegralData (VisibilityObject x) = None"
| "IntegralData (ResourceObject x) = None"

definition SetIntegrity :: "string \<Rightarrow> Object \<Rightarrow> Object option" where
  "SetIntegrity i obj =
     (case obj of
        PlatformObject x \<Rightarrow> Some (PlatformObject (x\<lparr>p_Integrity := i\<rparr>))
      | ServiceBrokerObject x \<Rightarrow> map_option ServiceBrokerObject (ServiceBroker_SetIntegrity i x)
      | ServiceBindingObject x \<Rightarrow> Some (ServiceBindingObject (x\<lparr>bd_Integrity := i\<rparr>))
      | BrokerPlatformCredentialObject x \<Rightarrow> Some (BrokerPlatformCredentialObject (x\<lparr>bpc_Integrity := i\<rparr>))
      | _ \<Rightarrow> Some obj)"

definition GetIntegrity :: "Object \<Rightarrow> string option" where
  "GetIntegrity obj =
     (case obj of
        PlatformObject x \<Rightarrow> Some (p_Integrity x)
      | ServiceBrokerObject x \<Rightarrow> ServiceBroker_GetIntegrity x
      | ServiceBindingObject x \<Rightarrow> Some (bd_Integrity x)
      | BrokerPlatformCredentialObject x \<Rightarrow> Some (bpc_Integrity x)
      | _ \<Rightarrow> Some '''')"

definition CalculateIntegrity :: "(string \<Rightarrow> string) \<Rightarrow> string \<Rightarrow> string" where
  "CalculateIntegrity HashingFunc integralData =
     (if length integralData = 0 then '''' else HashingFunc integralData)"

definition ValidateIntegrity :: "(string \<Rightarrow> string) \<Rightarrow> string \<Rightarrow> string \<Rightarrow> bool" where
  "ValidateIntegrity HashingFunc integralData integrity =
     (length integralData = 0 \<or> HashingFunc integralData = integrity)"

definition setIntegrity :: "(string \<Rightarrow> string) \<Rightarrow> Object \<Rightarrow> Object option" where
  "setIntegrity h obj =
     (case IntegralData obj of
        None \<Rightarrow> Some obj
      | Some None \<Rightarrow> None
      | Some (Some d) \<Rightarrow> SetIntegrity (CalculateIntegrity h d) obj)"

definition validateIntegrity :: "(string \<Rightarrow> string) \<Rightarrow> Object \<Rightarrow> ('s, Object) effect" where
  "validateIntegrity h obj s =
     (case IntegralData obj of
        None \<Rightarrow> Some (Inr obj, s)
      | Some None \<Rightarrow> None
      | Some (Some d) \<Rightarrow>
          if length d = 0 then Some (Inr obj, s)
          else case GetIntegrity obj of
              None \<Rightarrow> None
            | Some i \<Rightarrow>
                if ValidateIntegrity h d i then Some (Inr obj, s)
                else Some (Inl (ErrorString (''invalid integrity for '' @ ObjectType_String (GetType obj)
                       @ '' with ID '' @ GetID obj)), s))"

definition ir_write :: "(string \<Rightarrow> string) \<Rightarrow> 's write_effect \<Rightarrow> 's write_effect" where
  "ir_write h write obj s = (case setIntegrity h obj of None \<Rightarrow> None | Some obj' \<Rightarrow> write obj' s)"

definition ir_Create :: "(string \<Rightarrow> string) \<Rightarrow> 's repository \<Rightarrow> 's write_effect" where
  "ir_Create h R = ir_write h (m_Create R)"

definition ir_Update :: "(string \<Rightarrow> string) \<Rightarrow> 's repository \<Rightarrow> LabelChange list \<Rightarrow> Criterion list \<Rightarrow> 's write_effect" where
  "ir_Update h R labelChanges criteria = ir_write h (m_Update R labelChanges criteria)"

definition ir_Get :: "(string \<Rightarrow> string) \<Rightarrow> 's repository \<Rightarrow> ObjectType \<Rightarrow> Criterion list \<Rightarrow> ('s, Object) effect" where
  "ir_Get h R t criteria = after_call (m_Get R t criteria) (validateIntegrity h)"

definition ir_GetForUpdate :: "(string \<Rightarrow> string) \<Rightarrow> 's repository \<Rightarrow> ObjectType \<Rightarrow> Criterion list \<Rightarrow> ('s, Object) effect" where
  "ir_GetForUpdate h R t criteria = after_call (m_Get R t criteria) (validateIntegrity h)"

definition ir_list :: "(string \<Rightarrow> string) \<Rightarrow> 's repository \<Rightarrow> ObjectType \<Rightarrow> bool \<Rightarrow> Criterion list \<Rightarrow> ('s, Object list) effect" where
  "ir_list h R t withLabels criteria =
     after_call (if withLabels then m_List R t criteria else m_ListNoLabels R t criteria) (map_calls (validateIntegrity h))"

definition ir_QueryForList :: "(string \<Rightarrow> string) \<Rightarrow> 's repository \<Rightarrow> ObjectType \<Rightarrow> string \<Rightarrow> (string \<rightharpoonup> string) \<Rightarrow>
    ('s, Object list) effect" where
  "ir_QueryForList h R t q ps = after_call (m_QueryForList R t q ps) (map_calls (validateIntegrity h))"

definition integrityRepository :: "(string \<Rightarrow> string) \<Rightarrow> 's repository \<Rightarrow> 's repository" where
  "integrityRepository h R = R\<lparr>
     m_Create := ir_Create h R,
     m_Get := ir_Get h R,
     m_GetForUpdate := ir_GetForUpdate h R,
     m_List := (\<lambda>t. ir_list h R t True),
     m_ListNoLabels := (\<lambda>t. ir_list h R t False),
     m_QueryForList := ir_QueryForList h R,
     m_Update := ir_Update h R\<rparr>"

text \<open>
  \<open>InitializeWithSafeTermination\<close> applies the decorators from the last to the first; the program
  passes the integrity decorator first, so integrity is the outer one.
\<close>

primrec decorate :: "('r \<Rightarrow> (error, 'r) result) list \<Rightarrow> 'r \<Rightarrow> (error, 'r) result" where
  "decorate [] s = Inr s"
| "decorate (d # ds) s = try_then (decorate ds s) d"

definition protected_storage :: "(string \<Rightarrow> string) \<Rightarrow> 's keyed_encrypter \<Rightarrow> 's raw_repository \<Rightarrow> (error, 's repository) result" where
  "protected_storage h k R =
     decorate [\<lambda>next. Inr (integrityRepository h next), \<lambda>next. Inr (encryptingRepository k next)] (of_storage R)"

subsection \<open>Round trips\<close>

text \<open>
  What is relied on of an encrypter: a ciphertext is never empty, and decrypting it gives the
  plaintext back, now and in any later state.
\<close>

definition cipher_ok :: "'s keyed_encrypter \<Rightarrow> bool" where
  "cipher_ok k \<longleftrightarrow> (\<forall>p s c s'. enc k p s = (Inr c, s') \<longrightarrow> c \<noteq> '''' \<and> (\<forall>v. dec k c v = (Inr p, v)))"

lemma cipher_okD:
  "cipher_ok k \<Longrightarrow> enc k p s = (Inr c, s') \<Longrightarrow> c \<noteq> ''''"
  "cipher_ok k \<Longrightarrow> enc k p s = (Inr c, s') \<Longrightarrow> dec k c v = (Inr p, v)"
  unfolding cipher_ok_def by blast+

lemma AES_cipher_ok:
  assumes "\<And>p nonce. length nonce = NonceSize g \<Longrightarrow> Open g key nonce (Seal g key nonce p) = Inr p"
    and "\<And>s nonce s'. ReadNonce g s = (Inr nonce, s') \<Longrightarrow> length nonce = NonceSize g" and "0 < NonceSize g"
  shows "cipher_ok \<lparr>enc = AES_Encrypt g key, dec = AES_Decrypt g key\<rparr>"
proof -
  have "c \<noteq> '''' \<and> AES_Decrypt g key c v = (Inr p, v)" if "AES_Encrypt g key p s = (Inr c, s')" for p s c s' v
  proof -
    from that obtain nonce s0 where key: "NewCipher g key = None" and n: "ReadNonce g s = (Inr nonce, s0)"
      and c: "c = nonce @ Seal g key nonce p"
      by (auto simp: AES_Encrypt_def split: option.splits prod.splits sum.splits)
    from assms(2) [OF n] assms(1) [of nonce p] assms(3) key show ?thesis
      unfolding c by (auto simp: AES_Decrypt_def)
  qed
  then show ?thesis by (simp add: cipher_ok_def)
qed

text \<open>Encrypting the secrets of an object and decrypting them restores the object.\<close>

definition restores :: "('s, 'a) in_place \<Rightarrow> ('s, 'a) in_place \<Rightarrow> bool" where
  "restores f g \<longleftrightarrow> (\<forall>x s y s'. f x s = (Inr (), y, s') \<longrightarrow> (\<forall>v. g y v = (Inr (), x, v)))"

lemma restoresI: "(\<And>x s y s' v. f x s = (Inr (), y, s') \<Longrightarrow> g y v = (Inr (), x, v)) \<Longrightarrow> restores f g"
  unfolding restores_def by blast

lemma restoresD: "restores f g \<Longrightarrow> f x s = (Inr (), y, s') \<Longrightarrow> g y v = (Inr (), x, v)"
  unfolding restores_def by blast

lemma transform_secret_done:
  "transform_secret get_x set_x f x s = (Inr (), y, s') \<longleftrightarrow>
    (get_x x = None \<and> y = x \<and> s' = s) \<or> (\<exists>p c. get_x x = Some p \<and> f p s = (Inr c, s') \<and> y = set_x c x)"
  by (auto simp: transform_secret_def split: option.splits prod.splits sum.splits)

lemma in_place_then_done:
  "in_place_then f g x s = (Inr (), z, s') \<longleftrightarrow> (\<exists>y s0. f x s = (Inr (), y, s0) \<and> g y s0 = (Inr (), z, s'))"
  by (auto simp: in_place_then_def split: prod.splits sum.splits)

lemmas password_defs = basic_password_def set_basic_password_def tls_key_def set_tls_key_def

lemma passwords [simp]:
  "basic_password (set_basic_password c x) = map_option (\<lambda>_. c) (basic_password x)"
  "basic_password (set_tls_key c x) = basic_password x"
  "tls_key (set_basic_password c x) = tls_key x"
  "c \<noteq> '''' \<Longrightarrow> tls_key x = Some p \<Longrightarrow> tls_key (set_tls_key c x) = Some c"
  "basic_password x = Some p \<Longrightarrow> set_basic_password p (set_basic_password c x) = x"
  "tls_key x = Some p \<Longrightarrow> set_tls_key p (set_tls_key c x) = x"
  "set_tls_key d (set_basic_password c x) = set_basic_password c (set_tls_key d x)"
  by (cases x; auto simp: password_defs option.map_comp comp_def split: option.splits if_splits)+

lemma transform_secret_decrypts:
  assumes "cipher_ok k" and "enc k p s = (Inr c, s')" and "get_x y = Some c"
  shows "transform_secret get_x set_x (dec k) y v = (Inr (), set_x p y, v)"
  using cipher_okD(2) [OF assms(1,2), of v] assms(3) by (simp add: transform_secret_def)

text \<open>One secret, and two independent ones: each is read and written without touching the other.\<close>

definition secret_laws :: "('a \<Rightarrow> string option) \<Rightarrow> (string \<Rightarrow> 'a \<Rightarrow> 'a) \<Rightarrow> bool" where
  "secret_laws get_x set_x \<longleftrightarrow>
     (\<forall>x p c. get_x x = Some p \<longrightarrow> set_x p (set_x c x) = x \<and> (c \<noteq> '''' \<longrightarrow> get_x (set_x c x) = Some c))"

lemma secret_restores:
  assumes k: "cipher_ok k" and laws: "secret_laws get_x set_x"
  shows "restores (transform_secret get_x set_x (enc k)) (transform_secret get_x set_x (dec k))"
proof (rule restoresI)
  fix x s y s' v
  assume "transform_secret get_x set_x (enc k) x s = (Inr (), y, s')"
  then consider "get_x x = None" "y = x" | p c where "get_x x = Some p" "enc k p s = (Inr c, s')" "y = set_x c x"
    unfolding transform_secret_done by (elim disjE exE conjE) auto
  then show "transform_secret get_x set_x (dec k) y v = (Inr (), x, v)"
  proof cases
    case 1
    then show ?thesis by (simp add: transform_secret_def)
  next
    case 2
    then have "get_x y = Some c" and "set_x p y = x"
      using laws cipher_okD(1) [OF k 2(2)] unfolding secret_laws_def by auto
    then show ?thesis using transform_secret_decrypts [OF k 2(2), of get_x y set_x v] by simp
  qed
qed

lemma transform_secret_comm:
  assumes free: "\<And>c x. get1 (set2 c x) = get1 x" "\<And>c x. get2 (set1 c x) = get2 x"
      "\<And>c d x. set2 d (set1 c x) = set1 c (set2 d x)"
    and z: "transform_secret get2 set2 (dec k) z v = (Inr (), y, v)"
    and y: "transform_secret get1 set1 (dec k) y v = (Inr (), x, v)"
  shows "in_place_then (transform_secret get1 set1 (dec k)) (transform_secret get2 set2 (dec k)) z v = (Inr (), x, v)"
  using z y unfolding in_place_then_done transform_secret_done
  by (elim disjE exE conjE) (auto simp: free)

lemma two_secrets_restore:
  assumes k: "cipher_ok k" and laws: "secret_laws get1 set1" "secret_laws get2 set2"
    and free: "\<And>c x. get1 (set2 c x) = get1 x" "\<And>c x. get2 (set1 c x) = get2 x"
      "\<And>c d x. set2 d (set1 c x) = set1 c (set2 d x)"
  shows "restores (in_place_then (transform_secret get1 set1 (enc k)) (transform_secret get2 set2 (enc k)))
    (in_place_then (transform_secret get1 set1 (dec k)) (transform_secret get2 set2 (dec k)))"
proof (rule restoresI)
  fix x s z s' v
  assume "in_place_then (transform_secret get1 set1 (enc k)) (transform_secret get2 set2 (enc k)) x s = (Inr (), z, s')"
  then obtain y s0 where 1: "transform_secret get1 set1 (enc k) x s = (Inr (), y, s0)"
    and 2: "transform_secret get2 set2 (enc k) y s0 = (Inr (), z, s')"
    unfolding in_place_then_done by blast
  show "in_place_then (transform_secret get1 set1 (dec k)) (transform_secret get2 set2 (dec k)) z v = (Inr (), x, v)"
    by (rule transform_secret_comm [where y = y, OF free
        restoresD [OF secret_restores [OF k laws(2)] 2] restoresD [OF secret_restores [OF k laws(1)] 1]])
qed

lemma Platform_restores: "cipher_ok k \<Longrightarrow> restores (Platform_transform (enc k)) (Platform_transform (dec k))"
  unfolding Platform_transform_def by (rule two_secrets_restore) (auto simp: secret_laws_def)

lemma ServiceBroker_restores:
  "cipher_ok k \<Longrightarrow> restores (ServiceBroker_transform (enc k)) (ServiceBroker_transform (dec k))"
  unfolding ServiceBroker_transform_def by (rule two_secrets_restore) (auto simp: secret_laws_def)

lemma ServiceBinding_restores:
  "cipher_ok k \<Longrightarrow> restores (ServiceBinding_transform (enc k)) (ServiceBinding_transform (dec k))"
  unfolding ServiceBinding_transform_def
  by (rule secret_restores) (auto simp: secret_laws_def split: option.splits if_splits)

lemma BrokerPlatformCredential_restores:
  "cipher_ok k \<Longrightarrow> restores (BrokerPlatformCredential_transform (enc k)) (BrokerPlatformCredential_transform (dec k))"
  unfolding BrokerPlatformCredential_transform_def
  by (rule two_secrets_restore) (auto simp: secret_laws_def)

lemma Platform_transform_Technical:
  "Platform_transform f x s = (r, y, s') \<Longrightarrow> p_Technical y = p_Technical x"
  by (auto simp: Platform_transform_def in_place_then_def transform_secret_def split: option.splits prod.splits sum.splits)

lemma Platform_Encrypt_restores:
  assumes k: "cipher_ok k"
  shows "restores (Platform_Encrypt (enc k)) (Platform_Decrypt (dec k))"
proof (rule restoresI)
  fix x s y s' v
  assume run: "Platform_Encrypt (enc k) x s = (Inr (), y, s')"
  show "Platform_Decrypt (dec k) y v = (Inr (), x, v)"
  proof (cases "p_Technical x")
    case True
    then show ?thesis using run by (simp add: Platform_Encrypt_def Platform_Decrypt_def)
  next
    case False
    then have run: "Platform_transform (enc k) x s = (Inr (), y, s')" using run by (simp add: Platform_Encrypt_def)
    with False Platform_transform_Technical [OF run] restoresD [OF Platform_restores [OF k] run]
    show ?thesis by (simp add: Platform_Decrypt_def)
  qed
qed

lemma er_restores:
  assumes k: "cipher_ok k" and run: "er_encrypt (enc k) obj s = (Inr (), obj', s')"
  shows "er_decrypt (dec k) obj' v = (Inr (), obj, v)"
  using run
  by (cases obj)
    (auto simp: er_encrypt_def er_decrypt_def lift_in_place_def
      dest: restoresD [where v = v, OF Platform_Encrypt_restores [OF k]]
        restoresD [where v = v, OF ServiceBroker_restores [OF k]] restoresD [where v = v, OF ServiceBinding_restores [OF k]]
        restoresD [where v = v, OF BrokerPlatformCredential_restores [OF k]]
      split: prod.splits)

lemma setIntegrity_valid:
  assumes "setIntegrity h obj = Some obj'"
  shows "validateIntegrity h obj' s = Some (Inr obj', s)"
  using assms
  by (cases obj)
    (auto simp: setIntegrity_def validateIntegrity_def SetIntegrity_def GetIntegrity_def CalculateIntegrity_def
      ValidateIntegrity_def Platform_IntegralData_def ServiceBroker_IntegralData_def ServiceBroker_SetIntegrity_def
      ServiceBroker_GetIntegrity_def ServiceBinding_IntegralData_def BrokerPlatformCredential_IntegralData_def Let_def
      split: option.splits if_splits)

lemma protected_storage_eq:
  "protected_storage h k R = Inr (integrityRepository h (encryptingRepository k (of_storage R)))"
  by (simp add: protected_storage_def)

lemmas protected_defs = integrityRepository_def encryptingRepository_def of_storage_def plain_def plain_write_def

text \<open>A write through both decorators: the integrity is set, the result encrypted and handed to the storage.\<close>

lemma protected_write:
  assumes k: "cipher_ok k" and echo: "\<And>x s y s'. write x s = (Inr y, s') \<Longrightarrow> y = x"
    and run: "ir_write h (encrypted_write k (plain_write write)) obj st = Some (Inr newObj, obj', st')"
  shows "setIntegrity h obj = Some newObj \<and> (\<exists>s1 s2. er_encrypt (enc k) newObj s1 = (Inr (), obj', s2))"
proof -
  from run obtain ob s1 where integ: "setIntegrity h obj = Some ob"
    and encr: "er_encrypt (enc k) ob st = (Inr (), obj', s1)" and wr: "\<exists>y s2. write obj' s1 = (Inr y, s2) \<and> decrypted k y s2 = Some (Inr newObj, st')"
    by (auto simp: ir_write_def encrypted_write_def plain_write_def split: option.splits prod.splits sum.splits)
  from wr echo have "\<exists>s2. decrypted k obj' s2 = Some (Inr newObj, st')" by blast
  then have "newObj = ob"
    using er_restores [OF k encr] by (auto simp: decrypted_def)
  with integ encr show ?thesis by blast
qed


definition valid_integrity :: "(string \<Rightarrow> string) \<Rightarrow> Object \<Rightarrow> bool" where
  "valid_integrity h obj \<longleftrightarrow>
     (\<forall>d. IntegralData obj = Some d \<longrightarrow> (\<exists>b. d = Some b \<and> (b \<noteq> '''' \<longrightarrow> GetIntegrity obj = Some (h b))))"

lemma validateIntegrity_Inr:
  "validateIntegrity h obj s = Some (Inr obj', s') \<Longrightarrow> obj' = obj \<and> valid_integrity h obj"
  by (auto simp: validateIntegrity_def valid_integrity_def ValidateIntegrity_def split: option.splits if_splits)

lemma after_call_Inr:
  "after_call f g s = Some (Inr y, s') \<Longrightarrow> \<exists>x s0. f s = Some (Inr x, s0) \<and> g x s0 = Some (Inr y, s')"
  by (auto simp: after_call_def split: option.splits prod.splits sum.splits)

lemma map_calls_Inr:
  assumes "\<And>x s y s'. f x s = Some (Inr y, s') \<Longrightarrow> Q y"
  shows "map_calls f xs s = Some (Inr ys, s') \<Longrightarrow> list_all Q ys"
proof (induction xs arbitrary: s ys s')
  case (Cons x xs)
  then show ?case
    using assms by (fastforce dest!: after_call_Inr simp: call_ret_def)
qed (simp add: call_ret_def)

text \<open>C17.  Every object that a read through the protected storage returns has a valid integrity:
  its integral data is empty or hashes to the integrity stored with it.  An object that was changed in
  the database so that the hash does not match any more is never handed out.\<close>

theorem protected_reads_valid:
  assumes "protected_storage h k R = Inr P"
  shows "(m_Get P t cs s = Some (Inr x, s') \<longrightarrow> valid_integrity h x) \<and>
    (m_GetForUpdate P t cs s = Some (Inr x, s') \<longrightarrow> valid_integrity h x) \<and>
    (m_List P t cs s = Some (Inr xs, s') \<longrightarrow> list_all (valid_integrity h) xs) \<and>
    (m_ListNoLabels P t cs s = Some (Inr xs, s') \<longrightarrow> list_all (valid_integrity h) xs) \<and>
    (m_QueryForList P t q ps s = Some (Inr xs, s') \<longrightarrow> list_all (valid_integrity h) xs)"
proof -
  have P: "P = integrityRepository h (encryptingRepository k (of_storage R))"
    using assms by (simp add: protected_storage_eq)
  have ones: "valid_integrity h y" if "validateIntegrity h x s = Some (Inr y, s')" for x y and s s' :: 'a
    using validateIntegrity_Inr [OF that] by simp
  have lists: "list_all (valid_integrity h) ys" if "map_calls (validateIntegrity h) xs s = Some (Inr ys, s')" for xs ys and s s' :: 'a
    by (rule map_calls_Inr [OF ones that])
  show ?thesis
    unfolding P by (auto simp: integrityRepository_def ir_Get_def ir_GetForUpdate_def ir_list_def ir_QueryForList_def
        dest!: after_call_Inr ones lists)
qed

text \<open>A platform with credentials, a cipher that prepends a character, and a storage that is a list.\<close>

definition marking :: "'s keyed_encrypter" where
  "marking = \<lparr>enc = (\<lambda>p s. (Inr (CHR ''#'' # p), s)), dec = (\<lambda>c s. (Inr (tl c), s))\<rparr>"

definition a_platform :: "string \<Rightarrow> string \<Rightarrow> Platform" where
  "a_platform pw integ = \<lparr>ID = ''p1'', CreatedAt = 0, UpdatedAt = 0, Labels = Map.empty, PagingSequence = 0, Ready = True,
     p_Type = ''kubernetes'', p_Name = ''n'', p_Description = '''',
     p_Credentials = Some \<lparr>cr_Basic = Some \<lparr>Username = ''u'', Password = pw\<rparr>, cr_TLS = None, cr_Integrity = ''''\<rparr>,
     p_OldCredentials = None, p_Version = '''', p_Active = False, p_Suspended = False, p_LastActive = 0,
     p_Integrity = integ, p_CredentialsActive = False, p_Technical = False\<rparr>"

lemma marking_ok: "cipher_ok marking"
  by (simp add: cipher_ok_def marking_def)

lemmas secured_eval = ir_Create_def er_Create_def ir_write_def encrypted_write_def plain_write_def setIntegrity_def
  SetIntegrity_def Platform_IntegralData_def CalculateIntegrity_def er_encrypt_def er_decrypt_def decrypted_def
  lift_in_place_def Platform_Encrypt_def Platform_Decrypt_def Platform_transform_def in_place_then_def
  transform_secret_def basic_password_def set_basic_password_def marking_def a_platform_def list_repository_def
  integrityRepository_def encryptingRepository_def of_storage_def ir_Get_def er_Get_def plain_def after_call_def
  validateIntegrity_def GetIntegrity_def ValidateIntegrity_def


lemma protected_reads_valid_witness:
  "valid_integrity rev (PlatformObject (a_platform ''pw'' ''wp:u'')) \<and>
   m_Get (integrityRepository rev (encryptingRepository marking (of_storage list_repository))) PlatformType []
     [PlatformObject (a_platform ''#pW'' ''wp:u'')] =
     Some (Inl (ErrorString ''invalid integrity for /v1/platforms with ID p1''), [PlatformObject (a_platform ''#pW'' ''wp:u'')])"
proof -
  let ?P = "integrityRepository rev (encryptingRepository marking (of_storage list_repository))"
  let ?new = "PlatformObject (a_platform ''pw'' ''wp:u'')" and ?stored = "PlatformObject (a_platform ''#pw'' ''wp:u'')"
  have "m_Get ?P PlatformType [] [?stored] = Some (Inr ?new, [?stored])"
    by (simp add: secured_eval)
  then show ?thesis
    using protected_reads_valid [OF protected_storage_eq, of rev marking list_repository PlatformType "[]" "[?stored]"
        ?new "[?stored]"]
    by (simp add: secured_eval ObjectType_String_def strings_HasPrefix_def PlatformType_def)
qed

end
