(* ===== verification/EncryptionKey.thy ===== *)
theory EncryptionKey
  imports SecuredRepositories
begin

text \<open>
  The encryption key and the advisory lock that guards it: \<open>src/storage/postgres/locker.go\<close>,
  \<open>src/storage/postgres/keystore.go\<close> and the decorator in \<open>src/storage/encrypting_repository.go\<close>.

  PostgreSQL, its connection pool and the random source are a parameter; a session is the number of
  its connection.  \<open>pg_advisory_lock\<close> is \<open>None\<close> while it has to wait.  A locker's mutex makes each of its
  methods atomic within one process; several processes share the database.
\<close>

subsection \<open>The database\<close>

record 'w pg_lib =
  pg_Conn :: "'w \<Rightarrow> (error, nat) result \<times> 'w"
  pg_advisory_lock :: "int \<Rightarrow> nat \<Rightarrow> 'w \<Rightarrow> (error option \<times> 'w) option"
  pg_try_advisory_lock :: "int \<Rightarrow> nat \<Rightarrow> 'w \<Rightarrow> (error, (error, bool) result list) result \<times> 'w"
  pg_advisory_unlock :: "int \<Rightarrow> nat \<Rightarrow> 'w \<Rightarrow> (error, (error, bool) result list) result \<times> 'w"
  pg_Close :: "nat \<Rightarrow> 'w \<Rightarrow> 'w"
  pg_Disconnect :: "nat \<Rightarrow> 'w \<Rightarrow> 'w"
  safe_Get :: "'w \<Rightarrow> (error, string) result"
  safe_Insert :: "string \<Rightarrow> 'w \<Rightarrow> error option \<times> 'w"
  rand_Read :: "'w \<Rightarrow> (error, string) result \<times> 'w"

definition sql_ErrNoRows :: error where
  "sql_ErrNoRows = ErrorString ''sql: no rows in result set''"

text \<open>The loop over the rows of a query with one boolean column.\<close>

primrec scan_rows :: "(error, bool) result list \<Rightarrow> bool \<Rightarrow> (error, bool) result" where
  "scan_rows [] b = Inr b"
| "scan_rows (r # rs) b = (case r of Inl err \<Rightarrow> Inl err | Inr b' \<Rightarrow> scan_rows rs b')"

subsection \<open>The locker\<close>

record Locker =
  isLocked :: bool
  AdvisoryIndex :: int
  lockerCon :: "nat option"

definition ErrLockAcquisition :: error where
  "ErrLockAcquisition = ErrorString ''failed to acquire lock''"

definition ErrUnlockAcquisition :: error where
  "ErrUnlockAcquisition = ErrorString ''failed to unlock''"

definition release :: "'w pg_lib \<Rightarrow> nat \<Rightarrow> Locker \<Rightarrow> 'w \<Rightarrow> Locker \<times> 'w" where
  "release pg c l w = (l\<lparr>lockerCon := None\<rparr>, pg_Close pg c w)"

definition Lock :: "'w pg_lib \<Rightarrow> Locker \<Rightarrow> 'w \<Rightarrow> (error option \<times> Locker \<times> 'w) option" where
  "Lock pg l w =
     (if isLocked l \<or> lockerCon l \<noteq> None then Some (Some (ErrorString ''lock is already acquired''), l, w)
      else
        (case pg_Conn pg w of
           (Inl err, w) \<Rightarrow> Some (Some err, l\<lparr>lockerCon := None\<rparr>, w)
         | (Inr c, w) \<Rightarrow>
             let l = l\<lparr>lockerCon := Some c\<rparr>
             in case pg_advisory_lock pg (AdvisoryIndex l) c w of
                  None \<Rightarrow> None
                | Some (Some err, w) \<Rightarrow> (case release pg c l w of (l, w) \<Rightarrow> Some (Some err, l, w))
                | Some (None, w) \<Rightarrow> Some (None, l\<lparr>isLocked := True\<rparr>, w)))"

definition TryLock :: "'w pg_lib \<Rightarrow> Locker \<Rightarrow> 'w \<Rightarrow> error option \<times> Locker \<times> 'w" where
  "TryLock pg l w =
     (if isLocked l \<or> lockerCon l \<noteq> None then (Some (ErrorString ''try_lock is already acquired''), l, w)
      else
        (case pg_Conn pg w of
           (Inl err, w) \<Rightarrow> (Some err, l\<lparr>lockerCon := None\<rparr>, w)
         | (Inr c, w) \<Rightarrow>
             let l = l\<lparr>lockerCon := Some c\<rparr>;
                 failed = (\<lambda>err w. case release pg c l w of (l, w) \<Rightarrow> (Some err, l, w))
             in case pg_try_advisory_lock pg (AdvisoryIndex l) c w of
                  (Inl err, w) \<Rightarrow> failed err w
                | (Inr rows, w) \<Rightarrow>
                    (case scan_rows rows False of
                       Inl err \<Rightarrow> failed err w
                     | Inr locked \<Rightarrow>
                         if \<not> locked then failed ErrLockAcquisition w
                         else (None, l\<lparr>isLocked := True\<rparr>, w))))"

text \<open>The connection is released after all paths that ask the database, also after a failed unlock.\<close>

definition Unlock :: "'w pg_lib \<Rightarrow> Locker \<Rightarrow> 'w \<Rightarrow> error option \<times> Locker \<times> 'w" where
  "Unlock pg l w =
     (if \<not> isLocked l then (None, l, w)
      else
        (case lockerCon l of
           None \<Rightarrow> (None, l, w)
         | Some c \<Rightarrow>
             (case pg_advisory_unlock pg (AdvisoryIndex l) c w of
                (res, w) \<Rightarrow>
                  (case (case res of
                           Inl err \<Rightarrow> (Some err, l)
                         | Inr rows \<Rightarrow>
                             (case scan_rows rows False of
                                Inl err \<Rightarrow> (Some err, l)
                              | Inr unlocked \<Rightarrow>
                                  if \<not> unlocked then (Some ErrUnlockAcquisition, l)
                                  else (None, l\<lparr>isLocked := False\<rparr>))) of
                     (err, l) \<Rightarrow> (case release pg c l w of (l, w) \<Rightarrow> (err, l, w))))))"

definition securityLockIndex :: int where
  "securityLockIndex = 111"

definition EncryptingLocker :: Locker where
  "EncryptingLocker = \<lparr>isLocked = False, AdvisoryIndex = securityLockIndex, lockerCon = None\<rparr>"

subsection \<open>The key store and the decorator\<close>

record 'w encrypter =
  e_Encrypt :: "string \<Rightarrow> 'w transformation"
  e_Decrypt :: "string \<Rightarrow> 'w transformation"

definition GetEncryptionKey :: "'w pg_lib \<Rightarrow> string \<Rightarrow> (string \<Rightarrow> 'w transformation) \<Rightarrow> 'w \<Rightarrow> (error, string) result \<times> 'w" where
  "GetEncryptionKey pg layerOneEncryptionKey transformationFunc w =
     (case safe_Get pg w of
        Inl err \<Rightarrow> if err = sql_ErrNoRows then (Inr '''', w) else (Inl err, w)
      | Inr encryptedKey \<Rightarrow> transformationFunc layerOneEncryptionKey encryptedKey w)"

definition SetEncryptionKey :: "'w pg_lib \<Rightarrow> string \<Rightarrow> string \<Rightarrow> (string \<Rightarrow> 'w transformation) \<Rightarrow> 'w \<Rightarrow> error option \<times> 'w" where
  "SetEncryptionKey pg layerOneEncryptionKey key transformationFunc w =
     (case transformationFunc layerOneEncryptionKey key w of
        (Inl err, w) \<Rightarrow> (Some err, w)
      | (Inr bytes, w) \<Rightarrow> safe_Insert pg bytes w)"

text \<open>A new key, generated and stored.\<close>

definition create_key :: "'w pg_lib \<Rightarrow> 'w encrypter \<Rightarrow> string \<Rightarrow> 'w \<Rightarrow> (error, string) result \<times> 'w" where
  "create_key pg e layerOne w =
     (case rand_Read pg w of
        (Inl err, w) \<Rightarrow> (Inl (ErrorString (''could not generate encryption key: '' @ error_text err)), w)
      | (Inr newEncryptionKey, w) \<Rightarrow>
          (case SetEncryptionKey pg layerOne newEncryptionKey (e_Encrypt e) w of
             (Some err, w) \<Rightarrow> (Inl err, w)
           | (None, w) \<Rightarrow> (Inr newEncryptionKey, w)))"

definition NewEncryptingRepository :: "'w repository \<Rightarrow> 'w encrypter \<Rightarrow> string \<Rightarrow> 'w repository" where
  "NewEncryptingRepository next e key = encryptingRepository \<lparr>enc = e_Encrypt e key, dec = e_Decrypt e key\<rparr> next"

definition decorator_key :: "'w pg_lib \<Rightarrow> 'w encrypter \<Rightarrow> string \<Rightarrow> Locker \<Rightarrow> 'w \<Rightarrow>
    ((error, string) result \<times> Locker \<times> 'w) option" where
  "decorator_key pg e layerOne l w =
     (case Lock pg l w of
        None \<Rightarrow> None
      | Some (Some err, l, w) \<Rightarrow> Some (Inl err, l, w)
      | Some (None, l, w) \<Rightarrow>
          let unlocked = (\<lambda>r w. case Unlock pg l w of (_, l, w) \<Rightarrow> Some (r, l, w))
          in case GetEncryptionKey pg layerOne (e_Decrypt e) w of
               (Inl err, w) \<Rightarrow> unlocked (Inl err) w
             | (Inr encryptionKey, w) \<Rightarrow>
                 if length encryptionKey = 0
                 then (case create_key pg e layerOne w of (r, w) \<Rightarrow> unlocked r w)
                 else unlocked (Inr encryptionKey) w)"

definition EncryptingDecorator :: "'w pg_lib \<Rightarrow> 'w encrypter \<Rightarrow> string \<Rightarrow> 'w repository \<Rightarrow> Locker \<Rightarrow> 'w \<Rightarrow>
    ((error, 'w repository) result \<times> Locker \<times> 'w) option" where
  "EncryptingDecorator pg e layerOne next l w =
     map_option (\<lambda>(r, l, w). (map_sum id (NewEncryptingRepository next e) r, l, w)) (decorator_key pg e layerOne l w)"


subsection \<open>Several processes\<close>

text \<open>
  The decorator as a sequence of steps, one per call of the locker or the key store: each of these
  calls meets the shared database at one statement that matters to others.
\<close>

datatype decorator_pc = AtLock | AtGet | AtCreate | AtUnlock "(error, string) result" | Returned "(error, string) result"

definition decorator_step :: "'w pg_lib \<Rightarrow> 'w encrypter \<Rightarrow> string \<Rightarrow> decorator_pc \<times> Locker \<times> 'w \<Rightarrow>
    (decorator_pc \<times> Locker \<times> 'w) option" where
  "decorator_step pg e layerOne = (\<lambda>(pc, l, w).
     case pc of
       AtLock \<Rightarrow>
         map_option (\<lambda>(err, l, w). (case err of Some err \<Rightarrow> Returned (Inl err) | None \<Rightarrow> AtGet, l, w)) (Lock pg l w)
     | AtGet \<Rightarrow>
         (case GetEncryptionKey pg layerOne (e_Decrypt e) w of
            (r, w) \<Rightarrow> Some (if r = Inr '''' then AtCreate else AtUnlock r, l, w))
     | AtCreate \<Rightarrow> (case create_key pg e layerOne w of (r, w) \<Rightarrow> Some (AtUnlock r, l, w))
     | AtUnlock r \<Rightarrow> (case Unlock pg l w of (_, l, w) \<Rightarrow> Some (Returned r, l, w))
     | Returned r \<Rightarrow> None)"

primrec decorator_steps :: "nat \<Rightarrow> 'w pg_lib \<Rightarrow> 'w encrypter \<Rightarrow> string \<Rightarrow> decorator_pc \<times> Locker \<times> 'w \<Rightarrow>
    decorator_pc \<times> Locker \<times> 'w" where
  "decorator_steps 0 pg e layerOne s = s"
| "decorator_steps (Suc n) pg e layerOne s =
     (case decorator_step pg e layerOne s of None \<Rightarrow> s | Some s' \<Rightarrow> decorator_steps n pg e layerOne s')"

text \<open>A process that runs alone takes its steps to the result of the decorator.\<close>

lemma decorator_steps_key:
  assumes "decorator_key pg e layerOne l w = Some (r, l', w')"
  shows "decorator_steps 4 pg e layerOne (AtLock, l, w) = (Returned r, l', w')"
proof -
  have stuck: "decorator_steps n pg e layerOne (Returned x, s) = (Returned x, s)" for n x s
    by (cases n; cases s) (auto simp: decorator_step_def)
  have four: "(4::nat) = Suc (Suc (Suc (Suc 0)))" by simp
  obtain err l1 w1 where lock: "Lock pg l w = Some (err, l1, w1)"
    using assms by (auto simp: decorator_key_def split: option.splits)
  obtain r2 w2 where get: "GetEncryptionKey pg layerOne (e_Decrypt e) w1 = (r2, w2)" by fastforce
  obtain r3 w3 where create: "create_key pg e layerOne w2 = (r3, w3)" by fastforce
  obtain e2 l2 w4 e3 l3 w5 where un: "Unlock pg l1 w2 = (e2, l2, w4)" "Unlock pg l1 w3 = (e3, l3, w5)"
    by (metis prod_cases3)
  show ?thesis
  proof (cases err)
    case None
    with assms show ?thesis
      by (cases r2) (auto simp: four decorator_key_def decorator_step_def Let_def lock get create un stuck split: if_splits)
  next
    case (Some a)
    with assms lock show ?thesis by (simp add: four decorator_key_def decorator_step_def stuck)
  qed
qed

text \<open>
  What matters of the database: which session holds the lock with an index, which sessions are in
  use by a locker, and the rows of the table \<open>safe\<close>.
\<close>

record pg_view =
  v_holder :: "int \<Rightarrow> nat option"
  v_open :: "nat set"
  v_rows :: "string list"

text \<open>
  The documented behaviour of the database.  The pool never hands out a connection in use.  A session
  gets an advisory lock only when no other session holds it, and only its holder, by unlocking, or
  the end of the session frees it; giving a connection back to the pool does not.
\<close>

definition pg_laws :: "'w pg_lib \<Rightarrow> ('w \<Rightarrow> pg_view) \<Rightarrow> bool" where
  "pg_laws pg view \<longleftrightarrow>
     (\<forall>w err w'. pg_Conn pg w = (Inl err, w') \<longrightarrow> view w' = view w) \<and>
     (\<forall>w c w'. pg_Conn pg w = (Inr c, w') \<longrightarrow>
        c \<notin> v_open (view w) \<and> view w' = (view w)\<lparr>v_open := insert c (v_open (view w))\<rparr>) \<and>
     (\<forall>i c w err w'. pg_advisory_lock pg i c w = Some (Some err, w') \<longrightarrow> view w' = view w) \<and>
     (\<forall>i c w w'. pg_advisory_lock pg i c w = Some (None, w') \<longrightarrow>
        v_holder (view w) i \<in> {None, Some c} \<and> view w' = (view w)\<lparr>v_holder := (v_holder (view w))(i := Some c)\<rparr>) \<and>
     (\<forall>i c w r w'. pg_advisory_unlock pg i c w = (r, w') \<longrightarrow>
        view w' = view w \<or> v_holder (view w) i = Some c \<and> view w' = (view w)\<lparr>v_holder := (v_holder (view w))(i := None)\<rparr>) \<and>
     (\<forall>c w. view (pg_Close pg c w) = (view w)\<lparr>v_open := v_open (view w) - {c}\<rparr>) \<and>
     (\<forall>c w. view (pg_Disconnect pg c w) = (view w)\<lparr>v_open := v_open (view w) - {c},
        v_holder := (\<lambda>i. if v_holder (view w) i = Some c then None else v_holder (view w) i)\<rparr>) \<and>
     (\<forall>w s. safe_Get pg w = Inr s \<longrightarrow> s \<in> set (v_rows (view w))) \<and>
     (\<forall>w. safe_Get pg w = Inl sql_ErrNoRows \<longrightarrow> v_rows (view w) = []) \<and>
     (\<forall>s w err w'. safe_Insert pg s w = (Some err, w') \<longrightarrow> view w' = view w) \<and>
     (\<forall>s w w'. safe_Insert pg s w = (None, w') \<longrightarrow> view w' = (view w)\<lparr>v_rows := v_rows (view w) @ [s]\<rparr>) \<and>
     (\<forall>w r w'. rand_Read pg w = (r, w') \<longrightarrow> view w' = view w \<and> r \<noteq> Inr '''')"

text \<open>
  The encrypter with the key of the environment: deciphering is a function of the text and undoes
  enciphering, and neither touches the database.
\<close>

definition layer_one_laws :: "'w encrypter \<Rightarrow> string \<Rightarrow> ('w \<Rightarrow> pg_view) \<Rightarrow> (string \<Rightarrow> (error, string) result) \<Rightarrow> bool" where
  "layer_one_laws e layerOne view decipher \<longleftrightarrow>
     (\<forall>s w. e_Decrypt e layerOne s w = (decipher s, w)) \<and>
     (\<forall>p w r w'. e_Encrypt e layerOne p w = (r, w') \<longrightarrow> view w' = view w \<and> (\<forall>c. r = Inr c \<longrightarrow> decipher c = Inr p))"

record 'w key_system =
  processes :: "(decorator_pc \<times> Locker) list"
  world :: 'w

text \<open>
  Processes start, take steps, and crash at any point, which ends the session they lock with.
\<close>

inductive key_step :: "'w pg_lib \<Rightarrow> 'w encrypter \<Rightarrow> string \<Rightarrow> 'w key_system \<Rightarrow> 'w key_system \<Rightarrow> bool"
  for pg e layerOne where
  start: "key_step pg e layerOne s (s\<lparr>processes := processes s @ [(AtLock, EncryptingLocker)]\<rparr>)"
| step: "i < length (processes s) \<Longrightarrow> processes s ! i = (pc, l) \<Longrightarrow>
    decorator_step pg e layerOne (pc, l, world s) = Some (pc', l', w') \<Longrightarrow>
    key_step pg e layerOne s (s\<lparr>processes := (processes s)[i := (pc', l')], world := w'\<rparr>)"
| crash: "i < length (processes s) \<Longrightarrow> processes s ! i = (pc, l) \<Longrightarrow> lockerCon l = Some c \<Longrightarrow>
    key_step pg e layerOne s (s\<lparr>processes := (processes s)[i := (Returned (Inl err), l\<lparr>lockerCon := None\<rparr>)],
      world := pg_Disconnect pg c (world s)\<rparr>)"

inductive key_run :: "'w pg_lib \<Rightarrow> 'w encrypter \<Rightarrow> string \<Rightarrow> 'w key_system \<Rightarrow> 'w key_system \<Rightarrow> bool"
  for pg e layerOne where
  key_run_refl: "key_run pg e layerOne s s"
| key_run_step: "key_run pg e layerOne s s' \<Longrightarrow> key_step pg e layerOne s' s'' \<Longrightarrow> key_run pg e layerOne s s''"

subsection \<open>Agreement on the key\<close>

text \<open>What one process may assume, for the view \<open>v\<close> of the database.\<close>

definition process_ok :: "(string \<Rightarrow> (error, string) result) \<Rightarrow> pg_view \<Rightarrow> decorator_pc \<times> Locker \<Rightarrow> bool" where
  "process_ok decipher v = (\<lambda>(pc, l).
     AdvisoryIndex l = securityLockIndex \<and> (\<forall>c. lockerCon l = Some c \<longrightarrow> c \<in> v_open v) \<and>
     (case pc of AtLock \<Rightarrow> lockerCon l = None | Returned _ \<Rightarrow> lockerCon l = None
      | _ \<Rightarrow> isLocked l \<and> lockerCon l \<noteq> None \<and> v_holder v securityLockIndex = lockerCon l) \<and>
     (pc = AtCreate \<longrightarrow> v_rows v = []) \<and>
     (\<forall>k. pc \<in> {AtUnlock (Inr k), Returned (Inr k)} \<longrightarrow> (\<exists>s. v_rows v = [s] \<and> decipher s = Inr k)))"

definition one_key :: "(string \<Rightarrow> (error, string) result) \<Rightarrow> string list \<Rightarrow> bool" where
  "one_key decipher rows \<longleftrightarrow> rows = [] \<or> (\<exists>s. rows = [s] \<and> decipher s \<noteq> Inr '''')"

definition key_inv :: "(string \<Rightarrow> (error, string) result) \<Rightarrow> pg_view \<Rightarrow> (decorator_pc \<times> Locker) list \<Rightarrow> bool" where
  "key_inv decipher v ps \<longleftrightarrow>
     one_key decipher (v_rows v) \<and> (\<forall>p \<in> set ps. process_ok decipher v p) \<and>
     (\<forall>i < length ps. \<forall>j < length ps. i \<noteq> j \<longrightarrow>
        lockerCon (snd (ps ! i)) = None \<or> lockerCon (snd (ps ! i)) \<noteq> lockerCon (snd (ps ! j)))"


lemmas pg_lawsD =
  pg_laws_def [THEN iffD1, THEN conjunct1, rule_format]
  pg_laws_def [THEN iffD1, THEN conjunct2, THEN conjunct1, rule_format]
  pg_laws_def [THEN iffD1, THEN conjunct2, THEN conjunct2, THEN conjunct1, rule_format]
  pg_laws_def [THEN iffD1, THEN conjunct2, THEN conjunct2, THEN conjunct2, THEN conjunct1, rule_format]
  pg_laws_def [THEN iffD1, THEN conjunct2, THEN conjunct2, THEN conjunct2, THEN conjunct2, THEN conjunct1, rule_format]
  pg_laws_def [THEN iffD1, THEN conjunct2, THEN conjunct2, THEN conjunct2, THEN conjunct2, THEN conjunct2, THEN conjunct1, rule_format]
  pg_laws_def [THEN iffD1, THEN conjunct2, THEN conjunct2, THEN conjunct2, THEN conjunct2, THEN conjunct2, THEN conjunct2, THEN conjunct1, rule_format]
  pg_laws_def [THEN iffD1, THEN conjunct2, THEN conjunct2, THEN conjunct2, THEN conjunct2, THEN conjunct2, THEN conjunct2, THEN conjunct2, THEN conjunct1, rule_format]
  pg_laws_def [THEN iffD1, THEN conjunct2, THEN conjunct2, THEN conjunct2, THEN conjunct2, THEN conjunct2, THEN conjunct2, THEN conjunct2, THEN conjunct2, THEN conjunct1, rule_format]
  pg_laws_def [THEN iffD1, THEN conjunct2, THEN conjunct2, THEN conjunct2, THEN conjunct2, THEN conjunct2, THEN conjunct2, THEN conjunct2, THEN conjunct2, THEN conjunct2, THEN conjunct1, rule_format]
  pg_laws_def [THEN iffD1, THEN conjunct2, THEN conjunct2, THEN conjunct2, THEN conjunct2, THEN conjunct2, THEN conjunct2, THEN conjunct2, THEN conjunct2, THEN conjunct2, THEN conjunct2, THEN conjunct1, rule_format]
  pg_laws_def [THEN iffD1, THEN conjunct2, THEN conjunct2, THEN conjunct2, THEN conjunct2, THEN conjunct2, THEN conjunct2, THEN conjunct2, THEN conjunct2, THEN conjunct2, THEN conjunct2, THEN conjunct2, rule_format]

text \<open>
  What a step of a process with the locker \<open>l\<close> may do to the database: it leaves the sessions of others
  alone, and adds a key only while it holds the lock and there is none.
\<close>

definition harmless :: "Locker \<Rightarrow> pg_view \<Rightarrow> pg_view \<Rightarrow> bool" where
  "harmless l v v' \<longleftrightarrow>
     (\<forall>c. Some c \<noteq> lockerCon l \<and> c \<in> v_open v \<longrightarrow> c \<in> v_open v' \<and>
        (v_holder v securityLockIndex = Some c \<longrightarrow> v_holder v' securityLockIndex = Some c)) \<and>
     (v_rows v' = v_rows v \<or> v_rows v = [] \<and> lockerCon l \<noteq> None \<and> v_holder v securityLockIndex = lockerCon l)"

lemma harmless_refl: "harmless l v v"
  by (simp add: harmless_def)

lemma harmless_others:
  assumes "process_ok decipher v (pc, l2)" "harmless l v v'" "lockerCon l2 = None \<or> lockerCon l2 \<noteq> lockerCon l"
  shows "process_ok decipher v' (pc, l2)"
  using assms by (cases pc) (auto simp: process_ok_def harmless_def)

lemma Lock_view:
  assumes laws: "pg_laws pg view" and run: "Lock pg l w = Some (r, l', w')" and l: "lockerCon l = None"
  shows "AdvisoryIndex l' = AdvisoryIndex l \<and>
    (case r of Some _ \<Rightarrow> lockerCon l' = None \<and> view w' = view w
     | None \<Rightarrow> \<exists>c. isLocked l' \<and> lockerCon l' = Some c \<and> c \<notin> v_open (view w) \<and> v_holder (view w) (AdvisoryIndex l) \<in> {None, Some c} \<and>
        view w' = (view w)\<lparr>v_open := insert c (v_open (view w)), v_holder := (v_holder (view w))(AdvisoryIndex l := Some c)\<rparr>)"
proof (cases "isLocked l")
  case False
  obtain rc w1 where conn: "pg_Conn pg w = (rc, w1)" by fastforce
  show ?thesis
  proof (cases rc)
    case (Inl err)
    with False run conn l show ?thesis by (auto simp: Lock_def pg_lawsD(1) [OF laws])
  next
    case (Inr c)
    note c = pg_lawsD(2) [OF laws conn [unfolded Inr]]
    from False run conn l Inr obtain r2 w2 where lock: "pg_advisory_lock pg (AdvisoryIndex l) c w1 = Some (r2, w2)"
      by (auto simp: Lock_def Let_def split: option.splits)
    show ?thesis
    proof (cases r2)
      case None
      from False run conn l Inr lock c pg_lawsD(4) [OF laws lock [unfolded None]] None show ?thesis
        by (auto simp: Lock_def Let_def)
    next
      case (Some err)
      from False run conn l Inr lock c pg_lawsD(3) [OF laws lock [unfolded Some]] Some pg_lawsD(6) [OF laws, of c w2] show ?thesis
        by (auto simp: Lock_def release_def Let_def)
    qed
  qed
qed (use assms in \<open>auto simp: Lock_def\<close>)

lemma Unlock_view:
  assumes laws: "pg_laws pg view" and run: "Unlock pg l w = (r, l', w')" and l: "isLocked l" "lockerCon l = Some c"
  shows "AdvisoryIndex l' = AdvisoryIndex l \<and> lockerCon l' = None \<and> v_rows (view w') = v_rows (view w) \<and>
    v_open (view w') = v_open (view w) - {c} \<and>
    (\<forall>d i. d \<noteq> c \<longrightarrow> v_holder (view w) i = Some d \<longrightarrow> v_holder (view w') i = Some d)"
proof -
  obtain r2 w2 where un: "pg_advisory_unlock pg (AdvisoryIndex l) c w = (r2, w2)" by fastforce
  have w': "w' = pg_Close pg c w2" "AdvisoryIndex l' = AdvisoryIndex l \<and> lockerCon l' = None"
    using run l un by (auto simp: Unlock_def release_def split: sum.splits if_splits)
  from pg_lawsD(5) [OF laws un] pg_lawsD(6) [OF laws, of c w2] w' show ?thesis by auto
qed

lemma create_key_view:
  assumes laws: "pg_laws pg view" "layer_one_laws e layerOne view decipher" and run: "create_key pg e layerOne w = (r, w')"
  shows "(\<exists>s k. r = Inr k \<and> k \<noteq> '''' \<and> decipher s = Inr k \<and> view w' = (view w)\<lparr>v_rows := v_rows (view w) @ [s]\<rparr>) \<or>
    (\<exists>err. r = Inl err) \<and> view w' = view w"
proof -
  obtain r1 w1 where rand: "rand_Read pg w = (r1, w1)" by fastforce
  note v1 = pg_lawsD(12) [OF laws(1) rand]
  show ?thesis
  proof (cases r1)
    case (Inl err)
    with run rand v1 show ?thesis by (auto simp: create_key_def)
  next
    case (Inr k)
    obtain r2 w2 where encr: "e_Encrypt e layerOne k w1 = (r2, w2)" by fastforce
    have v2: "view w2 = view w1 \<and> (\<forall>c. r2 = Inr c \<longrightarrow> decipher c = Inr k)" using laws(2) encr by (auto simp: layer_one_laws_def)
    show ?thesis
    proof (cases r2)
      case (Inl err)
      with run rand v1 v2 Inr encr show ?thesis by (auto simp: create_key_def SetEncryptionKey_def)
    next
      case (Inr s)
      obtain r3 w3 where ins: "safe_Insert pg s w2 = (r3, w3)" by fastforce
      with run rand v1 v2 \<open>r1 = Inr k\<close> Inr encr pg_lawsD(10,11) [OF laws(1)] show ?thesis
        by (cases r3) (auto simp: create_key_def SetEncryptionKey_def)
    qed
  qed
qed

lemma decorator_step_ok:
  assumes laws: "pg_laws pg view" "layer_one_laws e layerOne view decipher" and one: "one_key decipher (v_rows (view w))"
    and ok: "process_ok decipher (view w) (pc, l)" and run: "decorator_step pg e layerOne (pc, l, w) = Some (pc', l', w')"
  shows "process_ok decipher (view w') (pc', l') \<and> one_key decipher (v_rows (view w')) \<and> harmless l (view w) (view w') \<and>
    (lockerCon l' = None \<or> lockerCon l' = lockerCon l \<or> (\<exists>c. lockerCon l' = Some c \<and> c \<notin> v_open (view w)))"
proof (cases pc)
  case AtLock
  with ok have l: "lockerCon l = None" "AdvisoryIndex l = securityLockIndex" by (auto simp: process_ok_def)
  from AtLock run obtain r where lock: "Lock pg l w = Some (r, l', w')" and pc': "pc' = (case r of Some err \<Rightarrow> Returned (Inl err) | None \<Rightarrow> AtGet)"
    by (auto simp: decorator_step_def)
  from Lock_view [OF laws(1) lock l(1)] l(2) one pc' show ?thesis
    by (cases r) (auto simp: process_ok_def harmless_def)
next
  case AtGet
  obtain r w1 where get: "GetEncryptionKey pg layerOne (e_Decrypt e) w = (r, w1)" by fastforce
  with AtGet run have st: "pc' = (if r = Inr '''' then AtCreate else AtUnlock r)" "l' = l" "w' = w1" by (auto simp: decorator_step_def)
  have "w1 = w" and r: "\<forall>k. r = Inr k \<longrightarrow> (k = '''' \<and> v_rows (view w) = [] \<or> (\<exists>s \<in> set (v_rows (view w)). decipher s = Inr k))"
    using get laws(2) pg_lawsD(8,9) [OF laws(1), of w]
    by (auto simp: GetEncryptionKey_def layer_one_laws_def split: sum.splits if_splits)
  with st ok one AtGet harmless_refl show ?thesis
    by (auto simp: process_ok_def one_key_def)
next
  case AtCreate
  obtain r w1 where "create_key pg e layerOne w = (r, w1)" by fastforce
  with AtCreate run have cr: "create_key pg e layerOne w = (r, w')" and st: "pc' = AtUnlock r" "l' = l" by (auto simp: decorator_step_def)
  from create_key_view [OF laws cr] ok one AtCreate st show ?thesis
    by (auto simp: process_ok_def one_key_def harmless_def)
next
  case (AtUnlock r)
  then obtain c where l: "isLocked l" "lockerCon l = Some c" "AdvisoryIndex l = securityLockIndex" using ok by (auto simp: process_ok_def)
  obtain err l1 w1 where "Unlock pg l w = (err, l1, w1)" by (metis prod_cases3)
  with AtUnlock run have un: "Unlock pg l w = (err, l', w')" and st: "pc' = Returned r" by (auto simp: decorator_step_def)
  from Unlock_view [OF laws(1) un l(1,2)] ok one AtUnlock st l show ?thesis
    by (auto simp: process_ok_def harmless_def)
next
  case (Returned r)
  with run show ?thesis by (simp add: decorator_step_def)
qed


lemma key_inv_update:
  assumes inv: "key_inv decipher v ps" and i: "i < length ps" "ps ! i = (pc, l)"
    and new: "process_ok decipher v' (pc', l')" "one_key decipher (v_rows v')" "harmless l v v'"
    and con: "lockerCon l' = None \<or> lockerCon l' = lockerCon l \<or> (\<exists>c. lockerCon l' = Some c \<and> c \<notin> v_open v)"
  shows "key_inv decipher v' (ps[i := (pc', l')])"
proof -
  have other: "process_ok decipher v (ps ! j)" "lockerCon (snd (ps ! j)) = None \<or> lockerCon (snd (ps ! j)) \<noteq> lockerCon l"
    if "j < length ps" "j \<noteq> i" for j
  proof -
    show "process_ok decipher v (ps ! j)" using inv nth_mem [OF that(1)] by (simp add: key_inv_def)
    have "lockerCon (snd (ps ! j)) = None \<or> lockerCon (snd (ps ! j)) \<noteq> lockerCon (snd (ps ! i))"
      using inv that i(1) unfolding key_inv_def by blast
    with i(2) show "lockerCon (snd (ps ! j)) = None \<or> lockerCon (snd (ps ! j)) \<noteq> lockerCon l" by simp
  qed
  have "process_ok decipher v' (ps[i := (pc', l')] ! j)" if j: "j < length ps" for j
  proof (cases "j = i")
    case False
    obtain pc2 l2 where j2: "ps ! j = (pc2, l2)" by fastforce
    with harmless_others [OF _ new(3), of decipher pc2 l2] other [OF j False] False show ?thesis by simp
  qed (use new(1) i in simp)
  moreover have fresh: "lockerCon (snd (ps ! j)) = None \<or> lockerCon (snd (ps ! j)) \<noteq> lockerCon l'" if "j < length ps" "j \<noteq> i" for j
    using other [OF that] con by (cases "ps ! j") (auto simp: process_ok_def)
  moreover have "lockerCon (snd (ps[i := (pc', l')] ! a)) = None \<or>
      lockerCon (snd (ps[i := (pc', l')] ! a)) \<noteq> lockerCon (snd (ps[i := (pc', l')] ! b))"
    if ab: "a < length ps" "b < length ps" "a \<noteq> b" for a b
  proof (cases "a = i \<or> b = i")
    case True
    with fresh [OF ab(1)] fresh [OF ab(2)] ab i(1) show ?thesis by (auto simp: nth_list_update)
  next
    case False
    then show ?thesis using inv ab unfolding key_inv_def by simp
  qed
  ultimately show ?thesis
    using new(2) unfolding key_inv_def all_set_conv_all_nth by simp
qed

lemma key_inv_step:
  assumes laws: "pg_laws pg view" "layer_one_laws e layerOne view decipher"
    and inv: "key_inv decipher (view (world s)) (processes s)" and st: "key_step pg e layerOne s s'"
  shows "key_inv decipher (view (world s')) (processes s')"
  using st
proof cases
  case start
  with inv show ?thesis
    by (auto simp: key_inv_def nth_append process_ok_def EncryptingLocker_def)
next
  case (step i pc l pc' l' w')
  have "process_ok decipher (view (world s)) (pc, l)" "one_key decipher (v_rows (view (world s)))"
    using inv step(2,3) by (auto simp: key_inv_def all_set_conv_all_nth)
  with decorator_step_ok [OF laws _ _ step(4)] key_inv_update [OF inv step(2,3)] step(1) show ?thesis by simp
next
  case (crash i pc l c err)
  have "process_ok decipher (view (world s)) (pc, l)" "one_key decipher (v_rows (view (world s)))"
    using inv crash(2,3) by (auto simp: key_inv_def all_set_conv_all_nth)
  then have "process_ok decipher (view (pg_Disconnect pg c (world s))) (Returned (Inl err), l\<lparr>lockerCon := None\<rparr>)"
    "one_key decipher (v_rows (view (pg_Disconnect pg c (world s))))" "harmless l (view (world s)) (view (pg_Disconnect pg c (world s)))"
    using crash(4) pg_lawsD(7) [OF laws(1), of c "world s"] by (auto simp: process_ok_def harmless_def)
  with key_inv_update [OF inv crash(2,3)] crash(1) show ?thesis by simp
qed

text \<open>
  C5.  All processes use the same encryption key.  Any number of service manager processes start, run
  the decorator against one database and crash, interleaved in any way; the table of the key is empty
  or holds one usable key at first.  Then at any time at most one process is between the calls of
  \<open>Lock\<close> and \<open>Unlock\<close>, the table holds at most one row, and every process whose decorator succeeded has
  the key of that row.
\<close>

theorem processes_agree_on_key:
  assumes "pg_laws pg view" "layer_one_laws e layerOne view decipher"
    and "one_key decipher (v_rows (view w))" and "key_run pg e layerOne \<lparr>processes = [], world = w\<rparr> s"
  shows "length (v_rows (view (world s))) \<le> 1 \<and>
    (\<forall>l k. (Returned (Inr k), l) \<in> set (processes s) \<longrightarrow>
      (\<exists>row. v_rows (view (world s)) = [row] \<and> e_Decrypt e layerOne row (world s) = (Inr k, world s))) \<and>
    (\<forall>i < length (processes s). \<forall>j < length (processes s).
      \<not> (case fst (processes s ! i) of AtLock \<Rightarrow> True | Returned _ \<Rightarrow> True | _ \<Rightarrow> False) \<and>
      \<not> (case fst (processes s ! j) of AtLock \<Rightarrow> True | Returned _ \<Rightarrow> True | _ \<Rightarrow> False) \<longrightarrow> i = j)"
proof -
  have "key_inv decipher (view (world s)) (processes s)"
    using assms(4)
  proof (induction "\<lparr>processes = [] :: (decorator_pc \<times> Locker) list, world = w\<rparr>" s rule: key_run.induct)
    case key_run_refl
    with assms(3) show ?case by (simp add: key_inv_def)
  next
    case (key_run_step s' s'')
    then show ?case using key_inv_step [OF assms(1,2)] by blast
  qed
  then have one: "one_key decipher (v_rows (view (world s)))"
    and ok: "\<And>p. p \<in> set (processes s) \<Longrightarrow> process_ok decipher (view (world s)) p"
    and dist: "\<And>i j. i < length (processes s) \<Longrightarrow> j < length (processes s) \<Longrightarrow> i \<noteq> j \<Longrightarrow>
      lockerCon (snd (processes s ! i)) = None \<or> lockerCon (snd (processes s ! i)) \<noteq> lockerCon (snd (processes s ! j))"
    by (auto simp: key_inv_def)
  have key: "\<exists>row. v_rows (view (world s)) = [row] \<and> e_Decrypt e layerOne row (world s) = (Inr k, world s)"
    if "(Returned (Inr k), l) \<in> set (processes s)" for k l
    using ok [OF that] assms(2) by (auto simp: process_ok_def layer_one_laws_def)
  have held: "lockerCon (snd (processes s ! i)) = v_holder (view (world s)) securityLockIndex \<and> lockerCon (snd (processes s ! i)) \<noteq> None"
    if "i < length (processes s)" "\<not> (case fst (processes s ! i) of AtLock \<Rightarrow> True | Returned _ \<Rightarrow> True | _ \<Rightarrow> False)" for i
    using ok [OF nth_mem [OF that(1)]] that(2) by (auto simp: process_ok_def split: prod.splits decorator_pc.splits)
  have "i = j" if "i < length (processes s)" "j < length (processes s)"
      "\<not> (case fst (processes s ! i) of AtLock \<Rightarrow> True | Returned _ \<Rightarrow> True | _ \<Rightarrow> False)"
      "\<not> (case fst (processes s ! j) of AtLock \<Rightarrow> True | Returned _ \<Rightarrow> True | _ \<Rightarrow> False)" for i j
    using dist [OF that(1,2)] held [OF that(1,3)] held [OF that(2,4)] by metis
  with one key show ?thesis by (auto simp: one_key_def)
qed


text \<open>A database, an encrypter and a run that meet these assumptions.\<close>

record example_world =
  ew_holder :: "int \<Rightarrow> nat option"
  ew_open :: "nat list"
  ew_rows :: "string list"

definition example_view :: "example_world \<Rightarrow> pg_view" where
  "example_view w = \<lparr>v_holder = ew_holder w, v_open = set (ew_open w), v_rows = ew_rows w\<rparr>"

definition example_pg :: "example_world pg_lib" where
  "example_pg = \<lparr>
     pg_Conn = (\<lambda>w. let c = Suc (sum_list (ew_open w)) in (Inr c, w\<lparr>ew_open := c # ew_open w\<rparr>)),
     pg_advisory_lock = (\<lambda>i c w. if ew_holder w i \<in> {None, Some c} then Some (None, w\<lparr>ew_holder := (ew_holder w)(i := Some c)\<rparr>) else None),
     pg_try_advisory_lock = (\<lambda>i c w. if ew_holder w i \<in> {None, Some c}
       then (Inr [Inr True], w\<lparr>ew_holder := (ew_holder w)(i := Some c)\<rparr>) else (Inr [Inr False], w)),
     pg_advisory_unlock = (\<lambda>i c w. if ew_holder w i = Some c
       then (Inr [Inr True], w\<lparr>ew_holder := (ew_holder w)(i := None)\<rparr>) else (Inr [Inr False], w)),
     pg_Close = (\<lambda>c w. w\<lparr>ew_open := removeAll c (ew_open w)\<rparr>),
     pg_Disconnect = (\<lambda>c w. w\<lparr>ew_open := removeAll c (ew_open w),
       ew_holder := (\<lambda>i. if ew_holder w i = Some c then None else ew_holder w i)\<rparr>),
     safe_Get = (\<lambda>w. case ew_rows w of [] \<Rightarrow> Inl sql_ErrNoRows | s # _ \<Rightarrow> Inr s),
     safe_Insert = (\<lambda>s w. (None, w\<lparr>ew_rows := ew_rows w @ [s]\<rparr>)),
     rand_Read = (\<lambda>w. (Inr ''k'', w))\<rparr>"

definition example_encrypter :: "example_world encrypter" where
  "example_encrypter = \<lparr>e_Encrypt = (\<lambda>k p w. (Inr (k @ p), w)), e_Decrypt = (\<lambda>k c w. (Inr (drop (length k) c), w))\<rparr>"

definition example_start :: example_world where
  "example_start = \<lparr>ew_holder = (\<lambda>_. None), ew_open = [], ew_rows = []\<rparr>"

lemma example_pg_laws: "pg_laws example_pg example_view"
proof -
  have "Suc (sum_list cs) \<notin> set cs" for cs :: "nat list" using member_le_sum_list [of _ cs] by force
  then show ?thesis
    by (auto simp: pg_laws_def example_pg_def example_view_def Let_def split: if_splits list.splits)
qed

lemma example_layer_one:
  "layer_one_laws example_encrypter ''x'' example_view (\<lambda>c. Inr (drop 1 c))"
  by (auto simp: layer_one_laws_def example_encrypter_def)

lemma key_run_steps:
  assumes "decorator_steps n pg e layerOne (pc, l, w) = (pc', l', w')" "key_run pg e layerOne s \<lparr>processes = [(pc, l)], world = w\<rparr>"
  shows "key_run pg e layerOne s \<lparr>processes = [(pc', l')], world = w'\<rparr>"
  using assms
proof (induction n arbitrary: pc l w)
  case (Suc n)
  show ?case
  proof (cases "decorator_step pg e layerOne (pc, l, w)")
    case None
    with Suc.prems show ?thesis by simp
  next
    case (Some x)
    obtain pc1 l1 w1 where x: "x = (pc1, l1, w1)" by (cases x)
    have "key_step pg e layerOne \<lparr>processes = [(pc, l)], world = w\<rparr> \<lparr>processes = [(pc1, l1)], world = w1\<rparr>"
      using key_step.step [of 0 "\<lparr>processes = [(pc, l)], world = w\<rparr>" pc l pg e layerOne pc1 l1 w1] Some x by simp
    with Suc.prems Some x Suc.IH [of pc1 l1 w1] key_run_step [OF Suc.prems(2)] show ?thesis by simp
  qed
qed simp

theorem processes_agree_on_key_witness:
  "\<exists>s l. key_run example_pg example_encrypter ''x'' \<lparr>processes = [], world = example_start\<rparr> s \<and>
    processes s = [(Returned (Inr ''k''), l)] \<and> v_rows (example_view (world s)) = [''xk'']"
proof -
  let ?s0 = "\<lparr>processes = [] :: (decorator_pc \<times> Locker) list, world = example_start\<rparr>"
  let ?run = "key_run example_pg example_encrypter ''x'' ?s0"
  obtain l w where key: "decorator_key example_pg example_encrypter ''x'' EncryptingLocker example_start = Some (Inr ''k'', l, w)"
      "ew_rows w = [''xk'']"
    by (simp add: decorator_key_def Lock_def Unlock_def release_def GetEncryptionKey_def create_key_def SetEncryptionKey_def
        example_pg_def example_encrypter_def example_start_def EncryptingLocker_def)
  have "?run \<lparr>processes = [(AtLock, EncryptingLocker)], world = example_start\<rparr>"
    using key_run_step [OF key_run_refl start, of example_pg example_encrypter "''x''" ?s0] by simp
  then have run: "?run \<lparr>processes = [(Returned (Inr ''k''), l)], world = w\<rparr>"
    by (rule key_run_steps [OF decorator_steps_key [OF key(1)]])
  moreover have "length (v_rows (example_view w)) \<le> 1"
    using processes_agree_on_key [OF example_pg_laws example_layer_one _ run]
    by (simp add: one_key_def example_view_def example_start_def)
  ultimately show ?thesis using key(2) by (intro exI [of _ "\<lparr>processes = [(Returned (Inr ''k''), l)], world = w\<rparr>"]) (auto simp: example_view_def)
qed

text \<open>
  C38.  An unlock that succeeds leaves the locker as new.  One that fails (the query, the row or the
  answer) leaves it locked without a connection for ever: whatever the database does later, \<open>Lock\<close> and
  \<open>TryLock\<close> return an error, \<open>Unlock\<close> reports success, and none of them changes anything.
\<close>

theorem Unlock_frees_or_wedges:
  assumes "isLocked l" "lockerCon l = Some c" "Unlock pg l w = (r, l', w')"
  shows "(r = None \<longrightarrow> l' = l\<lparr>isLocked := False, lockerCon := None\<rparr>) \<and>
    (r \<noteq> None \<longrightarrow> (\<forall>v. (\<exists>err. Lock pg l' v = Some (Some err, l', v)) \<and> (\<exists>err. TryLock pg l' v = (Some err, l', v)) \<and>
      Unlock pg l' v = (None, l', v)))"
proof -
  have "(r = None \<longrightarrow> l' = l\<lparr>isLocked := False, lockerCon := None\<rparr>) \<and> (r \<noteq> None \<longrightarrow> l' = l\<lparr>lockerCon := None\<rparr>)"
    using assms by (auto simp: Unlock_def release_def split: prod.splits sum.splits if_splits)
  with assms(1) show ?thesis by (auto simp: Lock_def TryLock_def Unlock_def)
qed

theorem Unlock_frees_or_wedges_witness:
  "\<exists>err. Lock example_pg \<lparr>isLocked = True, AdvisoryIndex = 1, lockerCon = None\<rparr> example_start =
    Some (Some err, \<lparr>isLocked = True, AdvisoryIndex = 1, lockerCon = None\<rparr>, example_start)"
  using Unlock_frees_or_wedges [of "\<lparr>isLocked = True, AdvisoryIndex = 1, lockerCon = Some 7\<rparr>" 7 example_pg example_start
      "Some ErrUnlockAcquisition" "\<lparr>isLocked = True, AdvisoryIndex = 1, lockerCon = None\<rparr>"]
  by (simp add: Unlock_def release_def example_pg_def example_start_def)

end
