(* ===== verification/NotificationQueue.thy ===== *)
theory NotificationQueue
  imports Objects
begin

text \<open>
  The queue between the notificator and one consumer (\<open>src/storage/notification_queue.go\<close>) on top
  of Go's buffered channels: a send may block or panic, and closing a closed channel panics.  The
  locale \<open>bounded_queue\<close> is the contract the notificator relies on; its laws say that neither ever
  happens to a queue.
\<close>

subsection \<open>Buffered channels\<close>

record 'a chan =
  ch_cap :: nat
  ch_buf :: "'a list"
  ch_closed :: bool

datatype 'a chan_result = Done 'a | Blocks | Panics

definition chan_make :: "nat \<Rightarrow> 'a chan" where
  "chan_make c = \<lparr>ch_cap = c, ch_buf = [], ch_closed = False\<rparr>"

definition chan_send :: "'a \<Rightarrow> 'a chan \<Rightarrow> 'a chan chan_result" where
  "chan_send x c =
     (if ch_closed c then Panics
      else if ch_cap c \<le> length (ch_buf c) then Blocks
      else Done (c\<lparr>ch_buf := ch_buf c @ [x]\<rparr>))"

definition chan_close :: "'a chan \<Rightarrow> 'a chan chan_result" where
  "chan_close c = (if ch_closed c then Panics else Done (c\<lparr>ch_closed := True\<rparr>))"

text \<open>
  A receive: a value, the zero value of a closed and empty channel (\<open>None\<close>), or blocking, for
  which a \<open>select\<close> takes its \<open>default\<close>.
\<close>

definition chan_recv :: "'a chan \<Rightarrow> ('a option \<times> 'a chan) chan_result" where
  "chan_recv c =
     (case ch_buf c of
        x # xs \<Rightarrow> Done (Some x, c\<lparr>ch_buf := xs\<rparr>)
      | [] \<Rightarrow> if ch_closed c then Done (None, c) else Blocks)"

subsection \<open>The queue\<close>

record 'n notificationQueue =
  isClosed :: bool
  q_size :: nat
  notificationsChannel :: "'n chan"
  q_id :: string

definition ErrQueueClosed :: error where
  "ErrQueueClosed = ErrorString ''queue closed''"

definition ErrQueueFull :: error where
  "ErrQueueFull = ErrorString ''queue is full''"

text \<open>The argument is what \<open>uuid.NewV4\<close> returned.\<close>

definition NewNotificationQueue :: "(error, string) result \<Rightarrow> nat \<Rightarrow> (error, 'n notificationQueue) result" where
  "NewNotificationQueue uuid sz =
     (case uuid of
        Inl err \<Rightarrow> Inl (ErrorString (''could not generate uuid '' @ error_text err))
      | Inr u \<Rightarrow> Inr \<lparr>isClosed = False, q_size = sz, notificationsChannel = chan_make sz, q_id = u\<rparr>)"

definition Enqueue :: "'n \<Rightarrow> 'n notificationQueue \<Rightarrow> (error, 'n notificationQueue) result chan_result" where
  "Enqueue notification nq =
     (if isClosed nq then Done (Inl ErrQueueClosed)
      else if length (ch_buf (notificationsChannel nq)) \<ge> q_size nq then Done (Inl ErrQueueFull)
      else case chan_send notification (notificationsChannel nq) of
          Done c \<Rightarrow> Done (Inr (nq\<lparr>notificationsChannel := c\<rparr>))
        | Blocks \<Rightarrow> Blocks
        | Panics \<Rightarrow> Panics)"

definition Close :: "'n notificationQueue \<Rightarrow> 'n notificationQueue chan_result" where
  "Close nq =
     (if isClosed nq then Done nq
      else case chan_close (notificationsChannel nq) of
          Done c \<Rightarrow> Done (nq\<lparr>isClosed := True, notificationsChannel := c\<rparr>)
        | Blocks \<Rightarrow> Blocks
        | Panics \<Rightarrow> Panics)"

text \<open>A receive by whoever holds the queue's channel.\<close>

definition Receive :: "'n notificationQueue \<Rightarrow> ('n option \<times> 'n notificationQueue) chan_result" where
  "Receive nq =
     (case chan_recv (notificationsChannel nq) of
        Done (x, c) \<Rightarrow> Done (x, nq\<lparr>notificationsChannel := c\<rparr>)
      | Blocks \<Rightarrow> Blocks
      | Panics \<Rightarrow> Panics)"

subsection \<open>The contract\<close>

locale bounded_queue =
  fixes enq :: "'n \<Rightarrow> 'q \<Rightarrow> (error, 'q) result chan_result"
    and shut :: "'q \<Rightarrow> 'q chan_result"
    and recv :: "'q \<Rightarrow> ('n option \<times> 'q) chan_result"
    and buffer :: "'q \<Rightarrow> 'n list" and capacity :: "'q \<Rightarrow> nat" and closed :: "'q \<Rightarrow> bool"
    and name :: "'q \<Rightarrow> string" and good :: "'q \<Rightarrow> bool"
  assumes enq_closed: "good q \<Longrightarrow> closed q \<Longrightarrow> enq n q = Done (Inl ErrQueueClosed)"
    and enq_full: "good q \<Longrightarrow> \<not> closed q \<Longrightarrow> length (buffer q) = capacity q \<Longrightarrow> enq n q = Done (Inl ErrQueueFull)"
    and enq_room: "good q \<Longrightarrow> \<not> closed q \<Longrightarrow> length (buffer q) < capacity q \<Longrightarrow>
      \<exists>q'. enq n q = Done (Inr q') \<and> buffer q' = buffer q @ [n] \<and> capacity q' = capacity q \<and>
        \<not> closed q' \<and> name q' = name q \<and> good q'"
    and shut_closes: "good q \<Longrightarrow>
      \<exists>q'. shut q = Done q' \<and> buffer q' = buffer q \<and> capacity q' = capacity q \<and> closed q' \<and>
        name q' = name q \<and> good q'"
    and recv_some: "good q \<Longrightarrow> buffer q = n # ns \<Longrightarrow>
      \<exists>q'. recv q = Done (Some n, q') \<and> buffer q' = ns \<and> capacity q' = capacity q \<and>
        closed q' = closed q \<and> name q' = name q \<and> good q'"
    and recv_closed: "good q \<Longrightarrow> buffer q = [] \<Longrightarrow> closed q \<Longrightarrow> recv q = Done (None, q)"
    and recv_open: "good q \<Longrightarrow> buffer q = [] \<Longrightarrow> \<not> closed q \<Longrightarrow> recv q = Blocks"
    and bounded: "good q \<Longrightarrow> length (buffer q) \<le> capacity q"
begin

lemma enq_done: "good q \<Longrightarrow> \<exists>r. enq n q = Done r \<and> (\<forall>q'. r = Inr q' \<longrightarrow> good q' \<and> name q' = name q)"
proof -
  assume g: "good q"
  consider "closed q" | "\<not> closed q" "length (buffer q) = capacity q" | "\<not> closed q" "length (buffer q) < capacity q"
    using bounded [OF g] by linarith
  then show ?thesis
    using enq_closed [OF g] enq_full [OF g] enq_room [OF g] by cases (metis Inl_Inr_False, metis Inl_Inr_False, fastforce)
qed

lemma enq_Inr_iff:
  assumes g: "good q"
  shows "(\<exists>q'. enq n q = Done (Inr q')) \<longleftrightarrow> \<not> closed q \<and> length (buffer q) < capacity q"
  using enq_closed [OF g, of n] enq_full [OF g, of n] enq_room [OF g, of n] bounded [OF g]
  by (cases "closed q"; cases "length (buffer q) = capacity q") (auto simp: le_less)

end

definition queue_ok :: "'n notificationQueue \<Rightarrow> bool" where
  "queue_ok q \<longleftrightarrow> ch_cap (notificationsChannel q) = q_size q \<and> ch_closed (notificationsChannel q) = isClosed q \<and>
     length (ch_buf (notificationsChannel q)) \<le> q_size q"

abbreviation queued :: "'n notificationQueue \<Rightarrow> 'n list" where
  "queued q \<equiv> ch_buf (notificationsChannel q)"

interpretation nq: bounded_queue Enqueue Close Receive queued q_size isClosed q_id queue_ok
  by unfold_locales
    (auto simp: queue_ok_def Enqueue_def Close_def Receive_def chan_send_def chan_close_def chan_recv_def)

lemma NewNotificationQueue_ok:
  "NewNotificationQueue uuid sz = Inr q \<Longrightarrow>
    queue_ok q \<and> queued q = [] \<and> q_size q = sz \<and> \<not> isClosed q \<and> uuid = Inr (q_id q)"
  by (auto simp: NewNotificationQueue_def queue_ok_def chan_make_def split: sum.splits)

end
