(* ===== verification/Notificator.thy ===== *)
theory Notificator
  imports NotificationQueue ResourceTypes
begin

text \<open>
  The notificator of the storage (\<open>src/storage/postgres/notificator.go\<close>) and the queries it makes
  (\<open>src/storage/postgres/notification_storage.go\<close>).

  Queues are shared between the notificator and its consumers, so they live in a heap and the
  notificator holds their addresses.  The map of queues by platform is the list of its entries, in
  the order in which \<open>range\<close> visits them.  Each critical section (of \<open>connectionMutex\<close> or
  \<open>consumersMutex\<close>) is one function on the state; \<open>RegisterConsumer\<close>, which has several, takes what
  other goroutines do in between as an argument.  \<open>goroutine\<close> is the goroutine that processes
  notifications: none, or one with a flag saying that its context was cancelled; \<open>stopProcessing\<close>
  cancels that context.  Database and connection are parameters that read and change the world \<open>'w\<close>.
\<close>

subsection \<open>The notification storage\<close>

type_synonym ('w, 'a) query = "'w \<Rightarrow> (error, 'a) result"

record 'w notification_db =
  SelectLastRevision :: "('w, int list) query"
  db_Get :: "Criterion list \<Rightarrow> ('w, Notification) query"
  db_List :: "Criterion list \<Rightarrow> ('w, Notification list) query"

definition GetLastRevision :: "'w notification_db \<Rightarrow> ('w, int) query" where
  "GetLastRevision db w =
     (case SelectLastRevision db w of
        Inl err \<Rightarrow> Inl (ErrorString (''could not get last notification revision from db '' @ error_text err))
      | Inr result \<Rightarrow> (case result of [] \<Rightarrow> Inr InvalidRevision | r # _ \<Rightarrow> Inr r))"

definition GetNotification :: "'w notification_db \<Rightarrow> string \<Rightarrow> ('w, Notification) query" where
  "GetNotification db i = db_Get db [ByField EqualsOperator ''id'' [i]]"

definition notifications_between :: "string \<Rightarrow> int \<Rightarrow> int \<Rightarrow> Criterion list" where
  "notifications_between platformID from_rev to_rev =
     [OrderResultBy ''revision'' AscOrder,
      ByField GreaterThanOperator ''revision'' [strconv_Itoa from_rev],
      ByField LessThanOrEqualOperator ''revision'' [strconv_Itoa to_rev],
      ByField EqualsOrNilOperator ''platform_id'' [platformID]]"

definition ListNotifications :: "'w notification_db \<Rightarrow> string \<Rightarrow> int \<Rightarrow> int \<Rightarrow> ('w, Notification list) query" where
  "ListNotifications db platformID from_rev to_rev = db_List db (notifications_between platformID from_rev to_rev)"

definition GetNotificationByRevision :: "'w notification_db \<Rightarrow> int \<Rightarrow> ('w, Notification) query" where
  "GetNotificationByRevision db revision w =
     (case db_List db [ByField EqualsOperator ''revision'' [strconv_Itoa revision]] w of
        Inl err \<Rightarrow> Inl err
      | Inr objectList \<Rightarrow>
          (case objectList of
             [] \<Rightarrow> Inl ErrNotFoundInStorage
           | [n] \<Rightarrow> Inr n
           | _ \<Rightarrow> Inl (ErrorString (''expected one notification with revision '' @ strconv_Itoa revision
                  @ '' got '' @ strconv_Itoa (int (length objectList))))))"

subsection \<open>Consumers\<close>

type_synonym queue = "Notification notificationQueue"
type_synonym queue_heap = "queue list"

record consumers =
  queues :: "(string \<times> nat list) list"
  platforms :: "Platform list"

definition queues_of :: "string \<Rightarrow> consumers \<Rightarrow> nat list" where
  "queues_of p c = (case map_of (queues c) p of None \<Rightarrow> [] | Some qs \<Rightarrow> qs)"

abbreviation GetQueuesForPlatform :: "string \<Rightarrow> consumers \<Rightarrow> nat list" where
  "GetQueuesForPlatform \<equiv> queues_of"

text \<open>Assignment to a key of the map: a new key is visited last.\<close>

definition put_queues :: "string \<Rightarrow> nat list \<Rightarrow> consumers \<Rightarrow> consumers" where
  "put_queues p qs c = c\<lparr>queues := (if p \<in> fst ` set (queues c)
     then map (\<lambda>e. if fst e = p then (p, qs) else e) (queues c) else queues c @ [(p, qs)])\<rparr>"

fun find_in :: "queue_heap \<Rightarrow> string \<Rightarrow> (string \<times> nat list) list \<Rightarrow> (string \<times> nat) option" where
  "find_in mem queueID [] = None"
| "find_in mem queueID ((platformID, qs) # rest) =
     (case find_index (\<lambda>a. q_id (mem ! a) = queueID) qs of
        Some i \<Rightarrow> Some (platformID, i)
      | None \<Rightarrow> find_in mem queueID rest)"

definition find_queue :: "queue_heap \<Rightarrow> string \<Rightarrow> consumers \<Rightarrow> (string \<times> nat) option" where
  "find_queue mem queueID c = find_in mem queueID (queues c)"

definition ReplaceQueue :: "queue_heap \<Rightarrow> string \<Rightarrow> nat \<Rightarrow> consumers \<Rightarrow> (error, consumers) result" where
  "ReplaceQueue mem queueID newQueue c =
     (case find_queue mem queueID c of
        None \<Rightarrow> Inl (ErrorString (''could not find consumer with id '' @ queueID))
      | Some (platformID, i) \<Rightarrow> Inr (put_queues platformID ((queues_of platformID c)[i := newQueue]) c))"

definition remove_at :: "nat \<Rightarrow> 'a list \<Rightarrow> 'a list" where
  "remove_at i xs = take i xs @ drop (Suc i) xs"

definition Delete :: "queue_heap \<Rightarrow> nat \<Rightarrow> consumers \<Rightarrow> consumers" where
  "Delete mem queue c =
     (case find_queue mem (q_id (mem ! queue)) c of
        None \<Rightarrow> c
      | Some (platformIDToDelete, i) \<Rightarrow>
          let rest = remove_at i (queues_of platformIDToDelete c)
          in if length rest = 0 then
               c\<lparr>queues := filter (\<lambda>e. fst e \<noteq> platformIDToDelete) (queues c),
                 platforms := (case find_index (\<lambda>p. ID p = platformIDToDelete) (platforms c) of
                   None \<Rightarrow> platforms c | Some j \<Rightarrow> remove_at j (platforms c))\<rparr>
             else put_queues platformIDToDelete rest c)"

definition Add :: "Platform \<Rightarrow> nat \<Rightarrow> consumers \<Rightarrow> consumers" where
  "Add platform queue c =
     put_queues (ID platform) (queues_of (ID platform) c @ [queue])
       (if length (queues_of (ID platform) c) = 0 then c\<lparr>platforms := platforms c @ [platform]\<rparr> else c)"

definition Clear :: "consumers \<Rightarrow> consumers" where
  "Clear c = c\<lparr>queues := [], platforms := []\<rparr>"

definition consumers_Len :: "consumers \<Rightarrow> nat" where
  "consumers_Len c = length (queues c)"

definition GetPlatform :: "string \<Rightarrow> consumers \<Rightarrow> Platform option" where
  "GetPlatform platformID c = find (\<lambda>p. ID p = platformID) (platforms c)"

subsection \<open>The notificator\<close>

type_synonym receivers_filter = "Platform list \<Rightarrow> Notification \<Rightarrow> Platform list"

record 'w notificator =
  isListening :: bool
  isConnected :: bool
  queueSize :: nat
  n_consumers :: consumers
  notificationFilters :: "receivers_filter list"
  lastKnownRevision :: int
  goroutine :: "bool option"
  n_heap :: queue_heap
  n_world :: 'w

text \<open>The connection: listening, unlistening, pings, and random identifiers.\<close>

record 'w connection =
  Listen :: "'w \<Rightarrow> error option \<times> 'w"
  Unlisten :: "'w \<Rightarrow> error option \<times> 'w"
  Ping :: "'w \<Rightarrow> error option \<times> 'w"
  NewV4 :: "'w \<Rightarrow> (error, string) result \<times> 'w"
  ErrChannelAlreadyOpen :: error

definition NewNotificator :: "nat \<Rightarrow> 'w \<Rightarrow> 'w notificator" where
  "NewNotificator size_of_queues w = \<lparr>isListening = False, isConnected = False, queueSize = size_of_queues,
     n_consumers = \<lparr>queues = [], platforms = []\<rparr>, notificationFilters = [], lastKnownRevision = InvalidRevision,
     goroutine = None, n_heap = [], n_world = w\<rparr>"

definition stopProcessing :: "'w notificator \<Rightarrow> 'w notificator" where
  "stopProcessing n = n\<lparr>goroutine := map_option (\<lambda>_. True) (goroutine n)\<rparr>"

text \<open>The callback that \<open>Start\<close> passes to the connection.\<close>

definition connection_event :: "bool \<Rightarrow> 'w notificator \<Rightarrow> 'w notificator" where
  "connection_event is_connected n =
     (if is_connected then n\<lparr>isConnected := True\<rparr> else stopProcessing (n\<lparr>isConnected := False\<rparr>))"

definition RegisterFilter :: "receivers_filter \<Rightarrow> 'w notificator \<Rightarrow> 'w notificator" where
  "RegisterFilter f n = n\<lparr>notificationFilters := notificationFilters n @ [f]\<rparr>"

fun filterRecipients_from :: "receivers_filter list \<Rightarrow> Platform list \<Rightarrow> Notification \<Rightarrow> Platform list" where
  "filterRecipients_from [] recipients notification = recipients"
| "filterRecipients_from (f # fs) recipients notification =
     (let recipients = f recipients notification
      in if length recipients = 0 then recipients else filterRecipients_from fs recipients notification)"

definition filterRecipients :: "Platform list \<Rightarrow> Notification \<Rightarrow> 'w notificator \<Rightarrow> Platform list" where
  "filterRecipients recipients notification n = filterRecipients_from (notificationFilters n) recipients notification"

text \<open>A new queue in the heap.\<close>

definition new_queue :: "'w connection \<Rightarrow> 'w notificator \<Rightarrow> (error, nat) result \<times> 'w notificator" where
  "new_queue conn n =
     (case NewV4 conn (n_world n) of
        (u, w) \<Rightarrow>
          (case NewNotificationQueue u (queueSize n) of
             Inl err \<Rightarrow> (Inl err, n\<lparr>n_world := w\<rparr>)
           | Inr q \<Rightarrow> (Inr (length (n_heap n)), n\<lparr>n_world := w, n_heap := n_heap n @ [q]\<rparr>)))"

definition addConsumer :: "'w connection \<Rightarrow> 'w notification_db \<Rightarrow> Platform \<Rightarrow> nat \<Rightarrow> 'w notificator \<Rightarrow>
    (error, int) result \<times> 'w notificator" where
  "addConsumer conn db platform queue n =
     (let added = (\<lambda>n. (Inr (lastKnownRevision n), n\<lparr>n_consumers := Add platform queue (n_consumers n)\<rparr>))
      in if isListening n then added n
         else
           (case Listen conn (n_world n) of
              (err, w) \<Rightarrow>
                if err \<noteq> None \<and> err \<noteq> Some (ErrChannelAlreadyOpen conn) then
                  (Inl (ErrorString (''listen to notifications channel failed '' @ error_text (the err))), n\<lparr>n_world := w\<rparr>)
                else
                  (case GetLastRevision db w of
                    Inl err \<Rightarrow>
                      (Inl (ErrorString (''getting last revision failed '' @ error_text err)), n\<lparr>n_world := snd (Unlisten conn w)\<rparr>)
                  | Inr revision \<Rightarrow>
                      added (n\<lparr>n_world := w, lastKnownRevision := revision, isListening := True, goroutine := Some False\<rparr>))))"

text \<open>Closing a queue of the heap; \<open>None\<close> if the channel operation panicked or blocked.\<close>

definition completed :: "'a chan_result \<Rightarrow> 'a option" where
  "completed r = (case r of Done x \<Rightarrow> Some x | _ \<Rightarrow> None)"

definition close_at :: "nat \<Rightarrow> queue_heap \<Rightarrow> queue_heap option" where
  "close_at a h = map_option (\<lambda>q. h[a := q]) (completed (Close (h ! a)))"

primrec close_each :: "nat list \<Rightarrow> queue_heap \<Rightarrow> queue_heap option" where
  "close_each [] h = Some h"
| "close_each (a # as) h = Option.bind (close_at a h) (close_each as)"

definition UnregisterConsumer :: "nat \<Rightarrow> 'w notificator \<Rightarrow> 'w notificator option" where
  "UnregisterConsumer queue n =
     Option.bind (close_at queue (n_heap n)) (\<lambda>h.
       let n = n\<lparr>n_heap := h\<rparr>
       in if consumers_Len (n_consumers n) = 0 then Some n
          else
            let n = n\<lparr>n_consumers := Delete h queue (n_consumers n)\<rparr>
            in Some (if consumers_Len (n_consumers n) = 0 then stopProcessing n else n))"

definition closeAllConsumers :: "'w notificator \<Rightarrow> 'w notificator option" where
  "closeAllConsumers n =
     map_option (\<lambda>h. n\<lparr>n_heap := h, n_consumers := Clear (n_consumers n)\<rparr>)
       (close_each (concat (map snd (queues (n_consumers n)))) (n_heap n))"

subsubsection \<open>Processing notifications\<close>

record notifyEventPayload =
  pl_PlatformID :: string
  pl_NotificationID :: string
  pl_Revision :: int

definition getRecipients :: "string \<Rightarrow> consumers \<Rightarrow> Platform list" where
  "getRecipients platformID c =
     (if platformID = '''' then platforms c
      else case GetPlatform platformID c of None \<Rightarrow> [] | Some platform \<Rightarrow> [platform])"

primrec sendNotificationToPlatformConsumers :: "nat list \<Rightarrow> Notification \<Rightarrow> queue_heap \<Rightarrow> queue_heap option" where
  "sendNotificationToPlatformConsumers [] notification h = Some h"
| "sendNotificationToPlatformConsumers (a # as) notification h =
     Option.bind (completed (Enqueue notification (h ! a))) (\<lambda>r.
       Option.bind (case r of Inr q \<Rightarrow> Some (h[a := q]) | Inl err \<Rightarrow> close_at a h)
         (sendNotificationToPlatformConsumers as notification))"

primrec send_to_all :: "Platform list \<Rightarrow> consumers \<Rightarrow> Notification \<Rightarrow> queue_heap \<Rightarrow> queue_heap option" where
  "send_to_all [] c notification h = Some h"
| "send_to_all (platform # ps) c notification h =
     Option.bind (sendNotificationToPlatformConsumers (GetQueuesForPlatform (ID platform) c) notification h)
       (send_to_all ps c notification)"

definition processNotificationPayload :: "'w notification_db \<Rightarrow> notifyEventPayload \<Rightarrow> 'w notificator \<Rightarrow>
    ((error, unit) result \<times> 'w notificator) option" where
  "processNotificationPayload db payload n =
     (let n = n\<lparr>lastKnownRevision := pl_Revision payload\<rparr>;
          recipients = getRecipients (pl_PlatformID payload) (n_consumers n)
      in if length recipients = 0 then Some (Inr (), n)
         else
           (case GetNotification db (pl_NotificationID payload) (n_world n) of
              Inl err \<Rightarrow> Some (Inl (ErrorString (''notification '' @ pl_NotificationID payload
                     @ '' could not be retrieved from the DB: '' @ error_text err)), n)
            | Inr notification \<Rightarrow>
                map_option (\<lambda>h. (Inr (), n\<lparr>n_heap := h\<rparr>))
                  (send_to_all (filterRecipients recipients notification n) (n_consumers n) notification (n_heap n))))"

text \<open>
  The loop of \<open>processNotifications\<close> reads events: the channel delivers a notification (or the nil
  of a re-established connection) or is closed, the ping interval passes, or the context is done.
\<close>

datatype event = Delivered "string option" | ChannelClosed | PingInterval | ContextDone

definition process_event :: "'w connection \<Rightarrow> 'w notification_db \<Rightarrow> (string \<Rightarrow> (error, notifyEventPayload) result) \<Rightarrow>
    event \<Rightarrow> 'w notificator \<Rightarrow> (bool \<times> 'w notificator) option" where
  "process_event conn db getPayload ev n =
     (case ev of
        ChannelClosed \<Rightarrow> Some (False, n)
      | Delivered None \<Rightarrow> Some (True, n)
      | Delivered (Some extra) \<Rightarrow>
          (case getPayload extra of
             Inl err \<Rightarrow> Some (False, n)
           | Inr payload \<Rightarrow> map_option (\<lambda>(r, n). (r = Inr (), n)) (processNotificationPayload db payload n))
      | PingInterval \<Rightarrow> (case Ping conn (n_world n) of (err, w) \<Rightarrow> Some (err = None, n\<lparr>n_world := w\<rparr>))
      | ContextDone \<Rightarrow> Some (False, n))"

text \<open>The deferred function, with which the goroutine ends.\<close>

definition stop_listening :: "'w connection \<Rightarrow> 'w notificator \<Rightarrow> 'w notificator option" where
  "stop_listening conn n =
     Option.bind (closeAllConsumers (stopProcessing (n\<lparr>isListening := False\<rparr>))) (\<lambda>n.
       Some ((if isConnected n then n\<lparr>n_world := snd (Unlisten conn (n_world n))\<rparr> else n)\<lparr>goroutine := None\<rparr>))"

primrec processNotifications :: "'w connection \<Rightarrow> 'w notification_db \<Rightarrow> (string \<Rightarrow> (error, notifyEventPayload) result) \<Rightarrow>
    event list \<Rightarrow> 'w notificator \<Rightarrow> 'w notificator option" where
  "processNotifications conn db getPayload [] n = Some n"
| "processNotifications conn db getPayload (ev # evs) n =
     Option.bind (process_event conn db getPayload ev n) (\<lambda>(goes_on, n).
       if goes_on then processNotifications conn db getPayload evs n else stop_listening conn n)"

definition stopConnection :: "'w notificator \<Rightarrow> 'w notificator" where
  "stopConnection n = (stopProcessing n)\<lparr>isConnected := False\<rparr>"

subsubsection \<open>Registering a consumer\<close>

text \<open>The notifications the consumer missed, up to the revision at which its queue was added.\<close>

definition missed_notifications :: "'w notification_db \<Rightarrow> int \<Rightarrow> int \<Rightarrow> Platform \<Rightarrow> 'w notificator \<Rightarrow>
    ('w notificator \<Rightarrow> 'w notificator) \<Rightarrow> (error, Notification list) result \<times> 'w notificator" where
  "missed_notifications db known known_to_sm platform n others =
     (case GetNotificationByRevision db known (n_world n) of
        Inl err \<Rightarrow> (Inl (if err = ErrNotFoundInStorage then ErrInvalidNotificationRevision else err), n)
      | Inr _ \<Rightarrow>
          let n = others n
          in case ListNotifications db (ID platform) known known_to_sm (n_world n) of
               Inl err \<Rightarrow> (Inl err, n)
             | Inr missed \<Rightarrow>
                 let filtered = filter (\<lambda>m. length (filterRecipients [platform] m n) \<noteq> 0) missed
                 in if queueSize n < length filtered then (Inl ErrInvalidNotificationRevision, n)
                    else (Inr filtered, n))"

primrec enqueue_each :: "Notification list \<Rightarrow> queue \<Rightarrow> (error, queue) result option" where
  "enqueue_each [] q = Some (Inr q)"
| "enqueue_each (m # ms) q =
     Option.bind (completed (Enqueue m q)) (\<lambda>r. case r of Inl err \<Rightarrow> Some (Inl err) | Inr q \<Rightarrow> enqueue_each ms q)"

text \<open>
  The loop that moves what arrived meanwhile from the old queue to the new one.  It ends with the
  old queue drained and open, or with an error.
\<close>

function transfer :: "queue \<Rightarrow> queue \<Rightarrow> ((error, unit) result \<times> queue \<times> queue) option" where
  "transfer q new =
     (case Receive q of
        Done (None, q) \<Rightarrow> Some (Inl (ErrorString ''notification queue has been closed''), q, new)
      | Done (Some m, q) \<Rightarrow>
          (case Enqueue m new of
             Done (Inr new) \<Rightarrow> transfer q new
           | Done (Inl err) \<Rightarrow> Some (Inl err, q, new)
           | _ \<Rightarrow> None)
      | Blocks \<Rightarrow> Some (Inr (), q, new)
      | Panics \<Rightarrow> None)"
  by pat_completeness auto
termination
  by (relation "measure (\<lambda>(q, new). length (queued q))")
    (auto simp: Receive_def chan_recv_def split: list.splits if_splits)

text \<open>The critical section at the end: \<open>queue\<close> is drained into \<open>new\<close>, which takes its place.\<close>

definition take_over :: "nat \<Rightarrow> nat \<Rightarrow> 'w notificator \<Rightarrow> ((error, nat) result \<times> 'w notificator) option" where
  "take_over queue new n =
     (case transfer (n_heap n ! queue) (n_heap n ! new) of
        None \<Rightarrow> None
      | Some (r, q, newq) \<Rightarrow>
          let n = n\<lparr>n_heap := (n_heap n)[queue := q, new := newq]\<rparr>
          in case r of
               Inl err \<Rightarrow> Some (Inl err, n)
             | Inr _ \<Rightarrow>
                 (case ReplaceQueue (n_heap n) (q_id q) new (n_consumers n) of
                    Inl err \<Rightarrow> Some (Inl err, n)
                  | Inr c \<Rightarrow> Some (Inr new, n\<lparr>n_consumers := c\<rparr>)))"

definition replaceQueueWithMissingNotificationsQueue :: "'w connection \<Rightarrow> 'w notification_db \<Rightarrow>
    (nat \<Rightarrow> 'w notificator \<Rightarrow> 'w notificator) \<Rightarrow> nat \<Rightarrow> int \<Rightarrow> int \<Rightarrow> Platform \<Rightarrow> 'w notificator \<Rightarrow>
    ((error, nat) result \<times> 'w notificator) option" where
  "replaceQueueWithMissingNotificationsQueue conn db others queue known known_to_sm platform n =
     (case missed_notifications db known known_to_sm platform n (others 1) of
        (Inl err, n) \<Rightarrow> Some (Inl err, n)
      | (Inr missed, n) \<Rightarrow>
          (case new_queue conn n of
             (Inl err, n) \<Rightarrow> Some (Inl err, n)
           | (Inr new, n) \<Rightarrow>
               (case enqueue_each missed (n_heap n ! new) of
                  None \<Rightarrow> None
                | Some (Inl err) \<Rightarrow> Some (Inl err, n)
                | Some (Inr newq) \<Rightarrow>
                    take_over queue new (others 2 (n\<lparr>n_heap := (n_heap n)[new := newq]\<rparr>)))))"

definition RegisterConsumer :: "'w connection \<Rightarrow> 'w notification_db \<Rightarrow> (nat \<Rightarrow> 'w notificator \<Rightarrow> 'w notificator) \<Rightarrow>
    Platform \<Rightarrow> int \<Rightarrow> 'w notificator \<Rightarrow> ((error, nat \<times> int) result \<times> 'w notificator) option" where
  "RegisterConsumer conn db others consumer known n =
     (if \<not> isConnected n then
        Some (Inl (ErrorString ''cannot register consumer - Notificator is not running''), n)
      else
        (case new_queue conn n of
           (Inl err, n) \<Rightarrow> Some (Inl err, n)
         | (Inr queue, n) \<Rightarrow>
             (case addConsumer conn db consumer queue n of
                (Inl err, n) \<Rightarrow> Some (Inl err, n)
              | (Inr known_to_sm, n) \<Rightarrow>
                  if known = InvalidRevision \<or> known = known_to_sm then Some (Inr (queue, known_to_sm), n)
                  else
                    let n = others 0 n
                    in case (if known > known_to_sm then Some (Inl ErrInvalidNotificationRevision, n)
                             else replaceQueueWithMissingNotificationsQueue conn db others queue known known_to_sm consumer n) of
                         None \<Rightarrow> None
                       | Some (Inl err, n) \<Rightarrow> map_option (\<lambda>n. (Inl err, n)) (UnregisterConsumer queue (others 3 n))
                       | Some (Inr new, n) \<Rightarrow> Some (Inr (new, known_to_sm), n))))"

end
