(* ===== verification/NotificatorFacts.thy ===== *)
theory NotificatorFacts
  imports Notificator
begin

text \<open>
  The notificator's invariant and that every operation keeps it under any interleaving, the exact
  effect of processing an announcement, and the content of the queue that a registration returns.
\<close>

subsection \<open>The invariant\<close>

definition all_queues :: "consumers \<Rightarrow> nat list" where
  "all_queues c = concat (map snd (queues c))"

definition consumers_ok :: "nat \<Rightarrow> consumers \<Rightarrow> bool" where
  "consumers_ok N c \<longleftrightarrow>
     distinct (map fst (queues c)) \<and> (\<forall>e \<in> set (queues c). snd e \<noteq> []) \<and>
     distinct (all_queues c) \<and> (\<forall>a \<in> set (all_queues c). a < N) \<and>
     distinct (map ID (platforms c)) \<and> ID ` set (platforms c) = fst ` set (queues c)"

definition heap_ok :: "nat \<Rightarrow> queue_heap \<Rightarrow> bool" where
  "heap_ok s h \<longleftrightarrow> distinct (map q_id h) \<and> (\<forall>q \<in> set h. queue_ok q \<and> q_size q = s)"

text \<open>\<open>used w\<close> are the identifiers that the random source has handed out in the world \<open>w\<close>.\<close>

definition fresh_ids :: "'w connection \<Rightarrow> ('w \<Rightarrow> string set) \<Rightarrow> bool" where
  "fresh_ids conn used \<longleftrightarrow>
     (\<forall>w u w'. NewV4 conn w = (Inr u, w') \<longrightarrow> u \<notin> used w \<and> insert u (used w) \<subseteq> used w') \<and>
     (\<forall>w err w'. NewV4 conn w = (Inl err, w') \<longrightarrow> used w \<subseteq> used w') \<and>
     (\<forall>w. used w \<subseteq> used (snd (Listen conn w)) \<and> used w \<subseteq> used (snd (Unlisten conn w)) \<and>
          used w \<subseteq> used (snd (Ping conn w)))"

definition notificator_ok :: "('w \<Rightarrow> string set) \<Rightarrow> 'w notificator \<Rightarrow> bool" where
  "notificator_ok used n \<longleftrightarrow>
     consumers_ok (length (n_heap n)) (n_consumers n) \<and> heap_ok (queueSize n) (n_heap n) \<and>
     (isListening n \<longleftrightarrow> goroutine n \<noteq> None) \<and> q_id ` set (n_heap n) \<subseteq> used (n_world n)"

lemma queues_of_entry:
  assumes "distinct (map fst (queues c))" and "(p, qs) \<in> set (queues c)"
  shows "queues_of p c = qs"
  using assms by (simp add: queues_of_def)

lemma queues_of_notin: "p \<notin> fst ` set (queues c) \<Longrightarrow> queues_of p c = []"
  by (simp add: queues_of_def map_of_eq_None_iff [THEN iffD2])

lemma queues_of_Some: "queues_of p c \<noteq> [] \<Longrightarrow> (p, queues_of p c) \<in> set (queues c)"
  by (cases "map_of (queues c) p") (auto simp: queues_of_def dest: map_of_SomeD)

lemma queues_of_Nil_iff:
  assumes "consumers_ok N c"
  shows "queues_of p c = [] \<longleftrightarrow> p \<notin> fst ` set (queues c)"
proof
  assume nil: "queues_of p c = []"
  show "p \<notin> fst ` set (queues c)"
  proof
    assume "p \<in> fst ` set (queues c)"
    then obtain qs where e: "(p, qs) \<in> set (queues c)" by auto
    then have "qs = []" using assms nil queues_of_entry [of c p qs] unfolding consumers_ok_def by simp
    with assms e show False unfolding consumers_ok_def by (metis snd_conv)
  qed
qed (simp add: queues_of_notin)

lemma set_all_queues:
  assumes "distinct (map fst (queues c))"
  shows "a \<in> set (all_queues c) \<longleftrightarrow> (\<exists>p. a \<in> set (queues_of p c))"
proof
  assume "a \<in> set (all_queues c)"
  then obtain p qs where "(p, qs) \<in> set (queues c)" "a \<in> set qs" by (auto simp: all_queues_def)
  with queues_of_entry [OF assms this(1)] show "\<exists>p. a \<in> set (queues_of p c)" by auto
next
  assume "\<exists>p. a \<in> set (queues_of p c)"
  then obtain p where a: "a \<in> set (queues_of p c)" by blast
  then have "(p, queues_of p c) \<in> set (queues c)" by (intro queues_of_Some) auto
  with a show "a \<in> set (all_queues c)" by (force simp: all_queues_def)
qed

text \<open>Replacing the queues of one platform, at its place in the list of entries.\<close>

lemma put_queues_split:
  assumes "distinct (map fst (queues c))" "queues c = xs @ (p, qs) # ys"
  shows "put_queues p qs' c = c\<lparr>queues := xs @ (p, qs') # ys\<rparr>"
proof -
  have "p \<notin> fst ` set xs" "p \<notin> fst ` set ys" using assms by auto
  then have "map (\<lambda>e. if fst e = p then (p, qs') else e) xs = xs" "map (\<lambda>e. if fst e = p then (p, qs') else e) ys = ys"
    by (force intro!: map_idI)+
  then show ?thesis by (simp add: put_queues_def assms(2))
qed

lemma put_queues_new: "p \<notin> fst ` set (queues c) \<Longrightarrow> put_queues p qs c = c\<lparr>queues := queues c @ [(p, qs)]\<rparr>"
  by (simp add: put_queues_def)

lemma queues_of_put [simp]: "queues_of p' (put_queues p qs c) = (if p' = p then qs else queues_of p' c)"
proof -
  have other: "map_of (map (\<lambda>e. if fst e = p then (p, qs) else e) es) p' = map_of es p'" if "p' \<noteq> p" for es
    using that by (induction es) auto
  have same: "map_of (map (\<lambda>e. if fst e = p then (p, qs) else e) es) p = (if p \<in> fst ` set es then Some qs else None)" for es
  proof (induction es)
    case (Cons e es)
    then show ?case by (cases "fst e = p") auto
  qed simp
  show ?thesis
  proof (cases "p' = p")
    case True
    then show ?thesis
      using map_of_eq_None_iff [of "queues c" p]
      by (auto simp: queues_of_def put_queues_def same map_of_append map_add_def split: option.splits)
  next
    case False
    then show ?thesis
      by (auto simp: queues_of_def put_queues_def other map_of_append map_add_def split: option.splits)
  qed
qed

lemma entries_split:
  assumes "queues_of p c \<noteq> []"
  obtains xs ys where "queues c = xs @ (p, queues_of p c) # ys"
  using queues_of_Some [OF assms] by (auto simp: in_set_conv_decomp)

lemma consumers_okD:
  assumes "consumers_ok N c"
  shows "distinct (map fst (queues c))" "distinct (map ID (platforms c))" "ID ` set (platforms c) = fst ` set (queues c)"
    "distinct (all_queues c)" "\<And>a. a \<in> set (all_queues c) \<Longrightarrow> a < N" "\<And>e. e \<in> set (queues c) \<Longrightarrow> snd e \<noteq> []"
  using assms by (auto simp: consumers_ok_def)

lemma consumers_ok_put:
  assumes ok: "consumers_ok N c" and old: "queues_of p c \<noteq> []" and new: "qs \<noteq> []"
    and sub: "set qs \<subseteq> set (queues_of p c) \<union> A" and fresh: "A \<inter> set (all_queues c) = {}" "distinct qs" "\<forall>a\<in>A. a < N"
  shows "consumers_ok N (put_queues p qs c)"
proof -
  obtain xs ys where split: "queues c = xs @ (p, queues_of p c) # ys" by (rule entries_split [OF old])
  note ok' = consumers_okD [OF ok]
  have put: "put_queues p qs c = c\<lparr>queues := xs @ (p, qs) # ys\<rparr>"
    by (rule put_queues_split [OF ok'(1) split])
  have all: "all_queues c = concat (map snd xs) @ queues_of p c @ concat (map snd ys)"
    by (simp add: all_queues_def split)
  have all': "all_queues (put_queues p qs c) = concat (map snd xs) @ qs @ concat (map snd ys)"
    by (simp add: all_queues_def put)
  have dist: "distinct (X @ qs @ Y)" if "distinct (X @ queues_of p c @ Y)" "A \<inter> set (X @ queues_of p c @ Y) = {}" for X Y
    using that sub fresh(2) by auto
  have "distinct (all_queues (put_queues p qs c))"
    unfolding all' by (rule dist) (use ok'(4) fresh(1) all in auto)
  moreover have "\<forall>a \<in> set (all_queues (put_queues p qs c)). a < N"
    using ok'(5) sub fresh(3) unfolding all all' by auto
  moreover have "\<forall>e \<in> set (queues (put_queues p qs c)). snd e \<noteq> []"
    using ok'(6) new by (auto simp: put split)
  ultimately show ?thesis
    using ok'(1-3) by (simp add: consumers_ok_def put split)
qed

lemma consumers_ok_Add:
  assumes ok: "consumers_ok N c" and a: "a \<notin> set (all_queues c)" "a < N"
  shows "consumers_ok N (Add platform a c)"
proof (cases "queues_of (ID platform) c = []")
  case True
  then have p: "ID platform \<notin> fst ` set (queues c)" using queues_of_Nil_iff [OF ok] by simp
  note ok' = consumers_okD [OF ok]
  have "ID platform \<notin> ID ` set (platforms c)" using p ok'(3) by simp
  then show ?thesis
    using ok' p a True
    by (auto simp: Add_def put_queues_new consumers_ok_def all_queues_def)
next
  case False
  moreover have "distinct (queues_of (ID platform) c)" "a \<notin> set (queues_of (ID platform) c)"
  proof -
    obtain xs ys where split: "queues c = xs @ (ID platform, queues_of (ID platform) c) # ys" by (rule entries_split [OF False])
    then have "all_queues c = concat (map snd xs) @ queues_of (ID platform) c @ concat (map snd ys)"
      by (simp add: all_queues_def)
    with consumers_okD(4) [OF ok] a show "distinct (queues_of (ID platform) c)" "a \<notin> set (queues_of (ID platform) c)" by auto
  qed
  ultimately show ?thesis
    unfolding Add_def using ok a by (auto intro!: consumers_ok_put [where A = "{a}"])
qed

lemma consumers_ok_Clear: "consumers_ok N (Clear c)"
  by (simp add: consumers_ok_def Clear_def all_queues_def)

lemma consumers_ok_mono: "consumers_ok N c \<Longrightarrow> N \<le> M \<Longrightarrow> consumers_ok M c"
  by (auto simp: consumers_ok_def)

lemma queues_of_Add:
  "queues_of p (Add platform a c) = (if p = ID platform then queues_of p c @ [a] else queues_of p c)"
  by (simp add: Add_def) (simp add: queues_of_def)

lemma find_in_Some:
  "find_in h i es = Some (p, k) \<Longrightarrow>
    \<exists>qs. (p, qs) \<in> set es \<and> k < length qs \<and> q_id (h ! (qs ! k)) = i"
  by (induction h i es rule: find_in.induct) (auto dest!: find_index_Some split: option.splits)

lemma find_in_None: "find_in h i es = None \<Longrightarrow> (p, qs) \<in> set es \<Longrightarrow> a \<in> set qs \<Longrightarrow> q_id (h ! a) \<noteq> i"
  by (induction h i es rule: find_in.induct) (auto simp: find_index_None_iff split: option.splits)

lemma q_id_inject:
  "distinct (map q_id h) \<Longrightarrow> a < length h \<Longrightarrow> b < length h \<Longrightarrow> q_id (h ! a) = q_id (h ! b) \<longleftrightarrow> a = b"
  by (metis length_map nth_eq_iff_index_eq nth_map)

lemma consumers_ok_distinct:
  assumes "consumers_ok N c"
  shows "distinct (queues_of p c)"
proof (cases "queues_of p c = []")
  case False
  then obtain xs ys where split: "queues c = xs @ (p, queues_of p c) # ys" by (rule entries_split)
  have "all_queues c = concat (map snd xs) @ queues_of p c @ concat (map snd ys)" by (simp add: all_queues_def split)
  then show ?thesis using consumers_okD(4) [OF assms] by simp
qed simp

lemma queues_of_disjoint:
  assumes ok: "consumers_ok N c" and a: "a \<in> set (queues_of p c)" "a \<in> set (queues_of p' c)"
  shows "p = p'"
proof (rule ccontr)
  assume ne: "p \<noteq> p'"
  obtain xs ys where split: "queues c = xs @ (p, queues_of p c) # ys"
    using a(1) by (metis entries_split list.distinct(1) list.set_cases)
  have "(p', queues_of p' c) \<in> set (queues c)" using a(2) by (intro queues_of_Some) auto
  then have "(p', queues_of p' c) \<in> set xs \<union> set ys" using ne by (subst (asm) split) auto
  then have "a \<in> set (concat (map snd xs)) \<union> set (concat (map snd ys))" using a(2) by force
  moreover have "all_queues c = concat (map snd xs) @ queues_of p c @ concat (map snd ys)"
    by (simp add: all_queues_def split)
  ultimately show False using consumers_okD(4) [OF ok] a(1) by auto
qed

text \<open>With different identifiers, the place of a queue does not depend on the order of the entries.\<close>

lemma find_queue_registered:
  assumes ok: "consumers_ok (length h) c" and ids: "distinct (map q_id h)" and a: "a \<in> set (queues_of p c)"
  obtains i where "find_queue h (q_id (h ! a)) c = Some (p, i)" "i < length (queues_of p c)" "queues_of p c ! i = a"
proof (cases "find_queue h (q_id (h ! a)) c")
  case None
  have "(p, queues_of p c) \<in> set (queues c)" using a by (intro queues_of_Some) auto
  with find_in_None [of h "q_id (h ! a)" "queues c" p] None a show ?thesis
    unfolding find_queue_def by blast
next
  case (Some r)
  obtain p' i where r: "r = (p', i)" by (cases r)
  note ok' = consumers_okD [OF ok]
  obtain qs where e: "(p', qs) \<in> set (queues c)" and i: "i < length qs" and eq: "q_id (h ! (qs ! i)) = q_id (h ! a)"
    using find_in_Some [of h _ "queues c" p' i] Some r unfolding find_queue_def by blast
  have qs: "queues_of p' c = qs" by (rule queues_of_entry [OF ok'(1) e])
  have regs: "qs ! i \<in> set (all_queues c)" "a \<in> set (all_queues c)"
    using qs i a set_all_queues [OF ok'(1)] nth_mem by blast+
  then have nth: "qs ! i = a" using eq q_id_inject [OF ids] ok'(5) by blast
  have "p' = p" using queues_of_disjoint [OF ok, of a p' p] a qs nth i nth_mem by metis
  with that Some r i qs nth show ?thesis by blast
qed

lemma find_queue_unregistered:
  assumes ok: "consumers_ok (length h) c" and ids: "distinct (map q_id h)" and a: "a \<notin> set (all_queues c)" "a < length h"
  shows "find_queue h (q_id (h ! a)) c = None"
proof (cases "find_queue h (q_id (h ! a)) c")
  case (Some r)
  obtain p i where r: "r = (p, i)" by (cases r)
  note ok' = consumers_okD [OF ok]
  obtain qs where "(p, qs) \<in> set (queues c)" "i < length qs" "q_id (h ! (qs ! i)) = q_id (h ! a)"
    using find_in_Some [of h _ "queues c" p i] Some r unfolding find_queue_def by blast
  then have "qs ! i \<in> set (all_queues c)" and "q_id (h ! (qs ! i)) = q_id (h ! a)"
    by (force simp: all_queues_def)+
  with q_id_inject [OF ids] ok'(5) a show ?thesis by metis
qed simp

lemma remove_found:
  "distinct (map f xs) \<Longrightarrow>
    (case find_index (\<lambda>x. f x = y) xs of None \<Rightarrow> xs | Some j \<Rightarrow> remove_at j xs) = filter (\<lambda>x. f x \<noteq> y) xs"
proof (induction xs)
  case (Cons x xs)
  show ?case
  proof (cases "f x = y")
    case True
    then have "\<forall>x' \<in> set xs. f x' \<noteq> y" using Cons.prems by (auto simp: image_iff)
    with True show ?thesis by (simp add: remove_at_def filter_id_conv)
  next
    case False
    with Cons show ?thesis
      by (cases "find_index (\<lambda>x. f x = y) xs") (auto simp: remove_at_def)
  qed
qed simp

lemma consumers_ok_Delete:
  assumes ok: "consumers_ok (length h) c"
  shows "consumers_ok (length h) (Delete h a c)"
proof (cases "find_queue h (q_id (h ! a)) c")
  case None
  then show ?thesis by (simp add: Delete_def ok)
next
  case (Some r)
  obtain p i where r: "r = (p, i)" by (cases r)
  note ok' = consumers_okD [OF ok]
  obtain qs where e: "(p, qs) \<in> set (queues c)" and i: "i < length qs"
    using find_in_Some [of h _ "queues c" p i] Some r unfolding find_queue_def by blast
  have qs: "queues_of p c = qs" by (rule queues_of_entry [OF ok'(1) e])
  have ne: "queues_of p c \<noteq> []" using i qs by auto
  obtain xs ys where split: "queues c = xs @ (p, queues_of p c) # ys" by (rule entries_split [OF ne])
  have all: "all_queues c = concat (map snd xs) @ queues_of p c @ concat (map snd ys)"
    by (simp add: all_queues_def split)
  let ?rest = "remove_at i (queues_of p c)"
  show ?thesis
  proof (cases "?rest = []")
    case True
    have p: "p \<notin> fst ` set xs" "p \<notin> fst ` set ys" using ok'(1) split by auto
    then have "filter (\<lambda>e. fst e \<noteq> p) xs = xs" "filter (\<lambda>e. fst e \<noteq> p) ys = ys"
      by (auto simp: filter_id_conv image_iff)
    then have filt: "filter (\<lambda>e. fst e \<noteq> p) (queues c) = xs @ ys" by (simp add: split)
    have ids: "ID ` set (filter (\<lambda>x. ID x \<noteq> p) (platforms c)) = fst ` set (xs @ ys)"
    proof -
      have "ID ` set (filter (\<lambda>x. ID x \<noteq> p) (platforms c)) = ID ` set (platforms c) - {p}" by auto
      then show ?thesis using ok'(3) p by (auto simp: split image_Un)
    qed
    show ?thesis
      using ok' p ids unfolding Delete_def Some r option.case prod.case Let_def True list.size filt remove_found [OF ok'(2)]
      by (auto simp: consumers_ok_def all_queues_def split distinct_map_filter)
  next
    case False
    have "distinct (queues_of p c)" by (rule consumers_ok_distinct [OF ok])
    then have rest: "set ?rest \<subseteq> set (queues_of p c)" "distinct ?rest"
      using set_take_disj_set_drop_if_distinct [of "queues_of p c" i "Suc i"]
      by (auto simp: remove_at_def dest: in_set_takeD in_set_dropD)
    have "consumers_ok (length h) (put_queues p ?rest c)"
      by (rule consumers_ok_put [OF ok ne False, where A = "{}"]) (use rest in auto)
    with False show ?thesis by (simp add: Delete_def Some r Let_def)
  qed
qed

lemma consumers_ok_ReplaceQueue:
  assumes ok: "consumers_ok (length h) c" and ids: "distinct (map q_id h)" and new: "b \<notin> set (all_queues c)" "b < length h"
    and a: "a \<in> set (queues_of p c)"
  shows "\<exists>i. ReplaceQueue h (q_id (h ! a)) b c = Inr (put_queues p ((queues_of p c)[i := b]) c) \<and>
    i < length (queues_of p c) \<and> queues_of p c ! i = a \<and>
    consumers_ok (length h) (put_queues p ((queues_of p c)[i := b]) c)"
proof -
  obtain i where find: "find_queue h (q_id (h ! a)) c = Some (p, i)" and i: "i < length (queues_of p c)" "queues_of p c ! i = a"
    by (rule find_queue_registered [OF ok ids a])
  note ok' = consumers_okD [OF ok]
  have ne: "queues_of p c \<noteq> []" using i by auto
  obtain xs ys where split: "queues c = xs @ (p, queues_of p c) # ys" by (rule entries_split [OF ne])
  have all: "all_queues c = concat (map snd xs) @ queues_of p c @ concat (map snd ys)"
    by (simp add: all_queues_def split)
  have "distinct (queues_of p c)" "b \<notin> set (queues_of p c)" using ok'(4) new(1) unfolding all by auto
  then have "distinct ((queues_of p c)[i := b])" by (simp add: distinct_list_update)
  moreover have "set ((queues_of p c)[i := b]) \<subseteq> set (queues_of p c) \<union> {b}" 
    using set_update_subset_insert [of "queues_of p c" i b] by auto
  ultimately have "consumers_ok (length h) (put_queues p ((queues_of p c)[i := b]) c)"
    using ne new by (intro consumers_ok_put [OF ok ne, where A = "{b}"]) auto
  moreover have "ReplaceQueue h (q_id (h ! a)) b c = Inr (put_queues p ((queues_of p c)[i := b]) c)"
    using find by (simp add: ReplaceQueue_def)
  ultimately show ?thesis using i by blast
qed

subsection \<open>Effects on the queues\<close>

definition closed_queue :: "queue \<Rightarrow> queue" where
  "closed_queue q = q\<lparr>isClosed := True, notificationsChannel := (notificationsChannel q)\<lparr>ch_closed := True\<rparr>\<rparr>"

text \<open>What a queue is after a notification was sent to it: an overflowing queue is closed.\<close>

definition deliver :: "Notification \<Rightarrow> queue \<Rightarrow> queue" where
  "deliver m q =
     (if \<not> isClosed q \<and> length (queued q) < q_size q
      then q\<lparr>notificationsChannel := (notificationsChannel q)\<lparr>ch_buf := queued q @ [m]\<rparr>\<rparr>
      else closed_queue q)"

definition at_queues :: "(queue \<Rightarrow> queue) \<Rightarrow> nat set \<Rightarrow> queue_heap \<Rightarrow> queue_heap" where
  "at_queues f A h = map (\<lambda>b. if b \<in> A then f (h ! b) else h ! b) [0..<length h]"

lemma at_queues_simps [simp]:
  "length (at_queues f A h) = length h"
  "b < length h \<Longrightarrow> at_queues f A h ! b = (if b \<in> A then f (h ! b) else h ! b)"
  "at_queues f {} h = h"
  by (auto simp: at_queues_def map_nth)

lemma at_queues_insert:
  assumes "a < length h" "a \<notin> A"
  shows "at_queues f A (h[a := f (h ! a)]) = at_queues f (insert a A) h"
  by (rule nth_equalityI) (use assms in \<open>auto simp: nth_list_update\<close>)

lemma at_queues_Un:
  assumes "A \<inter> B = {}"
  shows "at_queues f B (at_queues f A h) = at_queues f (A \<union> B) h"
  by (rule nth_equalityI) (use assms in auto)

lemma queue_spec_simps [simp]:
  "queue_ok q \<Longrightarrow> queue_ok (closed_queue q)" "queue_ok q \<Longrightarrow> queue_ok (deliver m q)"
  "q_size (closed_queue q) = q_size q" "q_size (deliver m q) = q_size q"
  "q_id (closed_queue q) = q_id q" "q_id (deliver m q) = q_id q"
  "closed_queue (closed_queue q) = closed_queue q" "queued (closed_queue q) = queued q" "isClosed (closed_queue q)"
  by (auto simp: closed_queue_def deliver_def queue_ok_def)

lemma Close_spec: "queue_ok q \<Longrightarrow> Close q = Done (closed_queue q)"
  by (auto simp: Close_def chan_close_def queue_ok_def closed_queue_def)

lemma Enqueue_spec:
  assumes "queue_ok q"
  shows "\<exists>r. Enqueue m q = Done r \<and> (case r of Inr q' \<Rightarrow> q' = deliver m q | Inl _ \<Rightarrow> deliver m q = closed_queue q)"
  using assms by (auto simp: Enqueue_def chan_send_def queue_ok_def deliver_def)

lemma heap_ok_nth: "heap_ok s h \<Longrightarrow> a < length h \<Longrightarrow> queue_ok (h ! a) \<and> q_size (h ! a) = s"
  by (simp add: heap_ok_def)

lemma heap_ok_at_queues:
  assumes "heap_ok s h" "\<And>q. queue_ok q \<Longrightarrow> queue_ok (f q)" "\<And>q. q_size (f q) = q_size q" "\<And>q. q_id (f q) = q_id q"
  shows "heap_ok s (at_queues f A h)"
proof -
  have "map q_id (at_queues f A h) = map q_id h" by (rule nth_equalityI) (auto simp: assms(4))
  with assms(1) show ?thesis by (auto simp: heap_ok_def at_queues_def assms(2,3))
qed

lemma close_each_spec:
  assumes "heap_ok s h" "\<forall>a \<in> set as. a < length h"
  shows "close_each as h = Some (at_queues closed_queue (set as) h)"
  using assms
proof (induction as arbitrary: h)
  case (Cons a as)
  have a: "a < length h" "queue_ok (h ! a)" using Cons.prems heap_ok_nth by auto
  have h': "h[a := closed_queue (h ! a)] = at_queues closed_queue {a} h"
    by (rule nth_equalityI) (use a in \<open>auto simp: nth_list_update\<close>)
  have "heap_ok s (at_queues closed_queue {a} h)" by (rule heap_ok_at_queues [OF Cons.prems(1)]) auto
  then have "close_each as (at_queues closed_queue {a} h) = Some (at_queues closed_queue (set as) (at_queues closed_queue {a} h))"
    using Cons by simp
  also have "at_queues closed_queue (set as) (at_queues closed_queue {a} h) = at_queues closed_queue (insert a (set as)) h"
    by (rule nth_equalityI) auto
  finally show ?case using a h' by (simp add: close_at_def completed_def Close_spec)
qed simp

lemma send_spec:
  assumes "heap_ok s h" "\<forall>a \<in> set as. a < length h" "distinct as"
  shows "sendNotificationToPlatformConsumers as m h = Some (at_queues (deliver m) (set as) h)"
  using assms
proof (induction as arbitrary: h)
  case (Cons a as)
  have a: "a < length h" "queue_ok (h ! a)" using Cons.prems heap_ok_nth by auto
  have step: "Option.bind (completed (Enqueue m (h ! a))) (\<lambda>r. case r of Inr q \<Rightarrow> Some (h[a := q]) | Inl err \<Rightarrow> close_at a h) =
      Some (h[a := deliver m (h ! a)])"
  proof -
    obtain r where "Enqueue m (h ! a) = Done r"
      and "case r of Inr q' \<Rightarrow> q' = deliver m (h ! a) | Inl _ \<Rightarrow> deliver m (h ! a) = closed_queue (h ! a)"
      using Enqueue_spec [OF a(2)] by blast
    with a show ?thesis by (cases r) (simp_all add: completed_def close_at_def Close_spec)
  qed
  have h': "h[a := deliver m (h ! a)] = at_queues (deliver m) {a} h"
    by (rule nth_equalityI) (use a in \<open>auto simp: nth_list_update\<close>)
  have "heap_ok s (at_queues (deliver m) {a} h)" by (rule heap_ok_at_queues [OF Cons.prems(1)]) auto
  then have "sendNotificationToPlatformConsumers as m (at_queues (deliver m) {a} h) =
      Some (at_queues (deliver m) (insert a (set as)) h)"
    using Cons at_queues_Un [of "{a}" "set as" "deliver m" h] by simp
  then show ?case
    using step h' by (cases "completed (Enqueue m (h ! a))") (auto split: bind_splits)
qed simp

lemma send_to_all_ok:
  assumes "heap_ok s h" "consumers_ok (length h) c"
  shows "\<exists>h'. send_to_all ps c m h = Some h' \<and> heap_ok s h' \<and> length h' = length h \<and> map q_id h' = map q_id h"
  using assms
proof (induction ps arbitrary: h)
  case (Cons p ps)
  note ok' = consumers_okD [OF Cons.prems(2)]
  let ?h = "at_queues (deliver m) (set (queues_of (ID p) c)) h"
  have "\<forall>a \<in> set (queues_of (ID p) c). a < length h" using set_all_queues [OF ok'(1)] ok'(5) by blast
  then have send: "sendNotificationToPlatformConsumers (queues_of (ID p) c) m h = Some ?h"
    using consumers_ok_distinct [OF Cons.prems(2)] by (intro send_spec [OF Cons.prems(1)]) auto
  have "heap_ok s ?h" by (rule heap_ok_at_queues [OF Cons.prems(1)]) auto
  moreover have "map q_id ?h = map q_id h" by (rule nth_equalityI) auto
  ultimately show ?case using Cons.IH [of ?h] Cons.prems(2) send by simp
qed simp

subsection \<open>Every operation keeps the invariant and none panics\<close>

text \<open>What a step of another goroutine does to the parts that a registration in progress relies on.\<close>

definition rely :: "'w notificator \<Rightarrow> 'w notificator \<Rightarrow> bool" where
  "rely n n' \<longleftrightarrow> length (n_heap n) \<le> length (n_heap n') \<and> queueSize n' = queueSize n \<and>
     (\<forall>a < length (n_heap n). q_id (n_heap n' ! a) = q_id (n_heap n ! a)) \<and>
     (\<forall>a < length (n_heap n). a \<in> set (all_queues (n_consumers n')) \<longrightarrow> a \<in> set (all_queues (n_consumers n)))"

definition keeps_ok :: "('w \<Rightarrow> string set) \<Rightarrow> 'w notificator \<Rightarrow> 'w notificator \<Rightarrow> bool" where
  "keeps_ok used n n' \<longleftrightarrow> (notificator_ok used n \<longrightarrow> notificator_ok used n' \<and> rely n n')"

lemma keeps_okI: "(notificator_ok used n \<Longrightarrow> notificator_ok used n' \<and> rely n n') \<Longrightarrow> keeps_ok used n n'"
  by (simp add: keeps_ok_def)

lemma rely_refl: "rely n n"
  by (simp add: rely_def)

lemma rely_trans: "rely n n' \<Longrightarrow> rely n' n'' \<Longrightarrow> rely n n''"
  unfolding rely_def by (metis le_trans less_le_trans)

lemma keeps_ok_refl: "keeps_ok used n n"
  by (simp add: keeps_ok_def rely_refl)

lemma keeps_ok_trans: "keeps_ok used n n' \<Longrightarrow> keeps_ok used n' n'' \<Longrightarrow> keeps_ok used n n''"
  unfolding keeps_ok_def using rely_trans by blast

lemma set_Delete: "set (all_queues (Delete h a c)) \<subseteq> set (all_queues c)"
  if ok: "consumers_ok (length h) c"
proof -
  note ok' = consumers_okD [OF ok] and del = consumers_ok_Delete [OF ok, of a]
  have "set (queues_of p (Delete h a c)) \<subseteq> set (queues_of p c)" for p
  proof (cases "find_queue h (q_id (h ! a)) c")
    case (Some r)
    obtain p' i where r: "r = (p', i)" by (cases r)
    have filt: "map_of (filter (\<lambda>e. fst e \<noteq> p') es) p = (if p = p' then None else map_of es p)" for es :: "(string \<times> nat list) list"
      by (induction es) auto
    have gone: "queues_of p (c\<lparr>queues := filter (\<lambda>e. fst e \<noteq> p') (queues c), platforms := ps\<rparr>) =
        (if p = p' then [] else queues_of p c)" for ps
      by (simp add: queues_of_def filt)
    show ?thesis
      by (auto simp: Delete_def Some r Let_def remove_at_def gone dest: in_set_takeD in_set_dropD split: if_splits)
  qed (simp add: Delete_def)
  then show ?thesis
    using set_all_queues [OF ok'(1)] set_all_queues [OF consumers_okD(1) [OF del]] by blast
qed

lemma stopProcessing_ok: "keeps_ok used n (stopProcessing n)"
  by (auto simp: keeps_ok_def notificator_ok_def stopProcessing_def rely_def)

lemma UnregisterConsumer_ok:
  assumes ok: "notificator_ok used n" and a: "a < length (n_heap n)"
  shows "\<exists>n'. UnregisterConsumer a n = Some n' \<and> notificator_ok used n' \<and> rely n n'"
proof -
  have h: "heap_ok (queueSize n) (n_heap n)" and c: "consumers_ok (length (n_heap n)) (n_consumers n)"
    using ok by (simp_all add: notificator_ok_def)
  let ?h = "at_queues closed_queue {a} (n_heap n)"
  have close: "close_at a (n_heap n) = Some ?h"
    using close_each_spec [OF h, of "[a]"] a by (cases "close_at a (n_heap n)") auto
  have h': "heap_ok (queueSize n) ?h" by (rule heap_ok_at_queues [OF h]) auto
  have ids: "map q_id ?h = map q_id (n_heap n)" by (rule nth_equalityI) auto
  then have "q_id ` set ?h = q_id ` set (n_heap n)" by (metis image_set)
  with ok h' have ok': "notificator_ok used (n\<lparr>n_heap := ?h\<rparr>)" by (simp add: notificator_ok_def)
  have c': "consumers_ok (length ?h) (Delete ?h a (n_consumers n))" "set (all_queues (Delete ?h a (n_consumers n))) \<subseteq> set (all_queues (n_consumers n))"
    using consumers_ok_Delete [of ?h "n_consumers n" a] set_Delete [of ?h "n_consumers n" a] c by simp_all
  then have del: "notificator_ok used (n\<lparr>n_heap := ?h, n_consumers := Delete ?h a (n_consumers n)\<rparr>)"
    using ok' by (simp add: notificator_ok_def)
  have "rely n (n\<lparr>n_heap := ?h\<rparr>)" "rely n (n\<lparr>n_heap := ?h, n_consumers := Delete ?h a (n_consumers n)\<rparr>)"
    using c' by (auto simp: rely_def)
  with ok' del stopProcessing_ok [of used "n\<lparr>n_heap := ?h, n_consumers := Delete ?h a (n_consumers n)\<rparr>"] show ?thesis
    by (auto simp: UnregisterConsumer_def close Let_def keeps_ok_def intro: rely_trans)
qed

lemma processNotificationPayload_ok:
  assumes ok: "notificator_ok used n"
  shows "\<exists>r n'. processNotificationPayload db payload n = Some (r, n') \<and> notificator_ok used n' \<and> rely n n'"
proof -
  have h: "heap_ok (queueSize n) (n_heap n)" and c: "consumers_ok (length (n_heap n)) (n_consumers n)"
    using ok by (simp_all add: notificator_ok_def)
  show ?thesis
  proof (cases "getRecipients (pl_PlatformID payload) (n_consumers n) = []")
    case True
    with ok show ?thesis by (simp add: processNotificationPayload_def notificator_ok_def rely_def)
  next
    case False
    show ?thesis
    proof (cases "GetNotification db (pl_NotificationID payload) (n_world n)")
      case (Inl err)
      with False ok show ?thesis by (simp add: processNotificationPayload_def notificator_ok_def rely_def)
    next
      case (Inr m)
      let ?n = "n\<lparr>lastKnownRevision := pl_Revision payload\<rparr>"
      obtain h' where "send_to_all (filterRecipients (getRecipients (pl_PlatformID payload) (n_consumers n)) m ?n) (n_consumers n) m (n_heap n) = Some h'"
        and "heap_ok (queueSize n) h'" "length h' = length (n_heap n)" "map q_id h' = map q_id (n_heap n)"
        using send_to_all_ok [OF h c] by blast
      moreover from this have "q_id ` set h' = q_id ` set (n_heap n)" by (metis image_set)
      moreover have "\<forall>a < length (n_heap n). q_id (h' ! a) = q_id (n_heap n ! a)"
        using calculation by (metis length_map nth_map)
      ultimately show ?thesis
        using False Inr ok by (simp add: processNotificationPayload_def notificator_ok_def rely_def)
    qed
  qed
qed

lemma stop_listening_ok:
  assumes ok: "notificator_ok used n" and fresh: "fresh_ids conn used"
  shows "\<exists>n'. stop_listening conn n = Some n' \<and> notificator_ok used n' \<and> rely n n'"
proof -
  have h: "heap_ok (queueSize n) (n_heap n)" and c: "consumers_ok (length (n_heap n)) (n_consumers n)"
    and u: "q_id ` set (n_heap n) \<subseteq> used (n_world n)"
    using ok by (simp_all add: notificator_ok_def)
  let ?as = "all_queues (n_consumers n)"
  let ?h = "at_queues closed_queue (set ?as) (n_heap n)"
  have "close_each ?as (n_heap n) = Some ?h"
    by (rule close_each_spec [OF h]) (use consumers_okD(5) [OF c] in auto)
  moreover have "heap_ok (queueSize n) ?h" by (rule heap_ok_at_queues [OF h]) auto
  moreover have "map q_id ?h = map q_id (n_heap n)" by (rule nth_equalityI) auto
  then have "q_id ` set ?h = q_id ` set (n_heap n)" by (metis image_set)
  moreover have "used (n_world n) \<subseteq> used (snd (Unlisten conn (n_world n)))" using fresh by (simp add: fresh_ids_def)
  ultimately show ?thesis
    using u consumers_ok_Clear
    by (auto simp: stop_listening_def closeAllConsumers_def stopProcessing_def all_queues_def notificator_ok_def rely_def Clear_def)
qed

lemma process_event_ok:
  assumes ok: "notificator_ok used n" and fresh: "fresh_ids conn used"
  shows "\<exists>b n'. process_event conn db getPayload ev n = Some (b, n') \<and> notificator_ok used n' \<and> rely n n'"
proof (cases ev)
  case (Delivered x)
  then show ?thesis
    using ok rely_refl [of n] processNotificationPayload_ok [OF ok, of db]
    by (cases x) (fastforce simp: process_event_def split: sum.splits)+
next
  case PingInterval
  have "used (n_world n) \<subseteq> used (snd (Ping conn (n_world n)))" using fresh by (simp add: fresh_ids_def)
  with PingInterval ok show ?thesis
    by (cases "Ping conn (n_world n)") (auto simp: process_event_def notificator_ok_def rely_def)
qed (use ok rely_refl [of n] in \<open>auto simp: process_event_def\<close>)

lemma new_queue_ok:
  assumes ok: "notificator_ok used n" and fresh: "fresh_ids conn used" and run: "new_queue conn n = (r, n')"
  shows "notificator_ok used n' \<and> rely n n' \<and> n_consumers n' = n_consumers n \<and> isConnected n' = isConnected n \<and>
    isListening n' = isListening n \<and> lastKnownRevision n' = lastKnownRevision n \<and> notificationFilters n' = notificationFilters n \<and>
    (\<forall>a. r = Inr a \<longrightarrow> a = length (n_heap n) \<and> a \<notin> set (all_queues (n_consumers n)) \<and>
      (\<exists>q. n_heap n' = n_heap n @ [q] \<and> queued q = [] \<and> \<not> isClosed q \<and> q_size q = queueSize n))"
proof -
  obtain u w where v4: "NewV4 conn (n_world n) = (u, w)" by (cases "NewV4 conn (n_world n)")
  have c: "consumers_ok (length (n_heap n)) (n_consumers n)" and ids: "q_id ` set (n_heap n) \<subseteq> used (n_world n)"
    using ok by (simp_all add: notificator_ok_def)
  show ?thesis
  proof (cases "NewNotificationQueue u (queueSize n) :: (error, queue) result")
    case (Inl err)
    then obtain e where "u = Inl e" by (cases u) (auto simp: NewNotificationQueue_def)
    then have "used (n_world n) \<subseteq> used w" using fresh v4 by (simp add: fresh_ids_def)
    with ids have "q_id ` set (n_heap n) \<subseteq> used w" by (rule order_trans)
    with Inl run v4 ok show ?thesis by (auto simp: new_queue_def notificator_ok_def rely_def image_subset_iff)
  next
    case (Inr q)
    have q: "queue_ok q" "queued q = []" "q_size q = queueSize n" "\<not> isClosed q" "u = Inr (q_id q)"
      using NewNotificationQueue_ok [OF Inr] by auto
    then have new: "q_id q \<notin> used (n_world n)" "insert (q_id q) (used (n_world n)) \<subseteq> used w"
      using fresh v4 by (auto simp: fresh_ids_def)
    have "q_id ` set (n_heap n) \<subseteq> used w" using ids new by auto
    moreover have "length (n_heap n) \<notin> set (all_queues (n_consumers n))"
      using consumers_okD(5) [OF c] by blast
    moreover have "consumers_ok (Suc (length (n_heap n))) (n_consumers n)" by (rule consumers_ok_mono [OF c]) simp
    ultimately show ?thesis
      using run v4 Inr ok q new ids
      by (auto simp: new_queue_def notificator_ok_def rely_def heap_ok_def nth_append image_subset_iff)
  qed
qed

lemma addConsumer_ok:
  assumes ok: "notificator_ok used n" and fresh: "fresh_ids conn used"
    and a: "a < length (n_heap n)" "a \<notin> set (all_queues (n_consumers n))"
    and run: "addConsumer conn db platform a n = (r, n')"
  shows "notificator_ok used n' \<and> n_heap n' = n_heap n \<and> queueSize n' = queueSize n \<and>
    set (all_queues (n_consumers n')) \<subseteq> insert a (set (all_queues (n_consumers n))) \<and>
    (\<forall>v. r = Inr v \<longrightarrow> v = lastKnownRevision n' \<and> n_consumers n' = Add platform a (n_consumers n) \<and> isListening n')"
proof -
  have c: "consumers_ok (length (n_heap n)) (n_consumers n)" using ok by (simp add: notificator_ok_def)
  have add: "consumers_ok (length (n_heap n)) (Add platform a (n_consumers n))"
    by (rule consumers_ok_Add [OF c a(2,1)])
  have sub: "set (all_queues (Add platform a (n_consumers n))) \<subseteq> insert a (set (all_queues (n_consumers n)))"
    using set_all_queues [OF consumers_okD(1) [OF add]] set_all_queues [OF consumers_okD(1) [OF c]]
    by (auto simp: queues_of_Add split: if_splits)
  show ?thesis
  proof (cases "isListening n")
    case True
    with run ok add sub show ?thesis by (auto simp: addConsumer_def notificator_ok_def image_subset_iff)
  next
    case False
    obtain e w where l: "Listen conn (n_world n) = (e, w)" by (cases "Listen conn (n_world n)")
    then have "used (n_world n) \<subseteq> used w" "used (n_world n) \<subseteq> used (snd (Unlisten conn w))"
      using fresh unfolding fresh_ids_def by (metis order_trans snd_conv)+
    then have "q_id ` set (n_heap n) \<subseteq> used w" "q_id ` set (n_heap n) \<subseteq> used (snd (Unlisten conn w))"
      using ok unfolding notificator_ok_def by (meson order_trans)+
    with False l run ok add sub show ?thesis
      by (auto simp: addConsumer_def notificator_ok_def image_subset_iff split: if_splits sum.splits)
  qed
qed

lemma enqueue_each_spec:
  assumes "queue_ok q" "\<not> isClosed q" "length (queued q) + length ms \<le> q_size q"
  shows "\<exists>q'. enqueue_each ms q = Some (Inr q') \<and> queue_ok q' \<and> \<not> isClosed q' \<and> queued q' = queued q @ ms \<and>
    q_id q' = q_id q \<and> q_size q' = q_size q"
  using assms
proof (induction ms arbitrary: q)
  case (Cons m ms)
  then have "length (queued q) < q_size q" by simp
  then obtain q' where enq: "Enqueue m q = Done (Inr q')" "queued q' = queued q @ [m]" "q_size q' = q_size q"
      "\<not> isClosed q'" "q_id q' = q_id q" "queue_ok q'"
    using nq.enq_room [of q m] Cons.prems by blast
  with Cons.IH [of q'] Cons.prems show ?case by (auto simp: completed_def)
qed simp

declare transfer.simps [simp del]

lemma transfer_ok:
  assumes "queue_ok q" "queue_ok new"
  shows "\<exists>r q' new'. transfer q new = Some (r, q', new') \<and> queue_ok q' \<and> queue_ok new' \<and>
    q_id q' = q_id q \<and> q_id new' = q_id new \<and> q_size q' = q_size q \<and> q_size new' = q_size new \<and>
    (\<not> isClosed q \<and> \<not> isClosed new \<and> length (queued new) + length (queued q) \<le> q_size new \<longrightarrow>
      r = Inr () \<and> queued new' = queued new @ queued q \<and> \<not> isClosed new')"
  using assms
proof (induction "length (queued q)" arbitrary: q new)
  case 0
  then show ?case
    using nq.recv_open [of q] nq.recv_closed [of q] by (cases "isClosed q") (auto simp: transfer.simps)
next
  case (Suc k)
  then obtain m ms where q: "queued q = m # ms" by (cases "queued q") auto
  obtain q1 where recv: "Receive q = Done (Some m, q1)" "queued q1 = ms" "q_size q1 = q_size q" "isClosed q1 = isClosed q"
      "q_id q1 = q_id q" "queue_ok q1"
    using nq.recv_some [OF Suc.prems(1) q] by blast
  obtain r where enq: "Enqueue m new = Done r" using nq.enq_done [OF Suc.prems(2), of m] by blast
  show ?case
  proof (cases r)
    case (Inl err)
    then have "\<not> (\<not> isClosed new \<and> length (queued new) < q_size new)"
      using nq.enq_Inr_iff [OF Suc.prems(2), of m] enq by auto
    with Inl enq recv Suc.prems q show ?thesis by (subst transfer.simps) auto
  next
    case (Inr new1)
    then have room: "\<not> isClosed new" "length (queued new) < q_size new"
      using nq.enq_Inr_iff [OF Suc.prems(2), of m] enq by auto
    then have new1: "queued new1 = queued new @ [m]" "q_size new1 = q_size new" "\<not> isClosed new1" "q_id new1 = q_id new" "queue_ok new1"
      using nq.enq_room [OF Suc.prems(2), of m] enq Inr by auto
    have "transfer q new = transfer q1 new1" using recv enq Inr by (subst transfer.simps) simp
    moreover have "k = length (queued q1)" using Suc.hyps(2) q recv by simp
    ultimately show ?thesis
      using Suc.hyps(1) [OF _ recv(6) new1(5)] recv new1 q room by simp
  qed
qed

lemma missed_notifications_state:
  assumes "missed_notifications db k r platform n f = (res, n')"
  shows "n' = n \<or> n' = f n"
  using assms by (auto simp: missed_notifications_def Let_def split: sum.splits if_splits)

lemma missed_notifications_size:
  assumes "missed_notifications db k r platform n f = (Inr ms, n')"
  shows "length ms \<le> queueSize n'"
  using assms by (auto simp: missed_notifications_def Let_def split: sum.splits if_splits)

lemma heap_ok_update:
  assumes "heap_ok s h" "a < length h" "queue_ok q" "q_size q = s" "q_id q = q_id (h ! a)"
  shows "heap_ok s (h[a := q])" "map q_id (h[a := q]) = map q_id h"
proof -
  show ids: "map q_id (h[a := q]) = map q_id h" by (simp add: map_update assms(5)) (metis assms(2) list_update_id nth_map)
  have "\<forall>x \<in> set (h[a := q]). queue_ok x \<and> q_size x = s"
    using assms set_update_subset_insert [of h a q] unfolding heap_ok_def by blast
  with assms(1) ids show "heap_ok s (h[a := q])" by (simp add: heap_ok_def)
qed

text \<open>The last critical section of a registration.\<close>

lemma swap_queue_ok:
  assumes ok: "notificator_ok used n" and a: "a < length (n_heap n)"
    and b: "b < length (n_heap n)" "b \<notin> set (all_queues (n_consumers n))" "a \<noteq> b"
    and q: "queue_ok q" "q_size q = queueSize n" "q_id q = q_id (n_heap n ! a)"
    and new: "queue_ok new" "q_size new = queueSize n" "q_id new = q_id (n_heap n ! b)"
  shows "notificator_ok used (n\<lparr>n_heap := (n_heap n)[a := q, b := new]\<rparr>)"
    and "rely n (n\<lparr>n_heap := (n_heap n)[a := q, b := new]\<rparr>)"
    and "ReplaceQueue ((n_heap n)[a := q, b := new]) (q_id q) b (n_consumers n) = Inr c \<Longrightarrow>
      notificator_ok used (n\<lparr>n_heap := (n_heap n)[a := q, b := new], n_consumers := c\<rparr>)"
    and "ReplaceQueue ((n_heap n)[a := q, b := new]) (q_id q) b (n_consumers n) = Inr c \<Longrightarrow>
      set (all_queues c) \<subseteq> insert b (set (all_queues (n_consumers n)))"
proof -
  let ?h = "(n_heap n)[a := q, b := new]"
  have h: "heap_ok (queueSize n) (n_heap n)" and c: "consumers_ok (length (n_heap n)) (n_consumers n)"
    using ok by (simp_all add: notificator_ok_def)
  have h1: "heap_ok (queueSize n) ((n_heap n)[a := q])" "map q_id ((n_heap n)[a := q]) = map q_id (n_heap n)"
    using heap_ok_update [OF h a q] by auto
  have b': "q_id new = q_id ((n_heap n)[a := q] ! b)" using new(3) b(3) by simp
  have h2: "heap_ok (queueSize n) ?h" "map q_id ?h = map q_id (n_heap n)"
    using heap_ok_update [OF h1(1) _ new(1,2) b'] b(1) h1(2) by auto
  then have "q_id ` set ?h = q_id ` set (n_heap n)" by (metis image_set)
  with h2 ok show ok': "notificator_ok used (n\<lparr>n_heap := ?h\<rparr>)" by (simp add: notificator_ok_def)
  have "\<forall>i < length (n_heap n). q_id (?h ! i) = q_id (n_heap n ! i)" using h2(2) by (metis length_list_update nth_map)
  then show "rely n (n\<lparr>n_heap := ?h\<rparr>)" by (simp add: rely_def)
  assume rep: "ReplaceQueue ?h (q_id q) b (n_consumers n) = Inr c"
  have id: "q_id q = q_id (?h ! a)" using a b(3) by simp
  have c2: "consumers_ok (length ?h) (n_consumers n)" and ids: "distinct (map q_id ?h)"
    using c h2(1) by (simp_all add: heap_ok_def)
  have "a \<in> set (all_queues (n_consumers n))"
  proof (rule ccontr)
    assume "a \<notin> set (all_queues (n_consumers n))"
    then have "find_queue ?h (q_id q) (n_consumers n) = None"
      unfolding id using find_queue_unregistered [OF c2 ids, of a] a by simp
    with rep show False by (simp add: ReplaceQueue_def)
  qed
  then obtain p where p: "a \<in> set (queues_of p (n_consumers n))"
    using set_all_queues [OF consumers_okD(1) [OF c]] by blast
  obtain i where "c = put_queues p ((queues_of p (n_consumers n))[i := b]) (n_consumers n)" "consumers_ok (length ?h) c"
    using consumers_ok_ReplaceQueue [OF c2 ids b(2) _ p] b(1) rep unfolding id by auto
  then show "notificator_ok used (n\<lparr>n_heap := ?h, n_consumers := c\<rparr>)"
    and "set (all_queues c) \<subseteq> insert b (set (all_queues (n_consumers n)))"
    using ok' set_all_queues [OF consumers_okD(1) [OF c]] set_all_queues [OF consumers_okD(1)]
      set_update_subset_insert [of "queues_of p (n_consumers n)" i b]
    by (auto simp: notificator_ok_def split: if_splits)
qed


definition runs_ok :: "('w \<Rightarrow> string set) \<Rightarrow> 'w notificator \<Rightarrow> ('r \<times> 'w notificator) option \<Rightarrow> bool" where
  "runs_ok used n res \<longleftrightarrow> (\<exists>r n'. res = Some (r, n') \<and> notificator_ok used n' \<and> rely n n')"

lemma runs_okI: "notificator_ok used n' \<Longrightarrow> rely n n' \<Longrightarrow> runs_ok used n (Some (r, n'))"
  by (simp add: runs_ok_def)

lemma runs_ok_rely: "rely n n' \<Longrightarrow> runs_ok used n' res \<Longrightarrow> runs_ok used n res"
  unfolding runs_ok_def using rely_trans by blast

lemma take_over_ok:
  assumes ok: "notificator_ok used n" and a: "a < length (n_heap n)" "a < N"
    and b: "b < length (n_heap n)" "b \<notin> set (all_queues (n_consumers n))" "N \<le> b"
  shows "\<exists>r n'. take_over a b n = Some (r, n') \<and> notificator_ok used n' \<and>
    (\<forall>m. rely m n \<longrightarrow> length (n_heap m) \<le> N \<longrightarrow> rely m n')"
proof -
  have h: "heap_ok (queueSize n) (n_heap n)" using ok by (simp add: notificator_ok_def)
  have ab: "a \<noteq> b" using a b by simp
  obtain r q new where tr: "transfer (n_heap n ! a) (n_heap n ! b) = Some (r, q, new)"
    and q: "queue_ok q" "q_size q = queueSize n" "q_id q = q_id (n_heap n ! a)"
    and new: "queue_ok new" "q_size new = queueSize n" "q_id new = q_id (n_heap n ! b)"
    using transfer_ok [of "n_heap n ! a" "n_heap n ! b"] heap_ok_nth [OF h] a b by auto
  note swap = swap_queue_ok [OF ok a(1) b(1,2) ab q new]
  let ?n = "n\<lparr>n_heap := (n_heap n)[a := q, b := new]\<rparr>"
  have rely: "rely m ?n" if "rely m n" for m using that swap(2) rely_trans by blast
  show ?thesis
  proof (cases "r = Inr () \<and> (\<exists>c. ReplaceQueue (n_heap ?n) (q_id q) b (n_consumers ?n) = Inr c)")
    case True
    then obtain c where c: "ReplaceQueue ((n_heap n)[a := q, b := new]) (q_id q) b (n_consumers n) = Inr c" by auto
    have "rely m (?n\<lparr>n_consumers := c\<rparr>)" if "rely m n" "length (n_heap m) \<le> N" for m
      using rely [OF that(1)] swap(4) [OF c] that b(3) by (auto simp: rely_def)
    with True c tr swap(3) [OF c] show ?thesis by (simp add: take_over_def)
  next
    case False
    with tr swap(1) rely show ?thesis
      by (auto simp: take_over_def Let_def split: sum.splits)
  qed
qed

lemma fill_new_queue_ok:
  assumes ok: "notificator_ok used n" and b: "b < length (n_heap n)" "queued (n_heap n ! b) = []" "\<not> isClosed (n_heap n ! b)"
    and ms: "length ms \<le> queueSize n"
  shows "\<exists>q. enqueue_each ms (n_heap n ! b) = Some (Inr q) \<and> queued q = ms \<and> \<not> isClosed q \<and>
    notificator_ok used (n\<lparr>n_heap := (n_heap n)[b := q]\<rparr>) \<and> rely n (n\<lparr>n_heap := (n_heap n)[b := q]\<rparr>)"
proof -
  have h: "heap_ok (queueSize n) (n_heap n)" using ok by (simp add: notificator_ok_def)
  note qb = heap_ok_nth [OF h b(1)]
  obtain q where q: "enqueue_each ms (n_heap n ! b) = Some (Inr q)" "queued q = ms" "queue_ok q" "\<not> isClosed q"
      "q_id q = q_id (n_heap n ! b)" "q_size q = queueSize n"
    using enqueue_each_spec [of "n_heap n ! b" ms] qb b ms by auto
  have h': "heap_ok (queueSize n) ((n_heap n)[b := q])" "map q_id ((n_heap n)[b := q]) = map q_id (n_heap n)"
    using heap_ok_update [OF h b(1) q(3,6,5)] by auto
  then have "q_id ` set ((n_heap n)[b := q]) = q_id ` set (n_heap n)" by (metis image_set)
  moreover have "\<forall>i < length (n_heap n). q_id ((n_heap n)[b := q] ! i) = q_id (n_heap n ! i)"
    using h'(2) by (metis length_list_update nth_map)
  ultimately show ?thesis using q h' ok by (simp add: notificator_ok_def rely_def)
qed

lemma replaceQueue_ok:
  assumes ok: "notificator_ok used n" and fresh: "fresh_ids conn used" and others: "\<And>i m. keeps_ok used m (others i m)"
    and a: "a < length (n_heap n)"
  shows "runs_ok used n (replaceQueueWithMissingNotificationsQueue conn db others a known known_to_sm platform n)"
proof -
  obtain res n1 where missed: "missed_notifications db known known_to_sm platform n (others 1) = (res, n1)"
    by (cases "missed_notifications db known known_to_sm platform n (others 1)")
  have n1: "notificator_ok used n1" "rely n n1"
    using missed_notifications_state [OF missed] ok others [of n 1] rely_refl by (auto simp: keeps_ok_def)
  obtain res2 n2 where nq: "new_queue conn n1 = (res2, n2)" by (cases "new_queue conn n1")
  note new = new_queue_ok [OF n1(1) fresh nq]
  then have n2: "notificator_ok used n2" "rely n n2" "queueSize n2 = queueSize n1" using n1(2) rely_trans rely_def by blast+
  show ?thesis
  proof (cases "\<exists>ms b. res = Inr ms \<and> res2 = Inr b")
    case False
    with missed nq n1 n2 show ?thesis
      by (cases res; cases res2) (auto simp: replaceQueueWithMissingNotificationsQueue_def runs_okI)
  next
    case True
    then obtain ms b where res: "res = Inr ms" "res2 = Inr b" by blast
    with new have b: "b = length (n_heap n1)" "b \<notin> set (all_queues (n_consumers n2))" "b < length (n_heap n2)"
      "queued (n_heap n2 ! b) = []" "\<not> isClosed (n_heap n2 ! b)" by auto
    obtain q where q: "enqueue_each ms (n_heap n2 ! b) = Some (Inr q)"
      and n3: "notificator_ok used (n2\<lparr>n_heap := (n_heap n2)[b := q]\<rparr>)" "rely n2 (n2\<lparr>n_heap := (n_heap n2)[b := q]\<rparr>)"
      using fill_new_queue_ok [OF n2(1) b(3-5), of ms] missed_notifications_size missed res n2(3) by metis
    let ?n4 = "others 2 (n2\<lparr>n_heap := (n_heap n2)[b := q]\<rparr>)"
    have n4: "notificator_ok used ?n4" "rely (n2\<lparr>n_heap := (n_heap n2)[b := q]\<rparr>) ?n4"
      using others n3(1) by (auto simp: keeps_ok_def)
    then have "rely n ?n4" using n2(2) n3(2) rely_trans by blast
    moreover have "b < length (n_heap ?n4)" "b \<notin> set (all_queues (n_consumers ?n4))" using n4(2) b by (auto simp: rely_def)
    moreover have "a < length (n_heap ?n4)" "length (n_heap n) \<le> b" using a b n1(2) \<open>rely n ?n4\<close> by (auto simp: rely_def)
    ultimately show ?thesis
      using take_over_ok [OF n4(1) _ a, of b] missed nq res q
      by (auto simp: replaceQueueWithMissingNotificationsQueue_def runs_ok_def)
  qed
qed

lemma RegisterConsumer_ok:
  assumes ok: "notificator_ok used n" and fresh: "fresh_ids conn used" and others: "\<And>i m. keeps_ok used m (others i m)"
  shows "runs_ok used n (RegisterConsumer conn db others platform known n)"
proof (cases "isConnected n")
  case True
  obtain res n1 where nq: "new_queue conn n = (res, n1)" by (cases "new_queue conn n")
  note new = new_queue_ok [OF ok fresh nq]
  show ?thesis
  proof (cases res)
    case (Inl err)
    with True nq new show ?thesis by (simp add: RegisterConsumer_def runs_okI)
  next
    case (Inr a)
    then have a: "a = length (n_heap n)" "a < length (n_heap n1)" "a \<notin> set (all_queues (n_consumers n1))" using new by auto
    obtain res2 n2 where add: "addConsumer conn db platform a n1 = (res2, n2)" by (cases "addConsumer conn db platform a n1")
    note n2 = addConsumer_ok [OF conjunct1 [OF new] fresh a(2,3) add]
    have rely2: "rely n n2" using n2 new a(1) by (auto simp: rely_def)
    show ?thesis
    proof (cases "\<exists>v. res2 = Inr v \<and> \<not> (known = InvalidRevision \<or> known = v)")
      case False
      with True nq Inr add n2 rely2 show ?thesis
        by (cases res2) (auto simp: RegisterConsumer_def intro!: runs_okI)
    next
      case True
      then obtain v where v: "res2 = Inr v" "known \<noteq> InvalidRevision" "known \<noteq> v" by blast
      let ?n3 = "others 0 n2"
      have n3: "notificator_ok used ?n3" "rely n2 ?n3" using others [of n2 0] n2 by (auto simp: keeps_ok_def)
      let ?rest = "if known > v then Some (Inl ErrInvalidNotificationRevision, ?n3)
        else replaceQueueWithMissingNotificationsQueue conn db others a known v platform ?n3"
      have a3: "a < length (n_heap ?n3)" using n3(2) n2 a(2) by (auto simp: rely_def)
      obtain r n4 where rest: "?rest = Some (r, n4)" and n4: "notificator_ok used n4" "rely ?n3 n4"
        using replaceQueue_ok [where others = others, OF n3(1) fresh others a3, of db known v platform] n3(1) rely_refl [of ?n3]
        unfolding runs_ok_def by (metis (no_types, lifting))
      have eq: "RegisterConsumer conn db others platform known n = (case r of
            Inl err \<Rightarrow> map_option (\<lambda>n. (Inl err, n)) (UnregisterConsumer a (others 3 n4)) | Inr b \<Rightarrow> Some (Inr (b, v), n4))"
        using \<open>isConnected n\<close> nq Inr add v rest by (simp add: RegisterConsumer_def Let_def split: sum.splits)
      have rely4: "rely n n4" using rely2 n3(2) n4(2) rely_trans by blast
      have n5: "notificator_ok used (others 3 n4)" "rely n4 (others 3 n4)" using others [of n4 3] n4(1) by (auto simp: keeps_ok_def)
      have "a < length (n_heap (others 3 n4))" using a3 n4(2) n5(2) by (auto simp: rely_def)
      then obtain n6 where "UnregisterConsumer a (others 3 n4) = Some n6" "notificator_ok used n6" "rely (others 3 n4) n6"
        using UnregisterConsumer_ok [OF n5(1)] by blast
      with rely4 n4(1) n5(2) show ?thesis
        unfolding eq by (cases r) (auto intro!: runs_okI intro: rely_trans)
    qed
  qed
qed (use ok rely_refl [of n] in \<open>simp add: RegisterConsumer_def runs_okI\<close>)

subsection \<open>Interleavings\<close>

text \<open>
  The runs of the notificator: any interleaving of the critical sections of its goroutines and
  clients.  While a registration is between two of its sections, others may run (also other
  registrations, to any depth).  Consumers read from their queues, and the database changes.
\<close>

inductive notificator_run :: "'w connection \<Rightarrow> 'w notification_db \<Rightarrow> (string \<Rightarrow> (error, notifyEventPayload) result) \<Rightarrow>
    ('w \<Rightarrow> string set) \<Rightarrow> 'w notificator \<Rightarrow> 'w notificator \<Rightarrow> bool"
  for conn db getPayload used where
  run_refl: "notificator_run conn db getPayload used n n"
| run_trans: "notificator_run conn db getPayload used n n' \<Longrightarrow> notificator_run conn db getPayload used n' n'' \<Longrightarrow>
    notificator_run conn db getPayload used n n''"
| run_connection: "notificator_run conn db getPayload used n (connection_event b n)"
| run_filter: "notificator_run conn db getPayload used n (RegisterFilter f n)"
| run_register: "(\<And>i m. notificator_run conn db getPayload used m (others i m)) \<Longrightarrow>
    RegisterConsumer conn db others platform known n = Some (r, n') \<Longrightarrow> notificator_run conn db getPayload used n n'"
| run_unregister: "a < length (n_heap n) \<Longrightarrow> UnregisterConsumer a n = Some n' \<Longrightarrow> notificator_run conn db getPayload used n n'"
| run_event: "process_event conn db getPayload ev n = Some (True, n') \<Longrightarrow> notificator_run conn db getPayload used n n'"
| run_exit: "process_event conn db getPayload ev n = Some (False, n') \<Longrightarrow> stop_listening conn n' = Some n'' \<Longrightarrow>
    notificator_run conn db getPayload used n n''"
| run_stop: "notificator_run conn db getPayload used n (stopConnection n)"
| run_receive: "a < length (n_heap n) \<Longrightarrow> Receive (n_heap n ! a) = Done (x, q) \<Longrightarrow>
    notificator_run conn db getPayload used n (n\<lparr>n_heap := (n_heap n)[a := q]\<rparr>)"
| run_world: "used (n_world n) \<subseteq> used w \<Longrightarrow> notificator_run conn db getPayload used n (n\<lparr>n_world := w\<rparr>)"

lemma Receive_ok:
  "queue_ok q \<Longrightarrow> Receive q = Done (x, q') \<Longrightarrow> queue_ok q' \<and> q_id q' = q_id q \<and> q_size q' = q_size q"
  by (auto simp: Receive_def chan_recv_def queue_ok_def split: list.splits if_splits)

lemma notificator_run_keeps:
  assumes "notificator_run conn db getPayload used n n'" and fresh: "fresh_ids conn used"
  shows "keeps_ok used n n'"
  using assms(1)
proof induction
  case (run_trans n n' n'')
  then show ?case using keeps_ok_trans by blast
next
  case (run_connection n b)
  then show ?case by (auto simp: keeps_ok_def connection_event_def stopProcessing_def notificator_ok_def rely_def)
next
  case (run_register others platform known n r n')
  show ?case
    using RegisterConsumer_ok [where others = others, OF _ fresh run_register.IH, of n db platform known] run_register.hyps(2)
    by (auto simp: keeps_ok_def runs_ok_def)
next
  case (run_unregister a n n')
  then show ?case using UnregisterConsumer_ok [of used n a] by (auto simp: keeps_ok_def)
next
  case (run_event ev n n')
  then show ?case using process_event_ok [OF _ fresh, of n db getPayload ev] by (auto simp: keeps_ok_def)
next
  case (run_exit ev n n' n'')
  then show ?case
    using process_event_ok [OF _ fresh, of n db getPayload ev] stop_listening_ok [OF _ fresh, of n']
    by (auto simp: keeps_ok_def intro: rely_trans)
next
  case (run_receive a n x q)
  then have "heap_ok (queueSize n) ((n_heap n)[a := q]) \<and> map q_id ((n_heap n)[a := q]) = map q_id (n_heap n)"
    if "heap_ok (queueSize n) (n_heap n)"
    using that heap_ok_update [OF that run_receive(1), of q] heap_ok_nth [OF that run_receive(1)] Receive_ok by metis
  then show ?case
    unfolding keeps_ok_def notificator_ok_def rely_def
    by (simp, metis (no_types, lifting) image_set length_list_update nth_map)
next
  case (run_world n w)
  then show ?case by (auto simp: keeps_ok_def notificator_ok_def rely_def image_subset_iff)
qed (auto simp: keeps_ok_def rely_refl RegisterFilter_def stopConnection_def stopProcessing_def notificator_ok_def rely_def)

lemma NewNotificator_ok: "notificator_ok used (NewNotificator s w)"
  by (simp add: notificator_ok_def NewNotificator_def consumers_ok_def all_queues_def heap_ok_def)


subsection \<open>Delivery\<close>

text \<open>
  A filter decides for each platform on its own whether it receives a notification, as the interface
  documents it.
\<close>

definition pointwise :: "receivers_filter list \<Rightarrow> bool" where
  "pointwise fs \<longleftrightarrow> (\<forall>f \<in> set fs. \<exists>P. \<forall>ps m. f ps m = filter (\<lambda>p. P p m) ps)"

definition receives :: "receivers_filter list \<Rightarrow> Notification \<Rightarrow> Platform \<Rightarrow> bool" where
  "receives fs m p \<longleftrightarrow> filterRecipients_from fs [p] m \<noteq> []"

lemma filterRecipients_pointwise:
  "pointwise fs \<Longrightarrow> filterRecipients_from fs ps m = filter (receives fs m) ps"
proof (induction fs arbitrary: ps)
  case Nil
  then show ?case by (simp add: receives_def)
next
  case (Cons f fs)
  then obtain P where P: "\<And>ps m. f ps m = filter (\<lambda>p. P p m) ps" unfolding pointwise_def by auto
  have IH: "filterRecipients_from fs ps m = filter (receives fs m) ps" for ps
    using Cons by (simp add: pointwise_def)
  have one: "receives (f # fs) m p \<longleftrightarrow> P p m \<and> receives fs m p" for p
    by (simp add: receives_def [of "f # fs"] P IH)
  have "filter (receives (f # fs) m) ps = filter (receives fs m) (filter (\<lambda>p. P p m) ps)"
    unfolding filter_filter by (rule filter_cong) (auto simp: one)
  then show ?case by (simp add: P IH Let_def del: filter_filter)
qed

lemma send_to_all_spec:
  assumes "heap_ok s h" "consumers_ok (length h) c" "distinct (map ID ps)"
  shows "send_to_all ps c m h = Some (at_queues (deliver m) (\<Union>p \<in> set ps. set (queues_of (ID p) c)) h)"
  using assms
proof (induction ps arbitrary: h)
  case (Cons p ps)
  note ok' = consumers_okD [OF Cons.prems(2)]
  let ?A = "set (queues_of (ID p) c)" and ?B = "\<Union>p \<in> set ps. set (queues_of (ID p) c)"
  have "\<forall>a \<in> ?A. a < length h" using set_all_queues [OF ok'(1)] ok'(5) by blast
  then have send: "sendNotificationToPlatformConsumers (queues_of (ID p) c) m h = Some (at_queues (deliver m) ?A h)"
    using consumers_ok_distinct [OF Cons.prems(2)] by (intro send_spec [OF Cons.prems(1)]) auto
  have "?A \<inter> ?B = {}" using queues_of_disjoint [OF Cons.prems(2)] Cons.prems(3) by (auto simp: image_iff)
  moreover have "heap_ok s (at_queues (deliver m) ?A h)" by (rule heap_ok_at_queues [OF Cons.prems(1)]) auto
  ultimately show ?case
    using send Cons by (simp add: at_queues_Un)
qed simp

definition addressed :: "string \<Rightarrow> Platform \<Rightarrow> bool" where
  "addressed pid p \<longleftrightarrow> pid = '''' \<or> pid = ID p"

lemma GetPlatform_iff:
  assumes "distinct (map ID (platforms c))"
  shows "GetPlatform pid c = Some p \<longleftrightarrow> p \<in> set (platforms c) \<and> ID p = pid"
proof
  assume "GetPlatform pid c = Some p"
  then show "p \<in> set (platforms c) \<and> ID p = pid" by (auto simp: GetPlatform_def find_Some_iff)
next
  assume p: "p \<in> set (platforms c) \<and> ID p = pid"
  then obtain q where "GetPlatform pid c = Some q"
    by (cases "GetPlatform pid c") (auto simp: GetPlatform_def find_None_iff)
  moreover from this have "q \<in> set (platforms c)" "ID q = pid" by (auto simp: GetPlatform_def find_Some_iff)
  ultimately show "GetPlatform pid c = Some p" using p assms by (metis distinct_map inj_on_contraD)
qed

lemma getRecipients_filter:
  assumes "distinct (map ID (platforms c))"
  shows "set (getRecipients pid c) = {p \<in> set (platforms c). addressed pid p} \<and> distinct (map ID (getRecipients pid c))"
proof (cases "GetPlatform pid c")
  case None
  then have "\<forall>p \<in> set (platforms c). ID p \<noteq> pid" using GetPlatform_iff [OF assms, of pid] by simp
  with None assms show ?thesis by (auto simp: getRecipients_def addressed_def)
next
  case (Some q)
  then have "\<forall>p. p \<in> set (platforms c) \<and> ID p = pid \<longleftrightarrow> p = q"
    unfolding GetPlatform_iff [OF assms, of pid, symmetric] by auto
  with Some assms show ?thesis by (auto simp: getRecipients_def addressed_def)
qed

text \<open>The queues that a notification reaches.\<close>

definition reached :: "'w notificator \<Rightarrow> string \<Rightarrow> Notification \<Rightarrow> nat set" where
  "reached n pid m = (\<Union>p \<in> {p \<in> set (platforms (n_consumers n)). addressed pid p \<and> receives (notificationFilters n) m p}.
     set (queues_of (ID p) (n_consumers n)))"

lemma processNotificationPayload_spec:
  assumes ok: "notificator_ok used n" and fs: "pointwise (notificationFilters n)"
    and m: "GetNotification db (pl_NotificationID payload) (n_world n) = Inr m"
  shows "processNotificationPayload db payload n = Some (Inr (), n\<lparr>lastKnownRevision := pl_Revision payload,
    n_heap := at_queues (deliver m) (reached n (pl_PlatformID payload) m) (n_heap n)\<rparr>)"
proof -
  let ?c = "n_consumers n" and ?pid = "pl_PlatformID payload"
  have h: "heap_ok (queueSize n) (n_heap n)" and c: "consumers_ok (length (n_heap n)) ?c"
    using ok by (simp_all add: notificator_ok_def)
  note rec = getRecipients_filter [OF consumers_okD(2) [OF c], of ?pid]
  let ?ps = "filter (receives (notificationFilters n) m) (getRecipients ?pid ?c)"
  have "(\<Union>p \<in> set ?ps. set (queues_of (ID p) ?c)) = reached n ?pid m" using rec by (auto simp: reached_def)
  moreover have "distinct (map ID ?ps)" using rec by (simp add: distinct_map_filter)
  ultimately have send: "send_to_all ?ps ?c m (n_heap n) = Some (at_queues (deliver m) (reached n ?pid m) (n_heap n))"
    using send_to_all_spec [OF h c, of ?ps m] by simp
  show ?thesis
  proof (cases "getRecipients ?pid ?c = []")
    case True
    then have "{p \<in> set (platforms ?c). addressed ?pid p} = {}" using rec by (metis list.set(1))
    then have "reached n ?pid m = {}" by (auto simp: reached_def)
    then have "n\<lparr>lastKnownRevision := pl_Revision payload,
        n_heap := at_queues (deliver m) (reached n ?pid m) (n_heap n)\<rparr> = n\<lparr>lastKnownRevision := pl_Revision payload\<rparr>"
      by simp
    with True show ?thesis by (simp add: processNotificationPayload_def)
  next
    case False
    with send m show ?thesis
      by (simp add: processNotificationPayload_def filterRecipients_def filterRecipients_pointwise [OF fs])
  qed
qed

subsection \<open>Registration without a gap\<close>

text \<open>
  The notifications a platform is to get: those addressed to it or to every platform, which the
  filters let through.
\<close>

definition wanted :: "receivers_filter list \<Rightarrow> Platform \<Rightarrow> Notification \<Rightarrow> bool" where
  "wanted fs p m \<longleftrightarrow> addressed (n_PlatformID m) p \<and> receives fs m p"

definition payload_of :: "Notification \<Rightarrow> notifyEventPayload" where
  "payload_of m = \<lparr>pl_PlatformID = n_PlatformID m, pl_NotificationID = ID m, pl_Revision = n_Revision m\<rparr>"

text \<open>The goroutine that processes the announcements of a list of notifications, one after the other.\<close>

primrec processing :: "'w notification_db \<Rightarrow> Notification list \<Rightarrow> 'w notificator \<Rightarrow> 'w notificator" where
  "processing db [] n = n"
| "processing db (m # ms) n =
     (case processNotificationPayload db (payload_of m) n of
        Some (_, n') \<Rightarrow> processing db ms n'
      | None \<Rightarrow> n)"

text \<open>
  The database holds \<open>ns\<close>, by ascending revision: it finds each by its identity and by its revision
  and lists those of a platform between two revisions.
\<close>

definition serves :: "'w notification_db \<Rightarrow> Notification list \<Rightarrow> string \<Rightarrow> int \<Rightarrow> int \<Rightarrow> bool" where
  "serves db ns pid known r \<longleftrightarrow>
     (\<forall>w. \<forall>m \<in> set ns. db_Get db [ByField EqualsOperator ''id'' [ID m]] w = Inr m) \<and>
     (\<forall>w. db_List db [ByField EqualsOperator ''revision'' [strconv_Itoa known]] w = Inr (filter (\<lambda>m. n_Revision m = known) ns)) \<and>
     (\<forall>w. db_List db (notifications_between pid known r) w =
        Inr (filter (\<lambda>m. known < n_Revision m \<and> n_Revision m \<le> r \<and> (n_PlatformID m = '''' \<or> n_PlatformID m = pid)) ns))"

lemma serves_GetNotification: "serves db ns pid k r \<Longrightarrow> m \<in> set ns \<Longrightarrow> GetNotification db (ID m) w = Inr m"
  by (simp add: serves_def GetNotification_def)

lemma serves_ListNotifications:
  "serves db ns (ID p) k r \<Longrightarrow> ListNotifications db (ID p) k r w =
     Inr (filter (\<lambda>m. k < n_Revision m \<and> n_Revision m \<le> r \<and> addressed (n_PlatformID m) p) ns)"
  by (simp add: serves_def ListNotifications_def addressed_def)

lemma sorted_revision_unique:
  assumes "sorted_wrt (\<lambda>a b. n_Revision a < n_Revision b) ns" "m \<in> set ns"
  shows "filter (\<lambda>x. n_Revision x = n_Revision m) ns = [m]"
  using assms by (induction ns) (auto simp: filter_empty_conv)

lemma serves_GetNotificationByRevision:
  assumes "serves db ns pid (n_Revision m) r" "sorted_wrt (\<lambda>a b. n_Revision a < n_Revision b) ns" "m \<in> set ns"
  shows "GetNotificationByRevision db (n_Revision m) w = Inr m"
  using assms sorted_revision_unique [OF assms(2,3)] by (simp add: serves_def GetNotificationByRevision_def)

text \<open>The queue at address \<open>a\<close> is registered for \<open>p\<close> and holds \<open>xs\<close>.\<close>

definition tracks :: "('w \<Rightarrow> string set) \<Rightarrow> receivers_filter list \<Rightarrow> nat \<Rightarrow> Platform \<Rightarrow> nat \<Rightarrow> 'w notificator \<Rightarrow>
    Notification list \<Rightarrow> bool" where
  "tracks used fs s p a n xs \<longleftrightarrow>
     notificator_ok used n \<and> notificationFilters n = fs \<and> queueSize n = s \<and> p \<in> set (platforms (n_consumers n)) \<and>
     a \<in> set (queues_of (ID p) (n_consumers n)) \<and> \<not> isClosed (n_heap n ! a) \<and> queued (n_heap n ! a) = xs"

lemma tracks_address:
  assumes "tracks used fs s p a n xs"
  shows "a < length (n_heap n)" and "a \<in> set (all_queues (n_consumers n))" and "q_size (n_heap n ! a) = s"
    and "a \<in> reached n pid m \<longleftrightarrow> addressed pid p \<and> receives fs m p"
proof -
  have c: "consumers_ok (length (n_heap n)) (n_consumers n)" and h: "heap_ok s (n_heap n)"
    and a: "a \<in> set (queues_of (ID p) (n_consumers n))" and p: "p \<in> set (platforms (n_consumers n))"
    and fs: "notificationFilters n = fs"
    using assms by (auto simp: tracks_def notificator_ok_def)
  show reg: "a \<in> set (all_queues (n_consumers n))" using a set_all_queues [OF consumers_okD(1) [OF c]] by blast
  show lt: "a < length (n_heap n)" by (rule consumers_okD(5) [OF c reg])
  show "q_size (n_heap n ! a) = s" using heap_ok_nth [OF h lt] by simp
  have "p' = p" if "p' \<in> set (platforms (n_consumers n))" "a \<in> set (queues_of (ID p') (n_consumers n))" for p'
    using queues_of_disjoint [OF c a that(2)] that(1) p consumers_okD(2) [OF c] by (metis distinct_map inj_onD)
  then show "a \<in> reached n pid m \<longleftrightarrow> addressed pid p \<and> receives fs m p"
    using a p fs unfolding reached_def UN_iff mem_Collect_eq by blast
qed

lemma process_tracks:
  assumes t: "tracks used fs s p a n xs" and fs: "pointwise fs" and m: "GetNotification db (ID m) (n_world n) = Inr m"
    and room: "length (xs @ filter (wanted fs p) [m]) \<le> s"
  shows "\<exists>n'. processNotificationPayload db (payload_of m) n = Some (Inr (), n') \<and>
    tracks used fs s p a n' (xs @ filter (wanted fs p) [m]) \<and> n_consumers n' = n_consumers n \<and> n_world n' = n_world n \<and>
    length (n_heap n') = length (n_heap n) \<and>
    (\<forall>b < length (n_heap n). b \<notin> set (all_queues (n_consumers n)) \<longrightarrow> n_heap n' ! b = n_heap n ! b)"
proof -
  note a = tracks_address [OF t]
  have ok: "notificator_ok used n" "notificationFilters n = fs" using t by (auto simp: tracks_def)
  note spec = processNotificationPayload_spec [OF ok(1), of db "payload_of m" m]
  obtain r n' where run: "processNotificationPayload db (payload_of m) n = Some (r, n')" "notificator_ok used n'"
    using processNotificationPayload_ok [OF ok(1), of db "payload_of m"] by blast
  have n': "r = Inr ()" "n' = n\<lparr>lastKnownRevision := n_Revision m,
      n_heap := at_queues (deliver m) (reached n (n_PlatformID m) m) (n_heap n)\<rparr>"
    using spec run fs m ok(2) by (auto simp: payload_of_def)
  have "b \<notin> reached n (n_PlatformID m) m" if "b \<notin> set (all_queues (n_consumers n))" for b
    using that set_all_queues [OF consumers_okD(1), of "length (n_heap n)" "n_consumers n" b] ok(1)
    by (auto simp: reached_def notificator_ok_def)
  then have same: "\<forall>b < length (n_heap n). b \<notin> set (all_queues (n_consumers n)) \<longrightarrow> n_heap n' ! b = n_heap n ! b"
    by (simp add: n')
  have "tracks used fs s p a n' (xs @ filter (wanted fs p) [m])"
    using t run(2) a room by (auto simp: tracks_def n' deliver_def wanted_def)
  with run n' same show ?thesis by simp
qed

lemma processing_tracks:
  assumes "tracks used fs s p a n xs" "pointwise fs" "\<forall>w. \<forall>m \<in> set ms. GetNotification db (ID m) w = Inr m"
    and "length (xs @ filter (wanted fs p) ms) \<le> s"
  shows "tracks used fs s p a (processing db ms n) (xs @ filter (wanted fs p) ms) \<and>
    n_consumers (processing db ms n) = n_consumers n \<and> n_world (processing db ms n) = n_world n \<and>
    length (n_heap (processing db ms n)) = length (n_heap n) \<and>
    (\<forall>b < length (n_heap n). b \<notin> set (all_queues (n_consumers n)) \<longrightarrow> n_heap (processing db ms n) ! b = n_heap n ! b)"
  using assms
proof (induction ms arbitrary: n xs)
  case (Cons m ms)
  have room: "length (xs @ filter (wanted fs p) [m]) \<le> s" using Cons.prems(4) by (auto split: if_splits)
  have m: "GetNotification db (ID m) (n_world n) = Inr m" using Cons.prems(3) by simp
  obtain n' where n': "processNotificationPayload db (payload_of m) n = Some (Inr (), n')"
    "tracks used fs s p a n' (xs @ filter (wanted fs p) [m])" "n_consumers n' = n_consumers n" "n_world n' = n_world n"
    "length (n_heap n') = length (n_heap n)"
    "\<forall>b < length (n_heap n). b \<notin> set (all_queues (n_consumers n)) \<longrightarrow> n_heap n' ! b = n_heap n ! b"
    using process_tracks [OF Cons.prems(1,2) m room] by blast
  have "length ((xs @ filter (wanted fs p) [m]) @ filter (wanted fs p) ms) \<le> s" using Cons.prems(4) by (simp split: if_splits)
  note IH = Cons.IH [OF n'(2) Cons.prems(2) _ this]
  have "xs @ filter (wanted fs p) (m # ms) = (xs @ filter (wanted fs p) [m]) @ filter (wanted fs p) ms" by simp
  with IH n' Cons.prems(3) show ?case by simp
qed simp


definition ids_available :: "'w connection \<Rightarrow> bool" where
  "ids_available conn \<longleftrightarrow> (\<forall>w. \<exists>u w'. NewV4 conn w = (Inr u, w'))"

lemma new_queue_available:
  assumes ok: "notificator_ok used n" and fresh: "fresh_ids conn used" and ids: "ids_available conn"
  shows "\<exists>n' q. new_queue conn n = (Inr (length (n_heap n)), n') \<and> notificator_ok used n' \<and> n_heap n' = n_heap n @ [q] \<and>
    queued q = [] \<and> \<not> isClosed q \<and> q_size q = queueSize n \<and> queueSize n' = queueSize n \<and> n_consumers n' = n_consumers n \<and>
    isConnected n' = isConnected n \<and> isListening n' = isListening n \<and> lastKnownRevision n' = lastKnownRevision n \<and>
    notificationFilters n' = notificationFilters n"
proof -
  obtain u w' where "NewV4 conn (n_world n) = (Inr u, w')" using ids unfolding ids_available_def by blast
  then obtain n' where run: "new_queue conn n = (Inr (length (n_heap n)), n')"
    by (auto simp: new_queue_def NewNotificationQueue_def)
  then show ?thesis using new_queue_ok [OF ok fresh run] by (auto simp: rely_def)
qed

text \<open>The first critical section of a registration while the notificator is listening.\<close>

lemma addConsumer_tracks:
  assumes ok: "notificator_ok used n" and fresh: "fresh_ids conn used" and ids: "ids_available conn"
    and l: "isListening n" and p: "\<forall>p' \<in> set (platforms (n_consumers n)). ID p' = ID p \<longrightarrow> p' = p"
  shows "\<exists>n1 n2. new_queue conn n = (Inr (length (n_heap n)), n1) \<and>
    addConsumer conn db p (length (n_heap n)) n1 = (Inr (lastKnownRevision n), n2) \<and>
    tracks used (notificationFilters n) (queueSize n) p (length (n_heap n)) n2 []"
proof -
  obtain n1 q where n1: "new_queue conn n = (Inr (length (n_heap n)), n1)" "notificator_ok used n1" "n_heap n1 = n_heap n @ [q]"
    "queued q = []" "\<not> isClosed q" "q_size q = queueSize n" "queueSize n1 = queueSize n" "n_consumers n1 = n_consumers n"
    "isListening n1" "lastKnownRevision n1 = lastKnownRevision n" "notificationFilters n1 = notificationFilters n"
    using new_queue_available [OF ok fresh ids] l by auto
  have c: "consumers_ok (length (n_heap n)) (n_consumers n)" using ok by (simp add: notificator_ok_def)
  then have free: "length (n_heap n) \<notin> set (all_queues (n_consumers n1))" using consumers_okD(5) [OF c] n1(8) by (metis less_irrefl)
  let ?n2 = "n1\<lparr>n_consumers := Add p (length (n_heap n)) (n_consumers n)\<rparr>"
  have run: "addConsumer conn db p (length (n_heap n)) n1 = (Inr (lastKnownRevision n), ?n2)"
    using n1 by (simp add: addConsumer_def)
  have "notificator_ok used ?n2" using addConsumer_ok [OF n1(2) fresh _ free run] n1(3,8) by simp
  moreover have "p \<in> set (platforms (Add p (length (n_heap n)) (n_consumers n)))"
  proof (cases "queues_of (ID p) (n_consumers n) = []")
    case False
    then have "ID p \<in> ID ` set (platforms (n_consumers n))"
      using queues_of_Nil_iff [OF c] consumers_okD(3) [OF c] by auto
    with p show ?thesis by (auto simp: Add_def put_queues_def)
  qed (simp add: Add_def put_queues_def)
  ultimately have "tracks used (notificationFilters n) (queueSize n) p (length (n_heap n)) ?n2 []"
    using n1 by (simp add: tracks_def queues_of_Add)
  with n1(1) run show ?thesis by blast
qed

lemma missed_notifications_spec:
  assumes db: "serves db ns (ID p) (n_Revision k) r" "sorted_wrt (\<lambda>a b. n_Revision a < n_Revision b) ns" "k \<in> set ns"
    and fs: "pointwise (notificationFilters (f n))" and ns: "ns = old @ new" "\<forall>m \<in> set old. n_Revision m \<le> r" "\<forall>m \<in> set new. r < n_Revision m"
    and size: "length (filter (\<lambda>m. wanted (notificationFilters (f n)) p m \<and> n_Revision k < n_Revision m) old) \<le> queueSize (f n)"
  shows "missed_notifications db (n_Revision k) r p n f =
    (Inr (filter (\<lambda>m. wanted (notificationFilters (f n)) p m \<and> n_Revision k < n_Revision m) old), f n)"
proof -
  have "filter (\<lambda>m. length (filterRecipients [p] m (f n)) \<noteq> 0)
      (filter (\<lambda>m. n_Revision k < n_Revision m \<and> n_Revision m \<le> r \<and> addressed (n_PlatformID m) p) ns) =
    filter (\<lambda>m. wanted (notificationFilters (f n)) p m \<and> n_Revision k < n_Revision m) old"
  proof -
    have one: "length (filterRecipients [p] m (f n)) \<noteq> 0 \<longleftrightarrow> receives (notificationFilters (f n)) m p" for m
      by (simp add: filterRecipients_def receives_def)
    have "filter (\<lambda>m. (n_Revision k < n_Revision m \<and> n_Revision m \<le> r \<and> addressed (n_PlatformID m) p) \<and>
        receives (notificationFilters (f n)) m p) new = []"
      using ns(3) by (auto simp: filter_empty_conv)
    then show ?thesis
      unfolding one filter_filter ns(1) filter_append using ns(2) by (auto simp: wanted_def intro!: filter_cong)
  qed
  with size show ?thesis
    using serves_GetNotificationByRevision [OF db] serves_ListNotifications [OF db(1)]
    by (simp add: missed_notifications_def Let_def del: filter_filter)
qed

lemma take_over_tracks:
  assumes t: "tracks used fs s p a n xs" and b: "b < length (n_heap n)" "b \<notin> set (all_queues (n_consumers n))"
    "\<not> isClosed (n_heap n ! b)" "length (queued (n_heap n ! b)) + length xs \<le> s"
  shows "\<exists>n'. take_over a b n = Some (Inr b, n') \<and> tracks used fs s p b n' (queued (n_heap n ! b) @ xs)"
proof -
  note a = tracks_address [OF t]
  have ok: "notificator_ok used n" and xs: "queued (n_heap n ! a) = xs" "\<not> isClosed (n_heap n ! a)"
    and pa: "a \<in> set (queues_of (ID p) (n_consumers n))" and s: "queueSize n = s"
    using t by (auto simp: tracks_def)
  have h: "heap_ok s (n_heap n)" and c: "consumers_ok (length (n_heap n)) (n_consumers n)"
    using ok s by (auto simp: notificator_ok_def)
  have ab: "a \<noteq> b" using a(2) b(2) by blast
  obtain q new where tr: "transfer (n_heap n ! a) (n_heap n ! b) = Some (Inr (), q, new)"
    and q: "queue_ok q" "q_size q = queueSize n" "q_id q = q_id (n_heap n ! a)"
    and new: "queue_ok new" "q_size new = queueSize n" "q_id new = q_id (n_heap n ! b)"
    and new_xs: "queued new = queued (n_heap n ! b) @ xs" "\<not> isClosed new"
    using transfer_ok [of "n_heap n ! a" "n_heap n ! b"] heap_ok_nth [OF h] a b xs s by auto
  note swap = swap_queue_ok [OF ok a(1) b(1,2) ab q new]
  let ?h = "(n_heap n)[a := q, b := new]"
  have h2: "heap_ok s ?h" using swap(1) s by (simp add: notificator_ok_def)
  have id: "q_id q = q_id (?h ! a)" using a(1) ab by simp
  have "consumers_ok (length ?h) (n_consumers n)" "distinct (map q_id ?h)" "b < length ?h" using c h2 b(1) by (simp_all add: heap_ok_def)
  then obtain i where rep: "ReplaceQueue ?h (q_id q) b (n_consumers n) =
      Inr (put_queues (ID p) ((queues_of (ID p) (n_consumers n))[i := b]) (n_consumers n))" "i < length (queues_of (ID p) (n_consumers n))"
    using consumers_ok_ReplaceQueue [OF _ _ b(2) _ pa, of ?h] unfolding id by blast
  let ?n = "n\<lparr>n_heap := ?h, n_consumers := put_queues (ID p) ((queues_of (ID p) (n_consumers n))[i := b]) (n_consumers n)\<rparr>"
  have "take_over a b n = Some (Inr b, ?n)" using tr rep by (simp add: take_over_def Let_def)
  moreover have "tracks used fs s p b ?n (queued (n_heap n ! b) @ xs)"
    using t swap(3) [OF rep(1)] rep(2) new_xs a(1) b(1) by (simp add: tracks_def set_update_memI) (simp add: put_queues_def)
  ultimately show ?thesis by blast
qed

lemma replaceQueue_tracks:
  assumes t: "tracks used fs s p a n xs" and fresh: "fresh_ids conn used" and ids: "ids_available conn" and fs: "pointwise fs"
    and db: "serves db ns (ID p) (n_Revision k) r" "sorted_wrt (\<lambda>a b. n_Revision a < n_Revision b) ns" "k \<in> set ns"
    and ns: "ns = old @ new" "\<forall>m \<in> set old. n_Revision m \<le> r" "\<forall>m \<in> set new. r < n_Revision m"
    and ms: "others 1 = processing db ms1" "others 2 = processing db ms2" "set (ms1 @ ms2) \<subseteq> set ns"
    and missed: "missed = filter (\<lambda>m. wanted fs p m \<and> n_Revision k < n_Revision m) old"
    and size: "length (missed @ xs @ filter (wanted fs p) (ms1 @ ms2)) \<le> s"
  shows "\<exists>q n'. replaceQueueWithMissingNotificationsQueue conn db others a (n_Revision k) r p n = Some (Inr q, n') \<and>
    tracks used fs s p q n' (missed @ xs @ filter (wanted fs p) (ms1 @ ms2))"
proof -
  have get: "\<forall>w. \<forall>m \<in> set ms1. GetNotification db (ID m) w = Inr m" "\<forall>w. \<forall>m \<in> set ms2. GetNotification db (ID m) w = Inr m"
    using serves_GetNotification [OF db(1)] ms(3) by auto
  let ?n1 = "processing db ms1 n" and ?xs1 = "xs @ filter (wanted fs p) ms1"
  have t1: "tracks used fs s p a ?n1 ?xs1" using processing_tracks [OF t fs get(1)] size by simp
  then have n1: "notificator_ok used ?n1" "notificationFilters ?n1 = fs" "queueSize ?n1 = s" by (auto simp: tracks_def)
  have miss: "missed_notifications db (n_Revision k) r p n (others 1) = (Inr missed, ?n1)"
    using missed_notifications_spec [OF db _ ns, of "others 1" n] n1 fs size ms(1) missed by simp
  obtain n2 q where n2: "new_queue conn ?n1 = (Inr (length (n_heap ?n1)), n2)" "notificator_ok used n2" "n_heap n2 = n_heap ?n1 @ [q]"
      "queued q = []" "\<not> isClosed q" "queueSize n2 = s" "n_consumers n2 = n_consumers ?n1" "notificationFilters n2 = fs"
    using new_queue_available [OF n1(1) fresh ids] n1 by auto
  let ?b = "length (n_heap ?n1)"
  have b: "?b < length (n_heap n2)" "queued (n_heap n2 ! ?b) = []" "\<not> isClosed (n_heap n2 ! ?b)" using n2 by auto
  obtain new where new: "enqueue_each missed (n_heap n2 ! ?b) = Some (Inr new)" "queued new = missed" "\<not> isClosed new"
    "notificator_ok used (n2\<lparr>n_heap := (n_heap n2)[?b := new]\<rparr>)"
    using fill_new_queue_ok [OF n2(2) b, of missed] size n2(6) by auto
  let ?n3 = "n2\<lparr>n_heap := (n_heap n2)[?b := new]\<rparr>"
  have t3: "tracks used fs s p a ?n3 ?xs1"
    using t1 tracks_address(1) [OF t1] n2 new(4) by (auto simp: tracks_def nth_append nth_list_update)
  have "length (?xs1 @ filter (wanted fs p) ms2) \<le> s" using size by simp
  note t4 = processing_tracks [OF t3 fs get(2) this]
  let ?n4 = "processing db ms2 ?n3"
  have free: "?b \<notin> set (all_queues (n_consumers ?n1))"
    using n1(1) consumers_okD(5) [of "length (n_heap ?n1)"] unfolding notificator_ok_def by (metis less_irrefl)
  then have nb: "?b < length (n_heap ?n4)" "?b \<notin> set (all_queues (n_consumers ?n4))" "n_heap ?n4 ! ?b = new"
    using t4 b(1) n2(3,7) by auto
  obtain n' where "take_over a ?b ?n4 = Some (Inr ?b, n')" "tracks used fs s p ?b n' (queued new @ ?xs1 @ filter (wanted fs p) ms2)"
    using take_over_tracks [OF conjunct1 [OF t4] nb(1,2)] nb(3) new(2,3) size by auto
  with miss n2(1) new(1,2) ms(2) show ?thesis
    by (auto simp: replaceQueueWithMissingNotificationsQueue_def)
qed


definition example_connection :: "nat connection" where
  "example_connection = \<lparr>Listen = (\<lambda>w. (None, w)), Unlisten = (\<lambda>w. (None, w)), Ping = (\<lambda>w. (None, w)),
     NewV4 = (\<lambda>w. (Inr (replicate w CHR ''x''), Suc w)), ErrChannelAlreadyOpen = ErrorString ''channel is already open''\<rparr>"

definition example_used :: "nat \<Rightarrow> string set" where
  "example_used w = {u. length u < w}"

definition example_notification :: "nat \<Rightarrow> int \<Rightarrow> Notification" where
  "example_notification i r = \<lparr>ID = replicate i CHR ''n'', CreatedAt = 0, UpdatedAt = 0, Labels = Map.empty, PagingSequence = 0, Ready = True,
     n_Resource = VisibilityType, n_Type = CREATED, n_PlatformID = '''', n_Revision = r, n_Payload = ''{}'', n_CorrelationID = ''''\<rparr>"

definition example_platform :: Platform where
  "example_platform = \<lparr>ID = ''p'', CreatedAt = 0, UpdatedAt = 0, Labels = Map.empty, PagingSequence = 0, Ready = True,
     p_Type = ''kubernetes'', p_Name = ''p'', p_Description = '''', p_Credentials = None, p_OldCredentials = None, p_Version = '''',
     p_Active = True, p_Suspended = False, p_LastActive = 0, p_Integrity = '''', p_CredentialsActive = True, p_Technical = False\<rparr>"

definition example_notifications :: "Notification list" where
  "example_notifications = [example_notification 1 1, example_notification 2 2, example_notification 3 3]"

definition example_db :: "nat notification_db" where
  "example_db = \<lparr>SelectLastRevision = (\<lambda>w. Inr [2]),
     db_Get = (\<lambda>cs w. case find (\<lambda>m. cs = [ByField EqualsOperator ''id'' [ID m]]) example_notifications of
        None \<Rightarrow> Inl ErrNotFoundInStorage | Some m \<Rightarrow> Inr m),
     db_List = (\<lambda>cs w. Inr (if cs = [ByField EqualsOperator ''revision'' [strconv_Itoa 1]] then [example_notification 1 1]
        else [example_notification 2 2]))\<rparr>"

definition example_notificator :: "nat notificator" where
  "example_notificator = (NewNotificator 5 0)\<lparr>isConnected := True, isListening := True, goroutine := Some False, lastKnownRevision := 2\<rparr>"

lemmas example_notificator_defs = example_notificator_def NewNotificator_def example_connection_def example_notification_def
  example_notifications_def example_platform_def example_db_def

lemma example_fresh: "fresh_ids example_connection example_used"
  by (auto simp: fresh_ids_def example_connection_def example_used_def)

lemma example_ids_available: "ids_available example_connection"
  by (simp add: ids_available_def example_connection_def)

lemma example_notificator_ok: "notificator_ok example_used example_notificator"
  using NewNotificator_ok [of example_used 5 0] by (simp add: notificator_ok_def example_notificator_def)

lemma example_serves: "serves example_db example_notifications ''p'' 1 2"
  by (simp add: serves_def example_notificator_defs notifications_between_def ByField_def OrderResultBy_def NewCriterion_def numeral_eq_Suc)


text \<open>
  C16.  The delivery of a notification.  Processing the announcement of a notification that the database
  knows hands it to every queue of every registered platform that it addresses (all of them, when it
  names no platform) and that the filters let through: an open queue with room gets it at its end, any
  other is closed.  All other queues and the registrations stay as they are, and the revision of the
  announcement becomes the last known one.
\<close>

theorem processNotificationPayload_delivers:
  assumes "notificator_ok used n" "pointwise (notificationFilters n)"
    and "GetNotification db (pl_NotificationID payload) (n_world n) = Inr m"
  shows "\<exists>n'. processNotificationPayload db payload n = Some (Inr (), n') \<and>
    n_consumers n' = n_consumers n \<and> lastKnownRevision n' = pl_Revision payload \<and> length (n_heap n') = length (n_heap n) \<and>
    (\<forall>p \<in> set (platforms (n_consumers n)). \<forall>a \<in> set (queues_of (ID p) (n_consumers n)).
      n_heap n' ! a = (if (pl_PlatformID payload = '''' \<or> pl_PlatformID payload = ID p) \<and> filterRecipients [p] m n \<noteq> []
        then deliver m (n_heap n ! a) else n_heap n ! a)) \<and>
    (\<forall>a < length (n_heap n). a \<notin> set (all_queues (n_consumers n)) \<longrightarrow> n_heap n' ! a = n_heap n ! a)"
proof -
  let ?c = "n_consumers n" and ?r = "reached n (pl_PlatformID payload) m"
  have c: "consumers_ok (length (n_heap n)) ?c" using assms(1) by (simp add: notificator_ok_def)
  have lt: "a < length (n_heap n)" if "a \<in> set (queues_of p ?c)" for a p
    using that consumers_okD(5) [OF c] set_all_queues [OF consumers_okD(1) [OF c]] by blast
  have same: "p' = p" if "p' \<in> set (platforms ?c)" "p \<in> set (platforms ?c)" "a \<in> set (queues_of (ID p') ?c)" "a \<in> set (queues_of (ID p) ?c)" for p p' a
    using queues_of_disjoint [OF c that(3,4)] that(1,2) consumers_okD(2) [OF c] by (metis distinct_map inj_onD)
  have mem: "a \<in> ?r \<longleftrightarrow> addressed (pl_PlatformID payload) p \<and> filterRecipients [p] m n \<noteq> []"
    if "p \<in> set (platforms ?c)" "a \<in> set (queues_of (ID p) ?c)" for p a
    unfolding reached_def UN_iff mem_Collect_eq filterRecipients_def receives_def [symmetric] using same that by blast
  have "a \<notin> ?r" if "a \<notin> set (all_queues ?c)" for a
    using that set_all_queues [OF consumers_okD(1) [OF c]] unfolding reached_def by blast
  then show ?thesis
    using processNotificationPayload_spec [OF assms] mem lt by (auto simp: addressed_def)
qed

theorem processNotificationPayload_delivers_witness:
  "\<exists>n'. processNotificationPayload example_db \<lparr>pl_PlatformID = '''', pl_NotificationID = ''nnn'', pl_Revision = 3\<rparr>
    example_notificator = Some (Inr (), n') \<and> lastKnownRevision n' = 3"
proof -
  have "GetNotification example_db ''nnn'' (n_world example_notificator) = Inr (example_notification 3 3)"
    by (simp add: GetNotification_def example_notificator_defs ByField_def NewCriterion_def numeral_eq_Suc)
  with processNotificationPayload_delivers [OF example_notificator_ok, of example_db "\<lparr>pl_PlatformID = '''', pl_NotificationID = ''nnn'', pl_Revision = 3\<rparr>"]
  show ?thesis by (auto simp: pointwise_def example_notificator_def NewNotificator_def)
qed

text \<open>
  C15.  In every run of the notificator, from its construction on and under any interleaving of the
  connection's callbacks, registrations (with other steps in the gaps between their critical
  sections), unregistrations, received events, the end of the goroutine that listens, reads of the
  consumers and changes of the database: the queue registered under each identity belongs to one
  platform, each platform that is listed has a queue and each queue's platform is listed, a queue
  never holds more than \<open>queueSize\<close> notifications, the listener runs exactly when \<open>isListening\<close> is set,
  and no operation sends to a closed channel, closes one twice or blocks while it holds a lock.
\<close>

theorem notificator_never_panics:
  assumes "fresh_ids conn used" "notificator_run conn db getPayload used (NewNotificator s w) n"
  shows "consumers_ok (length (n_heap n)) (n_consumers n) \<and>
    (\<forall>q \<in> set (n_heap n). length (queued q) \<le> s) \<and> (isListening n \<longleftrightarrow> goroutine n \<noteq> None) \<and>
    (\<forall>a < length (n_heap n). UnregisterConsumer a n \<noteq> None) \<and>
    process_event conn db getPayload ev n \<noteq> None \<and> stop_listening conn n \<noteq> None \<and>
    ((\<forall>i m. notificator_run conn db getPayload used m (others i m)) \<longrightarrow>
      RegisterConsumer conn db others platform known n \<noteq> None)"
proof -
  have "keeps_ok used (NewNotificator s w) n" by (rule notificator_run_keeps [OF assms(2,1)])
  then have ok: "notificator_ok used n" and "rely (NewNotificator s w) n"
    using NewNotificator_ok [of used s w] by (auto simp: keeps_ok_def)
  then have s: "queueSize n = s" by (simp add: rely_def NewNotificator_def)
  have reg: "RegisterConsumer conn db others platform known n \<noteq> None" if "\<forall>i m. notificator_run conn db getPayload used m (others i m)"
  proof -
    have "\<And>i m. keeps_ok used m (others i m)" using that notificator_run_keeps [OF _ assms(1)] by blast
    from RegisterConsumer_ok [where others = others, OF ok assms(1) this, of db platform known] show ?thesis
      by (auto simp: runs_ok_def)
  qed
  have "\<forall>a < length (n_heap n). UnregisterConsumer a n \<noteq> None" using UnregisterConsumer_ok [OF ok] by auto
  moreover have "process_event conn db getPayload ev n \<noteq> None" using process_event_ok [OF ok assms(1), of db getPayload ev] by auto
  moreover have "stop_listening conn n \<noteq> None" using stop_listening_ok [OF ok assms(1)] by auto
  ultimately show ?thesis using ok reg s by (auto simp: notificator_ok_def heap_ok_def queue_ok_def)
qed

theorem notificator_never_panics_witness:
  "RegisterConsumer example_connection example_db (\<lambda>_ n. n) example_platform 1 (connection_event True (NewNotificator 5 0)) \<noteq> None"
  using notificator_never_panics [OF example_fresh run_connection, where others = "\<lambda>_ n. n"] run_refl by blast

end
