(* ===== verification/Templates.thy ===== *)
theory Templates
  imports Query
begin

text \<open>
  SQL templates (\<open>src/pkg/util/template.go\<close>, the templates of
  \<open>src/storage/postgres/query_builder.go\<close>, \<open>src/storage/named_query.go\<close> and
  \<open>src/storage/sub_query.go\<close>).  \<open>Tsprintf\<close> parses a template with \<open>text/template\<close> and executes it
  on a map; the model has the actions the templates use: fields, \<open>if\<close> with one condition or an
  \<open>or\<close> of conditions, \<open>else if\<close>, \<open>else\<close> and \<open>end\<close>.  The templates are the literals of the
  source, with their line breaks and tabs.
\<close>

subsection \<open>Parsing\<close>

datatype tnode =
    TText string
  | TField string
  | TIf "string list" "tnode list" "tnode list"

datatype ttoken = TokText string | TokAction "string list"

text \<open>The text up to the first pair \<open>cc\<close> and the text behind it.\<close>

fun split_pair :: "char \<Rightarrow> string \<Rightarrow> string \<times> string option" where
  "split_pair c (x # y # s) =
     (if x = c \<and> y = c then ([], Some s)
      else (case split_pair c (y # s) of (t, r) \<Rightarrow> (x # t, r)))"
| "split_pair c s = (s, None)"

lemma split_pair_length: "split_pair c s = (t, Some r) \<Longrightarrow> length t + length r < length s"
  by (induction c s arbitrary: t r rule: split_pair.induct) (auto split: if_splits prod.splits)

text \<open>\<open>None\<close> is an action that is not closed.\<close>

function template_lex :: "string \<Rightarrow> ttoken list option" where
  "template_lex s =
     (case split_pair CHR ''{'' s of
        (t, None) \<Rightarrow> Some [TokText t]
      | (t, Some r) \<Rightarrow>
          (case split_pair CHR ''}'' r of
             (a, None) \<Rightarrow> None
           | (a, Some r') \<Rightarrow>
               map_option (\<lambda>toks. TokText t # TokAction (strings_Split a CHR '' '') # toks) (template_lex r')))"
  by pat_completeness auto
termination template_lex
  by (relation "measure length") (auto dest!: split_pair_length [OF sym] split_pair_length)

declare template_lex.simps [simp del]

text \<open>A field reference is a dot and a name.\<close>

definition field_ref :: "string \<Rightarrow> string option" where
  "field_ref w = (case w of [] \<Rightarrow> None | c # f \<Rightarrow> if c = CHR ''.'' \<and> f \<noteq> [] then Some f else None)"

fun field_refs :: "string list \<Rightarrow> string list option" where
  "field_refs [] = Some []"
| "field_refs (w # ws) =
     (case (field_ref w, field_refs ws) of (Some f, Some fs) \<Rightarrow> Some (f # fs) | _ \<Rightarrow> None)"

text \<open>The pipelines of a condition: one field, or \<open>or\<close> of fields.\<close>

definition condition :: "string list \<Rightarrow> string list option" where
  "condition ws =
     (case ws of
        [] \<Rightarrow> None
      | w # rest \<Rightarrow> if w = ''or'' \<and> rest \<noteq> [] then field_refs rest
                     else if rest = [] then field_refs [w] else None)"

text \<open>
  A list of nodes up to an \<open>else\<close> or \<open>end\<close> or the end of the text, and the tokens from there on.
  Every call consumes a token, so as much fuel as there are tokens is enough.
\<close>

fun parse_nodes :: "nat \<Rightarrow> ttoken list \<Rightarrow> (tnode list \<times> ttoken list) option"
and parse_if :: "nat \<Rightarrow> string list \<Rightarrow> ttoken list \<Rightarrow> (tnode \<times> ttoken list) option"
where
  "parse_nodes n [] = Some ([], [])"
| "parse_nodes 0 (tok # toks) = None"
| "parse_nodes (Suc n) (TokText t # toks) =
     map_option (\<lambda>(ns, rest). (if t = [] then ns else TText t # ns, rest)) (parse_nodes n toks)"
| "parse_nodes (Suc n) (TokAction ws # toks) =
     (if ws = [''end''] \<or> (ws \<noteq> [] \<and> hd ws = ''else'') then Some ([], TokAction ws # toks)
      else if ws \<noteq> [] \<and> hd ws = ''if'' then
        (case parse_if n (tl ws) toks of
           None \<Rightarrow> None
         | Some (node, rest) \<Rightarrow> map_option (\<lambda>(ns, rest'). (node # ns, rest')) (parse_nodes n rest))
      else
        (case field_refs ws of
           Some [f] \<Rightarrow> map_option (\<lambda>(ns, rest). (TField f # ns, rest)) (parse_nodes n toks)
         | _ \<Rightarrow> None))"
| "parse_if 0 cond toks = None"
| "parse_if (Suc n) cond toks =
     (case (condition cond, parse_nodes n toks) of
        (Some fs, Some (yes, TokAction ws # rest)) \<Rightarrow>
          (if ws = [''end''] then Some (TIf fs yes [], rest)
           else if ws = [''else''] then
             (case parse_nodes n rest of
                Some (no, TokAction ws' # rest') \<Rightarrow>
                  (if ws' = [''end''] then Some (TIf fs yes no, rest') else None)
              | _ \<Rightarrow> None)
           else if length ws > 1 \<and> take 2 ws = [''else'', ''if''] then
             map_option (\<lambda>(node, rest'). (TIf fs yes [node], rest')) (parse_if n (drop 2 ws) rest)
           else None)
      | _ \<Rightarrow> None)"

definition template_Parse :: "string \<Rightarrow> tnode list option" where
  "template_Parse tmpl =
     (case template_lex tmpl of
        None \<Rightarrow> None
      | Some toks \<Rightarrow>
          (case parse_nodes (length toks) toks of
             Some (ns, []) \<Rightarrow> Some ns
           | _ \<Rightarrow> None))"

subsection \<open>Execution\<close>

datatype tvalue = VString string | VBool bool

type_synonym tdata = "string \<rightharpoonup> tvalue"

text \<open>The truth of a value, and the text it prints as; a missing key prints as no value.\<close>

definition field_truth :: "tdata \<Rightarrow> string \<Rightarrow> bool" where
  "field_truth data f =
     (case data f of None \<Rightarrow> False | Some (VString s) \<Rightarrow> s \<noteq> [] | Some (VBool b) \<Rightarrow> b)"

definition field_text :: "tdata \<Rightarrow> string \<Rightarrow> string" where
  "field_text data f =
     (case data f of
        None \<Rightarrow> ''<no value>'' | Some (VString s) \<Rightarrow> s | Some (VBool b) \<Rightarrow> if b then ''true'' else ''false'')"

fun execute :: "tdata \<Rightarrow> tnode \<Rightarrow> string"
and executes :: "tdata \<Rightarrow> tnode list \<Rightarrow> string"
where
  "execute data (TText t) = t"
| "execute data (TField f) = field_text data f"
| "execute data (TIf fs yes no) =
     (if list_ex (field_truth data) fs then executes data yes else executes data no)"
| "executes data [] = []"
| "executes data (n # ns) = execute data n @ executes data ns"

text \<open>
  The execution of these actions on a buffer does not fail, so the branch of \<open>Tsprintf\<close> that
  returns the empty text without an error is not reached.
\<close>

definition Tsprintf :: "string \<Rightarrow> tdata \<Rightarrow> (error, string) result" where
  "Tsprintf tmpl data =
     (case template_Parse tmpl of
        None \<Rightarrow> Inl (ErrorString ''template: sql'')
      | Some ns \<Rightarrow> Inr (executes data ns))"

subsection \<open>The templates of the query builder\<close>

text \<open>A literal that spans several lines.\<close>

definition template_lines :: "string list \<Rightarrow> string" where
  "template_lines ls = strings_Join ls [CHR 0x0A]"

definition CountQueryTemplate :: string where
  \<open>CountQueryTemplate = template_lines
    ['''',
     ''SELECT COUNT(DISTINCT {{.ENTITY_TABLE}}.{{.PRIMARY_KEY}})'',
     ''FROM {{.ENTITY_TABLE}}'',
     ''	{{if .hasLabelCriteria}}'',
     ''	{{.JOIN}} {{.LABELS_TABLE}}'',
     ''		ON {{.ENTITY_TABLE}}.{{.PRIMARY_KEY}} = {{.LABELS_TABLE}}.{{.REF_COLUMN}}'',
     ''	{{end}}'',
     ''{{.WHERE}}'',
     ''{{.FOR_UPDATE_OF}}'',
     ''{{.LIMIT}};'']\<close>

definition CountLabelValuesQueryTemplate :: string where
  \<open>CountLabelValuesQueryTemplate = template_lines
    ['''',
     ''SELECT COUNT(DISTINCT {{.LABELS_TABLE}}.{{.PRIMARY_KEY}})'',
     ''FROM {{.ENTITY_TABLE}}'',
     ''	INNER JOIN {{.LABELS_TABLE}}'',
     ''		ON {{.ENTITY_TABLE}}.{{.PRIMARY_KEY}} = {{.LABELS_TABLE}}.{{.REF_COLUMN}}'',
     ''{{.WHERE}}'',
     ''{{.FOR_UPDATE_OF}}'',
     ''{{.LIMIT}};'']\<close>

definition SelectQueryTemplate :: string where
  \<open>SelectQueryTemplate = template_lines
    ['''',
     ''{{if or .hasFieldCriteria .hasLabelCriteria}}'',
     ''WITH matching_resources as (SELECT DISTINCT {{.ENTITY_TABLE}}.paging_sequence'',
     ''							FROM {{.ENTITY_TABLE}}'',
     ''							{{if .hasLabelCriteria}}'',
     ''							{{.JOIN}} {{.LABELS_TABLE}} '',
     ''								ON {{.ENTITY_TABLE}}.{{.PRIMARY_KEY}} = {{.LABELS_TABLE}}.{{.REF_COLUMN}}'',
     ''							{{end}}'',
     ''							{{.WHERE}}'',
     ''							{{.ORDER_BY_SEQUENCE}}'',
     ''							{{.LIMIT}})'',
     ''{{end}}'',
     ''SELECT '',
     ''{{.ENTITY_TABLE}}.*,'',
     ''{{.LABELS_TABLE}}.id         "{{.LABELS_TABLE}}.id",'',
     ''{{.LABELS_TABLE}}.key        "{{.LABELS_TABLE}}.key",'',
     ''{{.LABELS_TABLE}}.val        "{{.LABELS_TABLE}}.val",'',
     ''{{.LABELS_TABLE}}.created_at "{{.LABELS_TABLE}}.created_at",'',
     ''{{.LABELS_TABLE}}.updated_at "{{.LABELS_TABLE}}.updated_at",'',
     ''{{.LABELS_TABLE}}.{{.REF_COLUMN}} "{{.LABELS_TABLE}}.{{.REF_COLUMN}}" '',
     ''FROM {{.ENTITY_TABLE}}'',
     ''	{{.JOIN}} {{.LABELS_TABLE}}'',
     ''		ON {{.ENTITY_TABLE}}.{{.PRIMARY_KEY}} = {{.LABELS_TABLE}}.{{.REF_COLUMN}}'',
     ''{{if or .hasFieldCriteria .hasLabelCriteria}}'',
     ''WHERE {{.ENTITY_TABLE}}.paging_sequence IN '',
     ''	(SELECT matching_resources.paging_sequence FROM matching_resources)'',
     ''{{end}}'',
     ''{{.ORDER_BY}}'',
     ''{{.FOR_UPDATE_OF}};'']\<close>

definition SelectNoLabelsQueryTemplate :: string where
  \<open>SelectNoLabelsQueryTemplate = template_lines
    ['''',
     ''{{if or .hasFieldCriteria .hasLabelCriteria}}'',
     ''WITH matching_resources as (SELECT DISTINCT {{.ENTITY_TABLE}}.paging_sequence'',
     ''							FROM {{.ENTITY_TABLE}}'',
     ''							{{if .hasLabelCriteria}}'',
     ''							{{.JOIN}} {{.LABELS_TABLE}} '',
     ''								ON {{.ENTITY_TABLE}}.{{.PRIMARY_KEY}} = {{.LABELS_TABLE}}.{{.REF_COLUMN}}'',
     ''							{{end}}'',
     ''							{{.WHERE}}'',
     ''							{{.ORDER_BY_SEQUENCE}}'',
     ''							{{.LIMIT}})'',
     ''{{end}}'',
     ''SELECT *'',
     ''FROM {{.ENTITY_TABLE}}'',
     ''{{if or .hasFieldCriteria .hasLabelCriteria}}'',
     ''WHERE {{.ENTITY_TABLE}}.paging_sequence IN '',
     ''	(SELECT matching_resources.paging_sequence FROM matching_resources)'',
     ''{{end}}'',
     ''{{.ORDER_BY}}'',
     ''{{.FOR_UPDATE_OF}};'']\<close>

definition DeleteQueryTemplate :: string where
  \<open>DeleteQueryTemplate = template_lines
    ['''',
     ''DELETE FROM {{.ENTITY_TABLE}}'',
     ''{{if .hasLabelCriteria}}'',
     ''	USING (SELECT {{.ENTITY_TABLE}}.{{.PRIMARY_KEY}}'',
     ''			FROM {{.ENTITY_TABLE}}'',
     ''				{{.JOIN}} {{.LABELS_TABLE}}'',
     ''					ON {{.ENTITY_TABLE}}.{{.PRIMARY_KEY}} = {{.LABELS_TABLE}}.{{.REF_COLUMN}}'',
     ''			{{.WHERE}}) t'',
     ''	WHERE {{.ENTITY_TABLE}}.{{.PRIMARY_KEY}} = t.{{.PRIMARY_KEY}}'',
     ''{{else if .hasFieldCriteria}}'',
     ''	{{.WHERE}}'',
     ''{{end}}'',
     ''{{.RETURNING}};'']\<close>

subsection \<open>Named queries and sub-queries\<close>

datatype NamedQuery =
    QueryByMissingLabel
  | QueryByExistingLabel
  | QueryForLastOperationsPerResource
  | QueryForLabelLessVisibilities
  | QueryForLabelLessPlanVisibilities
  | QueryForVisibilityWithPlatformAndPlan
  | QueryForPlanByNameAndOfferingsWithVisibility
  | QueryForSharedInstances

primrec GetNamedQuery :: "NamedQuery \<Rightarrow> string" where
  \<open>GetNamedQuery QueryByMissingLabel = template_lines
    ['''',
     ''	SELECT {{.ENTITY_TABLE}}.*,'',
     ''	{{.LABELS_TABLE}}.id         "{{.LABELS_TABLE}}.id",'',
     ''	{{.LABELS_TABLE}}.key        "{{.LABELS_TABLE}}.key",'',
     ''	{{.LABELS_TABLE}}.val        "{{.LABELS_TABLE}}.val",'',
     ''	{{.LABELS_TABLE}}.created_at "{{.LABELS_TABLE}}.created_at",'',
     ''	{{.LABELS_TABLE}}.updated_at "{{.LABELS_TABLE}}.updated_at",'',
     ''	{{.LABELS_TABLE}}.{{.REF_COLUMN}} "{{.LABELS_TABLE}}.{{.REF_COLUMN}}" '',
     ''	FROM {{.ENTITY_TABLE}}'',
     ''		{{.JOIN}} {{.LABELS_TABLE}}'',
     ''		ON {{.ENTITY_TABLE}}.{{.PRIMARY_KEY}} = {{.LABELS_TABLE}}.{{.REF_COLUMN}}'',
     ''	WHERE NOT EXISTS'',
     ''	(SELECT ID FROM {{.LABELS_TABLE}} '',
     ''				WHERE key=:key'',
     ''				AND {{.ENTITY_TABLE}}.{{.PRIMARY_KEY}} = {{.LABELS_TABLE}}.{{.REF_COLUMN}})'']\<close>
| \<open>GetNamedQuery QueryByExistingLabel = template_lines
    ['''',
     ''	SELECT {{.ENTITY_TABLE}}.*,'',
     ''	{{.LABELS_TABLE}}.id         "{{.LABELS_TABLE}}.id",'',
     ''	{{.LABELS_TABLE}}.key        "{{.LABELS_TABLE}}.key",'',
     ''	{{.LABELS_TABLE}}.val        "{{.LABELS_TABLE}}.val",'',
     ''	{{.LABELS_TABLE}}.created_at "{{.LABELS_TABLE}}.created_at",'',
     ''	{{.LABELS_TABLE}}.updated_at "{{.LABELS_TABLE}}.updated_at",'',
     ''	{{.LABELS_TABLE}}.{{.REF_COLUMN}} "{{.LABELS_TABLE}}.{{.REF_COLUMN}}" '',
     ''	FROM {{.ENTITY_TABLE}}'',
     ''		{{.JOIN}} {{.LABELS_TABLE}}'',
     ''		ON {{.ENTITY_TABLE}}.{{.PRIMARY_KEY}} = {{.LABELS_TABLE}}.{{.REF_COLUMN}}'',
     ''	WHERE EXISTS'',
     ''	(SELECT ID FROM {{.LABELS_TABLE}} '',
     ''				WHERE key=:key'',
     ''				AND {{.ENTITY_TABLE}}.{{.PRIMARY_KEY}} = {{.LABELS_TABLE}}.{{.REF_COLUMN}})'']\<close>
| \<open>GetNamedQuery QueryForLastOperationsPerResource = template_lines
    ['''',
     ''	SELECT {{.ENTITY_TABLE}}.*'',
     ''	FROM {{.ENTITY_TABLE}} '',
     ''    INNER JOIN'',
     ''		 ('',
     ''			 SELECT max({{.ENTITY_TABLE}}.paging_sequence) paging_sequence'',
     ''			 FROM {{.ENTITY_TABLE}}'',
     ''			 WHERE resource_id IN (:id_list) AND resource_type = :resource_type'',
     ''			 GROUP BY resource_id,resource_type'',
     ''		 ) LAST_OPERATIONS'',
     ''		 ON {{.ENTITY_TABLE}}.paging_sequence = LAST_OPERATIONS.paging_sequence'']\<close>
| \<open>GetNamedQuery QueryForLabelLessVisibilities = template_lines
    ['''',
     ''	SELECT v.* FROM visibilities v'',
     ''	WHERE (v.platform_id in (:platform_ids) OR v.platform_id IS NULL) AND'',
     ''	NOT EXISTS(SELECT vl.id FROM visibility_labels vl WHERE vl.visibility_id = v.id)'']\<close>
| \<open>GetNamedQuery QueryForLabelLessPlanVisibilities = template_lines
    ['''',
     ''	SELECT v.* FROM visibilities v'',
     ''	WHERE (v.service_plan_id in (:service_plan_ids)) AND'',
     ''	NOT EXISTS(SELECT vl.id FROM visibility_labels vl WHERE vl.visibility_id = v.id)'']\<close>
| \<open>GetNamedQuery QueryForVisibilityWithPlatformAndPlan = template_lines
    ['''',
     ''	SELECT v.*'',
     ''	FROM visibilities v'',
     ''	WHERE v.service_plan_id = :service_plan_id'',
     ''	AND (v.platform_id IS NULL'',
     ''		OR (v.platform_id = :platform_id AND (:key = '' @ sq @ sq @ '' IS TRUE OR NOT EXISTS(SELECT vl.id FROM visibility_labels vl WHERE vl.visibility_id = v.id)))'',
     ''		OR EXISTS(SELECT vl.id FROM visibility_labels vl WHERE vl.visibility_id = v.id AND vl.key = :key AND vl.val = :val))'']\<close>
| \<open>GetNamedQuery QueryForPlanByNameAndOfferingsWithVisibility = template_lines
    ['''',
     ''	SELECT sp.* '',
     ''	FROM service_plans sp'',
     ''		 INNER JOIN service_offerings so'',
     ''			ON so.id = sp.service_offering_id'',
     ''		 INNER JOIN visibilities v '',
     ''			ON sp.id = v.service_plan_id'',
     ''		 LEFT OUTER JOIN visibility_labels vl '',
     ''			ON v.id = vl.visibility_id'',
     ''	WHERE (vl.key = :key AND vl.val = :val AND v.platform_id = :platform_id AND sp.catalog_name = :service_plan_name AND so.catalog_name = :service_offering_name)'',
     ''	OR ((v.platform_id = :platform_id OR v.platform_id IS NULL) '',
     ''		AND NOT EXISTS(SELECT vl.visibility_id FROM visibility_labels vl WHERE vl.visibility_id = v.id) '',
     ''		AND sp.catalog_name = :service_plan_name AND so.catalog_name = :service_offering_name)'']\<close>
| \<open>GetNamedQuery QueryForSharedInstances = template_lines
    ['''',
     ''	SELECT service_instances.*,'',
     ''	service_instance_labels.id         "service_instance_labels.id",'',
     ''	service_instance_labels.key        "service_instance_labels.key",'',
     ''	service_instance_labels.val        "service_instance_labels.val",'',
     ''	service_instance_labels.created_at "service_instance_labels.created_at",'',
     ''	service_instance_labels.updated_at "service_instance_labels.updated_at"'',
     ''	FROM service_instances'',
     ''	INNER JOIN service_plans ON service_plans.id = service_instances.service_plan_id'',
     ''	INNER JOIN service_instance_labels ON service_instances.id = service_instance_labels.service_instance_id'',
     ''	WHERE service_instances.shared = true AND'',
     ''		  service_plans.service_offering_id = :offering_id AND'',
     ''		  EXISTS ('',
     ''			SELECT * FROM service_instance_labels '',
     ''			WHERE service_instance_labels.key = :tenant_identifier AND service_instance_labels.val = :tenant_id AND'',
     ''				  service_instance_labels.service_instance_id = service_instances.id'',
     ''		  )'']\<close>

datatype SubQuery =
    QueryForAllLastOperationsPerResource
  | QueryForAllNotLastOperationsPerResource
  | QueryForOperationsWithResource
  | QueryForTenantScopedServiceOfferings
  | QueryForInstanceChildrenByLabel

primrec subQueries :: "SubQuery \<Rightarrow> string" where
  \<open>subQueries QueryForAllLastOperationsPerResource = template_lines
    ['''',
     ''	SELECT id'',
     ''    FROM operations op'',
     ''    INNER JOIN ('',
     ''        SELECT max(operations.paging_sequence) paging_sequence'',
     ''        FROM operations'',
     ''        GROUP BY resource_id, resource_type) LAST_OPERATIONS ON '',
     ''    op.paging_sequence = LAST_OPERATIONS.paging_sequence'',
     ''    WHERE operations.id = op.id'']\<close>
| \<open>subQueries QueryForAllNotLastOperationsPerResource = template_lines
    ['''',
     ''	SELECT op.id '',
     ''	FROM OPERATIONS op'',
     ''	LEFT JOIN ('',
     ''		SELECT MAX(OPERATIONS.PAGING_SEQUENCE) PAGING_SEQUENCE '',
     ''		FROM OPERATIONS '',
     ''		GROUP BY RESOURCE_ID, RESOURCE_TYPE'',
     ''	) max_op ON op.PAGING_SEQUENCE = max_op.PAGING_SEQUENCE'',
     ''	WHERE max_op.PAGING_SEQUENCE IS NULL'']\<close>
| \<open>subQueries QueryForOperationsWithResource = template_lines
    ['''',
     ''    SELECT id'',
     ''    FROM {{.RESOURCE_TABLE}}'',
     ''    WHERE operations.resource_id = {{.RESOURCE_TABLE}}.id'']\<close>
| \<open>subQueries QueryForTenantScopedServiceOfferings = template_lines
    ['''',
     ''	SELECT id FROM broker_labels l'',
     ''	WHERE l.broker_id = service_offerings.broker_id AND l.key = '' @ sq @ ''{{.TENANT_KEY}}'' @ sq]\<close>
| \<open>subQueries QueryForInstanceChildrenByLabel = template_lines
    ['''',
     ''		SELECT 1 FROM service_instances i'',
     ''        INNER JOIN service_instance_labels l ON i.id = l.service_instance_id'',
     ''		WHERE  l.key IN ({{.PARENT_KEYS}}) AND l.val = '' @ sq @ ''{{.PARENT_ID}}'' @ sq @ '' AND i.id = service_instances.id'']\<close>

definition GetSubQuery :: "SubQuery \<Rightarrow> string" where
  "GetSubQuery query = subQueries query"

definition GetSubQueryWithParams :: "SubQuery \<Rightarrow> tdata \<Rightarrow> (error, string) result" where
  "GetSubQueryWithParams query params = Tsprintf (subQueries query) params"


subsection \<open>Templates of several lines\<close>

text \<open>
  Lexing a literal line by line gives the tokens of the literal: no action of the templates spans
  a line break.
\<close>

lemma split_pair_append:
  "split_pair c s = (a, Some r) \<Longrightarrow> split_pair c (s @ z) = (a, Some (r @ z))"
  by (induction c s arbitrary: a rule: split_pair.induct) (auto split: if_splits prod.splits)

lemma split_pair_None: "split_pair c s = (a, None) \<Longrightarrow> a = s"
  by (induction c s arbitrary: a rule: split_pair.induct) (auto split: if_splits prod.splits)

lemma split_pair_Cons:
  "x \<noteq> c \<Longrightarrow> split_pair c (x # t) = (case split_pair c t of (b, r) \<Rightarrow> (x # b, r))"
  by (cases t) auto

lemma split_pair_line:
  "split_pair c s = (a, None) \<Longrightarrow> x \<noteq> c \<Longrightarrow>
     split_pair c (s @ x # t) = (case split_pair c t of (b, r) \<Rightarrow> (s @ x # b, r))"
proof (induction c s arbitrary: a rule: split_pair.induct)
  case (1 c y z s)
  then show ?case by (cases "split_pair c t") (auto split: if_splits prod.splits)
qed (auto simp: split_pair_Cons split: prod.splits)

text \<open>The tokens of two lines: the last text of the first and the first of the second are one.\<close>

fun join_tokens :: "ttoken list \<Rightarrow> ttoken list \<Rightarrow> ttoken list option" where
  "join_tokens [TokText u] (TokText v # ys) = Some (TokText (u @ CHR 0x0A # v) # ys)"
| "join_tokens (x # y # xs) ys = map_option (\<lambda>zs. x # zs) (join_tokens (y # xs) ys)"
| "join_tokens xs ys = None"

lemma template_lex_hd: "template_lex t = Some ys \<Longrightarrow> \<exists>v zs. ys = TokText v # zs"
  by (subst (asm) template_lex.simps) (auto split: prod.splits option.splits)

lemma template_lex_line:
  assumes "template_lex s = Some xs" "template_lex t = Some ys" "join_tokens xs ys = Some zs"
  shows "template_lex (s @ CHR 0x0A # t) = Some zs"
  using assms(1,3)
proof (induction s arbitrary: xs zs rule: template_lex.induct)
  case (1 s)
  obtain a r where ar: "split_pair CHR ''{'' s = (a, r)" by fastforce
  show ?case
  proof (cases r)
    case None
    obtain b q where bq: "split_pair CHR ''{'' t = (b, q)" by fastforce
    from 1(2) ar None have xs: "xs = [TokText s]"
      by (subst (asm) template_lex.simps) (auto dest: split_pair_None)
    from 1(3) xs template_lex_hd [OF assms(2)] obtain v ws where ys: "ys = TokText v # ws"
      "zs = TokText (s @ CHR 0x0A # v) # ws" by auto
    have split: "split_pair CHR ''{'' (s @ CHR 0x0A # t) = (s @ CHR 0x0A # b, q)"
      using split_pair_line [of "CHR ''{''" s a "CHR 0x0A" t] ar None bq by simp
    show ?thesis
    proof (cases q)
      case None
      with assms(2) bq ys split show ?thesis
        by (simp add: template_lex.simps [of t] template_lex.simps [of "s @ CHR 0x0A # t"])
    next
      case (Some q0)
      obtain e r1 where "split_pair CHR ''}'' q0 = (e, r1)" by fastforce
      with Some assms(2) bq ys split show ?thesis
        by (cases r1) (auto simp: template_lex.simps [of t] template_lex.simps [of "s @ CHR 0x0A # t"])
    qed
  next
    case (Some r0)
    obtain e q where eq: "split_pair CHR ''}'' r0 = (e, q)" by fastforce
    with 1(2) ar Some obtain r1 toks where q: "q = Some r1" "template_lex r1 = Some toks"
      "xs = TokText a # TokAction (strings_Split e CHR '' '') # toks"
      by (subst (asm) template_lex.simps) (auto split: option.splits)
    with 1(3) template_lex_hd [OF q(2)] obtain zs' where zs': "join_tokens toks ys = Some zs'"
      "zs = TokText a # TokAction (strings_Split e CHR '' '') # zs'" by auto
    from 1(1) [OF ar [symmetric] Some eq [symmetric] q(1) q(2) zs'(1)]
    have "template_lex (r1 @ CHR 0x0A # t) = Some zs'" .
    with ar Some eq q(1) zs'(2) show ?thesis
      by (subst template_lex.simps) (simp add: split_pair_append)
  qed
qed

fun lex_lines :: "string list \<Rightarrow> ttoken list option" where
  "lex_lines [] = None"
| "lex_lines [l] = template_lex l"
| "lex_lines (l # m # ls) =
     (case (template_lex l, lex_lines (m # ls)) of (Some xs, Some ys) \<Rightarrow> join_tokens xs ys | _ \<Rightarrow> None)"

lemma lex_lines_sound: "lex_lines ls = Some toks \<Longrightarrow> template_lex (template_lines ls) = Some toks"
  by (induction ls arbitrary: toks rule: lex_lines.induct)
    (auto simp: template_lines_def template_lex_line split: option.splits)

definition parse_lines :: "string list \<Rightarrow> tnode list option" where
  "parse_lines ls =
     (case lex_lines ls of
        None \<Rightarrow> None
      | Some toks \<Rightarrow>
          (case parse_nodes (length toks) toks of Some (ns, []) \<Rightarrow> Some ns | _ \<Rightarrow> None))"

lemma parse_lines_sound: "parse_lines ls = Some ns \<Longrightarrow> template_Parse (template_lines ls) = Some ns"
  by (auto simp: parse_lines_def template_Parse_def lex_lines_sound split: option.splits)

end
