(* ===== verification/WhereClause.thy ===== *)
theory WhereClause
  imports Query
begin

text \<open>
  The WHERE clause of a query (\<open>src/storage/postgres/where_clause_tree.go\<close>, \<open>labels.go\<close> and
  \<open>columnsByTags\<close> of \<open>abstract.go\<close>): criteria become a tree, and the tree becomes the text of a
  clause with question marks and the list of the parameters that fill them.

  Columns are given by their tags and Go types.  A tree node without a criterion has the zero
  criterion, whose operator is nil.  The field \<open>sqlBuilder\<close> is a pointer: a node holds the
  address of its builder and the store of builders is an argument of \<open>compileSQL\<close>.  \<open>None\<close> as a
  result is a panic: an index out of range or a failed type assertion.
\<close>

subsection \<open>Columns\<close>

datatype reflect_type =
    intType | int64Type | timeType | byteSliceType | stringType | nullableStringType | jsonType
  | otherType string

record tagType =
  Tag :: string
  tag_Type :: reflect_type

definition tag_column :: "tagType \<Rightarrow> string" where
  "tag_column tag = hd (strings_Split (Tag tag) CHR '','')"

definition findTagType :: "tagType list \<Rightarrow> string \<Rightarrow> reflect_type option" where
  "findTagType tags tagName = map_option tag_Type (find (\<lambda>tag. tag_column tag = tagName) tags)"

definition determineCastByType :: "reflect_type option \<Rightarrow> string" where
  "determineCastByType t =
     (case t of
        Some intType \<Rightarrow> '''' | Some int64Type \<Rightarrow> '''' | Some timeType \<Rightarrow> '''' | Some byteSliceType \<Rightarrow> ''''
      | _ \<Rightarrow> ''::text'')"

definition hasMultiVariateOp :: "Criterion list \<Rightarrow> bool" where
  "hasMultiVariateOp criteria = (\<exists>c\<in>set criteria. Operator_Type (COperator c) = MultivariateOperator)"

text \<open>The map \<open>columnsByTags\<close> has the value true at the columns and no other entries.\<close>

definition columnsByTags :: "tagType list \<Rightarrow> string \<Rightarrow> bool" where
  "columnsByTags tags column = (\<exists>tag\<in>set tags. tag_column tag = column)"

subsection \<open>One criterion\<close>

datatype query_param = StringParam string | StringsParam "string list"

definition strings_ToUpper :: "string \<Rightarrow> string" where
  "strings_ToUpper s =
     map (\<lambda>c. if 97 \<le> (of_char c :: nat) \<and> (of_char c :: nat) \<le> 122 then char_of (of_char c - 32 :: nat) else c) s"

definition translateOperationToSQLEquivalent :: "Operator \<Rightarrow> string" where
  "translateOperationToSQLEquivalent operator =
     (case operator of
        LessThanOperator \<Rightarrow> ''<''
      | LessThanOrEqualOperator \<Rightarrow> ''<=''
      | GreaterThanOperator \<Rightarrow> ''>''
      | GreaterThanOrEqualOperator \<Rightarrow> ''>=''
      | NotInOperator \<Rightarrow> ''NOT IN''
      | InSubqueryOperator \<Rightarrow> ''IN''
      | ExistsSubquery \<Rightarrow> ''EXISTS''
      | NotExistsSubquery \<Rightarrow> ''NOT EXISTS''
      | EqualsOperator \<Rightarrow> ''=''
      | EqualsOrNilOperator \<Rightarrow> ''=''
      | NotEqualsOperator \<Rightarrow> ''!=''
      | ContainsOperator \<Rightarrow> ''LIKE''
      | _ \<Rightarrow> strings_ToUpper (Operator_String operator))"

definition buildRightOp :: "Operator \<Rightarrow> string list \<Rightarrow> (string \<times> query_param) option" where
  "buildRightOp operator rightOp =
     (if Operator_Type operator = MultivariateOperator then Some (''(?)'', StringsParam rightOp)
      else case rightOp of
             [] \<Rightarrow> None
           | r # _ \<Rightarrow>
               Some (if operator = ContainsOperator
                     then sq @ ''%'' @ sq @ '' || ? || '' @ sq @ ''%'' @ sq else ''?'',
                     StringParam r))"

definition convertToJsonKey :: "string \<Rightarrow> string \<times> bool" where
  "convertToJsonKey key =
     (let columnParts = strings_Split key CHR ''/''
      in if length columnParts = 1 then (hd columnParts, False)
         else (hd columnParts
                 @ concat (map (\<lambda>p. ''->'' @ sq @ p @ sq) (butlast (tl columnParts)))
                 @ ''->>'' @ sq @ last columnParts @ sq, True))"

text \<open>The assertion \<open>rightOpQueryValue.(string)\<close> fails for a list of values.\<close>

definition criterionSQL :: "Criterion \<Rightarrow> tagType list \<Rightarrow> string \<Rightarrow> (string \<times> query_param) option" where
  "criterionSQL c tags tableAlias =
     (case buildRightOp (COperator c) (RightOp c) of
        None \<Rightarrow> None
      | Some (rightOpBindVar, rightOpQueryValue) \<Rightarrow>
          (let sqlOperation = translateOperationToSQLEquivalent (COperator c);
               ttype = findTagType tags (hd (strings_Split (LeftOp c) CHR ''/''));
               (leftOp, isCompound) =
                 (if ttype = Some jsonType then convertToJsonKey (LeftOp c) else (LeftOp c, False));
               dbCast = (if isCompound then '''' else determineCastByType ttype);
               nullable = (\<lambda>clause. if Operator_IsNullable (COperator c)
                             then ''('' @ clause @ '' OR '' @ leftOp @ '' IS NULL)'' else clause)
           in if CType c = Subquery then
                (case rightOpQueryValue of
                   StringsParam _ \<Rightarrow> None
                 | StringParam q \<Rightarrow> Some (nullable (leftOp @ '' '' @ sqlOperation @ '' ('' @ q @ '')''), rightOpQueryValue))
              else if CType c = ExistQuery then
                (case rightOpQueryValue of
                   StringsParam _ \<Rightarrow> None
                 | StringParam q \<Rightarrow> Some (nullable (sqlOperation @ '' ('' @ q @ '')''), rightOpQueryValue))
              else if tableAlias \<noteq> '''' then
                Some (nullable (tableAlias @ ''.'' @ leftOp @ dbCast @ '' '' @ sqlOperation @ '' '' @ rightOpBindVar),
                      rightOpQueryValue)
              else
                Some (nullable (leftOp @ dbCast @ '' '' @ sqlOperation @ '' '' @ rightOpBindVar),
                      rightOpQueryValue)))"

subsection \<open>The tree\<close>

text \<open>
  The builders: the default one, that of the label clauses and the sub-select over the labels
  table, with the reference column and the table their closures hold.
\<close>

datatype treeSqlBuilder =
    DefaultBuilder
  | LabelsBuilder string
  | SubSelectBuilder string string

definition AND_sep :: string where "AND_sep = '' AND ''"
definition INTERSECT_sep :: string where "INTERSECT_sep = '' INTERSECT ''"

primrec buildSQL :: "treeSqlBuilder \<Rightarrow> string list \<Rightarrow> string" where
  "buildSQL DefaultBuilder childrenSQL = ''('' @ strings_Join childrenSQL AND_sep @ '')''"
| "buildSQL (LabelsBuilder refColumn) childrenSQL =
     ''('' @ refColumn @ '' IN ('' @ strings_Join childrenSQL INTERSECT_sep @ ''))''"
| "buildSQL (SubSelectBuilder refColumn labelsTable) childrenSQL =
     ''(SELECT '' @ refColumn @ '' FROM '' @ labelsTable @ '' WHERE ('' @ strings_Join childrenSQL AND_sep @ ''))''"

datatype whereClauseTree =
  WhereClauseTree (criterion: "Criterion option") (dbTags: "tagType list") (tableName: string)
    (children: "whereClauseTree list") (sqlBuilder: "nat option")

definition isLeaf :: "whereClauseTree \<Rightarrow> bool" where
  "isLeaf t = (children t = [])"

definition isEmpty :: "whereClauseTree \<Rightarrow> bool" where
  "isEmpty t = (criterion t = None \<and> children t = [])"

text \<open>The parameters of an EXISTS or IN sub-query are part of its text.\<close>

definition has_params :: "whereClauseTree \<Rightarrow> bool" where
  "has_params t =
     (case criterion t of None \<Rightarrow> True | Some c \<Rightarrow> CType c \<noteq> ExistQuery \<and> CType c \<noteq> Subquery)"

definition node_builder :: "treeSqlBuilder list \<Rightarrow> nat option \<Rightarrow> treeSqlBuilder" where
  "node_builder store b = (case b of None \<Rightarrow> DefaultBuilder | Some a \<Rightarrow> store ! a)"

definition join_children :: "treeSqlBuilder \<Rightarrow> string list \<Rightarrow> string" where
  "join_children builder childrenSQL =
     (case childrenSQL of [] \<Rightarrow> '''' | [sql] \<Rightarrow> sql | _ \<Rightarrow> buildSQL builder childrenSQL)"

fun compileSQL :: "treeSqlBuilder list \<Rightarrow> whereClauseTree \<Rightarrow> (string \<times> query_param list) option"
and compileChildren :: "treeSqlBuilder list \<Rightarrow> whereClauseTree list \<Rightarrow> (string list \<times> query_param list) option"
where
  "compileSQL store (WhereClauseTree c tags table cs b) =
     (if isEmpty (WhereClauseTree c tags table cs b) then Some ('''', [])
      else if isLeaf (WhereClauseTree c tags table cs b) then
        (case c of
           None \<Rightarrow> None
         | Some crit \<Rightarrow> map_option (\<lambda>(sql, queryParam). (sql, [queryParam])) (criterionSQL crit tags table))
      else
        map_option (\<lambda>(childrenSQL, queryParams). (join_children (node_builder store b) childrenSQL, queryParams))
          (compileChildren store cs))"
| "compileChildren store [] = Some ([], [])"
| "compileChildren store (child # rest) =
     (case compileSQL store child of
        None \<Rightarrow> None
      | Some (childSQL, childQueryParams) \<Rightarrow>
          map_option (\<lambda>(childrenSQL, queryParams).
              if length childSQL \<noteq> 0 then
                (childSQL # childrenSQL,
                 (if has_params child then childQueryParams @ queryParams else queryParams))
              else (childrenSQL, queryParams))
            (compileChildren store rest))"

end
