(* ===== verification/QueryBuilder.thy ===== *)
theory QueryBuilder
  imports Templates WhereClause
begin

text \<open>
  The query builder (\<open>src/storage/postgres/query_builder.go\<close>): a query collects criteria, renders
  a template to a statement with its parameters, and sends them to the database.

  The database connection and the functions of \<open>sqlx\<close> are parameters, the record \<open>pgDB\<close>; \<open>'w\<close> is
  the state of the database and \<open>'r\<close> a row.  A call that panics is \<open>None\<close>.  The builders that
  closures and tree nodes share live in the store \<open>pq_builders\<close> of the query; the nodes hold
  addresses in it.
\<close>

subsection \<open>Data\<close>

record PostgresLabel =
  LabelsTableName :: string
  ReferenceColumn :: string
  labelTags :: "tagType list"

record PostgresEntity =
  TableName :: string
  entityTags :: "tagType list"
  LabelEntity :: "PostgresLabel option"

text \<open>An error of the driver, with the condition name, the class and the table of its report.\<close>

datatype db_error =
    PqError (pq_name: string) (pq_class: string) (pq_table: string) (pq_message: string)
  | OtherError error

primrec plain_error :: "db_error \<Rightarrow> error" where
  "plain_error (PqError name class table message) = ErrorString (''pq: '' @ message)"
| "plain_error (OtherError err) = err"

record ('w, 'r) pgDB =
  db_is_Tx :: bool
  db_In :: "string \<Rightarrow> query_param list \<Rightarrow> (error, string \<times> query_param list) result"
  db_Named :: "string \<Rightarrow> (string \<rightharpoonup> query_param) \<Rightarrow> (error, string \<times> query_param list) result"
  db_Rebind :: "string \<Rightarrow> string"
  db_Queryx :: "string \<Rightarrow> query_param list \<Rightarrow> 'w \<Rightarrow> (db_error, 'r list) result \<times> 'w"
  db_GetInt :: "string \<Rightarrow> query_param list \<Rightarrow> 'w \<Rightarrow> (db_error, int) result \<times> 'w"
  db_Exec :: "string \<Rightarrow> query_param list \<Rightarrow> 'w \<Rightarrow> (db_error, (error, int) result) result \<times> 'w"

record orderRule =
  or_field :: string
  or_orderType :: string

record pgQuery =
  pq_labelEntity :: "PostgresLabel option"
  pq_entityTags :: "tagType list"
  pq_labelEntityTags :: "tagType list"
  pq_queryParams :: "query_param list"
  pq_orderByFields :: "orderRule list"
  pq_hasLock :: bool
  pq_limit :: string
  pq_returningFields :: "string list"
  pq_entityTableName :: string
  pq_fieldsWhereClause :: whereClauseTree
  pq_labelsWhereClause :: whereClauseTree
  pq_shouldRebind :: bool
  pq_err :: "error option"
  pq_builders :: "treeSqlBuilder list"

definition NewQuery :: "PostgresEntity \<Rightarrow> pgQuery" where
  "NewQuery entity =
     \<lparr>pq_labelEntity = LabelEntity entity,
      pq_entityTags = entityTags entity,
      pq_labelEntityTags = (case LabelEntity entity of None \<Rightarrow> [] | Some l \<Rightarrow> labelTags l),
      pq_queryParams = [],
      pq_orderByFields = [],
      pq_hasLock = False,
      pq_limit = '''',
      pq_returningFields = [],
      pq_entityTableName = TableName entity,
      pq_fieldsWhereClause = WhereClauseTree None [] '''' [] None,
      pq_labelsWhereClause = WhereClauseTree None [] '''' [] (Some 0),
      pq_shouldRebind = False,
      pq_err = None,
      pq_builders =
        [LabelsBuilder (case LabelEntity entity of None \<Rightarrow> '''' | Some l \<Rightarrow> ReferenceColumn l)]\<rparr>"

subsection \<open>Criteria\<close>

fun validateFields :: "(string \<Rightarrow> bool) \<Rightarrow> string \<Rightarrow> string list \<Rightarrow> error option" where
  "validateFields columns message [] = None"
| "validateFields columns message (field # rest) =
     (if \<not> columns field then Some (UnsupportedQueryError (message @ field))
      else validateFields columns message rest)"

definition validateOrderFields :: "(string \<Rightarrow> bool) \<Rightarrow> orderRule list \<Rightarrow> error option" where
  "validateOrderFields columns orderRules =
     (case validateFields (\<lambda>t. t = OrderType_String AscOrder \<or> t = OrderType_String DescOrder)
             ''unsupported order type: '' (map or_orderType orderRules) of
        Some err \<Rightarrow> Some err
      | None \<Rightarrow> validateFields columns ''unsupported entity field for order by: '' (map or_field orderRules))"

definition validateReturningFields :: "(string \<Rightarrow> bool) \<Rightarrow> string list \<Rightarrow> error option" where
  "validateReturningFields columns returningFields =
     (if length returningFields = 0 then Some (ErrorString ''returning fields cannot be empty'')
      else validateFields columns ''unsupported entity field for return type: ''
             (filter (\<lambda>f. \<not> strings_Contains f ''*'') returningFields))"

text \<open>The indexes into \<open>RightOp\<close> are in range once the criterion is validated.\<close>

definition processResultCriteria :: "Criterion \<Rightarrow> pgQuery \<Rightarrow> pgQuery" where
  "processResultCriteria c pq =
     (if CType c \<noteq> ResultQuery then
        pq\<lparr>pq_err := Some (ErrorString (''result query is expected, but ''
          @ CriterionType_String (CType c) @ '' is provided''))\<rparr>
      else if LeftOp c = OrderBy then
        (let rule = \<lparr>or_field = RightOp c ! 0, or_orderType = RightOp c ! 1\<rparr>
         in case validateOrderFields (columnsByTags (pq_entityTags pq)) [rule] of
              Some err \<Rightarrow> pq\<lparr>pq_err := Some err\<rparr>
            | None \<Rightarrow> pq\<lparr>pq_orderByFields := pq_orderByFields pq @ [rule]\<rparr>)
      else if LeftOp c = Limit then
        (if pq_limit pq \<noteq> '''' then
           pq\<lparr>pq_err := Some (ErrorString ''zero/one limit expected but multiple provided'')\<rparr>
         else pq\<lparr>pq_limit := RightOp c ! 0\<rparr>)
      else pq)"

definition field_error :: "tagType list \<Rightarrow> Criterion \<Rightarrow> error option" where
  "field_error tags c =
     (let compound = strings_Contains (LeftOp c) ''/'';
          columnName = (if compound then hd (strings_Split (LeftOp c) CHR ''/'') else LeftOp c);
          ttype = findTagType tags columnName
      in if compound \<and> ttype \<noteq> Some jsonType then
           Some (UnsupportedQueryError (''unsupported field query: json notation on non json column: '' @ columnName))
         else if \<not> columnsByTags tags columnName then
           Some (UnsupportedQueryError (''unsupported field query key: '' @ LeftOp c))
         else if COperator c = ContainsOperator \<and> ttype \<noteq> Some stringType
                 \<and> ttype \<noteq> Some nullableStringType \<and> ttype \<noteq> Some jsonType then
           Some (UnsupportedQueryError (''unsupported field query: the operator '' @ sq
             @ Operator_String (COperator c) @ sq @ '' is not applicable on non-string columns: '' @ columnName))
         else None)"

definition append_child :: "whereClauseTree \<Rightarrow> whereClauseTree \<Rightarrow> whereClauseTree" where
  "append_child t child =
     WhereClauseTree (criterion t) (dbTags t) (tableName t) (children t @ [child]) (sqlBuilder t)"

definition append_field :: "Criterion \<Rightarrow> pgQuery \<Rightarrow> pgQuery" where
  "append_field c pq =
     pq\<lparr>pq_fieldsWhereClause := append_child (pq_fieldsWhereClause pq)
          (WhereClauseTree (Some c) (pq_entityTags pq) (pq_entityTableName pq) [] None)\<rparr>"

text \<open>The node of a label query has two leaves and the builder at address \<open>builder\<close>.\<close>

definition append_label :: "nat \<Rightarrow> Criterion \<Rightarrow> pgQuery \<Rightarrow> pgQuery" where
  "append_label builder c pq =
     (let tags = pq_labelEntityTags pq;
          node = WhereClauseTree None [] ''''
            [WhereClauseTree (Some (ByField EqualsOperator ''key'' [LeftOp c])) tags '''' [] None,
             WhereClauseTree (Some (ByField (COperator c) ''val'' (RightOp c))) tags '''' [] None]
            (Some builder)
      in pq\<lparr>pq_labelsWhereClause := append_child (pq_labelsWhereClause pq) node\<rparr>)"

definition use_subselect :: "nat \<Rightarrow> pgQuery \<Rightarrow> pgQuery" where
  "use_subselect builder pq =
     (case pq_labelEntity pq of
        None \<Rightarrow> pq
      | Some l \<Rightarrow> pq\<lparr>pq_builders := (pq_builders pq)[builder := SubSelectBuilder (ReferenceColumn l) (LabelsTableName l)]\<rparr>)"

text \<open>
  The loop of \<open>WithCriteria\<close> over the rest of the criteria, with the counter of label queries.
  An error of a result criterion does not end the loop.
\<close>

fun add_criteria ::
  "go_parsers \<Rightarrow> Criterion list \<Rightarrow> nat \<Rightarrow> nat \<Rightarrow> Criterion list \<Rightarrow> pgQuery \<Rightarrow> pgQuery" where
  "add_criteria gp criteria builder labelQueryCount [] pq = pq"
| "add_criteria gp criteria builder labelQueryCount (c # cs) pq =
     (case Validate gp c of
        Inl err \<Rightarrow> pq\<lparr>pq_err := Some err\<rparr>
      | Inr _ \<Rightarrow>
          (let pq = (if hasMultiVariateOp criteria then pq\<lparr>pq_shouldRebind := True\<rparr> else pq)
           in case CType c of
                FieldQuery \<Rightarrow>
                  (case field_error (pq_entityTags pq) c of
                     Some err \<Rightarrow> pq\<lparr>pq_err := Some err\<rparr>
                   | None \<Rightarrow> add_criteria gp criteria builder labelQueryCount cs (append_field c pq))
              | LabelQuery \<Rightarrow>
                  (let pq = (if Suc labelQueryCount > 1 then use_subselect builder pq else pq)
                   in add_criteria gp criteria builder (Suc labelQueryCount) cs (append_label builder c pq))
              | ResultQuery \<Rightarrow>
                  add_criteria gp criteria builder labelQueryCount cs (processResultCriteria c pq)
              | ExistQuery \<Rightarrow> add_criteria gp criteria builder labelQueryCount cs (append_field c pq)
              | Subquery \<Rightarrow> add_criteria gp criteria builder labelQueryCount cs (append_field c pq)))"

definition WithCriteria :: "go_parsers \<Rightarrow> Criterion list \<Rightarrow> pgQuery \<Rightarrow> pgQuery" where
  "WithCriteria gp criteria pq =
     (if pq_err pq \<noteq> None then pq
      else add_criteria gp criteria (length (pq_builders pq)) 0 criteria
             (pq\<lparr>pq_builders := pq_builders pq @ [DefaultBuilder]\<rparr>))"

definition WithLock :: "bool \<Rightarrow> pgQuery \<Rightarrow> pgQuery" where
  "WithLock isTx pq = (if pq_err pq \<noteq> None then pq else if isTx then pq\<lparr>pq_hasLock := True\<rparr> else pq)"

subsection \<open>Clauses\<close>

definition limitSQL :: "pgQuery \<Rightarrow> string \<times> pgQuery" where
  "limitSQL pq =
     (if length (pq_limit pq) > 0 then
        (''LIMIT ?'', pq\<lparr>pq_queryParams := pq_queryParams pq @ [StringParam (pq_limit pq)]\<rparr>)
      else ('''', pq))"

definition joinSQL :: "pgQuery \<Rightarrow> string" where
  "joinSQL pq = (if length (children (pq_labelsWhereClause pq)) = 0 then ''LEFT JOIN'' else ''JOIN'')"

definition whereSQL :: "pgQuery \<Rightarrow> (string \<times> pgQuery) option" where
  "whereSQL pq =
     map_option (\<lambda>(sql, queryParams).
         if length sql = 0 then ('''', pq)
         else ('' WHERE '' @ sql, pq\<lparr>pq_queryParams := pq_queryParams pq @ queryParams\<rparr>))
       (compileSQL (pq_builders pq)
          (WhereClauseTree None [] '''' [pq_fieldsWhereClause pq, pq_labelsWhereClause pq] None))"

definition returningSQL :: "pgQuery \<Rightarrow> string" where
  "returningSQL pq =
     (if pq_returningFields pq = [] then ''''
      else '' RETURNING '' @ strings_Join (pq_returningFields pq) '', '')"

definition lockSQL :: "pgQuery \<Rightarrow> string" where
  "lockSQL pq = (if pq_hasLock pq then ''FOR UPDATE OF '' @ pq_entityTableName pq else '''')"

definition orderBySQL :: "pgQuery \<Rightarrow> string" where
  "orderBySQL pq =
     (if pq_orderByFields pq \<noteq> [] then
        butlast (''ORDER BY'' @ concat (map (\<lambda>rule. '' '' @ or_field rule @ '' '' @ or_orderType rule @ '','')
          (pq_orderByFields pq)))
      else ''ORDER BY '' @ pq_entityTableName pq @ ''.paging_sequence ASC'')"

definition orderBySequenceSQL :: "pgQuery \<Rightarrow> string" where
  "orderBySequenceSQL pq =
     (if length (pq_limit pq) > 0 then ''ORDER BY '' @ pq_entityTableName pq @ ''.paging_sequence ASC'' else '''')"

subsection \<open>Statements\<close>

definition PrimaryKeyColumn :: string where "PrimaryKeyColumn = ''id''"

text \<open>
  The calls in the map literal run from left to right: the parameters of the WHERE clause come
  before that of the limit.
\<close>

definition getTemplateParams :: "PostgresLabel \<Rightarrow> pgQuery \<Rightarrow> (tdata \<times> pgQuery) option" where
  "getTemplateParams label pq0 =
     (case whereSQL pq0 of
        None \<Rightarrow> None
      | Some (where_text, pq1) \<Rightarrow>
          (case limitSQL pq1 of
             (limit_text, pq2) \<Rightarrow>
               Some (map_of
                 [(''hasFieldCriteria'', VBool (length (children (pq_fieldsWhereClause pq0)) \<noteq> 0 \<or> length (pq_limit pq0) \<noteq> 0)),
                  (''hasLabelCriteria'', VBool (length (children (pq_labelsWhereClause pq0)) \<noteq> 0)),
                  (''ENTITY_TABLE'', VString (pq_entityTableName pq0)),
                  (''PRIMARY_KEY'', VString PrimaryKeyColumn),
                  (''LABELS_TABLE'', VString (LabelsTableName label)),
                  (''REF_COLUMN'', VString (ReferenceColumn label)),
                  (''JOIN'', VString (joinSQL pq0)),
                  (''WHERE'', VString where_text),
                  (''FOR_UPDATE_OF'', VString (lockSQL pq0)),
                  (''ORDER_BY'', VString (orderBySQL pq0)),
                  (''ORDER_BY_SEQUENCE'', VString (orderBySequenceSQL pq0)),
                  (''LIMIT'', VString limit_text),
                  (''RETURNING'', VString (returningSQL pq0))], pq2)))"

text \<open>
  The two regular expressions and \<open>TrimSpace\<close>: a pair of line breaks becomes one, a run of white
  space becomes a blank, white space at the ends is cut.
\<close>

definition is_space :: "char \<Rightarrow> bool" where
  "is_space c = (c \<in> {CHR 0x09, CHR 0x0A, CHR 0x0C, CHR 0x0D, CHR 0x20})"

fun collapse_space :: "string \<Rightarrow> string" where
  "collapse_space [] = []"
| "collapse_space [c] = [if is_space c then CHR '' '' else c]"
| "collapse_space (c # d # s) =
     (if is_space c then (if is_space d then collapse_space (d # s) else CHR '' '' # collapse_space (d # s))
      else c # collapse_space (d # s))"

definition strings_TrimSpace :: "string \<Rightarrow> string" where
  "strings_TrimSpace s =
     (let space = (\<lambda>c. is_space c \<or> c = CHR 0x0B) in rev (dropWhile space (rev (dropWhile space s))))"

definition finalizeSQL :: "('w, 'r) pgDB \<Rightarrow> string \<Rightarrow> pgQuery \<Rightarrow> (error, string \<times> pgQuery) result" where
  "finalizeSQL db sql pq =
     try_then
       (if pq_shouldRebind pq then
          try_then (db_In db sql (pq_queryParams pq))
            (\<lambda>(sql', queryParams). Inr (sql', pq\<lparr>pq_queryParams := queryParams\<rparr>))
        else Inr (sql, pq))
       (\<lambda>(sql', pq'). Inr (strings_TrimSpace (collapse_space (strings_ReplacePair CHR 0x0A (db_Rebind db sql'))), pq'))"

definition resolveQueryTemplate ::
  "('w, 'r) pgDB \<Rightarrow> string \<Rightarrow> pgQuery \<Rightarrow> (error, string \<times> pgQuery) result option" where
  "resolveQueryTemplate db template pq =
     (case pq_err pq of
        Some err \<Rightarrow> Some (Inl err)
      | None \<Rightarrow>
          (case pq_labelEntity pq of
             None \<Rightarrow> Some (Inl (ErrorString ''query builder requires the entity to have associated label entity''))
           | Some label \<Rightarrow>
               map_option (\<lambda>(data, pq'). try_then (Tsprintf template data) (\<lambda>q. finalizeSQL db q pq'))
                 (getTemplateParams label pq)))"

text \<open>Resolve a template and hand statement and parameters to a call of the database.\<close>

definition run_template ::
  "('w, 'r) pgDB \<Rightarrow> string \<Rightarrow> (string \<Rightarrow> query_param list \<Rightarrow> 'w \<Rightarrow> (db_error, 'a) result \<times> 'w)
   \<Rightarrow> pgQuery \<Rightarrow> 'w \<Rightarrow> ((db_error, 'a) result \<times> 'w) option" where
  "run_template db template call pq w =
     map_option (\<lambda>r. case r of Inl err \<Rightarrow> (Inl (OtherError err), w)
                             | Inr (q, pq') \<Rightarrow> call q (pq_queryParams pq') w)
       (resolveQueryTemplate db template pq)"

definition pq_List :: "('w, 'r) pgDB \<Rightarrow> pgQuery \<Rightarrow> 'w \<Rightarrow> ((db_error, 'r list) result \<times> 'w) option" where
  "pq_List db = run_template db SelectQueryTemplate (db_Queryx db)"

definition pq_ListNoLabels :: "('w, 'r) pgDB \<Rightarrow> pgQuery \<Rightarrow> 'w \<Rightarrow> ((db_error, 'r list) result \<times> 'w) option" where
  "pq_ListNoLabels db = run_template db SelectNoLabelsQueryTemplate (db_Queryx db)"

definition pq_Count :: "('w, 'r) pgDB \<Rightarrow> pgQuery \<Rightarrow> 'w \<Rightarrow> ((db_error, int) result \<times> 'w) option" where
  "pq_Count db = run_template db CountQueryTemplate (db_GetInt db)"

definition pq_CountLabelValues :: "('w, 'r) pgDB \<Rightarrow> pgQuery \<Rightarrow> 'w \<Rightarrow> ((db_error, int) result \<times> 'w) option" where
  "pq_CountLabelValues db = run_template db CountLabelValuesQueryTemplate (db_GetInt db)"

definition pq_Delete ::
  "('w, 'r) pgDB \<Rightarrow> pgQuery \<Rightarrow> 'w \<Rightarrow> ((db_error, (error, int) result) result \<times> 'w) option" where
  "pq_Delete db = run_template db DeleteQueryTemplate (db_Exec db)"

definition pq_DeleteReturning ::
  "('w, 'r) pgDB \<Rightarrow> string list \<Rightarrow> pgQuery \<Rightarrow> 'w \<Rightarrow> ((db_error, 'r list) result \<times> 'w) option" where
  "pq_DeleteReturning db returned pq w =
     (case validateReturningFields (columnsByTags (pq_entityTags pq)) returned of
        Some err \<Rightarrow> Some (Inl (OtherError err), w)
      | None \<Rightarrow>
          run_template db DeleteQueryTemplate (db_Queryx db)
            (pq\<lparr>pq_returningFields := pq_returningFields pq @ returned\<rparr>) w)"

definition pq_Query ::
  "('w, 'r) pgDB \<Rightarrow> NamedQuery \<Rightarrow> (string \<rightharpoonup> query_param) \<Rightarrow> pgQuery \<Rightarrow> 'w
   \<Rightarrow> ((db_error, 'r list) result \<times> 'w) option" where
  "pq_Query db queryName queryParams pq w =
     (case pq_labelEntity pq of
        None \<Rightarrow> None
      | Some label \<Rightarrow>
          map_option (\<lambda>(data, _).
              case try_then (Tsprintf (GetNamedQuery queryName) data)
                     (\<lambda>sql. try_then (db_Named db sql queryParams) (\<lambda>(sql, args). db_In db sql args)) of
                Inl err \<Rightarrow> (Inl (OtherError err), w)
              | Inr (sql, args) \<Rightarrow> db_Queryx db (db_Rebind db sql) args w)
            (getTemplateParams label pq))"

end
