(* ===== verification/PgEntities.thy ===== *)
theory PgEntities
  imports QueryBuilder ResourceTypes
begin

text \<open>
  The rows of the database (\<open>src/storage/postgres/base_entity.go\<close>, one file for each entity, the
  generated files beside them, and the conversions of \<open>abstract.go\<close>).  Every entity is a record with
  the columns of its struct; \<open>FromObject\<close> makes it from an object and \<open>ToObject\<close> gives the object
  back.  Labels are rows of their own, so the object that \<open>ToObject\<close> gives has none.

  A column of JSON text is \<open>None\<close> when it is nil.  The JSON text of transitive resources and of
  an operation context comes from \<open>encoding/json\<close>: the record \<open>json_codec\<close> holds the marshalling
  functions.  The text of an HTTP error is the error, as in the objects.
\<close>

subsection \<open>Nullable columns\<close>

record NullString =
  ns_String :: string
  ns_Valid :: bool

record NullBool =
  nb_Bool :: bool
  nb_Valid :: bool

record NullJSONText =
  nj_JSONText :: json_raw
  nj_Valid :: bool

definition toNullString :: "string \<Rightarrow> NullString" where
  "toNullString s = \<lparr>ns_String = s, ns_Valid = (s \<noteq> '''')\<rparr>"

definition toNullBool :: "bool option \<Rightarrow> NullBool" where
  "toNullBool b = \<lparr>nb_Bool = (case b of None \<Rightarrow> False | Some v \<Rightarrow> v), nb_Valid = (b \<noteq> None)\<rparr>"

definition toBoolPointer :: "NullBool \<Rightarrow> bool option" where
  "toBoolPointer nullBool = (if \<not> nb_Valid nullBool then None else Some (nb_Bool nullBool))"

definition getJSONText :: "json_raw \<Rightarrow> json_raw" where
  "getJSONText item = (if item = Some ''null'' then Some ''{}'' else item)"

definition getJSONRawMessage :: "json_raw \<Rightarrow> json_raw" where
  "getJSONRawMessage item = (if item = Some ''{}'' \<or> item = Some ''null'' then None else item)"

definition getNullJSONText :: "json_raw \<Rightarrow> NullJSONText" where
  "getNullJSONText item =
     (if length (raw_bytes item) = 0 \<or> item = Some ''null'' then \<lparr>nj_JSONText = None, nj_Valid = False\<rparr>
      else \<lparr>nj_JSONText = getJSONText item, nj_Valid = True\<rparr>)"

definition getJSONRawMessageFromString :: "string \<Rightarrow> json_raw" where
  "getJSONRawMessageFromString str = (if length str = 0 then None else Some str)"

definition getStringFromJSONRawMessage :: "json_raw \<Rightarrow> string" where
  "getStringFromJSONRawMessage message = raw_bytes message"

text \<open>\<open>encoding/json\<close> on the types of the JSON columns of an operation.\<close>

record json_codec =
  marshal_related :: "RelatedType list \<Rightarrow> (error, string) result"
  unmarshal_related :: "string \<Rightarrow> (error, RelatedType list) result"
  marshal_context :: "OperationContext option \<Rightarrow> (error, string) result"
  unmarshal_context :: "string \<Rightarrow> (error, OperationContext) result"

definition zero_context :: OperationContext where
  "zero_context = \<lparr>Async = False, IsAsyncNotDefined = False, Cascade = False, ServicePlanID = '''',
     ServiceInstanceID = '''', UserInfo = None, Params = Map.empty\<rparr>"

definition toJsonAsObject :: "json_codec \<Rightarrow> json_raw \<Rightarrow> (error, OperationContext) result" where
  "toJsonAsObject codec objectJson =
     (case objectJson of None \<Rightarrow> Inr zero_context | Some t \<Rightarrow> unmarshal_context codec t)"

subsection \<open>Base entity\<close>

record BaseEntity =
  e_ID :: string
  e_CreatedAt :: int
  e_UpdatedAt :: int
  e_PagingSequence :: int
  e_Ready :: bool

definition base_tags :: "tagType list" where
  "base_tags =
     [\<lparr>Tag = ''id'', tag_Type = stringType\<rparr>, \<lparr>Tag = ''created_at'', tag_Type = timeType\<rparr>,
      \<lparr>Tag = ''updated_at'', tag_Type = timeType\<rparr>,
      \<lparr>Tag = ''paging_sequence,auto_increment'', tag_Type = int64Type\<rparr>,
      \<lparr>Tag = ''ready'', tag_Type = otherType ''bool''\<rparr>]"

abbreviation col :: "string \<Rightarrow> reflect_type \<Rightarrow> tagType" where
  "col tag t \<equiv> \<lparr>Tag = tag, tag_Type = t\<rparr>"

abbreviation boolType :: reflect_type where "boolType \<equiv> otherType ''bool''"
abbreviation nullBoolType :: reflect_type where "nullBoolType \<equiv> otherType ''sql.NullBool''"
abbreviation nullJSONType :: reflect_type where "nullJSONType \<equiv> otherType ''types.NullJSONText''"

subsection \<open>Service plans\<close>

record ServicePlanEntity = BaseEntity +
  spe_Name :: string
  spe_Description :: string
  spe_Free :: bool
  spe_Bindable :: NullBool
  spe_PlanUpdatable :: NullBool
  spe_CatalogID :: string
  spe_CatalogName :: string
  spe_Metadata :: json_raw
  spe_Schemas :: json_raw
  spe_MaximumPollingDuration :: int
  spe_MaintenanceInfo :: json_raw
  spe_ServiceOfferingID :: string

definition ServicePlanEntity_tags :: "tagType list" where
  "ServicePlanEntity_tags = base_tags @
     [col ''name'' stringType, col ''description'' stringType, col ''free'' boolType,
      col ''bindable'' nullBoolType, col ''plan_updateable'' nullBoolType,
      col ''catalog_id'' stringType, col ''catalog_name'' stringType, col ''metadata'' jsonType,
      col ''schemas'' jsonType, col ''maximum_polling_duration'' intType,
      col ''maintenance_info'' jsonType, col ''service_offering_id'' stringType]"

definition ServicePlanEntity_FromObject :: "ServicePlan \<Rightarrow> ServicePlanEntity" where
  "ServicePlanEntity_FromObject x =
     \<lparr>e_ID = ID x, e_CreatedAt = CreatedAt x, e_UpdatedAt = UpdatedAt x,
      e_PagingSequence = PagingSequence x, e_Ready = Ready x, spe_Name = sp_Name x,
      spe_Description = sp_Description x,
      spe_Free = (case sp_Free x of None \<Rightarrow> True | Some b \<Rightarrow> b),
      spe_Bindable = toNullBool (sp_Bindable x),
      spe_PlanUpdatable = toNullBool (sp_PlanUpdatable x), spe_CatalogID = sp_CatalogID x,
      spe_CatalogName = sp_CatalogName x, spe_Metadata = getJSONText (sp_Metadata x),
      spe_Schemas = getJSONText (sp_Schemas x),
      spe_MaximumPollingDuration = sp_MaximumPollingDuration x,
      spe_MaintenanceInfo = getJSONText (sp_MaintenanceInfo x),
      spe_ServiceOfferingID = sp_ServiceOfferingID x\<rparr>"

definition ServicePlanEntity_ToObject :: "ServicePlanEntity \<Rightarrow> ServicePlan" where
  "ServicePlanEntity_ToObject e =
     \<lparr>ID = e_ID e, CreatedAt = e_CreatedAt e, UpdatedAt = e_UpdatedAt e, Labels = Map.empty,
      PagingSequence = e_PagingSequence e, Ready = e_Ready e, sp_Name = spe_Name e,
      sp_Description = spe_Description e, sp_CatalogID = spe_CatalogID e,
      sp_CatalogName = spe_CatalogName e, sp_Free = Some (spe_Free e),
      sp_Bindable = toBoolPointer (spe_Bindable e),
      sp_PlanUpdatable = toBoolPointer (spe_PlanUpdatable e),
      sp_Metadata = getJSONRawMessage (spe_Metadata e),
      sp_Schemas = getJSONRawMessage (spe_Schemas e),
      sp_MaximumPollingDuration = spe_MaximumPollingDuration e,
      sp_MaintenanceInfo = getJSONRawMessage (spe_MaintenanceInfo e),
      sp_ServiceOfferingID = spe_ServiceOfferingID e\<rparr>"

subsection \<open>Service offerings\<close>

record ServiceOfferingEntity = BaseEntity +
  soe_Name :: string
  soe_Description :: string
  soe_Bindable :: bool
  soe_InstancesRetrievable :: bool
  soe_BindingsRetrievable :: bool
  soe_PlanUpdatable :: bool
  soe_AllowContextUpdates :: bool
  soe_CatalogID :: string
  soe_CatalogName :: string
  soe_Tags :: json_raw
  soe_Requires :: json_raw
  soe_Metadata :: json_raw
  soe_BrokerID :: string
  soe_Plans :: "ServicePlanEntity list"

definition ServiceOfferingEntity_tags :: "tagType list" where
  "ServiceOfferingEntity_tags = base_tags @
     [col ''name'' stringType, col ''description'' stringType, col ''bindable'' boolType,
      col ''instances_retrievable'' boolType, col ''bindings_retrievable'' boolType,
      col ''plan_updateable'' boolType, col ''allow_context_updates'' boolType,
      col ''catalog_id'' stringType, col ''catalog_name'' stringType, col ''tags'' jsonType,
      col ''requires'' jsonType, col ''metadata'' jsonType, col ''broker_id'' stringType]"

definition ServiceOfferingEntity_FromObject :: "ServiceOffering \<Rightarrow> ServiceOfferingEntity" where
  "ServiceOfferingEntity_FromObject x =
     \<lparr>e_ID = ID x, e_CreatedAt = CreatedAt x, e_UpdatedAt = UpdatedAt x,
      e_PagingSequence = PagingSequence x, e_Ready = Ready x, soe_Name = so_Name x,
      soe_Description = so_Description x, soe_Bindable = so_Bindable x,
      soe_InstancesRetrievable = so_InstancesRetrievable x,
      soe_BindingsRetrievable = so_BindingsRetrievable x, soe_PlanUpdatable = so_PlanUpdatable x,
      soe_AllowContextUpdates = so_AllowContextUpdates x, soe_CatalogID = so_CatalogID x,
      soe_CatalogName = so_CatalogName x, soe_Tags = getJSONText (so_Tags x),
      soe_Requires = getJSONText (so_Requires x), soe_Metadata = getJSONText (so_Metadata x),
      soe_BrokerID = so_BrokerID x, soe_Plans = map ServicePlanEntity_FromObject (so_Plans x)\<rparr>"

definition ServiceOfferingEntity_ToObject :: "ServiceOfferingEntity \<Rightarrow> ServiceOffering" where
  "ServiceOfferingEntity_ToObject e =
     \<lparr>ID = e_ID e, CreatedAt = e_CreatedAt e, UpdatedAt = e_UpdatedAt e, Labels = Map.empty,
      PagingSequence = e_PagingSequence e, Ready = e_Ready e, so_Name = soe_Name e,
      so_Description = soe_Description e, so_Bindable = soe_Bindable e,
      so_InstancesRetrievable = soe_InstancesRetrievable e,
      so_BindingsRetrievable = soe_BindingsRetrievable e, so_PlanUpdatable = soe_PlanUpdatable e,
      so_AllowContextUpdates = soe_AllowContextUpdates e,
      so_Tags = getJSONRawMessage (soe_Tags e), so_Requires = getJSONRawMessage (soe_Requires e),
      so_Metadata = getJSONRawMessage (soe_Metadata e), so_BrokerID = soe_BrokerID e,
      so_CatalogID = soe_CatalogID e, so_CatalogName = soe_CatalogName e,
      so_Plans = map ServicePlanEntity_ToObject (soe_Plans e)\<rparr>"

subsection \<open>Brokers\<close>

record BrokerEntity = BaseEntity +
  bre_Name :: string
  bre_Description :: NullString
  bre_BrokerURL :: string
  bre_Username :: string
  bre_Password :: string
  bre_Integrity :: string
  bre_TlsClientKey :: string
  bre_TlsClientCertificate :: string
  bre_Catalog :: json_raw
  bre_SMProvidedCredentials :: bool
  bre_Services :: "ServiceOfferingEntity list"

definition BrokerEntity_tags :: "tagType list" where
  "BrokerEntity_tags = base_tags @
     [col ''name'' stringType, col ''description'' nullableStringType, col ''broker_url'' stringType,
      col ''username'' stringType, col ''password'' stringType, col ''integrity'' byteSliceType,
      col ''tls_client_key'' stringType, col ''tls_client_certificate'' stringType,
      col ''catalog'' jsonType, col ''sm_provided_tls_credentials'' boolType]"

definition BrokerEntity_FromObject :: "ServiceBroker \<Rightarrow> BrokerEntity" where
  "BrokerEntity_FromObject x =
     (let b = \<lparr>e_ID = ID x, e_CreatedAt = CreatedAt x, e_UpdatedAt = UpdatedAt x,
              e_PagingSequence = PagingSequence x, e_Ready = Ready x, bre_Name = sb_Name x,
              bre_Description = toNullString (sb_Description x), bre_BrokerURL = sb_BrokerURL x,
              bre_Username = '''', bre_Password = '''', bre_Integrity = '''', bre_TlsClientKey = '''',
              bre_TlsClientCertificate = '''', bre_Catalog = getJSONText (sb_Catalog x),
              bre_SMProvidedCredentials = False,
              bre_Services = map ServiceOfferingEntity_FromObject (sb_Services x)\<rparr>
      in case sb_Credentials x of
           None \<Rightarrow> b
         | Some c \<Rightarrow>
             (let b = b\<lparr>bre_Integrity := cr_Integrity c\<rparr>;
                  b = (case cr_Basic c of
                         None \<Rightarrow> b
                       | Some basic \<Rightarrow> b\<lparr>bre_Username := Username basic, bre_Password := Password basic\<rparr>)
              in case cr_TLS c of
                   None \<Rightarrow> b
                 | Some tls \<Rightarrow> b\<lparr>bre_TlsClientCertificate := Certificate tls, bre_TlsClientKey := Key tls,
                                 bre_SMProvidedCredentials := SMProvidedCredentials tls\<rparr>))"

definition BrokerEntity_ToObject :: "BrokerEntity \<Rightarrow> ServiceBroker" where
  "BrokerEntity_ToObject e =
     (let tls0 = \<lparr>Certificate = '''', Key = '''', SMProvidedCredentials = bre_SMProvidedCredentials e\<rparr>;
          tls = (if bre_TlsClientCertificate e \<noteq> '''' \<or> bre_TlsClientKey e \<noteq> ''''
                 then tls0\<lparr>Key := bre_TlsClientKey e, Certificate := bre_TlsClientCertificate e\<rparr> else tls0);
          basic = (if bre_Username e \<noteq> '''' \<or> bre_Password e \<noteq> ''''
                   then Some \<lparr>Username = bre_Username e, Password = bre_Password e\<rparr> else None)
      in \<lparr>ID = e_ID e, CreatedAt = e_CreatedAt e, UpdatedAt = e_UpdatedAt e, Labels = Map.empty,
          PagingSequence = e_PagingSequence e, Ready = e_Ready e, sb_Name = bre_Name e,
          sb_Description = ns_String (bre_Description e), sb_BrokerURL = bre_BrokerURL e,
          sb_Credentials = Some \<lparr>cr_Basic = basic, cr_TLS = Some tls, cr_Integrity = bre_Integrity e\<rparr>,
          sb_Catalog = getJSONRawMessage (bre_Catalog e),
          sb_Services = map ServiceOfferingEntity_ToObject (bre_Services e)\<rparr>)"

subsection \<open>Platforms\<close>

record PlatformEntity = BaseEntity +
  ple_Type :: string
  ple_Name :: string
  ple_Description :: NullString
  ple_Username :: string
  ple_OldUsername :: string
  ple_Password :: string
  ple_OldPassword :: string
  ple_Integrity :: string
  ple_Active :: bool
  ple_Suspended :: bool
  ple_CredentialsActive :: bool
  ple_LastActive :: int
  ple_Technical :: bool
  ple_Version :: NullString

definition PlatformEntity_tags :: "tagType list" where
  "PlatformEntity_tags = base_tags @
     [col ''type'' stringType, col ''name'' stringType, col ''description'' nullableStringType,
      col ''username'' stringType, col ''old_username'' stringType, col ''password'' stringType,
      col ''old_password'' stringType, col ''integrity'' byteSliceType, col ''active'' boolType,
      col ''suspended'' boolType, col ''credentials_active'' boolType, col ''last_active'' timeType,
      col ''technical'' boolType, col ''version'' nullableStringType]"

text \<open>The basic credentials of an optional \<open>Credentials\<close>, empty texts when there are none.\<close>

definition basic_of :: "Credentials option \<Rightarrow> Basic" where
  "basic_of c =
     (case c of
        None \<Rightarrow> \<lparr>Username = '''', Password = ''''\<rparr>
      | Some cr \<Rightarrow> (case cr_Basic cr of None \<Rightarrow> \<lparr>Username = '''', Password = ''''\<rparr> | Some b \<Rightarrow> b))"

definition PlatformEntity_FromObject :: "Platform \<Rightarrow> PlatformEntity" where
  "PlatformEntity_FromObject x =
     \<lparr>e_ID = ID x, e_CreatedAt = CreatedAt x, e_UpdatedAt = UpdatedAt x,
      e_PagingSequence = PagingSequence x, e_Ready = Ready x, ple_Type = p_Type x,
      ple_Name = p_Name x, ple_Description = toNullString (p_Description x),
      ple_Username = Username (basic_of (p_Credentials x)),
      ple_OldUsername = Username (basic_of (p_OldCredentials x)),
      ple_Password = Password (basic_of (p_Credentials x)),
      ple_OldPassword = Password (basic_of (p_OldCredentials x)), ple_Integrity = p_Integrity x,
      ple_Active = p_Active x, ple_Suspended = p_Suspended x,
      ple_CredentialsActive = p_CredentialsActive x, ple_LastActive = p_LastActive x,
      ple_Technical = p_Technical x, ple_Version = toNullString (p_Version x)\<rparr>"

definition credentials_of :: "string \<Rightarrow> string \<Rightarrow> Credentials option" where
  "credentials_of username password =
     (if length username > 0 \<or> length password > 0
      then Some \<lparr>cr_Basic = Some \<lparr>Username = username, Password = password\<rparr>, cr_TLS = None, cr_Integrity = ''''\<rparr>
      else None)"

definition PlatformEntity_ToObject :: "PlatformEntity \<Rightarrow> Platform" where
  "PlatformEntity_ToObject e =
     \<lparr>ID = e_ID e, CreatedAt = e_CreatedAt e, UpdatedAt = e_UpdatedAt e, Labels = Map.empty,
      PagingSequence = e_PagingSequence e, Ready = e_Ready e, p_Type = ple_Type e,
      p_Name = ple_Name e, p_Description = ns_String (ple_Description e),
      p_Credentials = credentials_of (ple_Username e) (ple_Password e),
      p_OldCredentials = credentials_of (ple_OldUsername e) (ple_OldPassword e),
      p_Version = ns_String (ple_Version e), p_Active = ple_Active e,
      p_Suspended = ple_Suspended e, p_LastActive = ple_LastActive e,
      p_Integrity = ple_Integrity e, p_CredentialsActive = ple_CredentialsActive e,
      p_Technical = ple_Technical e\<rparr>"

subsection \<open>Service instances\<close>

record ServiceInstanceEntity = BaseEntity +
  sie_Name :: string
  sie_ServicePlanID :: string
  sie_PlatformID :: string
  sie_ReferencedInstanceID :: NullString
  sie_DashboardURL :: NullString
  sie_MaintenanceInfo :: json_raw
  sie_Context :: json_raw
  sie_PreviousValues :: json_raw
  sie_UpdateValues :: string
  sie_Usable :: bool
  sie_Shared :: NullBool

definition ServiceInstanceEntity_tags :: "tagType list" where
  "ServiceInstanceEntity_tags = base_tags @
     [col ''name'' stringType, col ''service_plan_id'' stringType, col ''platform_id'' stringType,
      col ''referenced_instance_id'' nullableStringType, col ''dashboard_url'' nullableStringType,
      col ''maintenance_info'' jsonType, col ''context'' jsonType, col ''previous_values'' jsonType,
      col ''update_values'' jsonType, col ''usable'' boolType, col ''shared'' nullBoolType]"

text \<open>The pointer \<open>Shared\<close> of the object that is read is new: it has the address \<open>addr\<close>.\<close>

definition ServiceInstanceEntity_FromObject :: "ServiceInstance \<Rightarrow> ServiceInstanceEntity" where
  "ServiceInstanceEntity_FromObject x =
     \<lparr>e_ID = ID x, e_CreatedAt = CreatedAt x, e_UpdatedAt = UpdatedAt x,
      e_PagingSequence = PagingSequence x, e_Ready = Ready x, sie_Name = si_Name x,
      sie_ServicePlanID = si_ServicePlanID x, sie_PlatformID = si_PlatformID x,
      sie_ReferencedInstanceID = toNullString (si_ReferencedInstanceID x),
      sie_DashboardURL = toNullString (si_DashboardURL x),
      sie_MaintenanceInfo = getJSONText (si_MaintenanceInfo x),
      sie_Context = getJSONText (si_Context x),
      sie_PreviousValues = getJSONText (si_PreviousValues x),
      sie_UpdateValues = si_UpdateValues x, sie_Usable = si_Usable x,
      sie_Shared = toNullBool (map_option snd (si_Shared x))\<rparr>"

definition ServiceInstanceEntity_ToObject :: "nat \<Rightarrow> ServiceInstanceEntity \<Rightarrow> ServiceInstance" where
  "ServiceInstanceEntity_ToObject addr e =
     \<lparr>ID = e_ID e, CreatedAt = e_CreatedAt e, UpdatedAt = e_UpdatedAt e, Labels = Map.empty,
      PagingSequence = e_PagingSequence e, Ready = e_Ready e, si_Name = sie_Name e,
      si_ServicePlanID = sie_ServicePlanID e,
      si_ReferencedInstanceID = ns_String (sie_ReferencedInstanceID e),
      si_PlatformID = sie_PlatformID e, si_DashboardURL = ns_String (sie_DashboardURL e),
      si_MaintenanceInfo = getJSONRawMessage (sie_MaintenanceInfo e),
      si_Context = getJSONRawMessage (sie_Context e), si_UpdateValues = sie_UpdateValues e,
      si_PreviousValues = getJSONRawMessage (sie_PreviousValues e), si_Parameters = '''',
      si_Usable = sie_Usable e,
      si_Shared = map_option (\<lambda>b. (addr, b)) (toBoolPointer (sie_Shared e))\<rparr>"

subsection \<open>Service bindings\<close>

record ServiceBindingEntity = BaseEntity +
  bde_Name :: string
  bde_ServiceInstanceID :: string
  bde_SyslogDrainURL :: NullString
  bde_RouteServiceURL :: NullString
  bde_VolumeMounts :: NullJSONText
  bde_Endpoints :: NullJSONText
  bde_Context :: json_raw
  bde_BindResource :: json_raw
  bde_Credentials :: string
  bde_Integrity :: string

definition ServiceBindingEntity_tags :: "tagType list" where
  "ServiceBindingEntity_tags = base_tags @
     [col ''name'' stringType, col ''service_instance_id'' stringType,
      col ''syslog_drain_url'' nullableStringType, col ''route_service_url'' nullableStringType,
      col ''volume_mounts'' nullJSONType, col ''endpoints'' nullJSONType, col ''context'' jsonType,
      col ''bind_resource'' jsonType, col ''credentials'' stringType,
      col ''integrity'' byteSliceType]"

definition ServiceBindingEntity_FromObject :: "ServiceBinding \<Rightarrow> ServiceBindingEntity" where
  "ServiceBindingEntity_FromObject x =
     \<lparr>e_ID = ID x, e_CreatedAt = CreatedAt x, e_UpdatedAt = UpdatedAt x,
      e_PagingSequence = PagingSequence x, e_Ready = Ready x, bde_Name = bd_Name x,
      bde_ServiceInstanceID = bd_ServiceInstanceID x,
      bde_SyslogDrainURL = toNullString (bd_SyslogDrainURL x),
      bde_RouteServiceURL = toNullString (bd_RouteServiceURL x),
      bde_VolumeMounts = getNullJSONText (bd_VolumeMounts x),
      bde_Endpoints = getNullJSONText (bd_Endpoints x), bde_Context = getJSONText (bd_Context x),
      bde_BindResource = getJSONText (bd_BindResource x),
      bde_Credentials = getStringFromJSONRawMessage (bd_Credentials x),
      bde_Integrity = bd_Integrity x\<rparr>"

definition ServiceBindingEntity_ToObject :: "ServiceBindingEntity \<Rightarrow> ServiceBinding" where
  "ServiceBindingEntity_ToObject e =
     \<lparr>ID = e_ID e, CreatedAt = e_CreatedAt e, UpdatedAt = e_UpdatedAt e, Labels = Map.empty,
      PagingSequence = e_PagingSequence e, Ready = e_Ready e, bd_Name = bde_Name e,
      bd_ServiceInstanceID = bde_ServiceInstanceID e,
      bd_SyslogDrainURL = ns_String (bde_SyslogDrainURL e),
      bd_RouteServiceURL = ns_String (bde_RouteServiceURL e),
      bd_VolumeMounts = getJSONRawMessage (nj_JSONText (bde_VolumeMounts e)),
      bd_Endpoints = getJSONRawMessage (nj_JSONText (bde_Endpoints e)),
      bd_Context = getJSONRawMessage (bde_Context e),
      bd_BindResource = getJSONRawMessage (bde_BindResource e),
      bd_Credentials = getJSONRawMessageFromString (bde_Credentials e), bd_Parameters = '''',
      bd_Integrity = bde_Integrity e\<rparr>"

subsection \<open>Broker platform credentials\<close>

record BrokerPlatformCredentialEntity = BaseEntity +
  bpce_Username :: string
  bpce_PasswordHash :: string
  bpce_OldUsername :: string
  bpce_OldPasswordHash :: string
  bpce_PlatformID :: string
  bpce_BrokerID :: string
  bpce_Integrity :: string
  bpce_Active :: bool

definition BrokerPlatformCredentialEntity_tags :: "tagType list" where
  "BrokerPlatformCredentialEntity_tags = base_tags @
     [col ''username'' stringType, col ''password_hash'' stringType, col ''old_username'' stringType,
      col ''old_password_hash'' stringType, col ''platform_id'' stringType,
      col ''broker_id'' stringType, col ''integrity'' byteSliceType, col ''active'' boolType]"

definition BrokerPlatformCredentialEntity_FromObject :: "BrokerPlatformCredential \<Rightarrow> BrokerPlatformCredentialEntity" where
  "BrokerPlatformCredentialEntity_FromObject x =
     \<lparr>e_ID = ID x, e_CreatedAt = CreatedAt x, e_UpdatedAt = UpdatedAt x,
      e_PagingSequence = PagingSequence x, e_Ready = Ready x, bpce_Username = bpc_Username x,
      bpce_PasswordHash = bpc_PasswordHash x, bpce_OldUsername = bpc_OldUsername x,
      bpce_OldPasswordHash = bpc_OldPasswordHash x, bpce_PlatformID = bpc_PlatformID x,
      bpce_BrokerID = bpc_BrokerID x, bpce_Integrity = bpc_Integrity x,
      bpce_Active = bpc_Active x\<rparr>"

definition BrokerPlatformCredentialEntity_ToObject :: "BrokerPlatformCredentialEntity \<Rightarrow> BrokerPlatformCredential" where
  "BrokerPlatformCredentialEntity_ToObject e =
     \<lparr>ID = e_ID e, CreatedAt = e_CreatedAt e, UpdatedAt = e_UpdatedAt e, Labels = Map.empty,
      PagingSequence = e_PagingSequence e, Ready = e_Ready e, bpc_Username = bpce_Username e,
      bpc_PasswordHash = bpce_PasswordHash e, bpc_OldUsername = bpce_OldUsername e,
      bpc_OldPasswordHash = bpce_OldPasswordHash e, bpc_PlatformID = bpce_PlatformID e,
      bpc_BrokerID = bpce_BrokerID e, bpc_NotificationID = '''', bpc_Integrity = bpce_Integrity e,
      bpc_Active = bpce_Active e\<rparr>"

subsection \<open>Notifications\<close>

record NotificationEntity = BaseEntity +
  ne_Resource :: string
  ne_Type :: string
  ne_PlatformID :: NullString
  ne_Revision :: int
  ne_Payload :: json_raw
  ne_CorrelationID :: NullString

definition NotificationEntity_tags :: "tagType list" where
  "NotificationEntity_tags = base_tags @
     [col ''resource'' stringType, col ''type'' stringType, col ''platform_id'' nullableStringType,
      col ''revision,auto_increment'' int64Type, col ''payload'' jsonType,
      col ''correlation_id'' nullableStringType]"

definition NotificationEntity_FromObject :: "Notification \<Rightarrow> NotificationEntity" where
  "NotificationEntity_FromObject x =
     \<lparr>e_ID = ID x, e_CreatedAt = CreatedAt x, e_UpdatedAt = UpdatedAt x, e_PagingSequence = 0,
      e_Ready = Ready x, ne_Resource = n_Resource x, ne_Type = n_Type x,
      ne_PlatformID = toNullString (n_PlatformID x), ne_Revision = n_Revision x,
      ne_Payload = getJSONText (Some (n_Payload x)),
      ne_CorrelationID = toNullString (n_CorrelationID x)\<rparr>"

definition NotificationEntity_ToObject :: "NotificationEntity \<Rightarrow> Notification" where
  "NotificationEntity_ToObject e =
     \<lparr>ID = e_ID e, CreatedAt = e_CreatedAt e, UpdatedAt = e_UpdatedAt e, Labels = Map.empty,
      PagingSequence = 0, Ready = e_Ready e, n_Resource = ne_Resource e, n_Type = ne_Type e,
      n_PlatformID = ns_String (ne_PlatformID e), n_Revision = ne_Revision e,
      n_Payload = raw_bytes (getJSONRawMessage (ne_Payload e)),
      n_CorrelationID = ns_String (ne_CorrelationID e)\<rparr>"

subsection \<open>Visibilities\<close>

record VisibilityEntity = BaseEntity +
  ve_PlatformID :: NullString
  ve_ServicePlanID :: string

definition VisibilityEntity_tags :: "tagType list" where
  "VisibilityEntity_tags = base_tags @
     [col ''platform_id'' nullableStringType, col ''service_plan_id'' stringType]"

definition VisibilityEntity_FromObject :: "Visibility \<Rightarrow> VisibilityEntity" where
  "VisibilityEntity_FromObject x =
     \<lparr>e_ID = ID x, e_CreatedAt = CreatedAt x, e_UpdatedAt = UpdatedAt x,
      e_PagingSequence = PagingSequence x, e_Ready = Ready x,
      ve_PlatformID = toNullString (v_PlatformID x), ve_ServicePlanID = v_ServicePlanID x\<rparr>"

definition VisibilityEntity_ToObject :: "VisibilityEntity \<Rightarrow> Visibility" where
  "VisibilityEntity_ToObject e =
     \<lparr>ID = e_ID e, CreatedAt = e_CreatedAt e, UpdatedAt = e_UpdatedAt e, Labels = Map.empty,
      PagingSequence = e_PagingSequence e, Ready = e_Ready e,
      v_PlatformID = ns_String (ve_PlatformID e), v_ServicePlanID = ve_ServicePlanID e\<rparr>"

subsection \<open>Operations\<close>

record OperationEntity = BaseEntity +
  ope_Description :: NullString
  ope_Type :: string
  ope_State :: string
  ope_ResourceID :: string
  ope_TransitiveResources :: json_raw
  ope_ResourceType :: string
  ope_PlatformID :: string
  ope_Errors :: "http_error option"
  ope_CorrelationID :: NullString
  ope_ExternalID :: NullString
  ope_CascadeRootID :: NullString
  ope_Reschedule :: bool
  ope_ParentID :: NullString
  ope_RescheduleTimestamp :: int
  ope_DeletionScheduled :: int
  ope_Context :: json_raw

definition OperationEntity_tags :: "tagType list" where
  "OperationEntity_tags = base_tags @
     [col ''description'' nullableStringType, col ''type'' stringType, col ''state'' stringType,
      col ''resource_id'' stringType, col ''transitive_resources'' jsonType,
      col ''resource_type'' stringType, col ''platform_id'' stringType, col ''errors'' jsonType,
      col ''correlation_id'' nullableStringType, col ''external_id'' nullableStringType,
      col ''cascade_root_id'' nullableStringType, col ''reschedule'' boolType,
      col ''parent_id'' nullableStringType, col ''reschedule_timestamp'' timeType,
      col ''deletion_scheduled'' timeType, col ''context'' jsonType]"

definition OperationEntity_FromObject :: "json_codec \<Rightarrow> Operation \<Rightarrow> (error, OperationEntity) result" where
  "OperationEntity_FromObject codec x =
     try_then (marshal_related codec (TransitiveResources x)) (\<lambda>transitiveResourcesBytes.
     try_then (marshal_context codec (op_Context x)) (\<lambda>operationContext.
       Inr \<lparr>e_ID = ID x, e_CreatedAt = CreatedAt x, e_UpdatedAt = UpdatedAt x,
            e_PagingSequence = PagingSequence x, e_Ready = Ready x,
            ope_Description = toNullString (op_Description x), ope_Type = op_Type x,
            ope_State = op_State x, ope_ResourceID = ResourceID x,
            ope_TransitiveResources = getJSONText (Some transitiveResourcesBytes),
            ope_ResourceType = ObjectType_String (ResourceType x), ope_PlatformID = op_PlatformID x,
            ope_Errors = op_Errors x, ope_CorrelationID = toNullString (CorrelationID x),
            ope_ExternalID = toNullString (ExternalID x),
            ope_CascadeRootID = toNullString (CascadeRootID x), ope_Reschedule = Reschedule x,
            ope_ParentID = toNullString (ParentID x), ope_RescheduleTimestamp = RescheduleTimestamp x,
            ope_DeletionScheduled = DeletionScheduled x,
            ope_Context = getJSONText (Some operationContext)\<rparr>))"

text \<open>\<open>BytesToObject\<close> on a list of related types has nothing to validate.\<close>

definition OperationEntity_ToObject :: "json_codec \<Rightarrow> OperationEntity \<Rightarrow> (error, Operation) result" where
  "OperationEntity_ToObject codec e =
     try_then
       (if raw_bytes (ope_TransitiveResources e) \<noteq> ''''
        then unmarshal_related codec (raw_bytes (getJSONRawMessage (ope_TransitiveResources e)))
        else Inr []) (\<lambda>transitiveResources.
     try_then (toJsonAsObject codec (ope_Context e)) (\<lambda>operationContext.
       Inr \<lparr>ID = e_ID e, CreatedAt = e_CreatedAt e, UpdatedAt = e_UpdatedAt e, Labels = Map.empty,
            PagingSequence = e_PagingSequence e, Ready = e_Ready e,
            op_Description = ns_String (ope_Description e), op_Type = ope_Type e,
            op_State = ope_State e, ResourceID = ope_ResourceID e,
            TransitiveResources = transitiveResources, ResourceType = ope_ResourceType e,
            op_Errors = ope_Errors e, op_PlatformID = ope_PlatformID e,
            CorrelationID = ns_String (ope_CorrelationID e), ExternalID = ns_String (ope_ExternalID e),
            ParentID = ns_String (ope_ParentID e), CascadeRootID = ns_String (ope_CascadeRootID e),
            op_Context = Some operationContext, Reschedule = ope_Reschedule e,
            RescheduleTimestamp = ope_RescheduleTimestamp e,
            DeletionScheduled = ope_DeletionScheduled e\<rparr>))"

subsection \<open>Entities\<close>

datatype Entity =
    BrokerRow BrokerEntity
  | PlatformRow PlatformEntity
  | ServiceOfferingRow ServiceOfferingEntity
  | ServicePlanRow ServicePlanEntity
  | VisibilityRow VisibilityEntity
  | NotificationRow NotificationEntity
  | OperationRow OperationEntity
  | ServiceInstanceRow ServiceInstanceEntity
  | ServiceBindingRow ServiceBindingEntity
  | BrokerPlatformCredentialRow BrokerPlatformCredentialEntity

datatype EntityKind =
    BrokerKind
  | PlatformKind
  | ServiceOfferingKind
  | ServicePlanKind
  | VisibilityKind
  | NotificationKind
  | OperationKind
  | ServiceInstanceKind
  | ServiceBindingKind
  | BrokerPlatformCredentialKind

primrec entity_kind :: "Entity \<Rightarrow> EntityKind" where
  "entity_kind (BrokerRow e) = BrokerKind"
| "entity_kind (PlatformRow e) = PlatformKind"
| "entity_kind (ServiceOfferingRow e) = ServiceOfferingKind"
| "entity_kind (ServicePlanRow e) = ServicePlanKind"
| "entity_kind (VisibilityRow e) = VisibilityKind"
| "entity_kind (NotificationRow e) = NotificationKind"
| "entity_kind (OperationRow e) = OperationKind"
| "entity_kind (ServiceInstanceRow e) = ServiceInstanceKind"
| "entity_kind (ServiceBindingRow e) = ServiceBindingKind"
| "entity_kind (BrokerPlatformCredentialRow e) = BrokerPlatformCredentialKind"

primrec entity_GetID :: "Entity \<Rightarrow> string" where
  "entity_GetID (BrokerRow e) = e_ID e"
| "entity_GetID (PlatformRow e) = e_ID e"
| "entity_GetID (ServiceOfferingRow e) = e_ID e"
| "entity_GetID (ServicePlanRow e) = e_ID e"
| "entity_GetID (VisibilityRow e) = e_ID e"
| "entity_GetID (NotificationRow e) = e_ID e"
| "entity_GetID (OperationRow e) = e_ID e"
| "entity_GetID (ServiceInstanceRow e) = e_ID e"
| "entity_GetID (ServiceBindingRow e) = e_ID e"
| "entity_GetID (BrokerPlatformCredentialRow e) = e_ID e"

text \<open>The table, the columns and the labels of each entity, from the generated files.\<close>

definition label_entity :: "string \<Rightarrow> string \<Rightarrow> PostgresLabel" where
  "label_entity table refColumn =
     \<lparr>LabelsTableName = table, ReferenceColumn = refColumn,
      labelTags = [col ''id'' nullableStringType, col ''key'' nullableStringType, col ''val'' nullableStringType,
        col ''created_at'' (otherType ''pq.NullTime''), col ''updated_at'' (otherType ''pq.NullTime''),
        col refColumn nullableStringType]\<rparr>"

primrec pg_entity :: "EntityKind \<Rightarrow> PostgresEntity" where
  "pg_entity BrokerKind =
     \<lparr>TableName = ''brokers'', entityTags = BrokerEntity_tags,
      LabelEntity = Some (label_entity ''broker_labels'' ''broker_id'')\<rparr>"
| "pg_entity PlatformKind =
     \<lparr>TableName = ''platforms'', entityTags = PlatformEntity_tags,
      LabelEntity = Some (label_entity ''platform_labels'' ''platform_id'')\<rparr>"
| "pg_entity ServiceOfferingKind =
     \<lparr>TableName = ''service_offerings'', entityTags = ServiceOfferingEntity_tags,
      LabelEntity = Some (label_entity ''service_offering_labels'' ''service_offering_id'')\<rparr>"
| "pg_entity ServicePlanKind =
     \<lparr>TableName = ''service_plans'', entityTags = ServicePlanEntity_tags,
      LabelEntity = Some (label_entity ''service_plan_labels'' ''service_plan_id'')\<rparr>"
| "pg_entity VisibilityKind =
     \<lparr>TableName = ''visibilities'', entityTags = VisibilityEntity_tags,
      LabelEntity = Some (label_entity ''visibility_labels'' ''visibility_id'')\<rparr>"
| "pg_entity NotificationKind =
     \<lparr>TableName = ''notifications'', entityTags = NotificationEntity_tags,
      LabelEntity = Some (label_entity ''notification_labels'' ''notification_id'')\<rparr>"
| "pg_entity OperationKind =
     \<lparr>TableName = ''operations'', entityTags = OperationEntity_tags,
      LabelEntity = Some (label_entity ''operation_labels'' ''operation_id'')\<rparr>"
| "pg_entity ServiceInstanceKind =
     \<lparr>TableName = ''service_instances'', entityTags = ServiceInstanceEntity_tags,
      LabelEntity = Some (label_entity ''service_instance_labels'' ''service_instance_id'')\<rparr>"
| "pg_entity ServiceBindingKind =
     \<lparr>TableName = ''service_bindings'', entityTags = ServiceBindingEntity_tags,
      LabelEntity = Some (label_entity ''service_binding_labels'' ''service_binding_id'')\<rparr>"
| "pg_entity BrokerPlatformCredentialKind =
     \<lparr>TableName = ''broker_platform_credentials'', entityTags = BrokerPlatformCredentialEntity_tags,
      LabelEntity = Some (label_entity ''broker_platform_credential_labels'' ''broker_platform_credential_id'')\<rparr>"

primrec kind_type :: "EntityKind \<Rightarrow> ObjectType" where
  "kind_type BrokerKind = ServiceBrokerType"
| "kind_type PlatformKind = PlatformType"
| "kind_type ServiceOfferingKind = ServiceOfferingType"
| "kind_type ServicePlanKind = ServicePlanType"
| "kind_type VisibilityKind = VisibilityType"
| "kind_type NotificationKind = NotificationType"
| "kind_type OperationKind = OperationType"
| "kind_type ServiceInstanceKind = ServiceInstanceType"
| "kind_type ServiceBindingKind = ServiceBindingType"
| "kind_type BrokerPlatformCredentialKind = BrokerPlatformCredentialType"

primrec ToObject :: "json_codec \<Rightarrow> nat \<Rightarrow> Entity \<Rightarrow> (error, Object) result" where
  "ToObject codec addr (BrokerRow e) = Inr (ServiceBrokerObject (BrokerEntity_ToObject e))"
| "ToObject codec addr (PlatformRow e) = Inr (PlatformObject (PlatformEntity_ToObject e))"
| "ToObject codec addr (ServiceOfferingRow e) = Inr (ServiceOfferingObject (ServiceOfferingEntity_ToObject e))"
| "ToObject codec addr (ServicePlanRow e) = Inr (ServicePlanObject (ServicePlanEntity_ToObject e))"
| "ToObject codec addr (VisibilityRow e) = Inr (VisibilityObject (VisibilityEntity_ToObject e))"
| "ToObject codec addr (NotificationRow e) = Inr (NotificationObject (NotificationEntity_ToObject e))"
| "ToObject codec addr (OperationRow e) = try_then (OperationEntity_ToObject codec e) (\<lambda>x. Inr (OperationObject x))"
| "ToObject codec addr (ServiceInstanceRow e) = Inr (ServiceInstanceObject (ServiceInstanceEntity_ToObject addr e))"
| "ToObject codec addr (ServiceBindingRow e) = Inr (ServiceBindingObject (ServiceBindingEntity_ToObject e))"
| "ToObject codec addr (BrokerPlatformCredentialRow e) = Inr (BrokerPlatformCredentialObject (BrokerPlatformCredentialEntity_ToObject e))"

text \<open>
  \<open>FromObject\<close> of an entity kind.  The outer \<open>None\<close> is the nil entity that the broker returns for
  an object of another type.
\<close>

primrec FromObject :: "json_codec \<Rightarrow> EntityKind \<Rightarrow> Object \<Rightarrow> (error, Entity) result option" where
  "FromObject codec BrokerKind ob =
     (case ob of ServiceBrokerObject x \<Rightarrow> Some (Inr (BrokerRow (BrokerEntity_FromObject x)))
      | _ \<Rightarrow> None)"
| "FromObject codec PlatformKind ob =
     (case ob of PlatformObject x \<Rightarrow> Some (Inr (PlatformRow (PlatformEntity_FromObject x)))
      | _ \<Rightarrow> Some (Inl (ErrorString ''object is not of type Platform'')))"
| "FromObject codec ServiceOfferingKind ob =
     (case ob of ServiceOfferingObject x \<Rightarrow> Some (Inr (ServiceOfferingRow (ServiceOfferingEntity_FromObject x)))
      | _ \<Rightarrow> Some (Inl (ErrorString ''object is not of type ServiceOffering'')))"
| "FromObject codec ServicePlanKind ob =
     (case ob of ServicePlanObject x \<Rightarrow> Some (Inr (ServicePlanRow (ServicePlanEntity_FromObject x)))
      | _ \<Rightarrow> Some (Inl (ErrorString ''object is not of type ServicePlan'')))"
| "FromObject codec VisibilityKind ob =
     (case ob of VisibilityObject x \<Rightarrow> Some (Inr (VisibilityRow (VisibilityEntity_FromObject x)))
      | _ \<Rightarrow> Some (Inl (ErrorString ''object is not of type Visibility'')))"
| "FromObject codec NotificationKind ob =
     (case ob of NotificationObject x \<Rightarrow> Some (Inr (NotificationRow (NotificationEntity_FromObject x)))
      | _ \<Rightarrow> Some (Inl (ErrorString ''object is not of type Notification'')))"
| "FromObject codec OperationKind ob =
     (case ob of OperationObject x \<Rightarrow> Some (try_then (OperationEntity_FromObject codec x) (\<lambda>e. Inr (OperationRow e)))
      | _ \<Rightarrow> Some (Inl (ErrorString ''object is not of type Operation'')))"
| "FromObject codec ServiceInstanceKind ob =
     (case ob of ServiceInstanceObject x \<Rightarrow> Some (Inr (ServiceInstanceRow (ServiceInstanceEntity_FromObject x)))
      | _ \<Rightarrow> Some (Inl (ErrorString ''object is not of type ServiceInstance'')))"
| "FromObject codec ServiceBindingKind ob =
     (case ob of ServiceBindingObject x \<Rightarrow> Some (Inr (ServiceBindingRow (ServiceBindingEntity_FromObject x)))
      | _ \<Rightarrow> Some (Inl (ErrorString ''object is not of type ServiceBinding'')))"
| "FromObject codec BrokerPlatformCredentialKind ob =
     (case ob of BrokerPlatformCredentialObject x \<Rightarrow> Some (Inr (BrokerPlatformCredentialRow (BrokerPlatformCredentialEntity_FromObject x)))
      | _ \<Rightarrow> Some (Inl (ErrorString ''object is not of type BrokerPlatformCredential'')))"

subsection \<open>The scheme\<close>

record scheme =
  converters :: "ObjectType \<rightharpoonup> EntityKind"
  entityToObjectTypeConverter :: "string \<rightharpoonup> string"

definition newScheme :: scheme where
  "newScheme = \<lparr>converters = Map.empty, entityToObjectTypeConverter = Map.empty\<rparr>"

text \<open>\<open>None\<close> is the panic on a type that is introduced twice.\<close>

definition introduce :: "EntityKind \<Rightarrow> scheme \<Rightarrow> scheme option" where
  "introduce k s =
     (let objType = kind_type k
      in if converters s objType \<noteq> None then None
         else Some (s\<lparr>converters := (converters s)(objType \<mapsto> k),
                 entityToObjectTypeConverter :=
                   (entityToObjectTypeConverter s)(TableName (pg_entity k) \<mapsto> ObjectType_String objType)\<rparr>))"

fun introduce_all :: "EntityKind list \<Rightarrow> scheme \<Rightarrow> scheme option" where
  "introduce_all [] s = Some s"
| "introduce_all (k # ks) s = (case introduce k s of None \<Rightarrow> None | Some s' \<Rightarrow> introduce_all ks s')"

text \<open>What \<open>Open\<close> introduces.\<close>

definition opened_kinds :: "EntityKind list" where
  "opened_kinds =
     [BrokerKind, PlatformKind, ServiceOfferingKind, ServicePlanKind, VisibilityKind, NotificationKind,
      OperationKind, ServiceInstanceKind, ServiceBindingKind, BrokerPlatformCredentialKind]"

definition convert :: "json_codec \<Rightarrow> scheme \<Rightarrow> Object \<Rightarrow> (error, Entity) result" where
  "convert codec s ob =
     (case converters s (GetType ob) of
        None \<Rightarrow> Inl (ErrorString (''no postgres entity is introduced for object of type '' @ ObjectType_String (GetType ob)))
      | Some k \<Rightarrow>
          (case FromObject codec k ob of
             None \<Rightarrow> Inl (ErrorString (''no postgres entity is introduced for object of type '' @ ObjectType_String (GetType ob)))
           | Some (Inl err) \<Rightarrow>
               Inl (ErrorString (''regsitered entity cannot convert object from type ''
                 @ ObjectType_String (GetType ob) @ '': '' @ error_text err))
           | Some (Inr e) \<Rightarrow> Inr e))"

text \<open>\<open>provide\<close> converts the object of an empty entity; its callers use what the kind determines.\<close>

definition provide :: "scheme \<Rightarrow> ObjectType \<Rightarrow> (error, EntityKind) result" where
  "provide s objectType =
     (case converters s objectType of
        None \<Rightarrow> Inl (ErrorString (''no postgres entity is introduced for object of type '' @ ObjectType_String objectType))
      | Some k \<Rightarrow> Inr k)"

text \<open>A label row; the generated \<open>NewLabel\<close> marks empty texts as NULL.\<close>

record LabelRow =
  lr_kind :: EntityKind
  lr_ID :: NullString
  lr_Key :: NullString
  lr_Val :: NullString
  lr_CreatedAt :: int
  lr_UpdatedAt :: int
  lr_Ref :: NullString

definition NewLabel :: "EntityKind \<Rightarrow> int \<Rightarrow> string \<Rightarrow> string \<Rightarrow> string \<Rightarrow> string \<Rightarrow> LabelRow" where
  "NewLabel k now labelID entityID key val =
     \<lparr>lr_kind = k, lr_ID = toNullString labelID, lr_Key = toNullString key, lr_Val = toNullString val,
      lr_CreatedAt = now, lr_UpdatedAt = now, lr_Ref = toNullString entityID\<rparr>"

end
