(* ===== verification/QueryBuilderFacts.thy ===== *)
theory QueryBuilderFacts
  imports QueryBuilder
begin

text \<open>
  Properties of the query builder: the statement of every template has one question mark for each
  of its parameters, and its text does not depend on the values that are searched for.
\<close>

subsection \<open>Question marks in a clause\<close>

abbreviation marks :: "string \<Rightarrow> nat" where
  "marks s \<equiv> count_list s CHR ''?''"

lemma marks_0_iff: "marks s = 0 \<longleftrightarrow> CHR ''?'' \<notin> set s"
  by (simp add: count_list_0_iff)

lemma marks_Join: "marks sep = 0 \<Longrightarrow> marks (strings_Join xs sep) = sum_list (map marks xs)"
  by (induction xs sep rule: strings_Join.induct) auto

lemma marks_operator [simp]: "marks (translateOperationToSQLEquivalent opr) = 0"
  by (cases opr) (simp_all add: translateOperationToSQLEquivalent_def strings_ToUpper_def char_of_def)

lemma marks_cast [simp]: "marks (determineCastByType t) = 0"
  by (simp add: determineCastByType_def split: option.split reflect_type.split)

lemma strings_Split_chars: "p \<in> set (strings_Split s sep) \<Longrightarrow> set p \<subseteq> set s"
proof (induction s arbitrary: p)
  case (Cons c s)
  then show ?case by (fastforce split: if_splits list.splits)
qed simp

lemma marks_json_key:
  assumes "CHR ''?'' \<notin> set key"
  shows "marks (fst (convertToJsonKey key)) = 0"
proof -
  let ?parts = "strings_Split key CHR ''/''"
  have parts: "CHR ''?'' \<notin> set p" if "p \<in> set ?parts" for p
    using strings_Split_chars [OF that] assms by auto
  have "hd ?parts \<in> set ?parts" "last ?parts \<in> set ?parts" by simp_all
  moreover have "p \<in> set ?parts" if "p \<in> set (butlast (tl ?parts))" for p
    using that by (metis in_set_butlastD list.set_sel(2) strings_Split_not_Nil)
  ultimately show ?thesis
    using parts unfolding marks_0_iff convertToJsonKey_def Let_def by auto
qed

text \<open>
  A leaf that renders: it has a value, its key has no question mark, and the text of a sub-query
  is one text without question marks.
\<close>

definition embedded :: "Criterion \<Rightarrow> bool" where
  "embedded c = (CType c = ExistQuery \<or> CType c = Subquery)"

definition leaf_ok :: "Criterion \<Rightarrow> bool" where
  "leaf_ok c =
     (RightOp c \<noteq> [] \<and> CHR ''?'' \<notin> set (LeftOp c) \<and>
      (embedded c \<longrightarrow> Operator_Type (COperator c) = UnivariateOperator \<and> CHR ''?'' \<notin> set (hd (RightOp c))))"

lemma operator_type_cases:
  "Operator_Type opr \<noteq> MultivariateOperator \<longleftrightarrow> Operator_Type opr = UnivariateOperator"
  by (cases "Operator_Type opr") simp_all

text \<open>The left operand of the clause and whether it is a path into a JSON column.\<close>

definition left_operand :: "tagType list \<Rightarrow> Criterion \<Rightarrow> string \<times> bool" where
  "left_operand tags c =
     (if findTagType tags (hd (strings_Split (LeftOp c) CHR ''/'')) = Some jsonType
      then convertToJsonKey (LeftOp c) else (LeftOp c, False))"

lemma marks_left_operand:
  "CHR ''?'' \<notin> set (LeftOp c) \<Longrightarrow> left_operand tags c = (k, b) \<Longrightarrow> marks k = 0"
  using marks_json_key [of "LeftOp c"] by (auto simp: left_operand_def marks_0_iff split: if_splits)

lemma criterionSQL_ok:
  assumes "leaf_ok c" "CHR ''?'' \<notin> set table"
  shows "\<exists>sql p. criterionSQL c tags table = Some (sql, p) \<and> sql \<noteq> [] \<and>
           marks sql = (if embedded c then 0 else 1)"
proof -
  from assms obtain r rs where r: "RightOp c = r # rs" by (cases "RightOp c") (auto simp: leaf_ok_def)
  obtain k b where kb: "left_operand tags c = (k, b)" by fastforce
  with assms have key: "marks k = 0" "marks table = 0"
    by (auto simp: leaf_ok_def marks_0_iff [symmetric] intro: marks_left_operand [unfolded marks_0_iff [symmetric]])
  have sub: "embedded c \<Longrightarrow> Operator_Type (COperator c) = UnivariateOperator \<and> marks r = 0"
    using assms r by (simp add: leaf_ok_def marks_0_iff)
  show ?thesis
  proof (cases "embedded c")
    case True
    with sub r kb key show ?thesis
      by (auto simp: criterionSQL_def buildRightOp_def embedded_def Let_def left_operand_def [symmetric])
  next
    case False
    with r kb key show ?thesis
      by (cases "Operator_Type (COperator c)")
        (auto simp: criterionSQL_def buildRightOp_def embedded_def Let_def left_operand_def [symmetric])
  qed
qed

text \<open>The text of a leaf does not depend on its values.\<close>

definition same_leaf :: "Criterion \<Rightarrow> Criterion \<Rightarrow> bool" where
  "same_leaf c d =
     (LeftOp c = LeftOp d \<and> COperator c = COperator d \<and> CType c = CType d \<and>
      (embedded c \<longrightarrow> RightOp c = RightOp d))"

lemma criterionSQL_text:
  assumes "\<not> embedded c" "criterionSQL c tags table = Some (sql, p)"
  shows "\<exists>q. criterionSQL (c\<lparr>RightOp := [''''], CType := FieldQuery\<rparr>) tags table = Some (sql, q)"
proof -
  from assms obtain var v where v: "buildRightOp (COperator c) (RightOp c) = Some (var, v)"
    by (auto simp: criterionSQL_def split: option.splits)
  then obtain v' where "buildRightOp (COperator c) [''''] = Some (var, v')"
    by (cases "RightOp c") (auto simp: buildRightOp_def split: if_splits)
  with v assms show ?thesis
    unfolding criterionSQL_def by (simp add: Let_def embedded_def split: prod.splits if_splits)
qed

lemma criterionSQL_same:
  assumes "same_leaf c d" "criterionSQL c tags table = Some (sql, p)" "criterionSQL d tags table = Some (sql', p')"
  shows "sql = sql'"
proof (cases "embedded c")
  case True
  with assms(1) have "c = d" by (simp add: same_leaf_def)
  with assms show ?thesis by simp
next
  case False
  from assms(1) have eq: "c\<lparr>RightOp := [''''], CType := FieldQuery\<rparr> = d\<lparr>RightOp := [''''], CType := FieldQuery\<rparr>"
    and "\<not> embedded d" using False by (simp_all add: same_leaf_def embedded_def)
  with criterionSQL_text [OF False assms(2)] criterionSQL_text [OF \<open>\<not> embedded d\<close> assms(3)]
  show ?thesis by auto
qed

subsection \<open>Question marks in a tree of clauses\<close>

primrec builder_ok :: "treeSqlBuilder \<Rightarrow> bool" where
  "builder_ok DefaultBuilder = True"
| "builder_ok (LabelsBuilder refColumn) = (CHR ''?'' \<notin> set refColumn)"
| "builder_ok (SubSelectBuilder refColumn labelsTable) =
     (CHR ''?'' \<notin> set refColumn \<and> CHR ''?'' \<notin> set labelsTable)"

lemma marks_buildSQL: "builder_ok b \<Longrightarrow> marks (buildSQL b xs) = sum_list (map marks xs)"
  by (cases b) (simp_all add: marks_Join AND_sep_def INTERSECT_sep_def marks_0_iff)

lemma marks_join_children: "builder_ok b \<Longrightarrow> marks (join_children b xs) = sum_list (map marks xs)"
  by (auto simp: join_children_def marks_buildSQL split: list.splits)

primrec param_ok :: "query_param \<Rightarrow> bool" where
  "param_ok (StringParam v) = True"
| "param_ok (StringsParam vs) = (vs \<noteq> [])"

text \<open>A tree over a store of \<open>n\<close> builders: the criteria are at the leaves and render.\<close>

fun tree_ok :: "nat \<Rightarrow> whereClauseTree \<Rightarrow> bool" where
  "tree_ok n (WhereClauseTree c tags table cs b) =
     (CHR ''?'' \<notin> set table \<and> (case b of None \<Rightarrow> True | Some a \<Rightarrow> a < n) \<and>
      (case c of None \<Rightarrow> True | Some crit \<Rightarrow> cs = [] \<and> leaf_ok crit) \<and>
      (\<forall>t\<in>set cs. tree_ok n t))"

lemma tree_ok_mono: "tree_ok n t \<Longrightarrow> n \<le> m \<Longrightarrow> tree_ok m t"
  by (induction n t rule: tree_ok.induct) (auto split: option.splits)

lemma builder_ok_node:
  "list_all builder_ok store \<Longrightarrow> (case b of None \<Rightarrow> True | Some a \<Rightarrow> a < length store) \<Longrightarrow>
     builder_ok (node_builder store b)"
  by (auto simp: node_builder_def list_all_length split: option.splits)

lemma criterionSQL_param:
  "criterionSQL c tags table = Some (sql, p) \<Longrightarrow> \<exists>var. buildRightOp (COperator c) (RightOp c) = Some (var, p)"
  by (simp add: criterionSQL_def Let_def split: option.splits prod.splits if_splits query_param.splits)

lemma criterionSQL_param_ok:
  "leaf_ok c \<Longrightarrow> criterionSQL c tags table = Some (sql, p) \<Longrightarrow> param_ok p"
  by (drule criterionSQL_param) (auto simp: buildRightOp_def leaf_ok_def split: if_splits list.splits)

lemma compileSQL_ok:
  "list_all builder_ok store \<Longrightarrow> tree_ok (length store) t \<Longrightarrow>
     \<exists>sql ps. compileSQL store t = Some (sql, ps) \<and>
       marks sql = (if has_params t then length ps else 0) \<and> list_all param_ok ps"
  "list_all builder_ok store \<Longrightarrow> \<forall>t\<in>set ts. tree_ok (length store) t \<Longrightarrow>
     \<exists>sqls ps. compileChildren store ts = Some (sqls, ps) \<and>
       sum_list (map marks sqls) = length ps \<and> list_all param_ok ps"
proof (induction store t and store ts rule: compileSQL_compileChildren.induct)
  case (1 store c tags table cs b)
  show ?case
  proof (cases c)
    case None
    show ?thesis
    proof (cases "cs = []")
      case True
      with None show ?thesis by (simp add: isEmpty_def)
    next
      case False
      with 1 None obtain sqls ps where "compileChildren store cs = Some (sqls, ps)"
        "sum_list (map marks sqls) = length ps" "list_all param_ok ps"
        by (auto simp: isEmpty_def isLeaf_def)
      moreover from 1(2,3) have "builder_ok (node_builder store b)" by (simp add: builder_ok_node)
      ultimately show ?thesis
        using None False by (simp add: isEmpty_def isLeaf_def has_params_def marks_join_children)
    qed
  next
    case (Some crit)
    with 1 have "cs = []" "leaf_ok crit" "CHR ''?'' \<notin> set table" by auto
    moreover obtain sql p where sql: "criterionSQL crit tags table = Some (sql, p)"
      "marks sql = (if embedded crit then 0 else 1)"
      using criterionSQL_ok [OF calculation(2,3)] by blast
    moreover have "param_ok p" using criterionSQL_param_ok [OF calculation(2) sql(1)] .
    ultimately show ?thesis
      using Some by (intro exI [of _ sql] exI [of _ "[p]"]) (simp add: isEmpty_def isLeaf_def has_params_def embedded_def)
  qed
next
  case (2 store)
  then show ?case by simp
next
  case (3 store child rest)
  then obtain sql ps sqls qs where "compileSQL store child = Some (sql, ps)"
    "marks sql = (if has_params child then length ps else 0)" "list_all param_ok ps"
    "compileChildren store rest = Some (sqls, qs)" "sum_list (map marks sqls) = length qs" "list_all param_ok qs"
    by fastforce
  then show ?case by auto
qed

fun same_tree :: "whereClauseTree \<Rightarrow> whereClauseTree \<Rightarrow> bool" where
  "same_tree (WhereClauseTree c tags table cs b) (WhereClauseTree c' tags' table' cs' b') =
     (rel_option same_leaf c c' \<and> tags = tags' \<and> table = table' \<and> b = b' \<and> list_all2 same_tree cs cs')"

lemma compileSQL_same:
  "same_tree t t' \<Longrightarrow> compileSQL store t = Some (sql, ps) \<Longrightarrow> compileSQL store t' = Some (sql', ps') \<Longrightarrow> sql = sql'"
  "list_all2 same_tree ts ts' \<Longrightarrow> compileChildren store ts = Some (sqls, qs) \<Longrightarrow>
     compileChildren store ts' = Some (sqls', qs') \<Longrightarrow> sqls = sqls'"
proof (induction store t and store ts arbitrary: t' sql ps sql' ps' and ts' sqls qs sqls' qs'
    rule: compileSQL_compileChildren.induct)
  case (1 store c tags table cs b)
  obtain c' tags' table' cs' b' where t': "t' = WhereClauseTree c' tags' table' cs' b'" by (cases t')
  show ?case
  proof (cases "cs = []")
    case True
    with 1 t' show ?thesis
      by (auto simp: isEmpty_def isLeaf_def option.rel_sel split: option.splits if_splits dest: criterionSQL_same)
  next
    case False
    with 1 t' have "cs' \<noteq> []" by auto
    with False 1 t' show ?thesis by (auto simp: isEmpty_def isLeaf_def) blast
  qed
next
  case (2 store)
  then show ?case by simp
next
  case (3 store child rest)
  from 3(3) obtain child' rest' where ts': "ts' = child' # rest'" "same_tree child child'" "list_all2 same_tree rest rest'"
    by (cases ts') auto
  with 3(4,5) obtain s p s' p' r q r' q' where
    s: "compileSQL store child = Some (s, p)" "compileSQL store child' = Some (s', p')" and
    r: "compileChildren store rest = Some (r, q)" "compileChildren store rest' = Some (r', q')"
    by (auto split: option.splits)
  have "s = s'" using 3(1) [OF ts'(2) s] .
  moreover have "r = r'" using 3(2) [OF s(1) _ ts'(3) r] by simp
  ultimately show ?case using 3(4,5) ts'(1) s r by (auto split: if_splits)
qed

subsection \<open>Question marks in a template\<close>

text \<open>
  How often a template prints the fields \<open>WHERE\<close> and \<open>LIMIT\<close> when the two conditions of the
  templates have given values; \<open>None\<close> for a template with a question mark in its text, or with
  another condition.
\<close>

fun uses :: "string \<Rightarrow> (string \<Rightarrow> bool) \<Rightarrow> tnode \<Rightarrow> nat"
and uses_all :: "string \<Rightarrow> (string \<Rightarrow> bool) \<Rightarrow> tnode list \<Rightarrow> nat"
where
  "uses f tr (TText t) = 0"
| "uses f tr (TField g) = (if g = f then 1 else 0)"
| "uses f tr (TIf fs yes no) = (if list_ex tr fs then uses_all f tr yes else uses_all f tr no)"
| "uses_all f tr [] = 0"
| "uses_all f tr (n # ns) = uses f tr n + uses_all f tr ns"

fun plain_node :: "tnode \<Rightarrow> bool"
and plain_nodes :: "tnode list \<Rightarrow> bool"
where
  "plain_node (TText t) = (CHR ''?'' \<notin> set t)"
| "plain_node (TField g) = True"
| "plain_node (TIf fs yes no) =
     (list_all (\<lambda>f. f = ''hasFieldCriteria'' \<or> f = ''hasLabelCriteria'') fs \<and> plain_nodes yes \<and> plain_nodes no)"
| "plain_nodes [] = True"
| "plain_nodes (n # ns) = (plain_node n \<and> plain_nodes ns)"

definition criteria_truth :: "bool \<Rightarrow> bool \<Rightarrow> string \<Rightarrow> bool" where
  "criteria_truth a b f = (if f = ''hasFieldCriteria'' then a else if f = ''hasLabelCriteria'' then b else False)"

definition nodes_uses :: "bool \<Rightarrow> bool \<Rightarrow> tnode list \<Rightarrow> (nat \<times> nat) option" where
  "nodes_uses a b ns =
     (if plain_nodes ns
      then Some (uses_all ''WHERE'' (criteria_truth a b) ns, uses_all ''LIMIT'' (criteria_truth a b) ns)
      else None)"

definition template_uses :: "string \<Rightarrow> bool \<Rightarrow> bool \<Rightarrow> (nat \<times> nat) option" where
  "template_uses tmpl a b =
     (case template_Parse tmpl of None \<Rightarrow> None | Some ns \<Rightarrow> nodes_uses a b ns)"

text \<open>All four values of the two conditions.\<close>

definition lines_uses :: "string list \<Rightarrow> (nat \<times> nat) option list" where
  "lines_uses ls =
     (case parse_lines ls of
        None \<Rightarrow> []
      | Some ns \<Rightarrow> [nodes_uses False False ns, nodes_uses False True ns, nodes_uses True False ns, nodes_uses True True ns])"

lemma template_uses_lines:
  "lines_uses ls = [u, x, y, z] \<Longrightarrow>
     template_uses (template_lines ls) a b = (if a then if b then z else y else if b then x else u)"
  by (auto simp: lines_uses_def template_uses_def parse_lines_sound split: option.splits)

lemma template_uses_Count: "template_uses CountQueryTemplate a b = Some (1, 1)"
  unfolding CountQueryTemplate_def
  by (subst template_uses_lines [of _ "Some (1, 1)" "Some (1, 1)" "Some (1, 1)" "Some (1, 1)"]) (code_simp, simp)

lemma template_uses_CountLabelValues: "template_uses CountLabelValuesQueryTemplate a b = Some (1, 1)"
  unfolding CountLabelValuesQueryTemplate_def
  by (subst template_uses_lines [of _ "Some (1, 1)" "Some (1, 1)" "Some (1, 1)" "Some (1, 1)"]) (code_simp, simp)

lemma template_uses_Select:
  "template_uses SelectQueryTemplate a b = Some (if a \<or> b then 1 else 0, if a \<or> b then 1 else 0)"
  unfolding SelectQueryTemplate_def
  by (subst template_uses_lines [of _ "Some (0, 0)" "Some (1, 1)" "Some (1, 1)" "Some (1, 1)"]) (code_simp, simp)

lemma template_uses_SelectNoLabels:
  "template_uses SelectNoLabelsQueryTemplate a b = Some (if a \<or> b then 1 else 0, if a \<or> b then 1 else 0)"
  unfolding SelectNoLabelsQueryTemplate_def
  by (subst template_uses_lines [of _ "Some (0, 0)" "Some (1, 1)" "Some (1, 1)" "Some (1, 1)"]) (code_simp, simp)

lemma template_uses_Delete: "template_uses DeleteQueryTemplate a b = Some (if a \<or> b then 1 else 0, 0)"
  unfolding DeleteQueryTemplate_def
  by (subst template_uses_lines [of _ "Some (0, 0)" "Some (1, 0)" "Some (1, 0)" "Some (1, 0)"]) (code_simp, simp)

lemma uses_criteria:
  assumes "tr ''hasFieldCriteria'' = a" "tr ''hasLabelCriteria'' = b"
  shows "plain_node n \<Longrightarrow> uses f tr n = uses f (criteria_truth a b) n"
    "plain_nodes ns \<Longrightarrow> uses_all f tr ns = uses_all f (criteria_truth a b) ns"
proof (induction n and ns rule: plain_node_plain_nodes.induct)
  case (3 fs yes no)
  then have "list_ex tr fs = list_ex (criteria_truth a b) fs"
    using assms by (induction fs) (auto simp: criteria_truth_def)
  with 3 show ?case by simp
qed simp_all

lemma executes_marks:
  assumes "\<And>f. f \<noteq> ''WHERE'' \<Longrightarrow> f \<noteq> ''LIMIT'' \<Longrightarrow> marks (field_text data f) = 0"
  shows "plain_node n \<Longrightarrow> marks (execute data n) =
      uses ''WHERE'' (field_truth data) n * marks (field_text data ''WHERE'')
      + uses ''LIMIT'' (field_truth data) n * marks (field_text data ''LIMIT'')"
    "plain_nodes ns \<Longrightarrow> marks (executes data ns) =
      uses_all ''WHERE'' (field_truth data) ns * marks (field_text data ''WHERE'')
      + uses_all ''LIMIT'' (field_truth data) ns * marks (field_text data ''LIMIT'')"
proof (induction n and ns rule: plain_node_plain_nodes.induct)
  case (1 t)
  then show ?case by (simp add: marks_0_iff)
next
  case (2 g)
  then show ?case using assms [of g] by auto
qed (auto simp: algebra_simps)

lemma Tsprintf_marks:
  assumes "template_uses tmpl a b = Some (w, l)" "field_truth data ''hasFieldCriteria'' = a"
    "field_truth data ''hasLabelCriteria'' = b"
    "\<And>f. f \<noteq> ''WHERE'' \<Longrightarrow> f \<noteq> ''LIMIT'' \<Longrightarrow> marks (field_text data f) = 0"
  shows "\<exists>text. Tsprintf tmpl data = Inr text \<and>
    marks text = w * marks (field_text data ''WHERE'') + l * marks (field_text data ''LIMIT'')"
proof -
  from assms(1) obtain ns where ns: "template_Parse tmpl = Some ns" "plain_nodes ns"
    "w = uses_all ''WHERE'' (criteria_truth a b) ns" "l = uses_all ''LIMIT'' (criteria_truth a b) ns"
    by (auto simp: template_uses_def nodes_uses_def split: option.splits if_splits)
  with executes_marks(2) [OF assms(4) ns(2)] uses_criteria(2) [OF assms(2,3) ns(2)]
  show ?thesis by (simp add: Tsprintf_def)
qed


subsection \<open>The query built from criteria\<close>

definition plain_text :: "string \<Rightarrow> bool" where
  "plain_text s = (CHR ''?'' \<notin> set s)"

lemma marks_plain [simp]: "plain_text s \<Longrightarrow> marks s = 0"
  by (simp add: plain_text_def marks_0_iff)

text \<open>An entity and criteria whose names and embedded texts have no question mark.\<close>

definition entity_plain :: "PostgresEntity \<Rightarrow> bool" where
  "entity_plain e =
     (plain_text (TableName e) \<and> list_all (\<lambda>tag. plain_text (tag_column tag)) (entityTags e) \<and>
      (\<exists>l. LabelEntity e = Some l \<and> plain_text (LabelsTableName l) \<and> plain_text (ReferenceColumn l)))"

definition criterion_plain :: "Criterion \<Rightarrow> bool" where
  "criterion_plain c =
     ((CType c = FieldQuery \<longrightarrow> plain_text (LeftOp c)) \<and>
      (embedded c \<longrightarrow> plain_text (LeftOp c) \<and> Operator_Type (COperator c) = UnivariateOperator
         \<and> list_all plain_text (RightOp c)))"

definition query_ok :: "pgQuery \<Rightarrow> bool" where
  "query_ok pq =
     (plain_text (pq_entityTableName pq) \<and>
      list_all (\<lambda>tag. plain_text (tag_column tag)) (pq_entityTags pq) \<and>
      (\<exists>l. pq_labelEntity pq = Some l \<and> plain_text (LabelsTableName l) \<and> plain_text (ReferenceColumn l)) \<and>
      list_all builder_ok (pq_builders pq) \<and>
      list_all (\<lambda>r. plain_text (or_field r) \<and> plain_text (or_orderType r)) (pq_orderByFields pq) \<and>
      list_all plain_text (pq_returningFields pq) \<and>
      tree_ok (length (pq_builders pq)) (pq_fieldsWhereClause pq) \<and> criterion (pq_fieldsWhereClause pq) = None \<and>
      tree_ok (length (pq_builders pq)) (pq_labelsWhereClause pq) \<and> criterion (pq_labelsWhereClause pq) = None)"

lemma query_ok_NewQuery: "entity_plain e \<Longrightarrow> query_ok (NewQuery e)"
  by (auto simp: query_ok_def NewQuery_def entity_plain_def plain_text_def)

lemma tree_ok_append_child:
  "tree_ok n t \<Longrightarrow> criterion t = None \<Longrightarrow> tree_ok n child \<Longrightarrow> tree_ok n (append_child t child)"
  by (cases t) (auto simp: append_child_def)

lemma criterion_append_child [simp]: "criterion (append_child t child) = criterion t"
  by (simp add: append_child_def)

lemma query_ok_append_field:
  assumes "query_ok pq" "leaf_ok c"
  shows "query_ok (append_field c pq)"
  using assms by (auto simp: query_ok_def append_field_def plain_text_def intro: tree_ok_append_child)

lemma query_ok_append_label:
  assumes "query_ok pq" "RightOp c \<noteq> []" "b < length (pq_builders pq)"
  shows "query_ok (append_label b c pq)"
  using assms by (auto simp: query_ok_def append_label_def leaf_ok_def embedded_def ByField_def NewCriterion_def
      Let_def intro!: tree_ok_append_child)

lemma list_all_update: "list_all P xs \<Longrightarrow> P x \<Longrightarrow> list_all P (xs[i := x])"
  by (auto simp: list_all_iff dest: set_update_subset_insert [THEN subsetD])

lemma query_ok_use_subselect: "query_ok pq \<Longrightarrow> query_ok (use_subselect b pq)"
  by (auto simp: query_ok_def use_subselect_def plain_text_def list_all_update split: option.splits)

lemma validateFields_None: "validateFields columns m fs = None \<Longrightarrow> f \<in> set fs \<Longrightarrow> columns f"
  by (induction fs) (auto split: if_splits)

lemma query_ok_processResult:
  assumes "query_ok pq"
  shows "query_ok (processResultCriteria c pq)"
proof -
  have "plain_text f \<and> plain_text t"
    if "validateOrderFields (columnsByTags (pq_entityTags pq)) [\<lparr>or_field = f, or_orderType = t\<rparr>] = None" for f t
    using that assms
    by (auto simp: validateOrderFields_def query_ok_def columnsByTags_def list_all_iff plain_text_def
        split: if_splits)
  with assms show ?thesis
    by (auto simp: processResultCriteria_def Let_def query_ok_def split: option.splits)
qed

lemma pq_builders_steps [simp]:
  "length (pq_builders (append_field c pq)) = length (pq_builders pq)"
  "length (pq_builders (append_label b c pq)) = length (pq_builders pq)"
  "length (pq_builders (use_subselect b pq)) = length (pq_builders pq)"
  "length (pq_builders (processResultCriteria c pq)) = length (pq_builders pq)"
  by (auto simp: append_field_def append_label_def use_subselect_def processResultCriteria_def Let_def
      split: option.splits)

lemma Validate_RightOp: "Validate gp c = Inr u \<Longrightarrow> RightOp c \<noteq> []"
  by (auto simp: Validate_def)

lemma leaf_okI:
  "criterion_plain c \<Longrightarrow> Validate gp c = Inr u \<Longrightarrow> CType c = FieldQuery \<or> embedded c \<Longrightarrow> leaf_ok c"
  using Validate_RightOp [of gp c u]
  by (cases "RightOp c") (auto simp: leaf_ok_def criterion_plain_def plain_text_def embedded_def)

lemma query_ok_fields [simp]:
  "query_ok (pq\<lparr>pq_err := e\<rparr>) = query_ok pq" "query_ok (pq\<lparr>pq_shouldRebind := b\<rparr>) = query_ok pq"
  by (simp_all add: query_ok_def)

text \<open>
  What every step of \<open>add_criteria\<close> keeps, the loop keeps.
\<close>

lemma add_criteria_keeps:
  assumes "P pq" "set cs \<subseteq> S"
    and err: "\<And>q e. P q \<Longrightarrow> P (q\<lparr>pq_err := Some e\<rparr>)"
    and rebind: "\<And>q. P q \<Longrightarrow> P (q\<lparr>pq_shouldRebind := True\<rparr>)"
    and field: "\<And>q c. P q \<Longrightarrow> c \<in> S \<Longrightarrow> Validate gp c = Inr () \<Longrightarrow> CType c = FieldQuery \<or> embedded c \<Longrightarrow>
      P (append_field c q)"
    and label: "\<And>q c. P q \<Longrightarrow> c \<in> S \<Longrightarrow> Validate gp c = Inr () \<Longrightarrow> P (append_label b c q)"
    and sub: "\<And>q. P q \<Longrightarrow> P (use_subselect b q)"
    and result: "\<And>q c. P q \<Longrightarrow> c \<in> S \<Longrightarrow> Validate gp c = Inr () \<Longrightarrow> P (processResultCriteria c q)"
  shows "P (add_criteria gp criteria b n cs pq)"
  using assms(1,2)
proof (induction cs arbitrary: n pq)
  case (Cons c cs)
  show ?case
  proof (cases "Validate gp c")
    case (Inl e)
    with Cons.prems err show ?thesis by simp
  next
    case (Inr u)
    let ?pq = "if hasMultiVariateOp criteria then pq\<lparr>pq_shouldRebind := True\<rparr> else pq"
    have pq: "P ?pq" using Cons.prems(1) rebind by simp
    from Cons.prems(2) have S: "c \<in> S" "set cs \<subseteq> S" by auto
    from Inr have v: "Validate gp c = Inr ()" by simp
    note next_field = Cons.IH [OF field [OF pq S(1) v] S(2)]
    note next_label = Cons.IH [OF label [OF _ S(1) v] S(2)]
    note next_result = Cons.IH [OF result [OF pq S(1) v] S(2)]
    show ?thesis
      using v next_field next_label [OF pq] next_label [OF sub [OF pq]] next_result err [OF pq]
      by (cases "CType c") (auto simp: Let_def embedded_def split: option.split)
  qed
qed simp

lemma query_ok_add_criteria:
  assumes "query_ok pq" "b < length (pq_builders pq)" "list_all criterion_plain cs"
  shows "query_ok (add_criteria gp criteria b n cs pq)"
proof -
  have "query_ok (add_criteria gp criteria b n cs pq) \<and>
      b < length (pq_builders (add_criteria gp criteria b n cs pq))"
    by (rule add_criteria_keeps [where S = "set cs"])
      (use assms in \<open>auto intro!: query_ok_append_field query_ok_append_label query_ok_use_subselect
         query_ok_processResult simp: list_all_iff Validate_RightOp elim!: leaf_okI\<close>)
  then show ?thesis ..
qed

lemma query_ok_WithCriteria:
  assumes "entity_plain e" "list_all criterion_plain cs"
  shows "query_ok (WithCriteria gp cs (NewQuery e))"
proof -
  let ?pq = "NewQuery e\<lparr>pq_builders := pq_builders (NewQuery e) @ [DefaultBuilder]\<rparr>"
  from query_ok_NewQuery [OF assms(1)] have "query_ok ?pq"
    by (auto simp: query_ok_def intro: tree_ok_mono)
  with assms(2) show ?thesis
    by (auto simp: WithCriteria_def NewQuery_def intro: query_ok_add_criteria)
qed

subsection \<open>The parameters of a statement\<close>

text \<open>The statement a template gives for a query and its parameters, before \<open>finalizeSQL\<close>.\<close>

definition rendered :: "string \<Rightarrow> pgQuery \<Rightarrow> (string \<times> pgQuery) option" where
  "rendered template pq =
     (case pq_labelEntity pq of
        None \<Rightarrow> None
      | Some label \<Rightarrow>
          (case getTemplateParams label pq of
             None \<Rightarrow> None
           | Some (data, pq') \<Rightarrow>
               (case Tsprintf template data of Inl err \<Rightarrow> None | Inr text \<Rightarrow> Some (text, pq'))))"

lemma resolve_rendered:
  "pq_err pq = None \<Longrightarrow> rendered template pq = Some (text, pq') \<Longrightarrow>
     resolveQueryTemplate db template pq = Some (finalizeSQL db text pq')"
  by (auto simp: rendered_def resolveQueryTemplate_def split: option.splits sum.splits)

lemma whereSQL_ok:
  assumes "query_ok pq"
  shows "\<exists>text ps. whereSQL pq = Some (text, pq\<lparr>pq_queryParams := pq_queryParams pq @ ps\<rparr>) \<and>
    marks text = length ps \<and> list_all param_ok ps \<and>
    (children (pq_fieldsWhereClause pq) = [] \<longrightarrow> children (pq_labelsWhereClause pq) = [] \<longrightarrow> ps = [])"
proof -
  let ?t = "WhereClauseTree None [] '''' [pq_fieldsWhereClause pq, pq_labelsWhereClause pq] None"
  have "list_all builder_ok (pq_builders pq)" "tree_ok (length (pq_builders pq)) ?t"
    using assms by (auto simp: query_ok_def)
  from compileSQL_ok(1) [OF this] obtain sql ps where
    c: "compileSQL (pq_builders pq) ?t = Some (sql, ps)" "marks sql = length ps" "list_all param_ok ps"
    by (auto simp: has_params_def)
  have none: "sql = []" if "children (pq_fieldsWhereClause pq) = []" "children (pq_labelsWhereClause pq) = []"
    using that assms c(1)
    by (cases "pq_fieldsWhereClause pq"; cases "pq_labelsWhereClause pq")
      (auto simp: query_ok_def isEmpty_def isLeaf_def join_children_def)
  show ?thesis
  proof (cases "sql = []")
    case True
    with c show ?thesis by (intro exI [of _ "[]"]) (simp add: whereSQL_def)
  next
    case False
    with c none show ?thesis
      by (intro exI [of _ "'' WHERE '' @ sql"] exI [of _ ps]) (auto simp: whereSQL_def simp del: compileSQL.simps)
  qed
qed

lemma plain_clauses:
  assumes "query_ok pq"
  shows "marks (lockSQL pq) = 0" "marks (orderBySQL pq) = 0" "marks (orderBySequenceSQL pq) = 0"
    "marks (returningSQL pq) = 0" "marks (joinSQL pq) = 0"
proof -
  have order: "CHR ''?'' \<notin> set (concat (map (\<lambda>rule. '' '' @ or_field rule @ '' '' @ or_orderType rule @ '','')
      (pq_orderByFields pq)))"
    using assms by (auto simp: query_ok_def plain_text_def list_all_iff)
  have table: "plain_text (pq_entityTableName pq)" using assms by (simp add: query_ok_def)
  from table show "marks (lockSQL pq) = 0" "marks (orderBySequenceSQL pq) = 0" "marks (joinSQL pq) = 0"
    by (simp_all add: lockSQL_def orderBySequenceSQL_def joinSQL_def)
  from order table show "marks (orderBySQL pq) = 0"
    by (auto simp: orderBySQL_def marks_0_iff plain_text_def dest!: in_set_butlastD)
  have "list_all plain_text (pq_returningFields pq)" using assms by (simp add: query_ok_def)
  then have "sum_list (map marks (pq_returningFields pq)) = 0"
    by (induction "pq_returningFields pq") (auto simp: list_all_iff)
  then show "marks (returningSQL pq) = 0"
    by (simp add: returningSQL_def marks_Join)
qed

lemma getTemplateParams_ok:
  assumes "query_ok pq" "pq_labelEntity pq = Some label"
  shows "\<exists>data ps. getTemplateParams label pq =
      Some (data, pq\<lparr>pq_queryParams := pq_queryParams pq @ ps
        @ (if pq_limit pq = '''' then [] else [StringParam (pq_limit pq)])\<rparr>) \<and>
    list_all param_ok ps \<and> marks (field_text data ''WHERE'') = length ps \<and>
    marks (field_text data ''LIMIT'') = (if pq_limit pq = '''' then 0 else 1) \<and>
    (\<forall>f. f \<noteq> ''WHERE'' \<longrightarrow> f \<noteq> ''LIMIT'' \<longrightarrow> marks (field_text data f) = 0) \<and>
    (field_truth data ''hasFieldCriteria'' \<or> field_truth data ''hasLabelCriteria'' \<or> (ps = [] \<and> pq_limit pq = ''''))"
proof -
  from whereSQL_ok [OF assms(1)] obtain stmt ps where
    w: "whereSQL pq = Some (stmt, pq\<lparr>pq_queryParams := pq_queryParams pq @ ps\<rparr>)"
    "marks stmt = length ps" "list_all param_ok ps"
    "children (pq_fieldsWhereClause pq) = [] \<longrightarrow> children (pq_labelsWhereClause pq) = [] \<longrightarrow> ps = []"
    by blast
  from assms have l: "marks (LabelsTableName label) = 0" "marks (ReferenceColumn label) = 0"
    "marks (pq_entityTableName pq) = 0" by (auto simp: query_ok_def)
  have lim: "limitSQL (pq\<lparr>pq_queryParams := pq_queryParams pq @ ps\<rparr>) =
      (if pq_limit pq = [] then [] else ''LIMIT ?'', pq\<lparr>pq_queryParams := pq_queryParams pq @ ps
        @ (if pq_limit pq = [] then [] else [StringParam (pq_limit pq)])\<rparr>)"
    by (simp add: limitSQL_def)
  note params = getTemplateParams_def [of label pq, unfolded w(1) option.case prod.case lim]
  obtain data where d: "getTemplateParams label pq = Some (data, pq\<lparr>pq_queryParams := pq_queryParams pq @ ps
        @ (if pq_limit pq = [] then [] else [StringParam (pq_limit pq)])\<rparr>)"
    using params by blast
  have data: "field_text data ''WHERE'' = stmt"
    "field_text data ''LIMIT'' = (if pq_limit pq = [] then [] else ''LIMIT ?'')"
    "field_truth data ''hasFieldCriteria'' = (children (pq_fieldsWhereClause pq) \<noteq> [] \<or> pq_limit pq \<noteq> [])"
    "field_truth data ''hasLabelCriteria'' = (children (pq_labelsWhereClause pq) \<noteq> [])"
    using d unfolding params by (auto simp: field_text_def field_truth_def)
  have other: "marks (field_text data f) = 0" if "f \<noteq> ''WHERE''" "f \<noteq> ''LIMIT''" for f
  proof -
    let ?plain = "\<lambda>(k, v). k = ''WHERE'' \<or> k = ''LIMIT'' \<or> (case v of VString s \<Rightarrow> marks s = 0 | VBool _ \<Rightarrow> True)"
    have "\<exists>entries. data = map_of entries \<and> list_all ?plain entries"
      using d unfolding params option.inject prod.inject
      by - (elim conjE, intro exI conjI, erule sym, simp add: PrimaryKeyColumn_def l plain_clauses [OF assms(1)])
    then obtain entries where entries: "data = map_of entries" "list_all ?plain entries" by blast
    show ?thesis
    proof (cases "data f")
      case None
      then show ?thesis by (simp add: field_text_def)
    next
      case (Some v)
      with entries that have "case v of VString s \<Rightarrow> marks s = 0 | VBool _ \<Rightarrow> True"
        by (auto simp: list_all_iff dest!: map_of_SomeD)
      with Some show ?thesis by (cases v) (simp_all add: field_text_def)
    qed
  qed
  from d data other w show ?thesis by auto
qed

text \<open>The templates the query builder renders.\<close>

definition builder_templates :: "string list" where
  "builder_templates =
     [SelectQueryTemplate, SelectNoLabelsQueryTemplate, CountQueryTemplate, CountLabelValuesQueryTemplate,
      DeleteQueryTemplate]"

lemma rendered_ok:
  assumes "query_ok pq" "template \<in> set builder_templates"
  shows "\<exists>text ps. rendered template pq = Some (text, pq\<lparr>pq_queryParams := pq_queryParams pq @ ps\<rparr>) \<and>
    list_all param_ok ps \<and>
    length ps = marks text + (if template = DeleteQueryTemplate \<and> pq_limit pq \<noteq> '''' then 1 else 0)"
proof -
  from assms(1) obtain label where label: "pq_labelEntity pq = Some label" by (auto simp: query_ok_def)
  from getTemplateParams_ok [OF assms(1) label] obtain data ps where
    p: "getTemplateParams label pq = Some (data, pq\<lparr>pq_queryParams := pq_queryParams pq @ ps
        @ (if pq_limit pq = '''' then [] else [StringParam (pq_limit pq)])\<rparr>)" "list_all param_ok ps"
    "marks (field_text data ''WHERE'') = length ps"
    "marks (field_text data ''LIMIT'') = (if pq_limit pq = '''' then 0 else 1)"
    "\<And>f. f \<noteq> ''WHERE'' \<Longrightarrow> f \<noteq> ''LIMIT'' \<Longrightarrow> marks (field_text data f) = 0"
    "field_truth data ''hasFieldCriteria'' \<or> field_truth data ''hasLabelCriteria'' \<or> (ps = [] \<and> pq_limit pq = '''')"
    by blast
  note T = Tsprintf_marks [OF _ refl refl p(5)]
  let ?ps = "ps @ (if pq_limit pq = '''' then [] else [StringParam (pq_limit pq)])"
  have len: "length ?ps = length ps + (if pq_limit pq = '''' then 0 else 1)" by simp
  have "\<exists>text. Tsprintf template data = Inr text \<and>
      length ?ps = marks text + (if template = DeleteQueryTemplate \<and> pq_limit pq \<noteq> '''' then 1 else 0)"
  proof (cases "template = DeleteQueryTemplate")
    case True
    with T [OF template_uses_Delete] p(3,4,6) show ?thesis by auto
  next
    case False
    let ?u = "if field_truth data ''hasFieldCriteria'' \<or> field_truth data ''hasLabelCriteria'' then 1 else 0 :: nat"
    from False assms(2) have "template_uses template (field_truth data ''hasFieldCriteria'')
        (field_truth data ''hasLabelCriteria'') \<in> {Some (1, 1), Some (?u, ?u)}"
      by (auto simp: builder_templates_def template_uses_Select template_uses_SelectNoLabels
          template_uses_Count template_uses_CountLabelValues)
    with False T [of template] p(3,4,6) show ?thesis by auto
  qed
  then obtain stmt where "Tsprintf template data = Inr stmt"
    "length ?ps = marks stmt + (if template = DeleteQueryTemplate \<and> pq_limit pq \<noteq> [] then 1 else 0)" by blast
  with label p(1,2) show ?thesis by (intro exI [of _ stmt] exI [of _ ?ps]) (simp add: rendered_def)
qed

text \<open>The operators in a tree; without an operator for lists of values all parameters are scalars.\<close>

fun tree_operators :: "whereClauseTree \<Rightarrow> Operator set" where
  "tree_operators (WhereClauseTree c tags table cs b) =
     (case c of None \<Rightarrow> {} | Some crit \<Rightarrow> {COperator crit}) \<union> (\<Union>t\<in>set cs. tree_operators t)"

definition univariate :: "Operator \<Rightarrow> bool" where
  "univariate opr = (Operator_Type opr = UnivariateOperator)"

primrec scalar :: "query_param \<Rightarrow> bool" where
  "scalar (StringParam v) = True"
| "scalar (StringsParam vs) = False"

lemma compileSQL_scalar:
  "\<forall>opr\<in>tree_operators t. univariate opr \<Longrightarrow> compileSQL store t = Some (sql, ps) \<Longrightarrow> list_all scalar ps"
  "\<forall>t\<in>set ts. \<forall>opr\<in>tree_operators t. univariate opr \<Longrightarrow> compileChildren store ts = Some (sqls, qs) \<Longrightarrow>
     list_all scalar qs"
proof (induction store t and store ts arbitrary: sql ps and sqls qs rule: compileSQL_compileChildren.induct)
  case (1 store c tags table cs b)
  show ?case
  proof (cases "cs = []")
    case True
    with 1(2,3) show ?thesis
      by (auto simp: isEmpty_def isLeaf_def univariate_def buildRightOp_def split: option.splits if_splits list.splits
          dest!: criterionSQL_param)
  next
    case False
    with 1 show ?thesis by (auto simp: isEmpty_def isLeaf_def)
  qed
next
  case (3 store child rest)
  then show ?case by (auto split: option.splits if_splits)
qed simp

definition query_operators :: "pgQuery \<Rightarrow> Operator set" where
  "query_operators pq = tree_operators (pq_fieldsWhereClause pq) \<union> tree_operators (pq_labelsWhereClause pq)"

lemma tree_operators_append [simp]:
  "tree_operators (append_child t child) = tree_operators t \<union> tree_operators child"
  by (cases t) (auto simp: append_child_def)

lemma query_operators_steps [simp]:
  "query_operators (append_field c pq) = insert (COperator c) (query_operators pq)"
  "query_operators (append_label b c pq) = {EqualsOperator, COperator c} \<union> query_operators pq"
  "query_operators (use_subselect b pq) = query_operators pq"
  "query_operators (processResultCriteria c pq) = query_operators pq"
  "query_operators (pq\<lparr>pq_err := e\<rparr>) = query_operators pq"
  "query_operators (pq\<lparr>pq_shouldRebind := r\<rparr>) = query_operators pq"
  by (auto simp: query_operators_def append_field_def append_label_def use_subselect_def processResultCriteria_def
      Let_def ByField_def NewCriterion_def split: option.splits)

lemma query_operators_add_criteria:
  "query_operators (add_criteria gp criteria b n cs pq)
     \<subseteq> query_operators pq \<union> {EqualsOperator} \<union> COperator ` set cs"
  by (rule add_criteria_keeps [where S = "set cs"]) auto

lemma steps_rebind [simp]:
  "pq_shouldRebind (append_field c pq) = pq_shouldRebind pq"
  "pq_shouldRebind (append_label b c pq) = pq_shouldRebind pq"
  "pq_shouldRebind (use_subselect b pq) = pq_shouldRebind pq"
  "pq_shouldRebind (processResultCriteria c pq) = pq_shouldRebind pq"
  by (auto simp: append_field_def append_label_def use_subselect_def processResultCriteria_def Let_def
      split: option.splits)

lemma steps_error [simp]:
  "pq_err (append_field c pq) = pq_err pq" "pq_err (append_label b c pq) = pq_err pq"
  "pq_err (use_subselect b pq) = pq_err pq"
  by (auto simp: append_field_def append_label_def use_subselect_def Let_def split: option.splits)

lemma processResult_error: "pq_err pq \<noteq> None \<Longrightarrow> pq_err (processResultCriteria c pq) \<noteq> None"
  by (auto simp: processResultCriteria_def Let_def split: option.splits)

lemma add_criteria_error: "pq_err pq \<noteq> None \<Longrightarrow> pq_err (add_criteria gp criteria b n cs pq) \<noteq> None"
proof (induction cs arbitrary: n pq)
  case (Cons c cs)
  then show ?case
    by (cases "CType c")
      (auto simp: Let_def processResult_error simp del: not_None_eq split: sum.split option.split)
qed simp

subsection \<open>Queries that differ in values only\<close>

text \<open>
  Two criteria of one form: they may differ in the values of a field query, in the key and the
  values of a label query, and in the number of a limit.
\<close>

definition same_form :: "Criterion \<Rightarrow> Criterion \<Rightarrow> bool" where
  "same_form c d =
     (CType c = CType d \<and> COperator c = COperator d \<and>
      (CType c = FieldQuery \<longrightarrow> LeftOp c = LeftOp d) \<and>
      (embedded c \<longrightarrow> LeftOp c = LeftOp d \<and> RightOp c = RightOp d) \<and>
      (CType c = ResultQuery \<longrightarrow> LeftOp c = LeftOp d \<and> (LeftOp c = Limit \<or> RightOp c = RightOp d)))"

definition same_query :: "pgQuery \<Rightarrow> pgQuery \<Rightarrow> bool" where
  "same_query p q =
     (pq_labelEntity p = pq_labelEntity q \<and> pq_entityTags p = pq_entityTags q \<and>
      pq_labelEntityTags p = pq_labelEntityTags q \<and> pq_orderByFields p = pq_orderByFields q \<and>
      pq_hasLock p = pq_hasLock q \<and> pq_returningFields p = pq_returningFields q \<and>
      pq_entityTableName p = pq_entityTableName q \<and> pq_shouldRebind p = pq_shouldRebind q \<and>
      pq_builders p = pq_builders q \<and> (pq_limit p = '''' \<longleftrightarrow> pq_limit q = '''') \<and>
      same_tree (pq_fieldsWhereClause p) (pq_fieldsWhereClause q) \<and>
      same_tree (pq_labelsWhereClause p) (pq_labelsWhereClause q))"

lemma same_tree_refl [simp]: "same_tree t t"
proof (induction t)
  case (WhereClauseTree c tags table cs b)
  then show ?case
    by (auto simp: same_leaf_def list.rel_refl_strong option.rel_refl)
qed

lemma same_tree_append:
  "same_tree s t \<Longrightarrow> same_tree x y \<Longrightarrow> same_tree (append_child s x) (append_child t y)"
  by (cases s; cases t) (auto simp: append_child_def list_all2_appendI)

lemma same_query_err [simp]:
  "same_query (p\<lparr>pq_shouldRebind := True\<rparr>) (q\<lparr>pq_shouldRebind := True\<rparr>)" if "same_query p q"
  using that by (simp add: same_query_def)

lemma same_query_trees:
  "same_query p q \<Longrightarrow> same_tree t u \<Longrightarrow> same_query (p\<lparr>pq_fieldsWhereClause := t\<rparr>) (q\<lparr>pq_fieldsWhereClause := u\<rparr>)"
  "same_query p q \<Longrightarrow> same_tree t u \<Longrightarrow> same_query (p\<lparr>pq_labelsWhereClause := t\<rparr>) (q\<lparr>pq_labelsWhereClause := u\<rparr>)"
  by (simp_all add: same_query_def)

lemma same_append_field:
  assumes "same_query p q" "same_form c d" "CType c = FieldQuery \<or> embedded c"
  shows "same_query (append_field c p) (append_field d q)"
proof -
  from assms(2,3) have "same_leaf c d" by (auto simp: same_form_def same_leaf_def embedded_def)
  with assms(1) show ?thesis
    unfolding append_field_def
    by (intro same_query_trees(1) [OF assms(1) same_tree_append]) (auto simp: same_query_def)
qed

lemma same_append_label:
  assumes "same_query p q" "same_form c d"
  shows "same_query (append_label b c p) (append_label b d q)"
proof -
  from assms(2) have "same_leaf (ByField EqualsOperator ''key'' [LeftOp c]) (ByField EqualsOperator ''key'' [LeftOp d])"
    "same_leaf (ByField (COperator c) ''val'' (RightOp c)) (ByField (COperator d) ''val'' (RightOp d))"
    by (simp_all add: same_leaf_def same_form_def ByField_def NewCriterion_def embedded_def)
  with assms(1) show ?thesis
    unfolding append_label_def Let_def
    by (intro same_query_trees(2) [OF assms(1) same_tree_append]) (auto simp: same_query_def)
qed

lemma same_use_subselect: "same_query p q \<Longrightarrow> same_query (use_subselect b p) (use_subselect b q)"
  by (auto simp: same_query_def use_subselect_def split: option.splits)

lemma Atoi_Nil [simp]: "strconv_Atoi [] = None"
  by (simp add: strconv_Atoi_def)

lemma Validate_limit:
  "Validate gp c = Inr u \<Longrightarrow> CType c = ResultQuery \<Longrightarrow> LeftOp c = Limit \<Longrightarrow> RightOp c ! 0 \<noteq> ''''"
  by (auto simp: Validate_def split: if_splits option.splits)

lemma same_processResult:
  assumes "same_query p q" "same_form c d" "CType c = ResultQuery" "Validate gp c = Inr u" "Validate gp d = Inr u'"
    "pq_err (processResultCriteria c p) = None" "pq_err (processResultCriteria d q) = None"
  shows "same_query (processResultCriteria c p) (processResultCriteria d q)"
proof (cases "LeftOp c = Limit")
  case True
  then have "RightOp c ! 0 \<noteq> ''''" "RightOp d ! 0 \<noteq> ''''"
    using Validate_limit assms by (auto simp: same_form_def)
  with assms True show ?thesis
    by (auto simp: processResultCriteria_def same_query_def same_form_def Limit_def OrderBy_def split: if_splits)
next
  case False
  with assms show ?thesis
    by (auto simp: processResultCriteria_def same_query_def same_form_def Let_def split: if_splits option.splits)
qed

lemma same_field_error: "same_form c d \<Longrightarrow> CType c = FieldQuery \<Longrightarrow> field_error tags c = field_error tags d"
  by (simp add: field_error_def same_form_def Let_def)

lemma same_query_tags: "same_query p q \<Longrightarrow> pq_entityTags p = pq_entityTags q"
  by (simp add: same_query_def)

lemma same_add_criteria:
  assumes "list_all2 same_form cs ds" "same_query p q" "hasMultiVariateOp cs' = hasMultiVariateOp ds'"
    "pq_err (add_criteria gp cs' b n cs p) = None" "pq_err (add_criteria gp ds' b n ds q) = None"
  shows "same_query (add_criteria gp cs' b n cs p) (add_criteria gp ds' b n ds q)"
  using assms
proof (induction cs ds arbitrary: n p q rule: list_all2_induct)
  case (Cons c cs d ds)
  from Cons.prems(3,4) obtain u u' where v: "Validate gp c = Inr u" "Validate gp d = Inr u'"
    by (cases "Validate gp c"; cases "Validate gp d") auto
  let ?p = "if hasMultiVariateOp cs' then p\<lparr>pq_shouldRebind := True\<rparr> else p"
  let ?q = "if hasMultiVariateOp ds' then q\<lparr>pq_shouldRebind := True\<rparr> else q"
  have pq: "same_query ?p ?q" using Cons.prems(1,2) by simp
  have type: "CType d = CType c" using Cons.hyps(1) by (simp add: same_form_def)
  show ?case
  proof (cases "CType c = ResultQuery")
    case True
    with Cons.prems(3,4) v type have e: "pq_err (add_criteria gp cs' b n cs (processResultCriteria c ?p)) = None"
      "pq_err (add_criteria gp ds' b n ds (processResultCriteria d ?q)) = None"
      by (simp_all add: Let_def)
    then have "same_query (processResultCriteria c ?p) (processResultCriteria d ?q)"
      using same_processResult [OF pq Cons.hyps(1) True v] add_criteria_error by metis
    with Cons.IH [OF _ Cons.prems(2) e] True v type show ?thesis by (simp add: Let_def)
  next
    case False
    have "field_error (pq_entityTags ?p) c = field_error (pq_entityTags ?q) d" if "CType c = FieldQuery"
      using same_field_error [OF Cons.hyps(1) that] same_query_tags [OF pq] by simp
    with False Cons.prems v type same_append_field [OF pq Cons.hyps(1)] same_append_label [OF pq Cons.hyps(1)]
      same_append_label [OF same_use_subselect [OF pq] Cons.hyps(1)]
    show ?thesis
      by (cases "CType c") (auto simp: Let_def embedded_def intro!: Cons.IH split: option.splits)
  qed
qed simp

subsection \<open>Limits\<close>

definition limits :: "Criterion \<Rightarrow> bool" where
  "limits c = (CType c = ResultQuery \<and> LeftOp c = Limit)"

lemma steps_limit [simp]:
  "pq_limit (append_field c pq) = pq_limit pq" "pq_limit (append_label b c pq) = pq_limit pq"
  "pq_limit (use_subselect b pq) = pq_limit pq"
  by (auto simp: append_field_def append_label_def use_subselect_def Let_def split: option.splits)

lemma processResult_limit:
  assumes "pq_err (processResultCriteria c pq) = None" "CType c = ResultQuery" "Validate gp c = Inr u"
  shows "pq_limit (processResultCriteria c pq) = '''' \<longleftrightarrow> pq_limit pq = '''' \<and> \<not> limits c"
  using assms Validate_limit [OF assms(3,2)]
  by (auto simp: processResultCriteria_def limits_def Let_def Limit_def OrderBy_def split: if_splits option.splits)

lemma add_criteria_limit:
  "pq_err (add_criteria gp criteria b n cs pq) = None \<Longrightarrow>
     pq_limit (add_criteria gp criteria b n cs pq) = '''' \<longleftrightarrow> pq_limit pq = '''' \<and> \<not> list_ex limits cs"
proof (induction cs arbitrary: n pq)
  case (Cons c cs)
  then obtain u where v: "Validate gp c = Inr u" by (cases "Validate gp c") auto
  let ?pq = "if hasMultiVariateOp criteria then pq\<lparr>pq_shouldRebind := True\<rparr> else pq"
  show ?case
  proof (cases "CType c = ResultQuery")
    case True
    with Cons.prems v have e: "pq_err (add_criteria gp criteria b n cs (processResultCriteria c ?pq)) = None"
      by (simp add: Let_def)
    then have "pq_err (processResultCriteria c ?pq) = None" using add_criteria_error by metis
    from Cons.IH [OF e] processResult_limit [OF this True v] True v show ?thesis by (simp add: Let_def)
  next
    case False
    with Cons.prems v show ?thesis
      by (cases "CType c"; cases "hasMultiVariateOp criteria")
        (auto simp: Let_def Cons.IH limits_def split: option.splits)
  qed
qed simp

subsection \<open>Parameters and question marks\<close>

text \<open>
  What \<open>sqlx.In\<close> does to a statement with a question mark for each parameter, none of which is an
  empty list: lists are expanded, and every value has its question mark.
\<close>

definition In_expands :: "('w, 'r) pgDB \<Rightarrow> bool" where
  "In_expands db =
     (\<forall>sql ps. marks sql = length ps \<longrightarrow> list_all param_ok ps \<longrightarrow>
        (\<exists>sql' vs. db_In db sql ps = Inr (sql', map StringParam vs) \<and> marks sql' = length vs))"

definition clean_sql :: "string \<Rightarrow> string" where
  "clean_sql sql = strings_TrimSpace (collapse_space (strings_ReplacePair CHR 0x0A sql))"

lemma scalar_map: "list_all scalar ps \<Longrightarrow> \<exists>vs. ps = map StringParam vs"
proof (induction ps)
  case (Cons p ps)
  then obtain vs where "ps = map StringParam vs" by auto
  moreover obtain v where "p = StringParam v" using Cons.prems by (cases p) auto
  ultimately have "p # ps = map StringParam (v # vs)" by simp
  then show ?case by (rule exI)
qed simp

lemma rendered_scalar:
  assumes "\<forall>opr\<in>query_operators pq. univariate opr" "pq_queryParams pq = []" "rendered template pq = Some (stmt, pq')"
  shows "list_all scalar (pq_queryParams pq')"
proof -
  let ?t = "WhereClauseTree None [] '''' [pq_fieldsWhereClause pq, pq_labelsWhereClause pq] None"
  from assms(1) have "\<forall>opr\<in>tree_operators ?t. univariate opr" by (auto simp: query_operators_def)
  from compileSQL_scalar(1) [OF this] assms(2,3) show ?thesis
    by (auto simp: rendered_def getTemplateParams_def whereSQL_def limitSQL_def
        split: option.splits sum.splits if_splits prod.splits simp del: compileSQL.simps)
qed

lemma WithCriteria_scalar:
  assumes "\<not> pq_shouldRebind (WithCriteria gp cs (NewQuery e))" "pq_err (WithCriteria gp cs (NewQuery e)) = None"
  shows "\<forall>opr\<in>query_operators (WithCriteria gp cs (NewQuery e)). univariate opr"
proof -
  let ?pq = "NewQuery e\<lparr>pq_builders := pq_builders (NewQuery e) @ [DefaultBuilder]\<rparr>"
  have new: "pq_err (NewQuery e) = None" "query_operators ?pq = {}"
    by (simp_all add: NewQuery_def query_operators_def)
  have rebind: "pq_shouldRebind q \<Longrightarrow> pq_shouldRebind (add_criteria gp cs b n ds q)" for b n ds q
    by (rule add_criteria_keeps [where S = UNIV]) auto
  have "\<not> hasMultiVariateOp cs"
  proof (cases cs)
    case Nil
    then show ?thesis by (simp add: hasMultiVariateOp_def)
  next
    case (Cons c ds)
    with assms new rebind show ?thesis
      by (cases "CType c") (auto simp: WithCriteria_def Let_def split: sum.splits option.splits)
  qed
  then have "\<forall>opr\<in>COperator ` set cs. univariate opr"
    by (auto simp: hasMultiVariateOp_def univariate_def operator_type_cases)
  moreover have "univariate EqualsOperator" by (simp add: univariate_def)
  moreover have "query_operators (WithCriteria gp cs (NewQuery e)) \<subseteq> insert EqualsOperator (COperator ` set cs)"
    using query_operators_add_criteria [of gp cs "length (pq_builders (NewQuery e))" 0 cs ?pq] new
    by (simp add: WithCriteria_def)
  ultimately show ?thesis by blast
qed

lemma query_ok_WithLock [simp]:
  "query_ok (WithLock tx pq) = query_ok pq" "pq_err (WithLock tx pq) = pq_err pq"
  "pq_limit (WithLock tx pq) = pq_limit pq" "pq_shouldRebind (WithLock tx pq) = pq_shouldRebind pq"
  "query_operators (WithLock tx pq) = query_operators pq" "pq_queryParams (WithLock tx pq) = pq_queryParams pq"
  by (simp_all add: WithLock_def query_ok_def query_operators_def)

lemma WithCriteria_limit:
  "pq_err (WithCriteria gp cs (NewQuery e)) = None \<Longrightarrow>
     pq_limit (WithCriteria gp cs (NewQuery e)) = '''' \<longleftrightarrow> \<not> list_ex limits cs"
  by (simp add: WithCriteria_def add_criteria_limit NewQuery_def split: if_splits)

lemma WithCriteria_params: "pq_queryParams (WithCriteria gp cs (NewQuery e)) = []"
proof -
  have "pq_queryParams (add_criteria gp cs b n ds pq) = []" if "pq_queryParams pq = []" for b n ds pq
    using that by (intro add_criteria_keeps [where S = UNIV and P = "\<lambda>q. pq_queryParams q = []"])
      (auto simp: append_field_def append_label_def use_subselect_def processResultCriteria_def Let_def
        split: option.splits)
  then show ?thesis by (simp add: WithCriteria_def NewQuery_def)
qed


text \<open>Queries of the same form give the same template data, so the same statement.\<close>

lemma whereSQL_same:
  assumes "same_query p q" "whereSQL p = Some (stmt, p')" "whereSQL q = Some (stmt', q')"
  shows "stmt = stmt' \<and> pq_limit p' = pq_limit p \<and> pq_limit q' = pq_limit q"
proof -
  let ?t = "\<lambda>p. WhereClauseTree None [] '''' [pq_fieldsWhereClause p, pq_labelsWhereClause p] None"
  from assms(1) have "same_tree (?t p) (?t q)" "pq_builders p = pq_builders q" by (simp_all add: same_query_def)
  moreover from assms(2,3) obtain sql ps sql' ps' where
    c: "compileSQL (pq_builders p) (?t p) = Some (sql, ps)" "compileSQL (pq_builders q) (?t q) = Some (sql', ps')"
    by (auto simp: whereSQL_def map_option_eq_Some simp del: compileSQL.simps)
  ultimately have "sql = sql'" using compileSQL_same(1) by metis
  with assms(2,3) c show ?thesis by (auto simp: whereSQL_def split: if_splits simp del: compileSQL.simps)
qed

lemma same_tree_children: "same_tree t u \<Longrightarrow> children t = [] \<longleftrightarrow> children u = []"
  by (cases t; cases u) auto

lemma rendered_same:
  assumes "same_query p q" "rendered template p = Some (stmt, p')" "rendered template q = Some (stmt', q')"
  shows "stmt = stmt'"
proof -
  from assms(2,3) obtain label data data' where
    p: "getTemplateParams label p = Some (data, p')" "getTemplateParams label q = Some (data', q')"
    and t: "Tsprintf template data = Inr stmt" "Tsprintf template data' = Inr stmt'"
    using assms(1) by (auto simp: rendered_def same_query_def split: option.splits sum.splits)
  from p obtain w p1 w' q1 where w: "whereSQL p = Some (w, p1)" "whereSQL q = Some (w', q1)"
    by (auto simp: getTemplateParams_def split: option.splits)
  have children: "children (pq_fieldsWhereClause p) = [] \<longleftrightarrow> children (pq_fieldsWhereClause q) = []"
    "children (pq_labelsWhereClause p) = [] \<longleftrightarrow> children (pq_labelsWhereClause q) = []"
    using assms(1) same_tree_children unfolding same_query_def by blast+
  have clauses: "joinSQL p = joinSQL q" "lockSQL p = lockSQL q" "orderBySQL p = orderBySQL q"
    "orderBySequenceSQL p = orderBySequenceSQL q" "returningSQL p = returningSQL q"
    "fst (limitSQL p1) = fst (limitSQL q1)" "w = w'" "pq_entityTableName p = pq_entityTableName q"
    "pq_limit p = '''' \<longleftrightarrow> pq_limit q = ''''"
    using assms(1) children whereSQL_same [OF assms(1) w]
    by (simp_all add: joinSQL_def lockSQL_def orderBySQL_def orderBySequenceSQL_def returningSQL_def limitSQL_def
        same_query_def)
  with p w children have "data = data'"
    by (cases "limitSQL p1"; cases "limitSQL q1") (simp add: getTemplateParams_def)
  with t show ?thesis by simp
qed

text \<open>
  C9.  The text of a statement does not depend on the values a client searches for: two lists of
  accepted criteria of the same form, which may differ in the values of field queries, in keys and
  values of label queries and in the number of a limit, give the same statement for every
  template.  What a client sends as a value or as a label key reaches the database as a
  parameter only.
\<close>

theorem statement_ignores_values:
  assumes forms: "list_all2 same_form cs ds"
    and "pq_err (WithCriteria gp cs (NewQuery e)) = None" "pq_err (WithCriteria gp ds (NewQuery e)) = None"
    and "rendered template (WithLock tx (WithCriteria gp cs (NewQuery e))) = Some (stmt, pq)"
    and "rendered template (WithLock tx (WithCriteria gp ds (NewQuery e))) = Some (stmt', pq')"
  shows "stmt = stmt'"
proof -
  have multi: "hasMultiVariateOp cs = hasMultiVariateOp ds"
    using forms by (induction rule: list_all2_induct) (auto simp: hasMultiVariateOp_def same_form_def)
  have "same_query (WithCriteria gp cs (NewQuery e)) (WithCriteria gp ds (NewQuery e))"
    using same_add_criteria [OF forms _ multi] assms(2,3)
    by (auto simp: WithCriteria_def same_query_def NewQuery_def split: if_splits)
  then have same: "same_query (WithLock tx (WithCriteria gp cs (NewQuery e))) (WithLock tx (WithCriteria gp ds (NewQuery e)))"
    using assms(2,3) by (simp add: WithLock_def same_query_def)
  show ?thesis using rendered_same [OF same assms(4,5)] .
qed

subsection \<open>An example\<close>

definition sample_entity :: PostgresEntity where
  "sample_entity =
     \<lparr>TableName = ''platforms'',
      entityTags = [\<lparr>Tag = ''id'', tag_Type = stringType\<rparr>, \<lparr>Tag = ''created_at'', tag_Type = timeType\<rparr>,
        \<lparr>Tag = ''paging_sequence,auto_increment'', tag_Type = int64Type\<rparr>, \<lparr>Tag = ''name'', tag_Type = stringType\<rparr>],
      LabelEntity = Some
        \<lparr>LabelsTableName = ''platform_labels'', ReferenceColumn = ''platform_id'',
         labelTags = [\<lparr>Tag = ''key'', tag_Type = nullableStringType\<rparr>, \<lparr>Tag = ''val'', tag_Type = nullableStringType\<rparr>]\<rparr>\<rparr>"

definition sample_criteria :: "string \<Rightarrow> string \<Rightarrow> Criterion list" where
  "sample_criteria name tenant =
     [ByField EqualsOperator ''name'' [name], ByLabel InOperator ''tenant'' [tenant, ''other''],
      ByLabel EqualsOperator ''org'' [''o''], LimitResultBy 5]"

text \<open>A function that does what \<open>sqlx.In\<close> documents.\<close>

primrec param_values :: "query_param \<Rightarrow> string list" where
  "param_values (StringParam v) = [v]"
| "param_values (StringsParam vs) = vs"

fun expand_lists :: "string \<Rightarrow> query_param list \<Rightarrow> string \<times> string list" where
  "expand_lists [] ps = ([], [])"
| "expand_lists (c # s) ps =
     (if c = CHR ''?'' then
        (case ps of
           [] \<Rightarrow> ([], [])
         | p # ps \<Rightarrow>
             (case expand_lists s ps of
                (t, vs) \<Rightarrow> (strings_Join (map (\<lambda>_. ''?'') (param_values p)) '', '' @ t, param_values p @ vs)))
      else (case expand_lists s ps of (t, vs) \<Rightarrow> (c # t, vs)))"

definition sample_db :: "(unit, unit) pgDB" where
  "sample_db =
     \<lparr>db_is_Tx = True,
      db_In = (\<lambda>sql ps. case expand_lists sql ps of (sql', vs) \<Rightarrow> Inr (sql', map StringParam vs)),
      db_Named = (\<lambda>sql args. Inr (sql, [])),
      db_Rebind = (\<lambda>sql. sql),
      db_Queryx = (\<lambda>sql ps w. (Inr [], w)),
      db_GetInt = (\<lambda>sql ps w. (Inr 0, w)),
      db_Exec = (\<lambda>sql ps w. (Inr (Inr 0), w))\<rparr>"

lemma marks_expand_lists:
  "marks sql = length ps \<Longrightarrow> expand_lists sql ps = (sql', vs) \<Longrightarrow> marks sql' = length vs"
proof (induction sql ps arbitrary: sql' vs rule: expand_lists.induct)
  case (2 c s ps)
  have "sum_list (map (marks \<circ> (\<lambda>_. ''?'')) xs) = length xs" for xs :: "string list"
    by (induction xs) simp_all
  with 2 show ?case
    by (auto simp: marks_Join split: if_splits list.splits prod.splits)
qed simp

lemma sample_In_expands: "In_expands sample_db"
  by (auto simp: In_expands_def sample_db_def split: prod.split dest: marks_expand_lists)

lemma sample_plain:
  "entity_plain sample_entity" "list_all criterion_plain (sample_criteria name tenant)"
  by (simp_all add: entity_plain_def sample_entity_def plain_text_def tag_column_def sample_criteria_def
      criterion_plain_def embedded_def ByField_def ByLabel_def LimitResultBy_def NewCriterion_def)

lemma sample_accepted:
  "pq_err (WithCriteria no_parsers (sample_criteria ''cf'' ''t1'') (NewQuery sample_entity)) = None"
  "pq_err (WithCriteria no_parsers (sample_criteria ''k8s'' ''t2'') (NewQuery sample_entity)) = None"
  by code_simp+


theorem statement_ignores_values_witness:
  "map_option fst (rendered SelectQueryTemplate
      (WithLock True (WithCriteria no_parsers (sample_criteria ''cf'' ''t1'') (NewQuery sample_entity)))) =
   map_option fst (rendered SelectQueryTemplate
      (WithLock True (WithCriteria no_parsers (sample_criteria ''k8s'' ''t2'') (NewQuery sample_entity))))"
proof -
  have "list_all2 same_form (sample_criteria ''cf'' ''t1'') (sample_criteria ''k8s'' ''t2'')" by code_simp
  note same = statement_ignores_values [OF this sample_accepted]
  have "query_ok (WithLock True (WithCriteria no_parsers (sample_criteria name tenant) (NewQuery sample_entity)))" for name tenant
    using query_ok_WithCriteria [OF sample_plain(1)] sample_plain(2) by simp
  from rendered_ok [OF this, of SelectQueryTemplate "''cf''" "''t1''"]
    rendered_ok [OF this, of SelectQueryTemplate "''k8s''" "''t2''"] obtain s p s' p' where
    r: "rendered SelectQueryTemplate
        (WithLock True (WithCriteria no_parsers (sample_criteria ''cf'' ''t1'') (NewQuery sample_entity))) = Some (s, p)"
    "rendered SelectQueryTemplate
        (WithLock True (WithCriteria no_parsers (sample_criteria ''k8s'' ''t2'') (NewQuery sample_entity))) = Some (s', p')"
    by (auto simp: builder_templates_def)
  from same [OF r] r show ?thesis by simp
qed

end
