(* ===== verification/PgEntitiesFacts.thy ===== *)
theory PgEntitiesFacts
  imports PgEntities QueryBuilderFacts
begin

text \<open>
  What the conversions between objects and rows keep, what the scheme that \<open>Open\<close> builds finds, and
  that the entities have the plain names the facts on statements ask for.
\<close>

subsection \<open>Writing and reading\<close>

definition json_kept :: "json_raw \<Rightarrow> bool" where
  "json_kept r = (r \<noteq> Some ''null'' \<and> r \<noteq> Some ''{}'')"

lemma json_round_trip:
  "getJSONRawMessage (getJSONText r) = r \<longleftrightarrow> json_kept r"
  "getJSONRawMessage (nj_JSONText (getNullJSONText r)) = r \<longleftrightarrow> json_kept r \<and> r \<noteq> Some ''''"
  "getJSONRawMessageFromString (getStringFromJSONRawMessage r) = r \<longleftrightarrow> r \<noteq> Some ''''"
  "raw_bytes (getJSONRawMessage (getJSONText (Some p))) = p \<longleftrightarrow> json_kept (Some p)"
  by (auto simp: getJSONRawMessage_def getJSONText_def json_kept_def getNullJSONText_def raw_bytes_def
      getJSONRawMessageFromString_def getStringFromJSONRawMessage_def split: option.splits)

lemma null_round_trip [simp]:
  "ns_String (toNullString s) = s" "toBoolPointer (toNullBool b) = b"
  by (auto simp: toNullString_def toBoolPointer_def toNullBool_def split: option.splits)

definition plan_storable :: "ServicePlan \<Rightarrow> bool" where
  "plan_storable x = (sp_Free x \<noteq> None \<and> json_kept (sp_Metadata x) \<and> json_kept (sp_Schemas x)
     \<and> json_kept (sp_MaintenanceInfo x))"

lemma plan_round_trip:
  "ServicePlanEntity_ToObject (ServicePlanEntity_FromObject x) = x\<lparr>Labels := Map.empty\<rparr> \<longleftrightarrow> plan_storable x"
  by (cases x) (auto simp: ServicePlanEntity_ToObject_def ServicePlanEntity_FromObject_def plan_storable_def
      json_round_trip split: option.splits)

lemma map_eq_self: "map f xs = xs \<longleftrightarrow> (\<forall>x\<in>set xs. f x = x)"
  by (induction xs) auto

lemma plan_nested:
  "ServicePlanEntity_ToObject (ServicePlanEntity_FromObject x) = x \<longleftrightarrow> plan_storable x \<and> Labels x = Map.empty"
  by (cases x) (auto simp: ServicePlanEntity_ToObject_def ServicePlanEntity_FromObject_def plan_storable_def
      json_round_trip split: option.splits)

definition offering_storable :: "ServiceOffering \<Rightarrow> bool" where
  "offering_storable x =
     (json_kept (so_Tags x) \<and> json_kept (so_Requires x) \<and> json_kept (so_Metadata x) \<and>
      (\<forall>p\<in>set (so_Plans x). plan_storable p \<and> Labels p = Map.empty))"

lemma offering_nested:
  "ServiceOfferingEntity_ToObject (ServiceOfferingEntity_FromObject x) = x \<longleftrightarrow>
     offering_storable x \<and> Labels x = Map.empty"
  "ServiceOfferingEntity_ToObject (ServiceOfferingEntity_FromObject x) = x\<lparr>Labels := Map.empty\<rparr> \<longleftrightarrow>
     offering_storable x"
  by (cases x, auto simp: ServiceOfferingEntity_ToObject_def ServiceOfferingEntity_FromObject_def
      offering_storable_def json_round_trip map_eq_self plan_nested)+

text \<open>Basic credentials are kept unless both texts are empty.\<close>

definition basic_kept :: "Basic option \<Rightarrow> bool" where
  "basic_kept b = (b \<noteq> Some \<lparr>Username = '''', Password = ''''\<rparr>)"

definition broker_storable :: "ServiceBroker \<Rightarrow> bool" where
  "broker_storable x =
     (json_kept (sb_Catalog x) \<and>
      (\<exists>c. sb_Credentials x = Some c \<and> cr_TLS c \<noteq> None \<and> basic_kept (cr_Basic c)) \<and>
      (\<forall>f\<in>set (sb_Services x). offering_storable f \<and> Labels f = Map.empty))"

lemma broker_credentials:
  "sb_Credentials (BrokerEntity_ToObject (BrokerEntity_FromObject x)) = sb_Credentials x \<longleftrightarrow>
     (\<exists>c. sb_Credentials x = Some c \<and> cr_TLS c \<noteq> None \<and> basic_kept (cr_Basic c))"
proof (cases "sb_Credentials x")
  case None
  then show ?thesis by (simp add: BrokerEntity_ToObject_def Let_def)
next
  case (Some c)
  obtain b t i where c: "c = \<lparr>cr_Basic = b, cr_TLS = t, cr_Integrity = i\<rparr>" by (cases c)
  have tls: "\<lparr>Certificate = Certificate r, Key = Key r, SMProvidedCredentials = SMProvidedCredentials r\<rparr> = r" for r :: TLS
    by (cases r) simp
  have basic: "\<lparr>Username = Username r, Password = Password r\<rparr> = r" for r :: Basic by (cases r) simp
  show ?thesis
  proof (cases b)
    case None
    with Some c tls show ?thesis
      by (cases t) (auto simp: BrokerEntity_ToObject_def BrokerEntity_FromObject_def Let_def basic_kept_def)
  next
    case (Some b0)
    have "Username b0 = '''' \<and> Password b0 = '''' \<longleftrightarrow> b0 = \<lparr>Username = '''', Password = ''''\<rparr>"
      by (cases b0) simp
    with Some \<open>sb_Credentials x = Some c\<close> c tls basic show ?thesis
      by (cases t) (auto simp: BrokerEntity_ToObject_def BrokerEntity_FromObject_def Let_def basic_kept_def)
  qed
qed

lemma broker_round_trip:
  "BrokerEntity_ToObject (BrokerEntity_FromObject x) = x\<lparr>Labels := Map.empty\<rparr> \<longleftrightarrow> broker_storable x"
proof -
  let ?y = "BrokerEntity_ToObject (BrokerEntity_FromObject x)"
  have y: "ID ?y = ID x" "CreatedAt ?y = CreatedAt x" "UpdatedAt ?y = UpdatedAt x" "Labels ?y = Map.empty"
    "PagingSequence ?y = PagingSequence x" "Ready ?y = Ready x" "sb_Name ?y = sb_Name x"
    "sb_Description ?y = sb_Description x" "sb_BrokerURL ?y = sb_BrokerURL x"
    "sb_Catalog ?y = getJSONRawMessage (getJSONText (sb_Catalog x))"
    "sb_Services ?y = map (\<lambda>f. ServiceOfferingEntity_ToObject (ServiceOfferingEntity_FromObject f)) (sb_Services x)"
    by (simp_all add: BrokerEntity_ToObject_def BrokerEntity_FromObject_def Let_def split: option.split)
  have "?y = x\<lparr>Labels := Map.empty\<rparr> \<longleftrightarrow>
      sb_Credentials ?y = sb_Credentials x \<and> sb_Catalog ?y = sb_Catalog x \<and> sb_Services ?y = sb_Services x"
    using y by (cases x; cases ?y) auto
  then show ?thesis
    unfolding broker_credentials y broker_storable_def by (auto simp: json_round_trip map_eq_self offering_nested)
qed

text \<open>The credentials of a platform: none, or basic ones alone.\<close>

definition platform_credentials_kept :: "Credentials option \<Rightarrow> bool" where
  "platform_credentials_kept c =
     (case c of
        None \<Rightarrow> True
      | Some cr \<Rightarrow> cr_Basic cr \<noteq> None \<and> basic_kept (cr_Basic cr) \<and> cr_TLS cr = None \<and> cr_Integrity cr = '''')"

lemma platform_credentials:
  "credentials_of (Username (basic_of c)) (Password (basic_of c)) = c \<longleftrightarrow> platform_credentials_kept c"
proof (cases c)
  case None
  then show ?thesis by (simp add: credentials_of_def basic_of_def platform_credentials_kept_def)
next
  case (Some cr)
  obtain b t i where cr: "cr = \<lparr>cr_Basic = b, cr_TLS = t, cr_Integrity = i\<rparr>" by (cases cr)
  show ?thesis
  proof (cases b)
    case None
    with Some cr show ?thesis by (simp add: credentials_of_def basic_of_def platform_credentials_kept_def)
  next
    case (Some b0)
    with \<open>c = Some cr\<close> cr show ?thesis
      by (cases b0) (auto simp: credentials_of_def basic_of_def platform_credentials_kept_def basic_kept_def)
  qed
qed

text \<open>
  What \<open>encoding/json\<close> does with the JSON columns of an operation: the related types, whose
  text is that of an array, are restored; the context is restored but for the field \<open>Cascade\<close>,
  which has the tag \<open>json:"-"\<close>; a nil context is \<open>null\<close>, and an empty object gives the zero context.
\<close>

definition codec_restores :: "json_codec \<Rightarrow> Object \<Rightarrow> bool" where
  "codec_restores codec ob =
     (case ob of
        OperationObject x \<Rightarrow>
          (\<exists>t. marshal_related codec (TransitiveResources x) = Inr t \<and> t \<notin> {'''', ''{}'', ''null''} \<and>
               unmarshal_related codec t = Inr (TransitiveResources x)) \<and>
          (case op_Context x of
             None \<Rightarrow> marshal_context codec None = Inr ''null'' \<and> unmarshal_context codec ''{}'' = Inr zero_context
           | Some c \<Rightarrow> (\<exists>t. marshal_context codec (Some c) = Inr t \<and> t \<noteq> ''null'' \<and>
                           unmarshal_context codec t = Inr (c\<lparr>Cascade := False\<rparr>)))
      | _ \<Rightarrow> True)"

text \<open>
  What an object must be like for its row to hold all of it, apart from the labels.  The address
  is that of the pointer \<open>Shared\<close> of the instance that is read.
\<close>

primrec storable :: "nat \<Rightarrow> Object \<Rightarrow> bool" where
  "storable addr (OperationObject x) =
     (ObjectType_String (ResourceType x) = ResourceType x \<and> (\<exists>c. op_Context x = Some c \<and> \<not> Cascade c))"
| "storable addr (NotificationObject x) = (PagingSequence x = 0 \<and> json_kept (Some (n_Payload x)))"
| "storable addr (PlatformObject x) =
     (platform_credentials_kept (p_Credentials x) \<and> platform_credentials_kept (p_OldCredentials x))"
| "storable addr (ServicePlanObject x) = plan_storable x"
| "storable addr (ServiceOfferingObject x) = offering_storable x"
| "storable addr (ServiceBrokerObject x) = broker_storable x"
| "storable addr (ServiceInstanceObject x) =
     (json_kept (si_MaintenanceInfo x) \<and> json_kept (si_Context x) \<and> json_kept (si_PreviousValues x) \<and>
      si_Parameters x = '''' \<and> (case si_Shared x of None \<Rightarrow> True | Some (a, b) \<Rightarrow> a = addr))"
| "storable addr (ServiceBindingObject x) =
     (json_kept (bd_VolumeMounts x) \<and> bd_VolumeMounts x \<noteq> Some '''' \<and>
      json_kept (bd_Endpoints x) \<and> bd_Endpoints x \<noteq> Some '''' \<and>
      json_kept (bd_Context x) \<and> json_kept (bd_BindResource x) \<and>
      bd_Credentials x \<noteq> Some '''' \<and> bd_Parameters x = '''')"
| "storable addr (BrokerPlatformCredentialObject x) = (bpc_NotificationID x = '''')"
| "storable addr (VisibilityObject x) = True"
| "storable addr (ResourceObject x) = False"

lemma operation_round_trip:
  assumes "codec_restores codec (OperationObject x)"
  shows "\<exists>e y. OperationEntity_FromObject codec x = Inr e \<and> OperationEntity_ToObject codec e = Inr y \<and>
    (y = x\<lparr>Labels := Map.empty\<rparr> \<longleftrightarrow> storable addr (OperationObject x))"
proof -
  from assms obtain t where t: "marshal_related codec (TransitiveResources x) = Inr t" "t \<noteq> ''''" "t \<noteq> ''{}''"
    "t \<noteq> ''null''" "unmarshal_related codec t = Inr (TransitiveResources x)"
    by (auto simp: codec_restores_def)
  show ?thesis
  proof (cases "op_Context x")
    case None
    with assms t show ?thesis
      by (cases x) (auto simp: codec_restores_def OperationEntity_FromObject_def OperationEntity_ToObject_def
          getJSONText_def getJSONRawMessage_def raw_bytes_def toJsonAsObject_def)
  next
    case (Some c)
    with assms obtain u where u: "marshal_context codec (Some c) = Inr u" "u \<noteq> ''null''"
      "unmarshal_context codec u = Inr (c\<lparr>Cascade := False\<rparr>)" by (auto simp: codec_restores_def)
    have "c\<lparr>Cascade := False\<rparr> = c \<longleftrightarrow> \<not> Cascade c" by (cases c) auto
    with Some t u show ?thesis
      by (cases x) (auto simp: OperationEntity_FromObject_def OperationEntity_ToObject_def getJSONText_def
          getJSONRawMessage_def raw_bytes_def toJsonAsObject_def)
  qed
qed

lemma kind_type_inject: "kind_type k = kind_type l \<longleftrightarrow> k = l"
  by (cases k; cases l) (simp_all add: type_names)

lemma table_inject: "TableName (pg_entity k) = TableName (pg_entity l) \<longleftrightarrow> k = l"
  by (cases k; cases l) simp_all

lemma introduce_all_Some:
  assumes "distinct ks" "\<forall>k\<in>set ks. converters s (kind_type k) = None"
  shows "\<exists>s'. introduce_all ks s = Some s' \<and>
    (\<forall>k\<in>set ks. converters s' (kind_type k) = Some k) \<and>
    (\<forall>k. k \<notin> set ks \<longrightarrow> converters s' (kind_type k) = converters s (kind_type k)) \<and>
    (\<forall>k\<in>set ks. entityToObjectTypeConverter s' (TableName (pg_entity k)) = Some (ObjectType_String (kind_type k))) \<and>
    (\<forall>k. k \<notin> set ks \<longrightarrow> entityToObjectTypeConverter s' (TableName (pg_entity k)) =
           entityToObjectTypeConverter s (TableName (pg_entity k)))"
  using assms
proof (induction ks arbitrary: s)
  case (Cons k ks)
  let ?s = "s\<lparr>converters := (converters s)(kind_type k \<mapsto> k),
     entityToObjectTypeConverter :=
       (entityToObjectTypeConverter s)(TableName (pg_entity k) \<mapsto> ObjectType_String (kind_type k))\<rparr>"
  from Cons.prems have "introduce k s = Some ?s" by (simp add: introduce_def Let_def)
  moreover from Cons.prems have "\<forall>l\<in>set ks. converters ?s (kind_type l) = None"
    by (auto simp: kind_type_inject)
  ultimately show ?case
    using Cons.IH [of ?s] Cons.prems(1)
    by (auto simp: table_inject kind_type_inject)
qed simp

lemma opened_kinds_UNIV: "k \<in> set opened_kinds" "distinct opened_kinds"
  by (cases k) (simp_all add: opened_kinds_def)

lemma opened_scheme:
  obtains s where "introduce_all opened_kinds newScheme = Some s" "\<And>k. converters s (kind_type k) = Some k"
    "\<And>k. entityToObjectTypeConverter s (TableName (pg_entity k)) = Some (ObjectType_String (kind_type k))"
  using introduce_all_Some [of opened_kinds newScheme] opened_kinds_UNIV by (auto simp: newScheme_def)

primrec object_kind :: "Object \<Rightarrow> EntityKind option" where
  "object_kind (OperationObject x) = Some OperationKind"
| "object_kind (NotificationObject x) = Some NotificationKind"
| "object_kind (PlatformObject x) = Some PlatformKind"
| "object_kind (ServicePlanObject x) = Some ServicePlanKind"
| "object_kind (ServiceOfferingObject x) = Some ServiceOfferingKind"
| "object_kind (ServiceBrokerObject x) = Some BrokerKind"
| "object_kind (ServiceInstanceObject x) = Some ServiceInstanceKind"
| "object_kind (ServiceBindingObject x) = Some ServiceBindingKind"
| "object_kind (BrokerPlatformCredentialObject x) = Some BrokerPlatformCredentialKind"
| "object_kind (VisibilityObject x) = Some VisibilityKind"
| "object_kind (ResourceObject x) = None"

lemma GetType_kind: "object_kind ob = Some k \<Longrightarrow> GetType ob = kind_type k"
  by (cases ob) auto

definition write_read :: "json_codec \<Rightarrow> nat \<Rightarrow> scheme \<Rightarrow> Object \<Rightarrow> (error, Object) result" where
  "write_read codec addr s ob = try_then (convert codec s ob) (ToObject codec addr)"

lemmas simple_entities =
  VisibilityEntity_FromObject_def VisibilityEntity_ToObject_def
  NotificationEntity_FromObject_def NotificationEntity_ToObject_def
  ServiceBindingEntity_FromObject_def ServiceBindingEntity_ToObject_def
  BrokerPlatformCredentialEntity_FromObject_def BrokerPlatformCredentialEntity_ToObject_def
  ServiceInstanceEntity_FromObject_def ServiceInstanceEntity_ToObject_def
  PlatformEntity_FromObject_def PlatformEntity_ToObject_def

lemma entity_ids:
  "ID (ServicePlanEntity_ToObject (ServicePlanEntity_FromObject p)) = ID p"
  "ID (ServiceOfferingEntity_ToObject (ServiceOfferingEntity_FromObject f)) = ID f"
  "ID (BrokerEntity_ToObject (BrokerEntity_FromObject b)) = ID b"
  by (simp_all add: ServicePlanEntity_ToObject_def ServicePlanEntity_FromObject_def
      ServiceOfferingEntity_ToObject_def ServiceOfferingEntity_FromObject_def
      BrokerEntity_ToObject_def BrokerEntity_FromObject_def Let_def split: option.split)

lemma shared_round_trip:
  "map_option (\<lambda>b. (addr, b)) (map_option snd sh) = sh \<longleftrightarrow> (case sh of None \<Rightarrow> True | Some (a, b) \<Rightarrow> a = addr)"
  by (cases sh) auto

lemma FromObject_ToObject:
  assumes "codec_restores codec ob" "object_kind ob = Some k"
  shows "\<exists>e ob'. FromObject codec k ob = Some (Inr e) \<and> ToObject codec addr e = Inr ob' \<and> GetID ob' = GetID ob \<and>
    GetType ob' = GetType ob \<and> (ob' = SetLabels Map.empty ob \<longleftrightarrow> storable addr ob)"
proof (cases ob)
  case (OperationObject x)
  with operation_round_trip [of codec x addr] assms(1) obtain e y where
    "OperationEntity_FromObject codec x = Inr e" "OperationEntity_ToObject codec e = Inr y"
    "y = x\<lparr>Labels := Map.empty\<rparr> \<longleftrightarrow> storable addr (OperationObject x)" by blast
  moreover from this(1,2) have "ID y = ID x"
    by (auto simp: OperationEntity_FromObject_def OperationEntity_ToObject_def try_then_Inr_iff split: if_splits)
  ultimately show ?thesis using OperationObject assms(2) by auto
next
  case (NotificationObject x)
  with assms(2) show ?thesis by (cases x) (auto simp: simple_entities json_round_trip)
next
  case (PlatformObject x)
  with assms(2) show ?thesis by (cases x) (auto simp: simple_entities platform_credentials)
next
  case (ServiceInstanceObject x)
  with assms(2) show ?thesis by (cases x) (auto simp: simple_entities json_round_trip shared_round_trip)
next
  case (ServiceBindingObject x)
  with assms(2) show ?thesis by (cases x) (auto simp: simple_entities json_round_trip)
next
  case (BrokerPlatformCredentialObject x)
  with assms(2) show ?thesis by (cases x) (auto simp: simple_entities)
next
  case (VisibilityObject x)
  with assms(2) show ?thesis by (cases x) (auto simp: simple_entities)
qed (use assms(2) in \<open>auto simp: plan_round_trip offering_nested broker_round_trip entity_ids\<close>)

text \<open>
  Every object of the ten introduced types can be written as a row and read back: the
  conversions do not fail, the identifier and the type are kept, and the object that is read is
  the one that was written, without its labels, exactly when the object is storable.  The
  conditions of \<open>storable\<close> list what a row does not hold.
\<close>

theorem row_round_trip:
  assumes "introduce_all opened_kinds newScheme = Some s" "codec_restores codec ob" "object_kind ob \<noteq> None"
  shows "\<exists>ob'. write_read codec addr s ob = Inr ob' \<and> GetID ob' = GetID ob \<and> GetType ob' = GetType ob \<and>
    (ob' = SetLabels Map.empty ob \<longleftrightarrow> storable addr ob)"
proof -
  from assms(3) obtain k where k: "object_kind ob = Some k" by blast
  obtain s' where "introduce_all opened_kinds newScheme = Some s'" "\<And>k. converters s' (kind_type k) = Some k"
    using opened_scheme by metis
  with assms(1) GetType_kind [OF k] have "converters s (GetType ob) = Some k" by simp
  with FromObject_ToObject [OF assms(2) k, of addr] show ?thesis
    by (auto simp: write_read_def convert_def)
qed

definition stored_operation :: Operation where
  "stored_operation =
     \<lparr>ID = ''op1'', CreatedAt = 1, UpdatedAt = 2, Labels = [''tenant'' \<mapsto> [''t1'']], PagingSequence = 3, Ready = True,
      op_Description = '''', op_Type = CREATE, op_State = IN_PROGRESS, ResourceID = ''i1'',
      TransitiveResources = [\<lparr>rel_ID = ''i1'', rel_Criteria = [], rel_Type = ServiceInstanceType, rel_OperationType = CREATE\<rparr>],
      ResourceType = ServiceInstanceType, op_Errors = None, op_PlatformID = ''p1'', CorrelationID = ''c1'', ExternalID = '''',
      ParentID = '''', CascadeRootID = '''', op_Context = Some (zero_context\<lparr>Async := True\<rparr>), Reschedule = False,
      RescheduleTimestamp = 0, DeletionScheduled = 0\<rparr>"

definition stored_codec :: json_codec where
  "stored_codec =
     \<lparr>marshal_related = (\<lambda>rs. Inr ''[...]''),
      unmarshal_related = (\<lambda>t. if t = ''[...]'' then Inr (TransitiveResources stored_operation) else Inl (ErrorString ''json'')),
      marshal_context = (\<lambda>c. case c of None \<Rightarrow> Inr ''null'' | Some _ \<Rightarrow> Inr ''{async}''),
      unmarshal_context = (\<lambda>t. if t = ''{async}'' then Inr (zero_context\<lparr>Async := True\<rparr>) else Inr zero_context)\<rparr>"

theorem row_round_trip_witness:
  "\<exists>s. introduce_all opened_kinds newScheme = Some s \<and>
     write_read stored_codec 0 s (OperationObject stored_operation) =
       Inr (OperationObject (stored_operation\<lparr>Labels := Map.empty\<rparr>))"
proof -
  obtain s where s: "introduce_all opened_kinds newScheme = Some s" using opened_scheme by metis
  have "codec_restores stored_codec (OperationObject stored_operation)"
    by (simp add: codec_restores_def stored_codec_def stored_operation_def zero_context_def)
  moreover have "storable 0 (OperationObject stored_operation)"
    by (simp add: stored_operation_def zero_context_def ObjectType_String_def type_names strings_HasPrefix_def)
  ultimately show ?thesis
    using s row_round_trip [OF s, of stored_codec "OperationObject stored_operation" 0] by auto
qed

lemmas entity_tags_defs =
  BrokerEntity_tags_def PlatformEntity_tags_def ServiceOfferingEntity_tags_def ServicePlanEntity_tags_def
  VisibilityEntity_tags_def NotificationEntity_tags_def OperationEntity_tags_def ServiceInstanceEntity_tags_def
  ServiceBindingEntity_tags_def BrokerPlatformCredentialEntity_tags_def base_tags_def

lemma pg_entity_plain: "entity_plain (pg_entity k)"
  by (cases k) (simp_all add: entity_plain_def plain_text_def label_entity_def entity_tags_defs tag_column_def)

end
