(* ===== verification/Calls.thy ===== *)
theory Calls
  imports Errors
begin

text \<open>
  Calls that change a state and return a value, fail with an error or panic, and their
  composition.  The state after a panic is the one at the time of the panic.
\<close>

datatype 'a outcome = Returns 'a | Fails error | Panicked

type_synonym ('s, 'a) call = "'s \<Rightarrow> 'a outcome \<times> 's"

definition call_then :: "('s, 'a) call \<Rightarrow> ('a \<Rightarrow> ('s, 'b) call) \<Rightarrow> ('s, 'b) call" where
  "call_then f g s =
     (case f s of
        (Returns x, s') \<Rightarrow> g x s'
      | (Fails err, s') \<Rightarrow> (Fails err, s')
      | (Panicked, s') \<Rightarrow> (Panicked, s'))"

definition returns :: "'a \<Rightarrow> ('s, 'a) call" where
  "returns x s = (Returns x, s)"

definition fails :: "error \<Rightarrow> ('s, 'a) call" where
  "fails err s = (Fails err, s)"

definition panics :: "('s, 'a) call" where
  "panics s = (Panicked, s)"

text \<open>The last function decides what an error becomes.\<close>

definition on_error :: "('s, 'a) call \<Rightarrow> (error \<Rightarrow> ('s, 'a) call) \<Rightarrow> ('s, 'a) call" where
  "on_error f g s = (case f s of (Fails err, s') \<Rightarrow> g err s' | (Returns x, s') \<Rightarrow> (Returns x, s') | (Panicked, s') \<Rightarrow> (Panicked, s'))"

lemma call_then_simps [simp]:
  "f s = (Returns x, s') \<Longrightarrow> call_then f g s = g x s'"
  "f s = (Fails err, s') \<Longrightarrow> call_then f g s = (Fails err, s')"
  "f s = (Panicked, s') \<Longrightarrow> call_then f g s = (Panicked, s')"
  by (simp_all add: call_then_def)

lemma call_then_ReturnsE:
  assumes "call_then f g s = (Returns y, s')"
  obtains x s1 where "f s = (Returns x, s1)" "g x s1 = (Returns y, s')"
  using assms by (auto simp: call_then_def split: prod.splits outcome.splits)

end
