(* ===== verification/PgStorage.thy ===== *)
theory PgStorage
  imports PgEntitiesFacts Calls Slices
begin

text \<open>
  The PostgreSQL storage (\<open>src/storage/postgres/storage.go\<close>, \<open>abstract.go\<close>, \<open>interfaces.go\<close> and
  \<open>notification_storage.go\<close>): statements for rows and labels, the list of objects that rows give,
  and the repository operations.

  The database is a parameter: the record \<open>Storage\<close> extends the connection of the query builder
  with the named statements.  Its row type is what \<open>StructScan\<close> gives for a row, the entity with the
  key and value of one of its labels, or an error.  The order in which Go walks a map is the
  parameter \<open>ps_order\<close>; \<open>ps_now\<close> and \<open>ps_uuid\<close> are the clock and the generator of identifiers.
\<close>

subsection \<open>Statements for rows\<close>

definition isAutoIncrementable :: "string \<Rightarrow> bool" where
  "isAutoIncrementable tagValue = strings_Contains tagValue ''auto_increment''"

text \<open>\<open>getDBTags\<close> with a predicate: the tags of the struct for which it does not hold.\<close>

definition getDBTags :: "tagType list \<Rightarrow> (string \<Rightarrow> bool) \<Rightarrow> tagType list" where
  "getDBTags tags predicate = filter (\<lambda>t. \<not> predicate (Tag t)) tags"

definition insert_query :: "string \<Rightarrow> string list \<Rightarrow> string \<Rightarrow> string" where
  "insert_query table columns ending =
     ''INSERT INTO '' @ table @ '' ('' @ strings_Join columns '', '' @ '') VALUES(:''
       @ strings_Join columns '', :'' @ '') '' @ ending"

definition updateQuery :: "string \<Rightarrow> tagType list \<Rightarrow> string" where
  "updateQuery table tags =
     (let settings = map (\<lambda>t. Tag t @ '' = :'' @ Tag t) (getDBTags tags isAutoIncrementable)
      in if length settings = 0 then ''''
         else ''UPDATE '' @ table @ '' SET '' @ strings_Join settings '', '' @ '' WHERE id = :id'')"

definition checkUniqueViolation :: "db_error \<Rightarrow> db_error" where
  "checkUniqueViolation err =
     (case err of
        PqError name class table message \<Rightarrow>
          if name = ''unique_violation'' then OtherError ErrAlreadyExistsInStorage else err
      | OtherError e \<Rightarrow> err)"

definition checkIntegrityViolation :: "db_error \<Rightarrow> db_error" where
  "checkIntegrityViolation err =
     (case err of
        PqError name class table message \<Rightarrow>
          if class = ''42'' \<or> class = ''44'' \<or> class = ''23''
          then OtherError (ErrBadRequestStorage (plain_error err)) else err
      | OtherError e \<Rightarrow> err)"

definition checkRowsAffected :: "(error, int) result \<Rightarrow> (error, unit) result" where
  "checkRowsAffected rowsAffected =
     try_then rowsAffected (\<lambda>n. if n < 1 then Inl ErrNotFoundInStorage else Inr ())"

subsection \<open>The storage\<close>

record row =
  row_entity :: Entity
  row_key :: string
  row_val :: string

type_synonym scan = "(error, row) result"

record 'w Storage =
  ps_db :: "('w, scan) pgDB"
  ps_PrepareNamed :: "string \<Rightarrow> 'w \<Rightarrow> (db_error, unit) result \<times> 'w"
  ps_StmtGet :: "string \<Rightarrow> Entity \<Rightarrow> 'w \<Rightarrow> (db_error, Entity) result \<times> 'w"
  ps_NamedExecEntity :: "string \<Rightarrow> Entity \<Rightarrow> 'w \<Rightarrow> (db_error, (error, int) result) result \<times> 'w"
  ps_NamedExecLabels :: "string \<Rightarrow> LabelRow list \<Rightarrow> 'w \<Rightarrow> (db_error, (error, int) result) result \<times> 'w"

  ps_scheme :: scheme
  ps_codec :: json_codec
  ps_parsers :: go_parsers
  ps_order :: "label_map \<Rightarrow> (string \<times> string list) list"
  ps_spare :: "nat \<Rightarrow> nat"
  ps_now :: "'w \<Rightarrow> int \<times> 'w"
  ps_uuid :: "'w \<Rightarrow> (error, string) result \<times> 'w"

text \<open>A call of the database, the value of a conversion, and a call of the query builder.\<close>

definition db_call :: "(db_error \<Rightarrow> error) \<Rightarrow> ('w \<Rightarrow> (db_error, 'a) result \<times> 'w) \<Rightarrow> ('w, 'a) call" where
  "db_call handle f w = (case f w of (Inl err, w') \<Rightarrow> (Fails (handle err), w') | (Inr x, w') \<Rightarrow> (Returns x, w'))"

definition of_result :: "(error, 'a) result \<Rightarrow> ('w, 'a) call" where
  "of_result r = (case r of Inl err \<Rightarrow> fails err | Inr x \<Rightarrow> returns x)"

definition query_call ::
  "(db_error \<Rightarrow> error) \<Rightarrow> ('w \<Rightarrow> ((db_error, 'a) result \<times> 'w) option) \<Rightarrow> ('w, 'a) call" where
  "query_call handle f w =
     (case f w of
        None \<Rightarrow> (Panicked, w)
      | Some (Inl err, w') \<Rightarrow> (Fails (handle err), w')
      | Some (Inr x, w') \<Rightarrow> (Returns x, w'))"

definition time_now :: "'w Storage \<Rightarrow> ('w, int) call" where
  "time_now ps w = (case ps_now ps w of (t, w') \<Rightarrow> (Returns t, w'))"

subsection \<open>Rows to objects\<close>

record rows_state =
  rs_entities :: "string \<rightharpoonup> Object"
  rs_labels :: "string \<Rightarrow> label_map"
  rs_result :: "Object list"

definition add_row_label :: "Object \<Rightarrow> row \<Rightarrow> rows_state \<Rightarrow> rows_state" where
  "add_row_label ob r s =
     (if row_key r \<noteq> ''''
      then s\<lparr>rs_labels := (rs_labels s)(GetID ob := (rs_labels s (GetID ob))(row_key r \<mapsto>
               (case rs_labels s (GetID ob) (row_key r) of None \<Rightarrow> [] | Some vs \<Rightarrow> vs) @ [row_val r]))\<rparr>
      else s)"

text \<open>
  The loop of \<open>rowsToList\<close>.  A map of labels that is missing reads as empty.  Every object that is
  made gets a new address for its pointers.
\<close>

fun scan_all_rows :: "json_codec \<Rightarrow> scan list \<Rightarrow> rows_state \<Rightarrow> (error, rows_state) result" where
  "scan_all_rows codec [] s = Inr s"
| "scan_all_rows codec (Inl err # rest) s = Inl err"
| "scan_all_rows codec (Inr r # rest) s =
     (case rs_entities s (entity_GetID (row_entity r)) of
        Some ob \<Rightarrow> scan_all_rows codec rest (add_row_label ob r s)
      | None \<Rightarrow>
          (case ToObject codec (length (rs_result s)) (row_entity r) of
             Inl err \<Rightarrow> Inl (ErrorString (''error converting pg rows to list: '' @ error_text err))
           | Inr ob \<Rightarrow>
               scan_all_rows codec rest (add_row_label ob r
                 (s\<lparr>rs_entities := (rs_entities s)(entity_GetID (row_entity r) \<mapsto> ob),
                    rs_result := rs_result s @ [ob]\<rparr>))))"

definition rowsToList :: "json_codec \<Rightarrow> scan list \<Rightarrow> (error, Object list) result" where
  "rowsToList codec rows =
     try_then (scan_all_rows codec rows \<lparr>rs_entities = Map.empty, rs_labels = (\<lambda>_. Map.empty), rs_result = []\<rparr>)
       (\<lambda>s. Inr (map (\<lambda>ob. SetLabels (rs_labels s (GetID ob)) ob) (rs_result s)))"

subsection \<open>Labels\<close>

definition validate_label :: "LabelRow \<Rightarrow> label_map \<Rightarrow> (error, label_map) result" where
  "validate_label bl pairs =
     (let newKey = ns_String (lr_Key bl);
          newValue = ns_String (lr_Val bl);
          val = (case pairs newKey of None \<Rightarrow> [] | Some vs \<Rightarrow> vs)
      in if pairs newKey \<noteq> None \<and> StringsAnyEquals val newValue
         then Inl (ErrorString (''duplicate label with key '' @ newKey @ '' and value '' @ newValue))
         else Inr (pairs(newKey \<mapsto> val @ [newValue])))"

fun validate_labels :: "LabelRow list \<Rightarrow> label_map \<Rightarrow> (error, unit) result" where
  "validate_labels [] pairs = Inr ()"
| "validate_labels (bl # rest) pairs = try_then (validate_label bl pairs) (validate_labels rest)"

definition validateLabels :: "LabelRow list \<Rightarrow> (error, unit) result" where
  "validateLabels entities = validate_labels entities Map.empty"

definition provideLabel :: "'w Storage \<Rightarrow> ObjectType \<Rightarrow> string \<Rightarrow> string \<Rightarrow> string \<Rightarrow> ('w, LabelRow) call" where
  "provideLabel ps objectType objectID key val =
     call_then (of_result (provide (ps_scheme ps) objectType)) (\<lambda>k.
     call_then (\<lambda>w. case ps_uuid ps w of
          (Inl err, w') \<Rightarrow> (Fails (ErrorString (''could not generate GUID for label: '' @ error_text err)), w')
        | (Inr i, w') \<Rightarrow> (Returns i, w')) (\<lambda>labelID.
     call_then (time_now ps) (\<lambda>now.
       returns (NewLabel k now labelID objectID key val))))"

text \<open>\<open>for key, values := range labels\<close> with the inner loop over the values.\<close>

fun provide_labels ::
  "'w Storage \<Rightarrow> ObjectType \<Rightarrow> string \<Rightarrow> (string \<times> string) list \<Rightarrow> ('w, LabelRow list) call" where
  "provide_labels ps objectType objectID [] = returns []"
| "provide_labels ps objectType objectID ((key, val) # rest) =
     call_then (provideLabel ps objectType objectID key val) (\<lambda>l.
     call_then (provide_labels ps objectType objectID rest) (\<lambda>ls. returns (l # ls)))"

definition label_pairs :: "(string \<times> string list) list \<Rightarrow> (string \<times> string) list" where
  "label_pairs ls = concat (map (\<lambda>(key, vals). map (Pair key) vals) ls)"

definition kind_label :: "EntityKind \<Rightarrow> PostgresLabel" where
  "kind_label k = the (LabelEntity (pg_entity k))"

definition label_columns :: "EntityKind \<Rightarrow> string list" where
  "label_columns k = map Tag (getDBTags (labelTags (kind_label k)) isAutoIncrementable)"

definition maxParams :: nat where "maxParams = 65535"

definition maxRows :: "EntityKind \<Rightarrow> nat" where
  "maxRows k = maxParams div length (label_columns k)"

lemma LabelEntity_kind: "LabelEntity (pg_entity k) = Some (kind_label k)"
  by (cases k) (simp_all add: kind_label_def)

lemma label_columns_length [simp]: "length (label_columns k) = 6"
  by (cases k) (simp_all, code_simp+)

lemma maxRows_eq [simp]: "maxRows k = 10922"
  by (simp add: maxRows_def maxParams_def)

function insert_batches :: "'w Storage \<Rightarrow> string \<Rightarrow> EntityKind \<Rightarrow> LabelRow list \<Rightarrow> ('w, unit) call" where
  "insert_batches ps sqlQuery k labels =
     (if length labels > 0 then
        (let rows = min (length labels) (maxRows k)
         in call_then
              (db_call (\<lambda>err. plain_error (checkIntegrityViolation err))
                 (ps_NamedExecLabels ps sqlQuery (take rows labels)))
              (\<lambda>_. insert_batches ps sqlQuery k (drop rows labels)))
      else returns ())"
  by pat_completeness auto
termination
  by (relation "measure (\<lambda>(ps, sqlQuery, k, labels). length labels)") auto

declare insert_batches.simps [simp del]

definition createLabels :: "'w Storage \<Rightarrow> LabelRow list \<Rightarrow> ('w, unit) call" where
  "createLabels ps labels =
     (case labels of
        [] \<Rightarrow> returns ()
      | pgLabel # _ \<Rightarrow>
          call_then (of_result (validateLabels labels)) (\<lambda>_.
            let k = lr_kind pgLabel; dbTags = label_columns k; table = LabelsTableName (kind_label k)
            in if length dbTags = 0 then fails (ErrorString (table @ '' insert: No fields to insert''))
               else insert_batches ps (insert_query table dbTags ''ON CONFLICT DO NOTHING;'') k labels))"

definition delete_segment :: "string \<Rightarrow> string \<times> string list \<Rightarrow> string" where
  "delete_segment referenceColumnName r =
     ''(key=? AND '' @ referenceColumnName @ ''=?'' @
       (if length (snd r) \<noteq> 0 then '' AND val IN (?)'' else '''') @ '')''"

definition delete_args :: "string \<Rightarrow> string \<times> string list \<Rightarrow> query_param list" where
  "delete_args entityID r =
     [StringParam (fst r), StringParam entityID] @ (if length (snd r) \<noteq> 0 then [StringsParam (snd r)] else [])"

definition delete_query :: "PostgresLabel \<Rightarrow> (string \<times> string list) list \<Rightarrow> string" where
  "delete_query label removed =
     ''DELETE FROM '' @ LabelsTableName label @ '' WHERE '' @
       strings_Join (map (delete_segment (ReferenceColumn label)) removed) '' OR ''"

definition deleteLabels :: "'w Storage \<Rightarrow> ObjectType \<Rightarrow> string \<Rightarrow> label_map \<Rightarrow> ('w, unit) call" where
  "deleteLabels ps objectType entityID removedLabels =
     (let removed = ps_order ps removedLabels
      in if length removed = 0 then returns ()
         else
           call_then (provideLabel ps objectType entityID '''' '''') (\<lambda>emptyLabel.
             let baseQuery = delete_query (kind_label (lr_kind emptyLabel)) removed;
                 args = concat (map (delete_args entityID) removed);
                 isExpansionRequired = list_ex (\<lambda>r. length (snd r) \<noteq> 0) removed
             in call_then
                  (of_result (if isExpansionRequired then db_In (ps_db ps) baseQuery args else Inr (baseQuery, args)))
                  (\<lambda>(baseQuery, args).
                call_then (db_call plain_error (db_Exec (ps_db ps) (db_Rebind (ps_db ps) baseQuery) args))
                  (\<lambda>_. returns ()))))"

text \<open>
  The changes are applied to no labels: what is added is inserted first, and what is removed is
  deleted after it.  A removed key without values stands for all its values.
\<close>

definition no_slices :: heap where
  "no_slices = \<lparr>arrays = (\<lambda>_. []), next_arr = 0\<rparr>"

definition updateLabels :: "'w Storage \<Rightarrow> ObjectType \<Rightarrow> string \<Rightarrow> LabelChange list \<Rightarrow> ('w, unit) call" where
  "updateLabels ps objectType entityID updateActions =
     (case ApplyLabelChangesToLabels (ps_spare ps) no_slices updateActions Map.empty of
        None \<Rightarrow> panics
      | Some st \<Rightarrow>
          (let addedLabels = labels_abs (hp st) (labelsToAdd st);
               removedLabels = labels_abs (hp st) (labelsToRemove st)
           in call_then (provide_labels ps objectType entityID (label_pairs (ps_order ps addedLabels))) (\<lambda>pgAddedLabels.
              call_then (createLabels ps pgAddedLabels) (\<lambda>_.
                deleteLabels ps objectType entityID removedLabels))))"

subsection \<open>The operations\<close>

text \<open>\<open>create\<close> and \<open>update\<close> of \<open>abstract.go\<close>.\<close>

definition create_row :: "'w Storage \<Rightarrow> string \<Rightarrow> Entity \<Rightarrow> ('w, Entity) call" where
  "create_row ps table argsDto =
     (let dbTags = map Tag (getDBTags (entityTags (pg_entity (entity_kind argsDto))) isAutoIncrementable)
      in if length dbTags = 0 then fails (ErrorString (table @ '' insert: No fields to insert''))
         else
           (let sqlQuery = insert_query table dbTags ''RETURNING *;''
            in call_then (db_call plain_error (ps_PrepareNamed ps sqlQuery)) (\<lambda>_.
               db_call (\<lambda>err. plain_error (checkIntegrityViolation (checkUniqueViolation err)))
                 (ps_StmtGet ps sqlQuery argsDto))))"

definition update_row :: "'w Storage \<Rightarrow> string \<Rightarrow> Entity \<Rightarrow> ('w, unit) call" where
  "update_row ps table dto =
     (let updateQueryString = updateQuery table (entityTags (pg_entity (entity_kind dto)))
      in if updateQueryString = '''' then returns ()
         else
           call_then
             (db_call (\<lambda>err. plain_error (checkIntegrityViolation (checkUniqueViolation err)))
                (ps_NamedExecEntity ps updateQueryString dto))
             (\<lambda>result. of_result (checkRowsAffected result)))"

definition ps_Create :: "'w Storage \<Rightarrow> Object \<Rightarrow> ('w, Object) call" where
  "ps_Create ps ob =
     call_then (of_result (convert (ps_codec ps) (ps_scheme ps) ob)) (\<lambda>pgEntity.
     call_then (of_result (provide (ps_scheme ps) (GetType ob))) (\<lambda>_.
     call_then (create_row ps (TableName (pg_entity (entity_kind pgEntity))) pgEntity) (\<lambda>result.
     call_then (of_result (case ToObject (ps_codec ps) 0 result of
          Inl err \<Rightarrow> Inl (ErrorString (''could not convert created pg entity to object: '' @ error_text err))
        | Inr createdObj \<Rightarrow> Inr (SetLabels (GetLabels ob) createdObj))) (\<lambda>createdObj.
     call_then (provide_labels ps (GetType ob) (GetID createdObj) (label_pairs (ps_order ps (GetLabels ob)))) (\<lambda>pgLabels.
     call_then (createLabels ps pgLabels) (\<lambda>_. returns createdObj))))))"

definition ps_query :: "'w Storage \<Rightarrow> EntityKind \<Rightarrow> Criterion list \<Rightarrow> pgQuery" where
  "ps_query ps k criteria = WithCriteria (ps_parsers ps) criteria (NewQuery (pg_entity k))"

definition ps_list :: "'w Storage \<Rightarrow> ObjectType \<Rightarrow> bool \<Rightarrow> bool \<Rightarrow> Criterion list \<Rightarrow> ('w, Object list) call" where
  "ps_list ps objType forUpdate withLabels criteria =
     call_then (of_result (provide (ps_scheme ps) objType)) (\<lambda>k.
       let q = ps_query ps k criteria;
           q = (if forUpdate then WithLock (db_is_Tx (ps_db ps)) q else q)
       in call_then (query_call plain_error
              (if withLabels then pq_List (ps_db ps) q else pq_ListNoLabels (ps_db ps) q)) (\<lambda>rows.
          of_result (rowsToList (ps_codec ps) rows)))"

definition ps_List :: "'w Storage \<Rightarrow> ObjectType \<Rightarrow> Criterion list \<Rightarrow> ('w, Object list) call" where
  "ps_List ps objType criteria = ps_list ps objType False True criteria"

definition ps_ListNoLabels :: "'w Storage \<Rightarrow> ObjectType \<Rightarrow> Criterion list \<Rightarrow> ('w, Object list) call" where
  "ps_ListNoLabels ps objType criteria = ps_list ps objType False False criteria"

definition first_of :: "Object list \<Rightarrow> ('w, Object) call" where
  "first_of result = (case result of [] \<Rightarrow> fails ErrNotFoundInStorage | ob # _ \<Rightarrow> returns ob)"

definition ps_Get :: "'w Storage \<Rightarrow> ObjectType \<Rightarrow> Criterion list \<Rightarrow> ('w, Object) call" where
  "ps_Get ps objectType criteria = call_then (ps_List ps objectType criteria) first_of"

definition ps_GetForUpdate :: "'w Storage \<Rightarrow> ObjectType \<Rightarrow> Criterion list \<Rightarrow> ('w, Object) call" where
  "ps_GetForUpdate ps objectType criteria = call_then (ps_list ps objectType True True criteria) first_of"

definition ps_QueryForList ::
  "'w Storage \<Rightarrow> ObjectType \<Rightarrow> NamedQuery \<Rightarrow> (string \<rightharpoonup> query_param) \<Rightarrow> ('w, Object list) call" where
  "ps_QueryForList ps objectType queryName queryParams =
     call_then (of_result (provide (ps_scheme ps) objectType)) (\<lambda>k.
     call_then (query_call plain_error
         (pq_Query (ps_db ps) queryName queryParams (NewQuery (pg_entity k)))) (\<lambda>rows.
       of_result (rowsToList (ps_codec ps) rows)))"

definition ps_Count :: "'w Storage \<Rightarrow> ObjectType \<Rightarrow> Criterion list \<Rightarrow> ('w, int) call" where
  "ps_Count ps objType criteria =
     call_then (of_result (provide (ps_scheme ps) objType)) (\<lambda>k.
       query_call plain_error (pq_Count (ps_db ps) (ps_query ps k criteria)))"

definition ps_CountLabelValues :: "'w Storage \<Rightarrow> ObjectType \<Rightarrow> Criterion list \<Rightarrow> ('w, int) call" where
  "ps_CountLabelValues ps objType criteria =
     call_then (of_result (provide (ps_scheme ps) objType)) (\<lambda>k.
       query_call plain_error (pq_CountLabelValues (ps_db ps) (ps_query ps k criteria)))"

text \<open>The translation of the error of a delete statement, which \<open>Delete\<close> and \<open>DeleteReturning\<close> share.\<close>

definition delete_error :: "'w Storage \<Rightarrow> ObjectType \<Rightarrow> db_error \<Rightarrow> error" where
  "delete_error ps objType err =
     (case err of
        PqError name class table message \<Rightarrow>
          if name = ''foreign_key_violation''
          then ErrForeignKeyViolation (ObjectType_String objType)
                 (case entityToObjectTypeConverter (ps_scheme ps) table of None \<Rightarrow> '''' | Some t \<Rightarrow> t)
          else plain_error err
      | OtherError e \<Rightarrow> e)"

definition ps_DeleteReturning :: "'w Storage \<Rightarrow> ObjectType \<Rightarrow> Criterion list \<Rightarrow> ('w, Object list) call" where
  "ps_DeleteReturning ps objType criteria =
     call_then (of_result (provide (ps_scheme ps) objType)) (\<lambda>k.
     call_then (query_call (delete_error ps objType)
         (pq_DeleteReturning (ps_db ps) [''*''] (ps_query ps k criteria))) (\<lambda>rows.
     call_then (of_result (rowsToList (ps_codec ps) rows)) (\<lambda>objectList.
       if length objectList < 1 then fails ErrNotFoundInStorage else returns objectList)))"

definition ps_Delete :: "'w Storage \<Rightarrow> ObjectType \<Rightarrow> Criterion list \<Rightarrow> ('w, unit) call" where
  "ps_Delete ps objType criteria =
     call_then (of_result (provide (ps_scheme ps) objType)) (\<lambda>k.
     call_then (query_call (delete_error ps objType)
         (pq_Delete (ps_db ps) (ps_query ps k criteria))) (\<lambda>result.
       of_result (checkRowsAffected result)))"

text \<open>The time goes into the caller's object too; the result has it as well.\<close>

definition ps_Update :: "'w Storage \<Rightarrow> Object \<Rightarrow> LabelChange list \<Rightarrow> ('w, Object) call" where
  "ps_Update ps ob labelChanges =
     call_then (time_now ps) (\<lambda>now.
       let ob = SetUpdatedAt now ob
       in call_then (of_result (convert (ps_codec ps) (ps_scheme ps) ob)) (\<lambda>e.
          call_then (update_row ps (TableName (pg_entity (entity_kind e))) e) (\<lambda>_.
          call_then (updateLabels ps (GetType ob) (entity_GetID e) labelChanges) (\<lambda>_.
          of_result (case ToObject (ps_codec ps) 0 e of
             Inl err \<Rightarrow> Inl (ErrorString (''could not convert updated pg entity for object: '' @ error_text err))
           | Inr result \<Rightarrow> Inr result)))))"

definition ps_UpdateLabels :: "'w Storage \<Rightarrow> ObjectType \<Rightarrow> string \<Rightarrow> LabelChange list \<Rightarrow> ('w, unit) call" where
  "ps_UpdateLabels ps objectType objectID labelChanges = updateLabels ps objectType objectID labelChanges"

text \<open>\<open>GetEntities\<close>, in the order in which the scheme's map is walked.\<close>

definition GetEntities :: "(string \<rightharpoonup> string) \<Rightarrow> string list \<Rightarrow> (string \<times> string) list" where
  "GetEntities tables order = concat (map (\<lambda>t. case tables t of None \<Rightarrow> [] | Some n \<Rightarrow> [(t, n)]) order)"

text \<open>The state that \<open>Ping\<close> reads: nothing is asked within an interval of the time it holds.\<close>

definition storageState_Get ::
  "'w Storage \<Rightarrow> int \<Rightarrow> int \<Rightarrow> ('w, unit) call" where
  "storageState_Get ps lastCheckTime storageCheckInterval =
     call_then (time_now ps) (\<lambda>now.
       if now - lastCheckTime < storageCheckInterval then returns ()
       else call_then (db_call plain_error (db_GetInt (ps_db ps) ''SELECT 1'' [])) (\<lambda>_. returns ()))"

end
