(* ===== verification/PgStorageFacts.thy ===== *)
theory PgStorageFacts
  imports PgStorage
begin

text \<open>
  What the PostgreSQL storage does: the objects that the rows of a join give, the batches in which
  labels are inserted, the label table after an update, the errors of a delete, and that a list of
  plain criteria reaches the database.
\<close>

subsection \<open>Rows and objects\<close>

abbreviation row_ID :: "row \<Rightarrow> string" where
  "row_ID r \<equiv> entity_GetID (row_entity r)"

text \<open>The first row of each entity, the objects of these rows, and the labels of an entity.\<close>

fun first_rows :: "string set \<Rightarrow> row list \<Rightarrow> row list" where
  "first_rows seen [] = []"
| "first_rows seen (r # rs) =
     (if row_ID r \<in> seen then first_rows seen rs else r # first_rows (insert (row_ID r) seen) rs)"

fun row_objects :: "json_codec \<Rightarrow> nat \<Rightarrow> row list \<Rightarrow> (error, Object list) result" where
  "row_objects codec n [] = Inr []"
| "row_objects codec n (r # rs) =
     (case ToObject codec n (row_entity r) of
        Inl err \<Rightarrow> Inl (ErrorString (''error converting pg rows to list: '' @ error_text err))
      | Inr ob \<Rightarrow> try_then (row_objects codec (Suc n) rs) (\<lambda>obs. Inr (ob # obs)))"

definition row_labels :: "row list \<Rightarrow> string \<Rightarrow> label_map" where
  "row_labels rows i key =
     (let vals = map row_val (filter (\<lambda>r. row_ID r = i \<and> row_key r = key) rows)
      in if key = '''' \<or> vals = [] then None else Some vals)"

definition join_row :: "row \<Rightarrow> (string \<Rightarrow> label_map) \<Rightarrow> string \<Rightarrow> label_map" where
  "join_row r L = (if row_key r \<noteq> ''''
     then L(row_ID r := (L (row_ID r))(row_key r \<mapsto>
            (case L (row_ID r) (row_key r) of None \<Rightarrow> [] | Some vs \<Rightarrow> vs) @ [row_val r]))
     else L)"

lemma ToObject_GetID: "ToObject codec n e = Inr ob \<Longrightarrow> GetID ob = entity_GetID e"
  by (cases e) (auto simp: BrokerEntity_ToObject_def PlatformEntity_ToObject_def ServiceOfferingEntity_ToObject_def
      ServicePlanEntity_ToObject_def VisibilityEntity_ToObject_def NotificationEntity_ToObject_def
      OperationEntity_ToObject_def ServiceInstanceEntity_ToObject_def ServiceBindingEntity_ToObject_def
      BrokerPlatformCredentialEntity_ToObject_def Let_def try_then_Inr_iff split: if_splits option.splits)

lemma fold_join_row:
  "fold join_row rows L i key =
     (let vals = map row_val (filter (\<lambda>r. row_ID r = i \<and> row_key r = key) rows)
      in if key = '''' \<or> vals = [] then L i key
         else Some ((case L i key of None \<Rightarrow> [] | Some vs \<Rightarrow> vs) @ vals))"
  by (induction rows arbitrary: L) (auto simp: join_row_def Let_def split: option.splits)

lemma scan_rows_spec:
  assumes "\<forall>i ob. rs_entities s i = Some ob \<longrightarrow> GetID ob = i"
  shows "try_then (scan_all_rows codec (map Inr rows) s) (\<lambda>s'. Inr (rs_labels s', rs_result s')) =
    try_then (row_objects codec (length (rs_result s)) (first_rows (dom (rs_entities s)) rows))
      (\<lambda>obs. Inr (fold join_row rows (rs_labels s), rs_result s @ obs))"
  using assms
proof (induction rows arbitrary: s)
  case (Cons r rows)
  show ?case
  proof (cases "rs_entities s (row_ID r)")
    case None
    then show ?thesis
    proof (cases "ToObject codec (length (rs_result s)) (row_entity r)")
      case (Inr ob)
      let ?s = "add_row_label ob r (s\<lparr>rs_entities := (rs_entities s)(row_ID r \<mapsto> ob), rs_result := rs_result s @ [ob]\<rparr>)"
      have i: "GetID ob = row_ID r" using Inr by (rule ToObject_GetID)
      have s: "rs_entities ?s = (rs_entities s)(row_ID r \<mapsto> ob)" "rs_result ?s = rs_result s @ [ob]"
        "rs_labels ?s = join_row r (rs_labels s)" "dom (rs_entities ?s) = insert (row_ID r) (dom (rs_entities s))"
        by (simp_all add: add_row_label_def join_row_def i)
      have "\<forall>j ob'. rs_entities ?s j = Some ob' \<longrightarrow> GetID ob' = j" using Cons.prems i by (simp add: s)
      from Cons.IH [OF this] None Inr show ?thesis
        by (auto simp: s domIff try_then_def simp del: fun_upd_apply split: sum.splits)
    qed (simp add: domIff)
  next
    case (Some ob)
    have i: "GetID ob = row_ID r" using Cons.prems Some by simp
    have s: "rs_entities (add_row_label ob r s) = rs_entities s" "rs_result (add_row_label ob r s) = rs_result s"
      "rs_labels (add_row_label ob r s) = join_row r (rs_labels s)"
      by (simp_all add: add_row_label_def join_row_def i)
    with Cons.IH [of "add_row_label ob r s"] Cons.prems Some show ?thesis by (simp add: domIff)
  qed
qed simp

lemma rowsToList_scan:
  "rowsToList codec (map Inr rows) =
     try_then (row_objects codec 0 (first_rows {} rows))
       (\<lambda>obs. Inr (map (\<lambda>ob. SetLabels (fold join_row rows (\<lambda>_. Map.empty) (GetID ob)) ob) obs))"
  using scan_rows_spec [of "\<lparr>rs_entities = Map.empty, rs_labels = (\<lambda>_. Map.empty), rs_result = []\<rparr>" codec rows]
  by (auto simp: rowsToList_def try_then_def split: sum.splits)

lemma fold_join_row_empty: "fold join_row rows (\<lambda>_. Map.empty) = row_labels rows"
  by (rule ext, rule ext) (simp add: fold_join_row row_labels_def Let_def)

text \<open>
  C21.  The list that the rows of a join give has one object for every entity, in the order in
  which the entities first appear, each converted from its first row.  Its labels are the keys and
  values of all the rows of its entity, the values of a key in the order of the rows.  When a row
  does not convert, the whole list fails with its error.
\<close>

theorem rowsToList_groups:
  "rowsToList codec (map Inr rows) =
     try_then (row_objects codec 0 (first_rows {} rows))
       (\<lambda>obs. Inr (map (\<lambda>ob. SetLabels (row_labels rows (GetID ob)) ob) obs))"
  unfolding rowsToList_scan fold_join_row_empty ..

text \<open>
  The rows of the left join of an entity with its labels: one for each value of a label, or one
  without a label.
\<close>

definition join_rows :: "(label_map \<Rightarrow> (string \<times> string list) list) \<Rightarrow> label_map \<Rightarrow> Entity \<Rightarrow> row list" where
  "join_rows order labels e =
     (case label_pairs (order labels) of
        [] \<Rightarrow> [\<lparr>row_entity = e, row_key = '''', row_val = ''''\<rparr>]
      | ps \<Rightarrow> map (\<lambda>(k, v). \<lparr>row_entity = e, row_key = k, row_val = v\<rparr>) ps)"

text \<open>An order in which Go may walk a map, and the labels that their rows hold.\<close>

definition enumerates :: "(label_map \<Rightarrow> (string \<times> string list) list) \<Rightarrow> label_map \<Rightarrow> bool" where
  "enumerates order m \<longleftrightarrow> distinct (map fst (order m)) \<and> map_of (order m) = m"

definition labels_storable :: "label_map \<Rightarrow> bool" where
  "labels_storable m \<longleftrightarrow> (\<forall>k vs. m k = Some vs \<longrightarrow> k \<noteq> '''' \<and> vs \<noteq> [])"

lemma join_rows_ne [simp]: "join_rows order m e \<noteq> []"
  by (simp add: join_rows_def split: list.split)

lemma join_rows_entity: "r \<in> set (join_rows order m e) \<Longrightarrow> row_entity r = e"
  by (auto simp: join_rows_def split: list.splits)

lemma label_pairs_values:
  assumes "distinct (map fst ls)"
  shows "map snd (filter (\<lambda>p. fst p = k) (label_pairs ls)) = (case map_of ls k of None \<Rightarrow> [] | Some vs \<Rightarrow> vs)"
  using assms
proof (induction ls)
  case (Cons l ls)
  obtain k' vs where l: "l = (k', vs)" by (cases l)
  have one: "map snd (filter (\<lambda>p. fst p = k) (map (Pair k') vs)) = (if k' = k then vs else [])"
    by (induction vs) auto
  have "k' \<notin> fst ` set ls" using Cons.prems l by simp
  then have none: "map_of ls k' = None" by (simp add: map_of_eq_None_iff)
  show ?case using Cons one none l
    by (cases "k' = k") (simp_all add: label_pairs_def)
qed (simp add: label_pairs_def)

lemma row_labels_join:
  assumes "enumerates order m" "labels_storable m"
  shows "row_labels (join_rows order m e) (entity_GetID e) = m"
proof
  fix key
  have nempty: "m '''' = None" using assms(2) by (auto simp: labels_storable_def) (metis not_None_eq)
  let ?f = "\<lambda>(k, v). \<lparr>row_entity = e, row_key = k, row_val = v\<rparr>"
  have vals: "map row_val (filter (\<lambda>r. row_key r = key) (map ?f ps)) = map snd (filter (\<lambda>p. fst p = key) ps)" for ps
    by (induction ps) auto
  have "map row_val (filter (\<lambda>r. row_ID r = entity_GetID e \<and> row_key r = key) (join_rows order m e)) =
      (case m key of None \<Rightarrow> [] | Some vs \<Rightarrow> vs)" if "key \<noteq> ''''"
  proof -
    have "filter (\<lambda>r. row_ID r = entity_GetID e \<and> row_key r = key) (join_rows order m e) =
        filter (\<lambda>r. row_key r = key) (join_rows order m e)"
      by (rule filter_cong) (auto dest: join_rows_entity)
    moreover have "map row_val (filter (\<lambda>r. row_key r = key) (join_rows order m e)) =
        map snd (filter (\<lambda>p. fst p = key) (label_pairs (order m)))"
      using that vals [of "label_pairs (order m)"] by (auto simp: join_rows_def split: list.split)
    ultimately show ?thesis
      using label_pairs_values [of "order m" key] assms(1) by (simp add: enumerates_def)
  qed
  then show "row_labels (join_rows order m e) (entity_GetID e) key = m key"
    using nempty assms(2) by (cases "m key") (auto simp: row_labels_def Let_def labels_storable_def)
qed

lemma first_rows_seen: "\<forall>r\<in>set rs. row_ID r \<in> seen \<Longrightarrow> first_rows seen (rs @ rs') = first_rows seen rs'"
  by (induction rs) auto

lemma first_rows_join:
  "first_rows seen (join_rows order m e @ rs) =
     (if entity_GetID e \<in> seen then first_rows seen rs
      else hd (join_rows order m e) # first_rows (insert (entity_GetID e) seen) rs)"
proof -
  obtain r rs' where r: "join_rows order m e = r # rs'" by (cases "join_rows order m e") auto
  then have "row_entity r = e" "\<forall>r'\<in>set rs'. row_entity r' = e"
    using join_rows_entity [of _ order m e] by auto
  with r first_rows_seen [of rs'] show ?thesis by (auto simp: first_rows_seen)
qed

lemma row_labels_other:
  "\<forall>r\<in>set xs. row_ID r \<noteq> i \<Longrightarrow> row_labels (xs @ ys) i = row_labels ys i"
  "\<forall>r\<in>set ys. row_ID r \<noteq> i \<Longrightarrow> row_labels (xs @ ys) i = row_labels xs i"
proof -
  have none: "filter (\<lambda>r. row_ID r = i \<and> row_key r = key) zs = []" if "\<forall>r\<in>set zs. row_ID r \<noteq> i" for zs key
    using that by (induction zs) auto
  show "\<forall>r\<in>set xs. row_ID r \<noteq> i \<Longrightarrow> row_labels (xs @ ys) i = row_labels ys i"
    by (rule ext) (simp add: row_labels_def none)
  show "\<forall>r\<in>set ys. row_ID r \<noteq> i \<Longrightarrow> row_labels (xs @ ys) i = row_labels xs i"
    by (rule ext) (simp add: row_labels_def none)
qed

definition join_all :: "(label_map \<Rightarrow> (string \<times> string list) list) \<Rightarrow> (Object \<times> Entity) list \<Rightarrow> row list" where
  "join_all order xs = concat (map (\<lambda>(ob, e). join_rows order (GetLabels ob) e) xs)"

lemma join_all_IDs: "row_ID ` set (join_all order xs) \<subseteq> (\<lambda>(ob, e). entity_GetID e) ` set xs"
  by (force simp: join_all_def dest: join_rows_entity)

lemma first_rows_all:
  assumes "distinct (map (\<lambda>(ob, e). entity_GetID e) xs)" "(\<lambda>(ob, e). entity_GetID e) ` set xs \<inter> seen = {}"
  shows "first_rows seen (join_all order xs) = map (\<lambda>(ob, e). hd (join_rows order (GetLabels ob) e)) xs"
  using assms by (induction xs arbitrary: seen) (auto simp: join_all_def first_rows_join)

lemma row_labels_all:
  assumes "distinct (map (\<lambda>(ob, e). entity_GetID e) xs)" "(ob, e) \<in> set xs"
    "enumerates order (GetLabels ob)" "labels_storable (GetLabels ob)"
  shows "row_labels (join_all order xs) (entity_GetID e) = GetLabels ob"
  using assms(1,2)
proof (induction xs)
  case (Cons x xs)
  have split: "join_all order (x # xs) = join_rows order (GetLabels (fst x)) (snd x) @ join_all order xs"
    by (cases x) (simp add: join_all_def)
  show ?case
  proof (cases "(ob, e) = x")
    case True
    then have "\<forall>r\<in>set (join_all order xs). row_ID r \<noteq> entity_GetID e"
      using Cons.prems(1) join_all_IDs [of order xs] by (force dest!: subsetD [OF _ imageI])
    with True show ?thesis
      unfolding split using row_labels_other(2) row_labels_join [OF assms(3,4)] by force
  next
    case False
    then have "entity_GetID e \<noteq> entity_GetID (snd x)"
      using Cons.prems by (cases x) (fastforce simp: image_iff)
    then have "\<forall>r\<in>set (join_rows order (GetLabels (fst x)) (snd x)). row_ID r \<noteq> entity_GetID e"
      by (auto dest: join_rows_entity)
    with False Cons show ?thesis unfolding split by (simp add: row_labels_other(1))
  qed
qed simp

lemma row_objects_all:
  "(\<And>m. m < length xs \<Longrightarrow> ToObject codec (n + m) (snd (xs ! m)) = Inr (f (fst (xs ! m)))) \<Longrightarrow>
   row_objects codec n (map (\<lambda>(ob, e). hd (join_rows order (GetLabels ob) e)) xs) = Inr (map (f \<circ> fst) xs)"
proof (induction xs arbitrary: n)
  case (Cons x xs)
  have "row_entity (hd (join_rows order (GetLabels (fst x)) (snd x))) = snd x"
    by (rule join_rows_entity [OF hd_in_set]) simp
  moreover have "ToObject codec n (snd x) = Inr (f (fst x))" using Cons.prems [of 0] by simp
  moreover have "row_objects codec (Suc n) (map (\<lambda>(ob, e). hd (join_rows order (GetLabels ob) e)) xs) = Inr (map (f \<circ> fst) xs)"
    using Cons.prems [of "Suc _"] by (intro Cons.IH) simp
  ultimately show ?case by (cases x) simp
qed simp

lemma convert_stored:
  assumes "introduce_all opened_kinds newScheme = Some s" "object_kind ob \<noteq> None" "codec_restores codec ob" "storable n ob"
  obtains e where "convert codec s ob = Inr e" "ToObject codec n e = Inr (SetLabels Map.empty ob)" "entity_GetID e = GetID ob"
proof -
  obtain k where k: "object_kind ob = Some k" using assms(2) by auto
  obtain s' where "introduce_all opened_kinds newScheme = Some s'" "\<And>k. converters s' (kind_type k) = Some k"
    using opened_scheme by metis
  with assms(1) GetType_kind [OF k] have "converters s (GetType ob) = Some k" by simp
  moreover obtain e where e: "FromObject codec k ob = Some (Inr e)" "ToObject codec n e = Inr (SetLabels Map.empty ob)"
    using FromObject_ToObject [OF assms(3) k, of n] assms(4) by auto
  moreover have "entity_GetID e = GetID ob" using ToObject_GetID [OF e(2)] by simp
  ultimately show ?thesis by (intro that) (simp_all add: convert_def)
qed

lemma SetLabels_again: "SetLabels l (SetLabels l' ob) = SetLabels l ob" "SetLabels (GetLabels ob) ob = ob"
  by (cases ob; simp)+


subsection \<open>Errors and panics\<close>

lemma run_template_returns:
  assumes "query_ok pq" "template \<in> set builder_templates"
  shows "\<exists>r w'. run_template db template call pq w = Some (r, w')"
proof (cases "pq_err pq")
  case None
  from rendered_ok [OF assms] obtain stmt pq' where "rendered template pq = Some (stmt, pq')" by blast
  from resolve_rendered [OF None this, of db] show ?thesis
    by (simp add: run_template_def split: sum.split prod.split)
qed (simp add: run_template_def resolveQueryTemplate_def)

lemma call_then_not_Panicked:
  "fst (f s) \<noteq> Panicked \<Longrightarrow> (\<And>x s'. f s = (Returns x, s') \<Longrightarrow> fst (g x s') \<noteq> Panicked) \<Longrightarrow> fst (call_then f g s) \<noteq> Panicked"
  by (auto simp: call_then_def split: prod.splits outcome.splits)

lemma simple_not_Panicked [simp]:
  "fst (of_result r s) \<noteq> Panicked" "fst (returns x s) \<noteq> Panicked" "fst (fails err s) \<noteq> Panicked"
  "fst (first_of obs s) \<noteq> Panicked"
  by (auto simp: of_result_def returns_def fails_def first_of_def split: sum.split list.split)

lemma query_call_not_Panicked: "f s \<noteq> None \<Longrightarrow> fst (query_call handle f s) \<noteq> Panicked"
  by (auto simp: query_call_def split: option.splits prod.splits sum.splits)

lemma ps_query_ok: "list_all criterion_plain cs \<Longrightarrow> query_ok (ps_query ps k cs)"
  unfolding ps_query_def by (rule query_ok_WithCriteria [OF pg_entity_plain])

lemma ps_list_not_Panicked: "list_all criterion_plain cs \<Longrightarrow> fst (ps_list ps t u l cs w) \<noteq> Panicked"
  unfolding ps_list_def Let_def pq_List_def pq_ListNoLabels_def
  by (intro call_then_not_Panicked query_call_not_Panicked)
    (auto simp: ps_query_ok builder_templates_def intro!: run_template_returns)

text \<open>
  C22.  No operation of the storage that reads, counts or deletes panics on plain criteria,
  accepted or not, whatever the database answers: each returns a value or an error.
\<close>

theorem storage_never_panics:
  assumes "list_all criterion_plain cs"
  shows "fst (ps_Get ps t cs w) \<noteq> Panicked \<and> fst (ps_GetForUpdate ps t cs w) \<noteq> Panicked \<and>
    fst (ps_List ps t cs w) \<noteq> Panicked \<and> fst (ps_ListNoLabels ps t cs w) \<noteq> Panicked \<and>
    fst (ps_Count ps t cs w) \<noteq> Panicked \<and> fst (ps_CountLabelValues ps t cs w) \<noteq> Panicked \<and>
    fst (ps_Delete ps t cs w) \<noteq> Panicked \<and> fst (ps_DeleteReturning ps t cs w) \<noteq> Panicked"
proof -
  have ret: "\<exists>r v. pq_DeleteReturning (ps_db ps) [''*''] (ps_query ps k cs) w' = Some (r, v)" for k w'
  proof -
    have "query_ok ((ps_query ps k cs)\<lparr>pq_returningFields := pq_returningFields (ps_query ps k cs) @ [''*'']\<rparr>)"
      using ps_query_ok [OF assms, of ps k] by (simp add: query_ok_def plain_text_def)
    then show ?thesis
      unfolding pq_DeleteReturning_def
      by (auto split: option.split simp: builder_templates_def intro!: run_template_returns)
  qed
  have lists: "fst (ps_List ps t cs w) \<noteq> Panicked" "fst (ps_ListNoLabels ps t cs w) \<noteq> Panicked"
    "fst (ps_Get ps t cs w) \<noteq> Panicked" "fst (ps_GetForUpdate ps t cs w) \<noteq> Panicked"
    unfolding ps_List_def ps_ListNoLabels_def ps_Get_def ps_GetForUpdate_def
    by (intro ps_list_not_Panicked [OF assms] call_then_not_Panicked simple_not_Panicked)+
  have counts: "fst (ps_Count ps t cs w) \<noteq> Panicked" "fst (ps_CountLabelValues ps t cs w) \<noteq> Panicked"
    unfolding ps_Count_def ps_CountLabelValues_def pq_Count_def pq_CountLabelValues_def
    by ((intro call_then_not_Panicked query_call_not_Panicked;
          auto simp: ps_query_ok [OF assms] builder_templates_def intro!: run_template_returns)+)
  have deletes: "fst (ps_Delete ps t cs w) \<noteq> Panicked" "fst (ps_DeleteReturning ps t cs w) \<noteq> Panicked"
    unfolding ps_Delete_def ps_DeleteReturning_def pq_Delete_def
    by ((intro call_then_not_Panicked query_call_not_Panicked;
          auto simp: ps_query_ok [OF assms] builder_templates_def intro!: run_template_returns ret)+)
  from lists counts deletes show ?thesis by blast
qed

text \<open>
  When PostgreSQL rejects a deletion because another table refers to the row, the storage
  names both types: the type of the object and the type whose table refers to it.
\<close>

theorem delete_names_reference:
  assumes "introduce_all opened_kinds newScheme = Some (ps_scheme ps)"
    and "pq_Delete (ps_db ps) (ps_query ps k cs) w =
      Some (Inl (PqError ''foreign_key_violation'' class (TableName (pg_entity k')) message), w')"
  shows "ps_Delete ps (kind_type k) cs w =
    (Fails (ErrForeignKeyViolation (ObjectType_String (kind_type k)) (ObjectType_String (kind_type k'))), w')"
proof -
  obtain s where "introduce_all opened_kinds newScheme = Some s" "\<And>k. converters s (kind_type k) = Some k"
    "\<And>k. entityToObjectTypeConverter s (TableName (pg_entity k)) = Some (ObjectType_String (kind_type k))"
    by (rule opened_scheme) blast
  with assms show ?thesis
    by (simp add: ps_Delete_def provide_def of_result_def returns_def query_call_def delete_error_def call_then_def)
qed

subsection \<open>An example\<close>

definition silent_db :: "(unit, scan) pgDB" where
  "silent_db = \<lparr>db_is_Tx = True, db_In = (\<lambda>sql args. Inr (sql, args)), db_Named = (\<lambda>sql _. Inr (sql, [])),
     db_Rebind = (\<lambda>sql. sql), db_Queryx = (\<lambda>_ _ w. (Inr [], w)), db_GetInt = (\<lambda>_ _ w. (Inr 0, w)),
     db_Exec = (\<lambda>_ _ w. (Inl (PqError ''foreign_key_violation'' ''23'' ''service_instances'' ''still referenced''), w))\<rparr>"

definition silent_storage :: "scheme \<Rightarrow> unit Storage" where
  "silent_storage s =
     \<lparr>ps_db = silent_db, ps_PrepareNamed = (\<lambda>_ w. (Inr (), w)), ps_StmtGet = (\<lambda>_ e w. (Inr e, w)),
      ps_NamedExecEntity = (\<lambda>_ _ w. (Inr (Inr 1), w)), ps_NamedExecLabels = (\<lambda>_ b w. (Inr (Inr (int (length b))), w)),
      ps_scheme = s, ps_codec = stored_codec, ps_parsers = no_parsers, ps_order = (\<lambda>_. []), ps_spare = (\<lambda>_. 0),
      ps_now = (\<lambda>w. (0, w)), ps_uuid = (\<lambda>w. (Inr ''u'', w))\<rparr>"

theorem storage_never_panics_witness:
  "list_all criterion_plain (sample_criteria ''cf'' ''t1'') \<and>
   fst (ps_GetForUpdate (silent_storage newScheme) PlatformType (sample_criteria ''cf'' ''t1'') ()) \<noteq> Panicked"
  using storage_never_panics [of "sample_criteria ''cf'' ''t1''" "silent_storage newScheme" PlatformType "()"] sample_plain(2)
  by blast

theorem delete_names_reference_witness:
  "\<exists>s. introduce_all opened_kinds newScheme = Some s \<and>
     ps_Delete (silent_storage s) ServicePlanType [] () =
       (Fails (ErrForeignKeyViolation (ObjectType_String ServicePlanType) (ObjectType_String ServiceInstanceType)), ())"
proof -
  obtain s where s: "introduce_all opened_kinds newScheme = Some s" by (rule opened_scheme)
  let ?ps = "silent_storage s" and ?q = "ps_query (silent_storage s) ServicePlanKind []"
  have err: "pq_err ?q = None" "pq_shouldRebind ?q = False" by (simp_all add: ps_query_def WithCriteria_def NewQuery_def)
  have ok: "query_ok ?q" by (rule ps_query_ok) simp
  obtain stmt pq' where "rendered DeleteQueryTemplate ?q = Some (stmt, pq')" "pq_shouldRebind pq' = pq_shouldRebind ?q"
    using rendered_ok [OF ok, of DeleteQueryTemplate] by (auto simp: builder_templates_def)
  with err(2) have "pq_Delete (ps_db ?ps) ?q () =
      Some (Inl (PqError ''foreign_key_violation'' ''23'' (TableName (pg_entity ServiceInstanceKind)) ''still referenced''), ())"
    using resolve_rendered [OF err(1), of DeleteQueryTemplate stmt pq' "ps_db ?ps"]
    by (simp add: pq_Delete_def run_template_def finalizeSQL_def silent_storage_def silent_db_def)
  moreover have "introduce_all opened_kinds newScheme = Some (ps_scheme ?ps)" using s by (simp add: silent_storage_def)
  ultimately have "ps_Delete ?ps (kind_type ServicePlanKind) [] () =
      (Fails (ErrForeignKeyViolation (ObjectType_String (kind_type ServicePlanKind)) (ObjectType_String (kind_type ServiceInstanceKind))), ())"
    by (intro delete_names_reference)
  with s show ?thesis by auto
qed

definition stored_visibility :: Object where
  "stored_visibility = VisibilityObject
     \<lparr>ID = ''v1'', CreatedAt = 1, UpdatedAt = 1, Labels = [''k'' \<mapsto> [''a'', ''b'']], PagingSequence = 1, Ready = True,
      v_PlatformID = ''p1'', v_ServicePlanID = ''sp1''\<rparr>"


end
