(* ===== verification/LabelChanges.thy ===== *)
theory LabelChanges
  imports Labels
begin

text \<open>
  What \<open>ApplyLabelChangesToLabels\<close> collects when it starts from no labels, as the storage calls it:
  the labels to add and the labels to remove, as functions of the changes alone.
\<close>

subsection \<open>The abstract collection\<close>

type_synonym collection = "label_map \<times> label_map \<times> label_map"

definition collect_add :: "string \<Rightarrow> string \<Rightarrow> collection \<Rightarrow> collection" where
  "collect_add k v s =
     (case s of (m, a, r) \<Rightarrow>
        if v \<in> set (spec_values m k) then s
        else (m(k \<mapsto> spec_values m k @ [v]), a(k \<mapsto> spec_values a k @ [v]), r))"

definition is_add :: "LabelChange \<Rightarrow> bool" where
  "is_add c = (lc_Operation c = AddLabelOperation \<or> lc_Operation c = AddLabelValuesOperation)"

definition is_remove :: "LabelChange \<Rightarrow> bool" where
  "is_remove c = (\<not> is_add c \<and> (lc_Operation c = RemoveLabelOperation \<or> lc_Operation c = RemoveLabelValuesOperation))"

definition added_values :: "LabelChange \<Rightarrow> string list" where
  "added_values c = (if lc_Values c = [] then [''''] else lc_Values c)"

definition collect_change :: "LabelChange \<Rightarrow> collection \<Rightarrow> collection" where
  "collect_change c s =
     (if is_add c then fold (collect_add (lc_Key c)) (added_values c) s
      else if is_remove c then
        (case s of (m, a, r) \<Rightarrow>
           if lc_Values c = [] then (m(lc_Key c := None), a, r(lc_Key c \<mapsto> []))
           else (fold (spec_remove (lc_Key c)) (lc_Values c) m, a,
                 r(lc_Key c \<mapsto> spec_values r (lc_Key c) @ lc_Values c)))
      else s)"

subsection \<open>Slices in separate arrays\<close>

datatype slot = Merged string | ToAdd string | ToRemove string

primrec slot_of :: "apply_state \<Rightarrow> slot \<Rightarrow> slice option" where
  "slot_of st (Merged k) = mergedLabels st k"
| "slot_of st (ToAdd k) = labelsToAdd st k"
| "slot_of st (ToRemove k) = labelsToRemove st k"

definition separate :: "heap \<Rightarrow> (slot \<Rightarrow> slice option) \<Rightarrow> bool" where
  "separate h f \<longleftrightarrow>
     (\<forall>x s. f x = Some s \<longrightarrow> slice_ok h s) \<and>
     (\<forall>x y s t a. f x = Some s \<longrightarrow> f y = Some t \<longrightarrow> slice_arr s = Some a \<longrightarrow> slice_arr t = Some a \<longrightarrow> x = y)"

definition slot_arr :: "(slot \<Rightarrow> slice option) \<Rightarrow> slot \<Rightarrow> nat option" where
  "slot_arr f x = (case f x of None \<Rightarrow> None | Some s \<Rightarrow> slice_arr s)"

definition slot_vals :: "heap \<Rightarrow> (slot \<Rightarrow> slice option) \<Rightarrow> slot \<Rightarrow> string list option" where
  "slot_vals h f x = map_option (slice_vals h) (f x)"

text \<open>Writing the slice of one slot, in its own array or in a new one, keeps the others.\<close>

lemma separate_write:
  assumes sep: "separate h f" and step: "heap_step (slot_arr f x) h h'"
    and new: "\<And>s. so = Some s \<Longrightarrow> slice_ok h' s \<and> (\<forall>a. slice_arr s = Some a \<longrightarrow> slot_arr f x = Some a \<or> next_arr h \<le> a)"
  shows "separate h' (f(x := so))"
    and "slot_vals h' (f(x := so)) = (slot_vals h f)(x := map_option (slice_vals h') so)"
proof -
  have other: "slot_arr f x = None \<or> slice_arr t \<noteq> slot_arr f x" if "f y = Some t" "y \<noteq> x" for y t
    using sep that by (auto simp: separate_def slot_arr_def split: option.splits)
  have ok: "slice_ok h t" if "f y = Some t" for y t using sep that by (simp add: separate_def)
  have "a < next_arr h" if "f y = Some t" "slice_arr t = Some a" for y t a
    using slice_ok_arr [OF ok [OF that(1)] that(2)] .
  then have disjoint: "slice_arr s \<noteq> Some a \<or> slice_arr t \<noteq> Some a" if "so = Some s" "f y = Some t" "y \<noteq> x" for s t y a
    using new [OF that(1)] other [OF that(2,3)] that(2) by (metis leD option.distinct(1))
  show "separate h' (f(x := so))"
    unfolding separate_def
  proof (intro conjI allI impI)
    fix y s assume "(f(x := so)) y = Some s"
    then show "slice_ok h' s" using new heap_step_slice_ok [OF step] ok by (auto split: if_splits)
  next
    fix y z s t a
    assume "(f(x := so)) y = Some s" "(f(x := so)) z = Some t" "slice_arr s = Some a" "slice_arr t = Some a"
    then show "y = z" using disjoint sep unfolding separate_def
      by (auto split: if_splits)
  qed
  show "slot_vals h' (f(x := so)) = (slot_vals h f)(x := map_option (slice_vals h') so)"
  proof
    fix y
    show "slot_vals h' (f(x := so)) y = ((slot_vals h f)(x := map_option (slice_vals h') so)) y"
      using heap_step_slice_vals [OF step ok other] ok by (cases "f y") (auto simp: slot_vals_def)
  qed
qed

lemma slot_of_update [simp]:
  "slot_of (st\<lparr>hp := h, mergedLabels := (mergedLabels st)(k := so)\<rparr>) = (slot_of st)(Merged k := so)"
  "slot_of (st\<lparr>hp := h, labelsToAdd := (labelsToAdd st)(k := so)\<rparr>) = (slot_of st)(ToAdd k := so)"
  "slot_of (st\<lparr>hp := h, labelsToRemove := (labelsToRemove st)(k := so)\<rparr>) = (slot_of st)(ToRemove k := so)"
  by (rule ext, rename_tac x, case_tac x, simp_all)+

definition separated :: "apply_state \<Rightarrow> bool" where
  "separated st = separate (hp st) (slot_of st)"

definition collected :: "apply_state \<Rightarrow> collection" where
  "collected st = (merged_abs st, labels_abs (hp st) (labelsToAdd st), labels_abs (hp st) (labelsToRemove st))"

lemma slot_vals_collected:
  "slot_vals (hp st) (slot_of st) (Merged k) = merged_abs st k"
  "slot_vals (hp st) (slot_of st) (ToAdd k) = labels_abs (hp st) (labelsToAdd st) k"
  "slot_vals (hp st) (slot_of st) (ToRemove k) = labels_abs (hp st) (labelsToRemove st) k"
  by (simp_all add: slot_vals_def labels_abs_def)

lemma append_slot:
  assumes "separate h f" "go_append spare h (case f x of None \<Rightarrow> NilSlice | Some s \<Rightarrow> s) vs = (h', s')"
  shows "separate h' (f(x \<mapsto> s'))"
    "slot_vals h' (f(x \<mapsto> s')) = (slot_vals h f)(x \<mapsto> (case slot_vals h f x of None \<Rightarrow> [] | Some us \<Rightarrow> us) @ vs)"
proof -
  let ?s = "case f x of None \<Rightarrow> NilSlice | Some s \<Rightarrow> s"
  have arr: "slice_arr ?s = slot_arr f x" by (simp add: slot_arr_def split: option.split)
  have "slice_ok h ?s" using assms(1) by (auto simp: separate_def split: option.split)
  note st = go_append_step [OF assms(2) this, unfolded arr]
  have new: "slice_ok h' s \<and> (\<forall>a. slice_arr s = Some a \<longrightarrow> slot_arr f x = Some a \<or> next_arr h \<le> a)" if "Some s' = Some s" for s
    using st(2,4) that by auto
  show "separate h' (f(x \<mapsto> s'))" by (rule separate_write(1) [OF assms(1) st(1) new])
  have "slice_vals h ?s = (case slot_vals h f x of None \<Rightarrow> [] | Some us \<Rightarrow> us)"
    by (simp add: slot_vals_def split: option.split)
  with separate_write(2) [OF assms(1) st(1), of "Some s'", OF new] st(3)
  show "slot_vals h' (f(x \<mapsto> s')) = (slot_vals h f)(x \<mapsto> (case slot_vals h f x of None \<Rightarrow> [] | Some us \<Rightarrow> us) @ vs)"
    by simp
qed

lemma hp_update:
  "hp (st\<lparr>hp := h, mergedLabels := m\<rparr>) = h" "hp (st\<lparr>hp := h, labelsToAdd := m\<rparr>) = h"
  "hp (st\<lparr>hp := h, labelsToRemove := m\<rparr>) = h"
  by simp_all

lemma slots_append:
  assumes "separated st"
  shows "go_append spare (hp st) (label_get (mergedLabels st) k) vs = (h', s') \<Longrightarrow>
      separated (st\<lparr>hp := h', mergedLabels := (mergedLabels st)(k \<mapsto> s')\<rparr>) \<and>
      slot_vals h' ((slot_of st)(Merged k \<mapsto> s')) =
        (slot_vals (hp st) (slot_of st))(Merged k \<mapsto> spec_values (merged_abs st) k @ vs)"
    "go_append spare (hp st) (label_get (labelsToAdd st) k) vs = (h', s') \<Longrightarrow>
      separated (st\<lparr>hp := h', labelsToAdd := (labelsToAdd st)(k \<mapsto> s')\<rparr>) \<and>
      slot_vals h' ((slot_of st)(ToAdd k \<mapsto> s')) =
        (slot_vals (hp st) (slot_of st))(ToAdd k \<mapsto> spec_values (labels_abs (hp st) (labelsToAdd st)) k @ vs)"
    "go_append spare (hp st) (label_get (labelsToRemove st) k) vs = (h', s') \<Longrightarrow>
      separated (st\<lparr>hp := h', labelsToRemove := (labelsToRemove st)(k \<mapsto> s')\<rparr>) \<and>
      slot_vals h' ((slot_of st)(ToRemove k \<mapsto> s')) =
        (slot_vals (hp st) (slot_of st))(ToRemove k \<mapsto> spec_values (labels_abs (hp st) (labelsToRemove st)) k @ vs)"
  using assms append_slot [of "hp st" "slot_of st" spare "Merged k" vs h' s']
    append_slot [of "hp st" "slot_of st" spare "ToAdd k" vs h' s']
    append_slot [of "hp st" "slot_of st" spare "ToRemove k" vs h' s']
  by (simp_all only: separated_def slot_of_update slot_vals_collected label_get_def slot_of.simps spec_values_def
      simp_thms hp_update)

text \<open>The collection from the values of the slots.\<close>

lemma collected_slots:
  assumes "slot_vals (hp st') (slot_of st') = g"
  shows "collected st' = (\<lambda>k. g (Merged k), \<lambda>k. g (ToAdd k), \<lambda>k. g (ToRemove k))"
  using assms by (auto simp: collected_def slot_vals_def labels_abs_def)

lemma addValue_collects:
  assumes "separated st"
  shows "separated (addValue spare c v st) \<and> collected (addValue spare c v st) = collect_add (lc_Key c) v (collected st)"
proof (cases "v \<in> set (spec_values (merged_abs st) (lc_Key c))")
  case True
  then show ?thesis using assms by (simp add: addValue_def slice_vals_label_get collect_add_def collected_def Let_def)
next
  case False
  let ?k = "lc_Key c"
  obtain h1 s1 where a1: "go_append spare (hp st) (label_get (labelsToAdd st) ?k) [v] = (h1, s1)" by fastforce
  define st1 where "st1 = st\<lparr>hp := h1, labelsToAdd := (labelsToAdd st)(?k \<mapsto> s1)\<rparr>"
  obtain h2 s2 where a2: "go_append spare h1 (label_get (mergedLabels st) ?k) [v] = (h2, s2)" by fastforce
  have one: "separated st1" "slot_vals (hp st1) (slot_of st1) =
      (slot_vals (hp st) (slot_of st))(ToAdd ?k \<mapsto> spec_values (labels_abs (hp st) (labelsToAdd st)) ?k @ [v])"
    using slots_append(2) [OF assms a1] by (simp_all add: st1_def)
  have m: "merged_abs st1 = merged_abs st"
    using fun_cong [OF one(2), of "Merged _"] by (auto simp: slot_vals_collected)
  let ?st = "st1\<lparr>hp := h2, mergedLabels := (mergedLabels st1)(?k \<mapsto> s2)\<rparr>"
  have two: "separated ?st \<and> slot_vals h2 ((slot_of st1)(Merged ?k \<mapsto> s2)) =
      (slot_vals (hp st1) (slot_of st1))(Merged ?k \<mapsto> spec_values (merged_abs st1) ?k @ [v])"
    by (rule slots_append(1) [OF one(1)]) (use a2 in \<open>simp add: st1_def\<close>)
  have eq: "addValue spare c v st = ?st"
    using False a1 a2 by (simp add: addValue_def slice_vals_label_get st1_def Let_def)
  have "collected ?st = collect_add ?k v (collected st)"
  proof -
    have "slot_vals (hp ?st) (slot_of ?st) =
        (slot_vals (hp st) (slot_of st))(ToAdd ?k \<mapsto> spec_values (labels_abs (hp st) (labelsToAdd st)) ?k @ [v],
           Merged ?k \<mapsto> spec_values (merged_abs st) ?k @ [v])"
      using two one(2) m by simp
    from collected_slots [OF this] False show ?thesis
      by (auto simp: collected_def collect_add_def slot_vals_collected)
  qed
  with two eq show ?thesis by simp
qed

subsection \<open>Removing\<close>

text \<open>What a removal leaves alone: the two collected maps, and every array but that of the merged label.\<close>

definition only_merged :: "string \<Rightarrow> apply_state \<Rightarrow> apply_state \<Rightarrow> bool" where
  "only_merged k st st' \<longleftrightarrow>
     labelsToAdd st' = labelsToAdd st \<and> labelsToRemove st' = labelsToRemove st \<and>
     (\<forall>k'. k' \<noteq> k \<longrightarrow> mergedLabels st' k' = mergedLabels st k') \<and>
     heap_step (slot_arr (slot_of st) (Merged k)) (hp st) (hp st') \<and>
     (\<forall>s. mergedLabels st' k = Some s \<longrightarrow> slice_ok (hp st') s \<and>
        (\<forall>a. slice_arr s = Some a \<longrightarrow> slot_arr (slot_of st) (Merged k) = Some a))"

lemma heap_step_refl [simp]: "heap_step x h h"
  by (simp add: heap_step_def)

lemma only_merged_refl: "separated st \<Longrightarrow> only_merged k st st"
  by (cases "mergedLabels st k") (auto simp: only_merged_def separated_def separate_def slot_arr_def dest: spec [of _ "Merged k"])

lemma only_merged_trans:
  assumes 1: "only_merged k st st1" and 2: "only_merged k st1 st2"
  shows "only_merged k st st2"
proof -
  have sub: "slot_arr (slot_of st1) (Merged k) = None \<or> slot_arr (slot_of st1) (Merged k) = slot_arr (slot_of st) (Merged k)"
    using 1 by (cases "slot_arr (slot_of st1) (Merged k)") (auto simp: only_merged_def slot_arr_def split: option.splits)
  have "heap_step (slot_arr (slot_of st) (Merged k)) (hp st) (hp st2)"
    using 1 2 sub unfolding only_merged_def heap_step_def by auto
  with 1 2 sub show ?thesis unfolding only_merged_def by auto
qed

lemma removeIndex_only:
  assumes "separated st" "removeIndex k i st = Some st'"
  shows "only_merged k st st'"
proof (cases "mergedLabels st k")
  case (Some s)
  then have ok: "slice_ok (hp st) s"
    using assms(1) by (auto simp: separated_def separate_def dest: spec [of _ "Merged k"])
  show ?thesis
  proof (cases s)
    case (Slice a n)
    then show ?thesis using Some ok assms(2)
      by (auto simp: removeIndex_def only_merged_def slot_arr_def heap_step_def Let_def split: if_splits)
  qed (use Some assms(2) in \<open>simp add: removeIndex_def\<close>)
qed (use assms(2) in \<open>simp add: removeIndex_def\<close>)

lemma only_merged_separated:
  assumes "separated st" "only_merged k st st'"
  shows "separated st'"
    and "collected st' = (merged_abs st', labels_abs (hp st) (labelsToAdd st), labels_abs (hp st) (labelsToRemove st))"
proof -
  let ?so = "mergedLabels st' k"
  have eq: "slot_of st' = (slot_of st)(Merged k := ?so)"
  proof
    fix x show "slot_of st' x = ((slot_of st)(Merged k := ?so)) x"
      using assms(2) by (cases x) (auto simp: only_merged_def)
  qed
  have step: "heap_step (slot_arr (slot_of st) (Merged k)) (hp st) (hp st')"
    using assms(2) by (simp add: only_merged_def)
  have new: "slice_ok (hp st') s \<and>
      (\<forall>a. slice_arr s = Some a \<longrightarrow> slot_arr (slot_of st) (Merged k) = Some a \<or> next_arr (hp st) \<le> a)"
    if "?so = Some s" for s using assms(2) that by (auto simp: only_merged_def)
  have sep: "separate (hp st) (slot_of st)" using assms(1) by (simp add: separated_def)
  show "separated st'"
    using separate_write(1) [OF sep step new] eq by (simp add: separated_def)
  have "slot_vals (hp st') (slot_of st') = (slot_vals (hp st) (slot_of st))(Merged k := map_option (slice_vals (hp st')) ?so)"
    using separate_write(2) [OF sep step, of ?so, OF new] eq by simp
  from fun_cong [OF this, of "ToAdd _"] fun_cong [OF this, of "ToRemove _"]
  show "collected st' = (merged_abs st', labels_abs (hp st) (labelsToAdd st), labels_abs (hp st) (labelsToRemove st))"
    by (auto simp: collected_def slot_vals_collected)
qed

lemma removeRange_only:
  "separated st \<Longrightarrow> removeRange k v s is st = Some st' \<Longrightarrow> only_merged k st st'"
proof (induction "is" arbitrary: st)
  case (Cons i "is")
  show ?case
  proof (cases "slice_vals (hp st) s ! i = v")
    case True
    with Cons.prems obtain st1 where st1: "removeIndex k i st = Some st1" "removeRange k v s is st1 = Some st'"
      by (auto split: option.splits)
    have 1: "only_merged k st st1" by (rule removeIndex_only [OF Cons.prems(1) st1(1)])
    from Cons.IH [OF only_merged_separated(1) [OF Cons.prems(1) 1] st1(2)] 1 show ?thesis
      by (rule only_merged_trans [rotated])
  next
    case False
    with Cons show ?thesis by simp
  qed
qed (simp add: only_merged_refl)

lemma removeValues_only:
  "separated st \<Longrightarrow> removeValues k vs st = Some st' \<Longrightarrow> only_merged k st st'"
proof (induction vs arbitrary: st)
  case (Cons v vs)
  then obtain st1 where st1: "removeValue k v st = Some st1" "removeValues k vs st1 = Some st'"
    by (auto split: option.splits)
  have 1: "only_merged k st st1"
    using st1(1) by (intro removeRange_only [OF Cons.prems(1)]) (simp add: removeValue_def Let_def)
  from Cons.IH [OF only_merged_separated(1) [OF Cons.prems(1) 1] st1(2)] 1 show ?case
    by (rule only_merged_trans [rotated])
qed (simp add: only_merged_refl)

lemma addValues_collect:
  "separated st \<Longrightarrow> separated (fold (addValue spare c) vs st) \<and>
     collected (fold (addValue spare c) vs st) = fold (collect_add (lc_Key c)) vs (collected st)"
  by (induction vs arbitrary: st) (simp_all add: addValue_collects)

lemma remove_all_collects:
  assumes "separated st"
  shows "separated (st\<lparr>labelsToRemove := (labelsToRemove st)(k \<mapsto> NilSlice), mergedLabels := (mergedLabels st)(k := None)\<rparr>) \<and>
    collected (st\<lparr>labelsToRemove := (labelsToRemove st)(k \<mapsto> NilSlice), mergedLabels := (mergedLabels st)(k := None)\<rparr>) =
      ((merged_abs st)(k := None), labels_abs (hp st) (labelsToAdd st), (labels_abs (hp st) (labelsToRemove st))(k \<mapsto> []))"
proof
  let ?st = "st\<lparr>labelsToRemove := (labelsToRemove st)(k \<mapsto> NilSlice), mergedLabels := (mergedLabels st)(k := None)\<rparr>"
  have eq: "slot_of ?st = (slot_of st)(ToRemove k \<mapsto> NilSlice, Merged k := None)"
    by (rule ext, rename_tac x, case_tac x) auto
  show "separated ?st"
    using assms unfolding separated_def separate_def eq by (auto split: if_splits)
  show "collected ?st =
      ((merged_abs st)(k := None), labels_abs (hp st) (labelsToAdd st), (labels_abs (hp st) (labelsToRemove st))(k \<mapsto> []))"
    by (auto simp: collected_def labels_abs_def)
qed

lemma applyChange_collects:
  assumes inv: "apply_inv Map.empty st" and sep: "separated st"
  shows "\<exists>st'. applyChange spare Map.empty c st = Some st' \<and> apply_inv Map.empty st' \<and> separated st' \<and>
    collected st' = collect_change c (collected st)"
proof -
  let ?k = "lc_Key c" and ?vs = "lc_Values c"
  from applyChange_refines [OF inv, of spare c] obtain st' where st': "applyChange spare Map.empty c st = Some st'"
    "apply_inv Map.empty st'" "merged_abs st' = spec_change c (merged_abs st)" by blast
  have "separated st' \<and> collected st' = collect_change c (collected st)"
  proof (cases "is_add c")
    case True
    then have "st' = fold (addValue spare c) (added_values c) st"
      using st'(1) by (auto simp: applyChange_def is_add_def added_values_def Let_def)
    with True addValues_collect [OF sep, of spare c "added_values c"] show ?thesis by (simp add: collect_change_def)
  next
    case add: False
    show ?thesis
    proof (cases "is_remove c")
      case False
      with add st'(1) have "st' = st" by (auto simp: applyChange_def is_remove_def is_add_def Let_def)
      with add False sep show ?thesis by (simp add: collect_change_def)
    next
      case rem: True
      show ?thesis
      proof (cases "?vs = []")
        case True
        with add rem st'(1) have "st' = st\<lparr>labelsToRemove := (labelsToRemove st)(?k \<mapsto> NilSlice),
            mergedLabels := (mergedLabels st)(?k := None)\<rparr>"
          by (auto simp: applyChange_def is_add_def is_remove_def Let_def)
        with remove_all_collects [OF sep, of ?k] add rem True show ?thesis
          by (simp add: collect_change_def collected_def)
      next
        case False
        obtain h1 s1 where a1: "go_append spare (hp st) (label_get (labelsToRemove st) ?k) ?vs = (h1, s1)" by fastforce
        define st1 where "st1 = st\<lparr>hp := h1, labelsToRemove := (labelsToRemove st)(?k \<mapsto> s1)\<rparr>"
        have one: "separated st1" "slot_vals (hp st1) (slot_of st1) = (slot_vals (hp st) (slot_of st))
            (ToRemove ?k \<mapsto> spec_values (labels_abs (hp st) (labelsToRemove st)) ?k @ ?vs)"
          using slots_append(3) [OF sep a1] by (simp_all add: st1_def)
        have run: "removeValues ?k ?vs st1 = Some st'"
          using add rem False st'(1) a1 by (auto simp: applyChange_def is_add_def is_remove_def Let_def st1_def)
        note only = only_merged_separated [OF one(1) removeValues_only [OF one(1) run]]
        have "spec_change c (merged_abs st) = fold (spec_remove ?k) ?vs (merged_abs st)"
          using add rem False by (auto simp: spec_change_def is_add_def is_remove_def)
        with only collected_slots [OF one(2)] st'(3) add rem False show ?thesis
          by (auto simp: collect_change_def collected_def slot_vals_collected)
      qed
    qed
  qed
  with st' show ?thesis by blast
qed

lemma applyChanges_collect:
  assumes "apply_inv Map.empty st" "separated st"
  shows "\<exists>st'. applyChanges spare Map.empty cs st = Some st' \<and> collected st' = fold collect_change cs (collected st)"
  using assms
proof (induction cs arbitrary: st)
  case (Cons c cs)
  from applyChange_collects [OF Cons.prems, of spare c] obtain st1
    where 1: "applyChange spare Map.empty c st = Some st1" "apply_inv Map.empty st1" "separated st1"
      "collected st1 = collect_change c (collected st)" by blast
  from Cons.IH [OF 1(2,3)] 1(1,4) show ?case by auto
qed simp

text \<open>
  From no labels, the function returns for every list of changes, and what it collects is the
  abstract collection.
\<close>

lemma ApplyLabelChanges_collects:
  "\<exists>st. ApplyLabelChangesToLabels spare h cs Map.empty = Some st \<and>
     collected st = fold collect_change cs (Map.empty, Map.empty, Map.empty)"
proof -
  let ?st = "\<lparr>hp = h, mergedLabels = Map.empty, labelsToAdd = Map.empty, labelsToRemove = Map.empty\<rparr>"
  have inv: "apply_inv Map.empty ?st" by (rule apply_inv_init) (simp add: labels_wf_def)
  have "slot_of ?st = (\<lambda>_. None)" by (rule ext, rename_tac x, case_tac x) auto
  then have "separated ?st" by (simp add: separated_def separate_def)
  from applyChanges_collect [OF inv this, of spare cs] show ?thesis
    by (auto simp: ApplyLabelChangesToLabels_def collected_def labels_abs_def)
qed

subsection \<open>Changes of different keys\<close>

abbreviation collected_at :: "string \<Rightarrow> collection \<Rightarrow> string list option \<times> string list option \<times> string list option" where
  "collected_at k s \<equiv> (fst s k, fst (snd s) k, snd (snd s) k)"

lemma spec_remove_other: "k \<noteq> k' \<Longrightarrow> spec_remove k v m k' = m k'"
  by (simp add: spec_remove_def Let_def)

lemma spec_removes_other: "k \<noteq> k' \<Longrightarrow> fold (spec_remove k) vs m k' = m k'"
  by (induction vs arbitrary: m) (simp_all add: spec_remove_other)

lemma spec_adds_other: "k \<noteq> k' \<Longrightarrow> fold (spec_add k) vs m k' = m k'"
  by (induction vs arbitrary: m) (simp_all add: spec_add_def)

lemma collect_adds_other: "k \<noteq> k' \<Longrightarrow> collected_at k' (fold (collect_add k) vs s) = collected_at k' s"
  by (induction vs arbitrary: s) (simp_all add: collect_add_def split: prod.split)

lemma collect_change_other: "lc_Key c \<noteq> k \<Longrightarrow> collected_at k (collect_change c s) = collected_at k s"
  using collect_adds_other [of "lc_Key c" k "added_values c" s]
  by (auto simp: collect_change_def spec_removes_other split: prod.splits)

lemma spec_change_other: "lc_Key c \<noteq> k \<Longrightarrow> spec_change c m k = m k"
  by (simp add: spec_change_def spec_removes_other spec_adds_other)

lemma collect_adds_same:
  assumes "m k = a k"
  shows "\<exists>m' a'. fold (collect_add k) vs (m, a, r) = (m', a', r) \<and> m' k = a' k \<and>
    set (spec_values a' k) = set (spec_values a k) \<union> set vs"
  using assms
proof (induction vs arbitrary: m a)
  case (Cons v vs)
  have eq: "spec_values m k = spec_values a k" using Cons.prems by (simp add: spec_values_def)
  define m1 where "m1 = (if v \<in> set (spec_values a k) then m else m(k \<mapsto> spec_values a k @ [v]))"
  define a1 where "a1 = (if v \<in> set (spec_values a k) then a else a(k \<mapsto> spec_values a k @ [v]))"
  have 1: "collect_add k v (m, a, r) = (m1, a1, r)" "m1 k = a1 k"
    using Cons.prems eq by (simp_all add: collect_add_def m1_def a1_def)
  have "set (spec_values a1 k) = insert v (set (spec_values a k))"
    by (auto simp: a1_def) (auto simp: spec_values_def)
  with Cons.IH [of m1 a1] 1 show ?case by simp
qed auto

lemma spec_adds_set: "set (spec_values (fold (spec_add k) vs m) k) = set (spec_values m k) \<union> set vs"
proof (induction vs arbitrary: m)
  case (Cons v vs)
  have "set (spec_values (spec_add k v m) k) = insert v (set (spec_values m k))"
    by (auto simp: spec_add_def spec_values_def)
  with Cons show ?case by simp
qed simp

lemma spec_remove_values: "spec_values (spec_remove k v m) k = filter (\<lambda>x. x \<noteq> v) (spec_values m k)"
proof (cases "v \<in> set (spec_values m k)")
  case True
  then have "spec_values (spec_remove k v m) k =
      (let ys = filter (\<lambda>x. x \<noteq> v) (spec_values m k) in if ys = [] then [] else ys)"
    by (simp add: spec_remove_def Let_def) (simp add: spec_values_def)
  then show ?thesis by (simp add: Let_def)
next
  case False
  then have "filter (\<lambda>x. x \<noteq> v) (spec_values m k) = spec_values m k" by (auto intro!: filter_True)
  with False show ?thesis by (simp add: spec_remove_def)
qed

lemma spec_removes_set: "set (spec_values (fold (spec_remove k) vs m) k) = set (spec_values m k) - set vs"
  by (induction vs arbitrary: m) (auto simp: spec_remove_values)

definition removes :: "label_map \<Rightarrow> string \<Rightarrow> string \<Rightarrow> bool" where
  "removes r k v = (case r k of None \<Rightarrow> False | Some vs \<Rightarrow> vs = [] \<or> v \<in> set vs)"

lemma fold_collect_other:
  "k \<notin> lc_Key ` set cs \<Longrightarrow> collected_at k (fold collect_change cs s) = collected_at k s"
  using collect_change_other by (induction cs arbitrary: s) auto

lemma fold_spec_other: "k \<notin> lc_Key ` set cs \<Longrightarrow> fold spec_change cs m k = m k"
  by (induction cs arbitrary: m) (auto simp: spec_change_other)

lemma spec_values_cong: "m k = m' k \<Longrightarrow> spec_values m k = spec_values m' k"
  by (simp add: spec_values_def)

lemma collect_one:
  assumes "collected_at (lc_Key c) s = (None, None, None)"
  shows "(v \<in> set (spec_values m (lc_Key c)) \<or> v \<in> set (spec_values (fst (snd (collect_change c s))) (lc_Key c))) \<and>
     \<not> removes (snd (snd (collect_change c s))) (lc_Key c) v \<longleftrightarrow>
     v \<in> set (spec_values (spec_change c m) (lc_Key c))"
proof -
  let ?k = "lc_Key c"
  obtain m0 a0 r0 where s: "s = (m0, a0, r0)" by (cases s)
  with assms have none: "m0 ?k = None" "a0 ?k = None" "r0 ?k = None" by simp_all
  show ?thesis
  proof (cases "is_add c")
    case True
    obtain m' a' where "fold (collect_add ?k) (added_values c) (m0, a0, r0) = (m', a', r0)"
      "set (spec_values a' ?k) = set (added_values c)"
      using collect_adds_same [of m0 ?k a0 "added_values c" r0] none by (auto simp: spec_values_def)
    moreover have "set (spec_values (spec_change c m) ?k) = set (spec_values m ?k) \<union> set (added_values c)"
      using True by (simp add: spec_change_def is_add_def added_values_def spec_adds_set)
    ultimately show ?thesis
      using True s none by (simp add: collect_change_def removes_def)
  next
    case False
    show ?thesis
    proof (cases "is_remove c")
      case rem: True
      show ?thesis
      proof (cases "lc_Values c = []")
        case True
        have "spec_values (m(?k := None)) ?k = []" by (simp add: spec_values_def)
        with rem False True s none show ?thesis
          by (simp add: collect_change_def removes_def spec_change_def is_add_def is_remove_def)
      next
        case vs: False
        have "spec_values a0 ?k = []" "spec_values r0 ?k = []" using none by (simp_all add: spec_values_def)
        with rem False vs s none show ?thesis
          by (simp add: collect_change_def removes_def spec_change_def is_add_def is_remove_def spec_removes_set)
      qed
    next
      case no: False
      have "spec_values a0 ?k = []" using none by (simp add: spec_values_def)
      with no False s none show ?thesis
        by (simp add: collect_change_def removes_def spec_change_def is_add_def is_remove_def)
    qed
  qed
qed

text \<open>
  When no two changes have the same key, adding what was collected to be added and then removing
  what was collected to be removed has the effect of the changes.
\<close>

lemma collect_distinct:
  assumes "distinct (map lc_Key cs)" "fold collect_change cs (Map.empty, Map.empty, Map.empty) = (m', a, r)"
  shows "(v \<in> set (spec_values m k) \<or> v \<in> set (spec_values a k)) \<and> \<not> removes r k v \<longleftrightarrow>
    v \<in> set (spec_values (fold spec_change cs m) k)"
proof (cases "k \<in> lc_Key ` set cs")
  case True
  then obtain c cs1 cs2 where cs: "cs = cs1 @ c # cs2" "k = lc_Key c" by (metis image_iff split_list)
  let ?s = "fold collect_change cs1 (Map.empty, Map.empty, Map.empty)"
  have out: "k \<notin> lc_Key ` set cs1" "k \<notin> lc_Key ` set cs2" using assms(1) cs by auto
  have none: "collected_at k ?s = (None, None, None)" using fold_collect_other [OF out(1)] by simp
  have "collected_at k (m', a, r) = collected_at k (collect_change c ?s)"
    using fold_collect_other [OF out(2), of "collect_change c ?s"] assms(2) cs(1) by simp
  then have a: "spec_values a k = spec_values (fst (snd (collect_change c ?s))) k"
    "removes r k v = removes (snd (snd (collect_change c ?s))) k v"
    by (auto simp: spec_values_def removes_def)
  have "fold spec_change cs m k = spec_change c (fold spec_change cs1 m) k"
    using fold_spec_other [OF out(2)] cs(1) by simp
  then have m: "spec_values (fold spec_change cs m) k = spec_values (spec_change c (fold spec_change cs1 m)) k"
    by (rule spec_values_cong)
  have m1: "spec_values (fold spec_change cs1 m) k = spec_values m k"
    by (rule spec_values_cong) (rule fold_spec_other [OF out(1)])
  from collect_one [where c = c and s = ?s and v = v and m = "fold spec_change cs1 m"] none a m m1 cs(2) show ?thesis by simp
next
  case False
  from fold_collect_other [OF this, of "(Map.empty, Map.empty, Map.empty)"] assms(2)
  have "a k = None" "r k = None" by simp_all
  with fold_spec_other [OF False, of m] show ?thesis by (simp add: removes_def spec_values_def)
qed

end
