(* ===== verification/PgLabels.thy ===== *)
theory PgLabels
  imports PgStorageFacts LabelChanges
begin

text \<open>
  The labels of the PostgreSQL storage: when a list of labels is accepted, the batches in which it
  is inserted, and the label table after the labels of an object are updated.
\<close>

subsection \<open>Validation\<close>

abbreviation label_pair :: "LabelRow \<Rightarrow> string \<times> string" where
  "label_pair l \<equiv> (ns_String (lr_Key l), ns_String (lr_Val l))"

lemma validate_labels_ok:
  "validate_labels ls pairs = Inr () \<longleftrightarrow>
     distinct (map label_pair ls) \<and> (\<forall>l\<in>set ls. snd (label_pair l) \<notin> set (spec_values pairs (fst (label_pair l))))"
proof (induction ls arbitrary: pairs)
  case (Cons l ls)
  let ?k = "fst (label_pair l)" and ?v = "snd (label_pair l)"
  have sv: "(case pairs ?k of None \<Rightarrow> [] | Some vs \<Rightarrow> vs) = spec_values pairs ?k" by (simp add: spec_values_def)
  show ?case
  proof (cases "?v \<in> set (spec_values pairs ?k)")
    case True
    then have "pairs ?k \<noteq> None" by (cases "pairs ?k") (simp_all add: spec_values_def)
    with True sv show ?thesis by (auto simp: validate_label_def Let_def)
  next
    case False
    define p where "p = pairs(?k \<mapsto> spec_values pairs ?k @ [?v])"
    have v: "validate_label l pairs = Inr p"
      using False by (cases "pairs ?k") (simp_all add: validate_label_def spec_values_def Let_def p_def)
    have q: "snd q \<notin> set (spec_values p (fst q)) \<longleftrightarrow> q \<noteq> label_pair l \<and> snd q \<notin> set (spec_values pairs (fst q))" for q
      by (cases q) (auto simp: spec_values_def p_def)
    have "validate_labels (l # ls) pairs = Inr () \<longleftrightarrow> distinct (map label_pair ls) \<and>
        (\<forall>l'\<in>set ls. label_pair l' \<noteq> label_pair l \<and> snd (label_pair l') \<notin> set (spec_values pairs (fst (label_pair l'))))"
      using v Cons.IH [of p] q [of "label_pair _"] by (simp only: validate_labels.simps try_then_simps)
    also have "\<dots> \<longleftrightarrow> distinct (map label_pair (l # ls)) \<and>
        (\<forall>l'\<in>set (l # ls). snd (label_pair l') \<notin> set (spec_values pairs (fst (label_pair l'))))"
      using False by (auto simp: image_iff)
    finally show ?thesis .
  qed
qed simp

lemma validateLabels_ok: "validateLabels ls = Inr () \<longleftrightarrow> distinct (map label_pair ls)"
  by (auto simp: validateLabels_def validate_labels_ok spec_values_def)

subsection \<open>Batches\<close>

abbreviation label_insert :: "EntityKind \<Rightarrow> string" where
  "label_insert k \<equiv> insert_query (LabelsTableName (kind_label k)) (label_columns k) ''ON CONFLICT DO NOTHING;''"

definition insert_batch :: "'w Storage \<Rightarrow> string \<Rightarrow> LabelRow list \<Rightarrow> ('w, (error, int) result) call" where
  "insert_batch ps sqlQuery b =
     db_call (\<lambda>err. plain_error (checkIntegrityViolation err)) (ps_NamedExecLabels ps sqlQuery b)"

fun run_batches :: "'w Storage \<Rightarrow> string \<Rightarrow> LabelRow list list \<Rightarrow> ('w, unit) call" where
  "run_batches ps sqlQuery [] = returns ()"
| "run_batches ps sqlQuery (b # bs) = call_then (insert_batch ps sqlQuery b) (\<lambda>_. run_batches ps sqlQuery bs)"

text \<open>The labels in pieces of a given length, the last one shorter.\<close>

function chunks :: "nat \<Rightarrow> 'a list \<Rightarrow> 'a list list" where
  "chunks n xs = (if xs = [] then [] else take (Suc n) xs # chunks n (drop (Suc n) xs))"
  by pat_completeness auto
termination
  by (relation "measure (\<lambda>(n, xs). length xs)") auto

declare chunks.simps [simp del]

lemma chunks_concat: "concat (chunks n xs) = xs"
  by (induction n xs rule: chunks.induct) (simp add: chunks.simps)

lemma chunks_length: "b \<in> set (chunks n xs) \<Longrightarrow> b \<noteq> [] \<and> length b \<le> Suc n"
  by (induction n xs rule: chunks.induct) (subst (asm) (2) chunks.simps, auto split: if_splits)

lemma chunks_count: "length (chunks n xs) = (length xs + n) div Suc n"
proof (induction n xs rule: chunks.induct)
  case (1 n xs)
  show ?case
  proof (cases "xs = []")
    case False
    have "length (chunks n xs) = Suc ((length xs - Suc n + n) div Suc n)"
      using 1 False by (simp add: chunks.simps [of n xs])
    moreover have "Suc ((length xs - Suc n + n) div Suc n) = (length xs + n) div Suc n"
    proof (cases "length xs \<le> Suc n")
      case True
      have "(length xs + n) div Suc n = 1"
        using True False by (intro div_nat_eqI) (cases xs; simp)+
      with True show ?thesis by simp
    next
      case False
      then have "length xs + n = (length xs - Suc n + n) + Suc n" by simp
      then show ?thesis by (simp only: div_add_self2)
    qed
    ultimately show ?thesis by simp
  qed (simp add: chunks.simps)
qed

lemma label_columns_ne [simp]: "label_columns k \<noteq> []"
  using label_columns_length [of k] by (metis list.size(3) zero_neq_numeral)

lemma insert_batches_chunks: "insert_batches ps sqlQuery k labels = run_batches ps sqlQuery (chunks 10921 labels)"
proof (induction ps sqlQuery k labels rule: insert_batches.induct)
  case (1 ps sqlQuery k labels)
  show ?case
  proof (cases "labels = []")
    case False
    let ?n = "min (length labels) (maxRows k)"
    have pieces: "take ?n labels = take (Suc 10921) labels" "drop ?n labels = drop (Suc 10921) labels"
      by (simp_all add: min_def)
    have "insert_batches ps sqlQuery k (drop ?n labels) = run_batches ps sqlQuery (chunks 10921 (drop ?n labels))"
      using 1 False by simp
    with False show ?thesis
      unfolding insert_batches.simps [of ps sqlQuery k labels] chunks.simps [of 10921 labels] pieces Let_def
      by (simp add: insert_batch_def)
  qed (simp add: insert_batches.simps chunks.simps)
qed

text \<open>
  C20.  Labels with different keys or values are inserted completely and in their order, in as few
  statements as the limit allows: none of the statements is empty, none has more than the 65535
  parameters that PostgreSQL accepts, and a statement that fails is the last one.
\<close>

theorem createLabels_batches:
  assumes "labels \<noteq> []" "distinct (map label_pair labels)"
  shows "\<exists>bs. concat bs = labels \<and>
    (\<forall>b\<in>set bs. b \<noteq> [] \<and> length b * length (label_columns (lr_kind (hd labels))) \<le> 65535) \<and>
    length bs = (length labels + 10921) div 10922 \<and>
    createLabels ps labels = run_batches ps (label_insert (lr_kind (hd labels))) bs"
proof (intro exI conjI)
  show "concat (chunks 10921 labels) = labels" by (rule chunks_concat)
  show "\<forall>b\<in>set (chunks 10921 labels). b \<noteq> [] \<and> length b * length (label_columns (lr_kind (hd labels))) \<le> 65535"
    using chunks_length [of _ 10921 labels] by fastforce
  show "length (chunks 10921 labels) = (length labels + 10921) div 10922" by (simp add: chunks_count)
  have "validateLabels labels = Inr ()" using assms(2) by (simp add: validateLabels_ok)
  then show "createLabels ps labels = run_batches ps (label_insert (lr_kind (hd labels))) (chunks 10921 labels)"
    using assms(1)
    by (cases labels) (auto simp: createLabels_def of_result_def returns_def insert_batches_chunks Let_def call_then_def fun_eq_iff)
qed

subsection \<open>The label table\<close>

text \<open>
  What PostgreSQL does with the two kinds of statements, for the rows \<open>T w\<close> of a label table, each
  a reference, a key and a value.  An insert adds the rows of its batch; a delete, after the
  expansion of its arguments, removes the rows of the entity whose key is in a segment with no values
  or with the value of the row.  The clock and the generator of identifiers leave the rows alone.
\<close>

definition expanded :: "'w Storage \<Rightarrow> EntityKind \<Rightarrow> string \<Rightarrow> (string \<times> string list) list \<Rightarrow> (error, string \<times> query_param list) result" where
  "expanded ps k i removed =
     (if list_ex (\<lambda>r. length (snd r) \<noteq> 0) removed
      then db_In (ps_db ps) (delete_query (kind_label k) removed) (concat (map (delete_args i) removed))
      else Inr (delete_query (kind_label k) removed, concat (map (delete_args i) removed)))"

abbreviation label_row :: "LabelRow \<Rightarrow> string \<times> string \<times> string" where
  "label_row l \<equiv> (ns_String (lr_Ref l), ns_String (lr_Key l), ns_String (lr_Val l))"

definition in_segments :: "(string \<times> string list) list \<Rightarrow> string \<Rightarrow> string \<Rightarrow> bool" where
  "in_segments removed key val \<longleftrightarrow> (\<exists>vs. (key, vs) \<in> set removed \<and> (vs = [] \<or> val \<in> set vs))"

definition keeps_label_table :: "'w Storage \<Rightarrow> EntityKind \<Rightarrow> ('w \<Rightarrow> (string \<times> string \<times> string) set) \<Rightarrow> bool" where
  "keeps_label_table ps k T \<longleftrightarrow>
     (\<forall>b w n w'. ps_NamedExecLabels ps (label_insert k) b w = (Inr n, w') \<longrightarrow> T w' = T w \<union> label_row ` set b) \<and>
     (\<forall>i removed sql args w n w'. removed \<noteq> [] \<longrightarrow> expanded ps k i removed = Inr (sql, args) \<longrightarrow>
        db_Exec (ps_db ps) (db_Rebind (ps_db ps) sql) args w = (Inr n, w') \<longrightarrow>
        T w' = {(j, key, val) \<in> T w. \<not> (j = i \<and> in_segments removed key val)}) \<and>
     (\<forall>w. T (snd (ps_now ps w)) = T w) \<and> (\<forall>w. T (snd (ps_uuid ps w)) = T w)"

lemma table_delete:
  "keeps_label_table ps k T \<Longrightarrow> removed \<noteq> [] \<Longrightarrow> expanded ps k i removed = Inr (sql, args) \<Longrightarrow>
   db_Exec (ps_db ps) (db_Rebind (ps_db ps) sql) args w = (Inr n, w') \<Longrightarrow>
   T w' = {(j, key, val) \<in> T w. \<not> (j = i \<and> in_segments removed key val)}"
  unfolding keeps_label_table_def by (elim conjE allE) (erule (1) impE)+

lemma db_call_Returns: "db_call handle f w = (Returns x, w') \<longleftrightarrow> f w = (Inr x, w')"
  by (auto simp: db_call_def split: prod.splits sum.splits)

lemma of_result_Returns: "of_result r w = (Returns x, w') \<longleftrightarrow> r = Inr x \<and> w' = w"
  by (auto simp: of_result_def returns_def fails_def split: sum.splits)

lemma returns_Returns: "returns x w = (Returns y, w') \<longleftrightarrow> y = x \<and> w' = w"
  by (auto simp: returns_def)

lemmas call_Returns = db_call_Returns of_result_Returns returns_Returns

lemma run_batches_table:
  assumes "keeps_label_table ps k T"
  shows "run_batches ps (label_insert k) bs w = (Returns (), w') \<Longrightarrow> T w' = T w \<union> label_row ` set (concat bs)"
proof (induction bs arbitrary: w)
  case (Cons b bs)
  from Cons.prems obtain n w1 where
    1: "ps_NamedExecLabels ps (label_insert k) b w = (Inr n, w1)" "run_batches ps (label_insert k) bs w1 = (Returns (), w')"
    by (auto simp: insert_batch_def call_Returns elim: call_then_ReturnsE)
  have "T w1 = T w \<union> label_row ` set b" using assms 1(1) by (simp add: keeps_label_table_def)
  with Cons.IH [OF 1(2)] show ?case by auto
qed (simp add: returns_def)

lemma createLabels_table:
  assumes "keeps_label_table ps k T" "\<forall>l\<in>set labels. lr_kind l = k" "createLabels ps labels w = (Returns (), w')"
  shows "T w' = T w \<union> label_row ` set labels"
proof (cases labels)
  case Nil
  with assms(3) show ?thesis by (simp add: createLabels_def returns_def)
next
  case (Cons l ls)
  with assms(2,3) have "run_batches ps (label_insert k) (chunks 10921 labels) w = (Returns (), w')"
    by (auto simp: createLabels_def Let_def insert_batches_chunks call_Returns elim!: call_then_ReturnsE)
  from run_batches_table [OF assms(1) this] show ?thesis by (simp add: chunks_concat)
qed

lemma provideLabel_table:
  assumes "keeps_label_table ps k T" "provide (ps_scheme ps) t = Inr k" "provideLabel ps t i key val w = (Returns l, w')"
  shows "T w' = T w \<and> lr_kind l = k \<and> label_row l = (i, key, val)"
proof -
  from assms(2,3) obtain now j w1 where l: "l = NewLabel k now j i key val" "ps_uuid ps w = (Inr j, w1)" "ps_now ps w1 = (now, w')"
    by (auto simp: provideLabel_def call_Returns time_now_def split: prod.splits sum.splits elim!: call_then_ReturnsE)
  have "T w1 = T w" "T w' = T w1"
    using assms(1) l(2,3) unfolding keeps_label_table_def by (metis snd_conv)+
  with l(1) show ?thesis by (simp add: NewLabel_def)
qed

lemma provide_labels_table:
  assumes "keeps_label_table ps k T" "provide (ps_scheme ps) t = Inr k"
  shows "provide_labels ps t i ps' w = (Returns ls, w') \<Longrightarrow>
    T w' = T w \<and> (\<forall>l\<in>set ls. lr_kind l = k) \<and> label_row ` set ls = (\<lambda>(key, val). (i, key, val)) ` set ps'"
proof (induction ps' arbitrary: w ls)
  case (Cons p ps')
  obtain key val where p: "p = (key, val)" by (cases p)
  from Cons.prems p obtain l ls' w1 where 1: "provideLabel ps t i key val w = (Returns l, w1)"
    "provide_labels ps t i ps' w1 = (Returns ls', w')" "ls = l # ls'"
    by (auto simp: call_Returns elim!: call_then_ReturnsE)
  from provideLabel_table [OF assms 1(1)] Cons.IH [OF 1(2)] 1(3) p show ?case by auto
qed (simp add: returns_def)

lemma deleteLabels_table:
  assumes "keeps_label_table ps k T" "provide (ps_scheme ps) t = Inr k" "deleteLabels ps t i r w = (Returns (), w')"
  shows "T w' = {(j, key, val) \<in> T w. \<not> (j = i \<and> in_segments (ps_order ps r) key val)}"
proof (cases "ps_order ps r = []")
  case True
  with assms(3) show ?thesis by (auto simp: deleteLabels_def returns_def in_segments_def)
next
  case False
  let ?E = "\<lambda>l. expanded ps (lr_kind l) i (ps_order ps r)"
  have eq: "deleteLabels ps t i r = call_then (provideLabel ps t i '''' '''') (\<lambda>l. call_then (of_result (?E l))
      (\<lambda>(sql, args). call_then (db_call plain_error (db_Exec (ps_db ps) (db_Rebind (ps_db ps) sql) args)) (\<lambda>_. returns ())))"
    using False by (simp add: deleteLabels_def Let_def expanded_def)
  from assms(3) obtain l w1 sql args n where 1: "provideLabel ps t i '''' '''' w = (Returns l, w1)"
    "?E l = Inr (sql, args)" "db_Exec (ps_db ps) (db_Rebind (ps_db ps) sql) args w1 = (Inr n, w')"
    unfolding eq by (elim call_then_ReturnsE) (simp add: call_Returns split_beta, elim call_then_ReturnsE conjE, force simp: call_Returns)
  from provideLabel_table [OF assms(1,2) 1(1)] have p: "T w1 = T w" "lr_kind l = k" by simp_all
  from table_delete [OF assms(1) False 1(2) [unfolded p(2)] 1(3)] show ?thesis unfolding p(1) .
qed

text \<open>What an update collects, in an order in which Go may walk the two maps.\<close>

abbreviation collected_labels :: "LabelChange list \<Rightarrow> collection" where
  "collected_labels changes \<equiv> fold collect_change changes (Map.empty, Map.empty, Map.empty)"

definition walks :: "'w Storage \<Rightarrow> LabelChange list \<Rightarrow> bool" where
  "walks ps changes = (case collected_labels changes of (m, a, r) \<Rightarrow> enumerates (ps_order ps) a \<and> enumerates (ps_order ps) r)"

lemma enumerates_iff: "enumerates order m \<Longrightarrow> (key, vs) \<in> set (order m) \<longleftrightarrow> m key = Some vs"
  using map_of_eq_Some_iff [of "order m" key vs] by (auto simp: enumerates_def)

lemma label_pairs_enumerates:
  assumes "enumerates order m"
  shows "(key, val) \<in> set (label_pairs (order m)) \<longleftrightarrow> val \<in> set (spec_values m key)"
proof -
  have "(key, val) \<in> set (label_pairs (order m)) \<longleftrightarrow> (\<exists>vs. (key, vs) \<in> set (order m) \<and> val \<in> set vs)"
    by (force simp: label_pairs_def)
  also have "\<dots> \<longleftrightarrow> (\<exists>vs. m key = Some vs \<and> val \<in> set vs)"
    using enumerates_iff [OF assms] by simp
  finally show ?thesis by (auto simp: spec_values_def split: option.split)
qed

lemma in_segments_enumerates:
  assumes "enumerates order r"
  shows "in_segments (order r) key val \<longleftrightarrow> removes r key val"
  using enumerates_iff [OF assms, of key]
  by (auto simp: in_segments_def removes_def split: option.split)

lemma updateLabels_collected:
  assumes "collected_labels changes = (m, a, r)"
  shows "updateLabels ps t i changes =
    call_then (provide_labels ps t i (label_pairs (ps_order ps a))) (\<lambda>ls.
    call_then (createLabels ps ls) (\<lambda>_. deleteLabels ps t i r))"
  using ApplyLabelChanges_collects [of "ps_spare ps" no_slices changes] assms
  by (auto simp: updateLabels_def collected_def Let_def)

lemma updateLabels_table:
  assumes T: "keeps_label_table ps k T" "provide (ps_scheme ps) t = Inr k" and order: "walks ps changes"
    and c: "collected_labels changes = (m, a, r)" and run: "updateLabels ps t i changes w = (Returns (), w')"
  shows "(j, key, val) \<in> T w' \<longleftrightarrow>
    ((j, key, val) \<in> T w \<or> j = i \<and> val \<in> set (spec_values a key)) \<and> \<not> (j = i \<and> removes r key val)"
proof -
  from run obtain ls w1 w2 where 1:
    "provide_labels ps t i (label_pairs (ps_order ps a)) w = (Returns ls, w1)"
    "createLabels ps ls w1 = (Returns (), w2)" "deleteLabels ps t i r w2 = (Returns (), w')"
    unfolding updateLabels_collected [OF c] by (auto elim!: call_then_ReturnsE)
  note ls = provide_labels_table [OF T 1(1)]
  have "T w2 = T w1 \<union> label_row ` set ls" by (rule createLabels_table [OF T(1) _ 1(2)]) (use ls in blast)
  moreover have "(j, key, val) \<in> label_row ` set ls \<longleftrightarrow> j = i \<and> val \<in> set (spec_values a key)"
    using ls label_pairs_enumerates [of "ps_order ps" a key val] order c by (auto simp: walks_def)
  ultimately show ?thesis
    using deleteLabels_table [OF T 1(3)] in_segments_enumerates [of "ps_order ps" r key val] ls order c
    by (auto simp: walks_def)
qed


definition replace_label :: "string \<Rightarrow> string \<Rightarrow> LabelChange list" where
  "replace_label key v =
     [\<lparr>lc_Operation = RemoveLabelOperation, lc_Key = key, lc_Values = []\<rparr>,
      \<lparr>lc_Operation = AddLabelOperation, lc_Key = key, lc_Values = [v]\<rparr>]"

lemmas change_defs =
  collect_change_def is_add_def is_remove_def collect_add_def added_values_def spec_change_def spec_add_def spec_values_def
  RemoveLabelOperation_def RemoveLabelValuesOperation_def AddLabelOperation_def AddLabelValuesOperation_def

lemma collected_replace: "collected_labels (replace_label key v) = ([key \<mapsto> [v]], [key \<mapsto> [v]], [key \<mapsto> []])"
  by (simp add: replace_label_def change_defs)


subsection \<open>An example\<close>

text \<open>A storage whose state is the list of the rows of its label tables.\<close>

type_synonym label_rows = "(string \<times> string \<times> string) list"

fun decode_args :: "query_param list \<Rightarrow> (string \<times> string \<times> string list) list" where
  "decode_args (StringParam key # StringParam i # StringsParam vs # rest) = (i, key, vs) # decode_args rest"
| "decode_args (StringParam key # StringParam i # rest) = (i, key, []) # decode_args rest"
| "decode_args _ = []"

definition segment_hits :: "string \<times> string \<times> string \<Rightarrow> string \<times> string \<times> string list \<Rightarrow> bool" where
  "segment_hits r seg =
     (case (r, seg) of ((j, key, val), (i, k, vs)) \<Rightarrow> i = j \<and> k = key \<and> (vs = [] \<or> val \<in> set vs))"

definition rows_db :: "(label_rows, scan) pgDB" where
  "rows_db = \<lparr>db_is_Tx = False, db_In = (\<lambda>sql args. Inr (sql, args)), db_Named = (\<lambda>sql _. Inr (sql, [])),
     db_Rebind = (\<lambda>sql. sql), db_Queryx = (\<lambda>_ _ w. (Inr [], w)), db_GetInt = (\<lambda>_ _ w. (Inr 0, w)),
     db_Exec = (\<lambda>_ args w. (Inr (Inr 1), filter (\<lambda>r. \<not> list_ex (segment_hits r) (decode_args args)) w))\<rparr>"

definition rows_storage :: "scheme \<Rightarrow> json_codec \<Rightarrow> go_parsers \<Rightarrow> label_rows Storage" where
  "rows_storage s codec parsers =
     \<lparr>ps_db = rows_db, ps_PrepareNamed = (\<lambda>_ w. (Inr (), w)), ps_StmtGet = (\<lambda>_ e w. (Inr e, w)),
      ps_NamedExecEntity = (\<lambda>_ _ w. (Inr (Inr 1), w)),
      ps_NamedExecLabels = (\<lambda>_ b w. (Inr (Inr (int (length b))), w @ map label_row b)),
      ps_scheme = s, ps_codec = codec, ps_parsers = parsers,
      ps_order = (\<lambda>m. concat (map (\<lambda>k. case m k of None \<Rightarrow> [] | Some vs \<Rightarrow> [(k, vs)]) [''k'', ''l''])),
      ps_spare = (\<lambda>_. 0), ps_now = (\<lambda>w. (0, w)), ps_uuid = (\<lambda>w. (Inr ''u'', w))\<rparr>"

lemma decode_delete_args: "decode_args (concat (map (delete_args i) removed)) = map (Pair i) removed"
proof (induction removed)
  case (Cons r removed)
  obtain key vs where r: "r = (key, vs)" by (cases r)
  let ?rest = "concat (map (delete_args i) removed)"
  have rest: "?rest = [] \<or> (\<exists>x xs. ?rest = StringParam x # xs)" 
    by (cases removed) (simp_all add: delete_args_def)
  have one: "xs = [] \<or> (\<exists>x ys. xs = StringParam x # ys) \<Longrightarrow>
      decode_args (StringParam key # StringParam i # xs) = (i, key, []) # decode_args xs" for xs
    by (elim disjE exE) simp_all
  show ?case using Cons r one [OF rest] by (simp add: delete_args_def [of i "(key, vs)"])
qed simp

lemma decoded_segments:
  "list_ex (segment_hits (j, key, val)) (map (Pair i) removed) \<longleftrightarrow> j = i \<and> in_segments removed key val"
  by (induction removed) (auto simp: in_segments_def segment_hits_def)

lemma rows_storage_table: "keeps_label_table (rows_storage s codec parsers) k set"
proof -
  have args: "expanded (rows_storage s codec parsers) k i removed = Inr (sql, args) \<Longrightarrow>
      args = concat (map (delete_args i) removed)" for i removed sql args
    by (auto simp: expanded_def rows_storage_def rows_db_def split: if_splits)
  have "w' = filter (\<lambda>r. \<not> list_ex (segment_hits r) (map (Pair i) removed)) w"
    if "expanded (rows_storage s codec parsers) k i removed = Inr (sql, args)"
      "db_Exec (ps_db (rows_storage s codec parsers)) sql' args w = (Inr n, w')" for i removed sql sql' args w n w'
    using that(2) unfolding args [OF that(1)]
    by (simp add: rows_storage_def rows_db_def decode_delete_args)
  then have "set w' = {(j, key, val) \<in> set w. \<not> (j = i \<and> in_segments removed key val)}"
    if "expanded (rows_storage s codec parsers) k i removed = Inr (sql, args)"
      "db_Exec (ps_db (rows_storage s codec parsers)) sql' args w = (Inr n, w')" for i removed sql sql' args w n w'
    using that by (fastforce simp: decoded_segments)
  moreover have "set w' = set w \<union> label_row ` set b"
    if "ps_NamedExecLabels (rows_storage s codec parsers) sql b w = (Inr n, w')" for sql b w n w'
    using that by (auto simp: rows_storage_def)
  ultimately show ?thesis
    unfolding keeps_label_table_def by (simp add: rows_storage_def)
qed

definition sample_changes :: "LabelChange list" where
  "sample_changes =
     [\<lparr>lc_Operation = RemoveLabelOperation, lc_Key = ''k'', lc_Values = []\<rparr>,
      \<lparr>lc_Operation = AddLabelValuesOperation, lc_Key = ''l'', lc_Values = [''c'']\<rparr>]"

definition sample_rows :: label_rows where
  "sample_rows = [(''b1'', ''k'', ''a''), (''b2'', ''k'', ''a'')]"

lemma collected_sample: "collected_labels sample_changes = ([''l'' \<mapsto> [''c'']], [''l'' \<mapsto> [''c'']], [''k'' \<mapsto> []])"
  by (simp add: sample_changes_def change_defs)

lemma sample_walks:
  "walks (rows_storage s codec parsers) sample_changes" "walks (rows_storage s codec parsers) (replace_label ''k'' ''v'')"
  by (auto simp: walks_def collected_replace collected_sample enumerates_def rows_storage_def)

lemma sample_runs:
  assumes "provide s ServiceBrokerType = Inr BrokerKind"
  shows "updateLabels (rows_storage s codec parsers) ServiceBrokerType ''b1'' sample_changes sample_rows =
      (Returns (), [(''b2'', ''k'', ''a''), (''b1'', ''l'', ''c'')])"
    "updateLabels (rows_storage s codec parsers) ServiceBrokerType ''b1'' (replace_label ''k'' ''v'') sample_rows =
      (Returns (), [(''b2'', ''k'', ''a'')])"
  using assms
  by (simp_all add: updateLabels_collected [OF collected_sample] updateLabels_collected [OF collected_replace]
      rows_storage_def rows_db_def provideLabel_def of_result_def call_then_def returns_def time_now_def createLabels_def
      validateLabels_def validate_label_def deleteLabels_def db_call_def insert_batches.simps label_pairs_def
      NewLabel_def sample_rows_def delete_args_def segment_hits_def Let_def)

lemma opened_broker: "\<exists>s. provide s ServiceBrokerType = Inr BrokerKind"
  by (rule exI [of _ "newScheme\<lparr>converters := [ServiceBrokerType \<mapsto> BrokerKind]\<rparr>"]) (simp add: provide_def)



theorem createLabels_batches_witness:
  "\<exists>bs. concat bs = [NewLabel BrokerKind 0 ''u'' ''b1'' ''k'' ''v''] \<and> length bs = 1 \<and>
     createLabels (rows_storage newScheme stored_codec no_parsers) [NewLabel BrokerKind 0 ''u'' ''b1'' ''k'' ''v''] =
       run_batches (rows_storage newScheme stored_codec no_parsers) (label_insert BrokerKind) bs"
  using createLabels_batches [of "[NewLabel BrokerKind 0 ''u'' ''b1'' ''k'' ''v'']" "rows_storage newScheme stored_codec no_parsers"]
  by (auto simp: NewLabel_def)

end
