(* ===== verification/Scheduler.thy ===== *)
theory Scheduler
  imports TransactionalRepository Calls
begin

text \<open>
  The scheduler of operations (\<open>src/operations/scheduler.go\<close>): it stores the operation of a request,
  runs the request's action at once or in a goroutine of a bounded pool, and writes the outcome into
  the operation and the resource.

  The repository, the repository inside a transaction, the clock and the formatting verbs are
  parameters.  \<open>s_wait\<close> is the wait before an orphan mitigation: it says whether the server is shutting
  down.  An action changes the operation of its context, so it returns it.  The list of jobs holds the
  goroutines that have been started and not yet run; \<open>workers\<close> is the number of elements in the channel
  of the pool.  A nil dereference or a failed type assertion is \<open>Panicked\<close>, and the state then is that
  at the time of the panic.
\<close>

subsection \<open>The scheduler\<close>

type_synonym 's storageAction = "Operation \<Rightarrow> 's \<Rightarrow> (error, Object option) result option \<times> Operation \<times> 's"

record formats =
  fmt_Operation :: "Operation \<Rightarrow> string"
  fmt_Errors :: "http_error option \<Rightarrow> string"
  fmt_Duration :: "int \<Rightarrow> string"

record 's scheduler =
  s_repository :: "'s raw_repository"
  s_storage :: "'s raw_repository"
  s_db :: "'s tx_db"
  s_now :: "'s \<Rightarrow> int \<times> 's"
  s_wait :: "bool \<Rightarrow> 's \<Rightarrow> bool \<times> 's"
  s_poolSize :: nat
  actionTimeout :: int
  reconciliationOperationTimeout :: int
  cascadeOrphanMitigationTimeout :: int
  s_fmt :: formats

record 's sched =
  sc_world :: 's
  workers :: nat
  jobs :: "(Operation \<times> 's storageAction) list"

definition repo_call :: "('s \<Rightarrow> (error, 'a) result \<times> 's) \<Rightarrow> ('s sched, 'a) call" where
  "repo_call f s =
     (case f (sc_world s) of
        (Inl err, w) \<Rightarrow> (Fails err, s\<lparr>sc_world := w\<rparr>)
      | (Inr x, w) \<Rightarrow> (Returns x, s\<lparr>sc_world := w\<rparr>))"

definition time_Now :: "'s scheduler \<Rightarrow> ('s sched, int) call" where
  "time_Now S s = (case s_now S (sc_world s) of (t, w) \<Rightarrow> (Returns t, s\<lparr>sc_world := w\<rparr>))"

definition s_InTransaction :: "'s scheduler \<Rightarrow> ('s sched, 'a) call \<Rightarrow> ('s sched, 'a) call" where
  "s_InTransaction S f s =
     (let rollback = (\<lambda>s. s\<lparr>sc_world := snd (Rollback (s_db S) (sc_world s))\<rparr>)
      in case Beginx (s_db S) (sc_world s) of
           (Some err, w) \<Rightarrow> (Fails err, s\<lparr>sc_world := w\<rparr>)
         | (None, w) \<Rightarrow>
             (case f (s\<lparr>sc_world := w\<rparr>) of
                (Panicked, s') \<Rightarrow> (Panicked, rollback s')
              | (Fails err, s') \<Rightarrow> (Fails err, rollback s')
              | (Returns x, s') \<Rightarrow>
                  (case Commit (s_db S) (sc_world s') of
                     (Some err, w) \<Rightarrow> (Fails err, rollback (s'\<lparr>sc_world := w\<rparr>))
                   | (None, w) \<Rightarrow> (Returns x, s'\<lparr>sc_world := w\<rparr>))))"

definition handled :: "error \<Rightarrow> string \<Rightarrow> error" where
  "handled err entity = the (HandleStorageError (Some err) entity)"

definition by_id :: "string \<Rightarrow> Criterion list" where
  "by_id i = [ByField EqualsOperator ''id'' [i]]"

subsection \<open>Writing the outcome\<close>

text \<open>
  The operation as it was changed in memory comes back, with the error of the update if it failed.
\<close>

definition updateOperationState :: "'s raw_repository \<Rightarrow> Operation \<Rightarrow> OperationState \<Rightarrow> error option \<Rightarrow>
    's sched \<Rightarrow> (error option \<times> Operation) \<times> 's sched" where
  "updateOperationState R operation state opErr s =
     (let operation = operation\<lparr>op_State := state\<rparr>;
          operation = (case opErr of
            None \<Rightarrow> operation
          | Some err \<Rightarrow> if op_Errors operation = None then operation\<lparr>op_Errors := Some (ToHTTPError err)\<rparr> else operation)
      in case r_Update R (OperationObject operation) [] [] (sc_world s) of
           (Inl err, w) \<Rightarrow>
             ((if err = ErrNotFoundInStorage then None
               else Some (ErrorString (''failed to update state of operation with id '' @ ID operation @ '' to '' @ state
                      @ '': '' @ error_text err)), operation), s\<lparr>sc_world := w\<rparr>)
         | (Inr _, w) \<Rightarrow> ((None, operation), s\<lparr>sc_world := w\<rparr>))"

definition updateResource :: "'s raw_repository \<Rightarrow> Object option \<Rightarrow> (Object \<Rightarrow> Object) \<Rightarrow> ('s sched, Object) call" where
  "updateResource R objectAfterAction updateFunc =
     (case objectAfterAction of
        None \<Rightarrow> panics
      | Some obj \<Rightarrow>
          on_error (repo_call (r_Update R (updateFunc obj) [] []))
            (\<lambda>_. fails (ErrorString (''failed to update object with type '' @ ObjectType_String (GetType obj) @ '' and id '' @ GetID obj))))"

definition fetchAndUpdateResource :: "'s raw_repository \<Rightarrow> string \<Rightarrow> ObjectType \<Rightarrow> (Object \<Rightarrow> Object) \<Rightarrow> ('s sched, unit) call" where
  "fetchAndUpdateResource R objectID objectType updateFunc s =
     (case repo_call (r_Get R objectType (by_id objectID)) s of
        (Fails err, s') \<Rightarrow>
          if err = ErrNotFoundInStorage then (Returns (), s')
          else (Fails (ErrorString (''failed to retrieve object of type '' @ ObjectType_String objectType @ '' with id ''
                 @ objectID @ '':'' @ error_text err)), s')
      | (Returns obj, s') \<Rightarrow> call_then (updateResource R (Some obj) updateFunc) (\<lambda>_. returns ()) s'
      | (Panicked, s') \<Rightarrow> (Panicked, s'))"

primrec updateTransitiveResources :: "'s raw_repository \<Rightarrow> RelatedType list \<Rightarrow> (Object \<Rightarrow> Object) \<Rightarrow> ('s sched, unit) call" where
  "updateTransitiveResources R [] updateFunc = returns ()"
| "updateTransitiveResources R (trR # resources) updateFunc =
     call_then
       (if rel_OperationType trR = CREATE then fetchAndUpdateResource R (rel_ID trR) (rel_Type trR) updateFunc else returns ())
       (\<lambda>_. updateTransitiveResources R resources updateFunc)"

definition refetchOperation :: "'s scheduler \<Rightarrow> Operation \<Rightarrow> ('s sched, Operation) call" where
  "refetchOperation S operation s =
     (case repo_call (r_Get (s_repository S) OperationType (by_id (ID operation))) s of
        (Fails opErr, s') \<Rightarrow>
          let opErr = ErrorString (''failed to re-fetch currently executing operation with id '' @ ID operation
                @ '' from db: '' @ error_text opErr)
          in (case updateOperationState (s_repository S) operation FAILED (Some opErr) s' of
                ((Some err, _), s'') \<Rightarrow>
                  (Fails (ErrorString (''setting new operation state due to err '' @ error_text opErr @ '' failed: ''
                     @ error_text err)), s'')
              | ((None, _), s'') \<Rightarrow> (Fails opErr, s''))
      | (Returns (OperationObject opObject), s') \<Rightarrow> (Returns opObject, s')
      | (Returns _, s') \<Rightarrow> (Panicked, s')
      | (Panicked, s') \<Rightarrow> (Panicked, s'))"

definition addOperationToContext :: "'s scheduler \<Rightarrow> Operation \<Rightarrow> ('s sched, unit) call" where
  "addOperationToContext S operation s =
     (case opcontext_Set operation of
        Inl setCtxErr \<Rightarrow>
          let setCtxErr = ErrorString (''failed to set operation in job context: '' @ error_text setCtxErr)
          in (case updateOperationState (s_repository S) operation FAILED (Some setCtxErr) s of
                ((Some err, _), s') \<Rightarrow>
                  (Fails (ErrorString (''setting new operation state due to err '' @ error_text setCtxErr @ '' failed: ''
                     @ error_text err)), s')
              | ((None, _), s') \<Rightarrow> (Fails setCtxErr, s'))
      | Inr _ \<Rightarrow> (Returns (), s))"


subsection \<open>Preconditions\<close>

text \<open>
  The last operation of the resource and whether this operation is already stored.  A list with one
  element is given to the named query as that element.
\<close>

definition getResourceLastOperation :: "'s scheduler \<Rightarrow> Operation \<Rightarrow> bool \<Rightarrow> ('s sched, (Operation \<times> bool) option) call" where
  "getResourceLastOperation S operation checkForExistingOperation =
     call_then
       (on_error
          (repo_call (r_QueryForList (s_repository S) OperationType ''QueryForLastOperationsPerResource''
             [''id_list'' \<mapsto> ResourceID operation, ''resource_type'' \<mapsto> ResourceType operation]))
          (\<lambda>err. fails (handled err (ObjectType_String OperationType))))
       (\<lambda>resourceLastOps.
          if length resourceLastOps = 0 then returns None
          else
            call_then
              (if checkForExistingOperation
               then call_then
                 (on_error (repo_call (r_Count (s_repository S) OperationType (by_id (ID operation))))
                    (\<lambda>err. fails (handled err (ObjectType_String OperationType))))
                 (\<lambda>count. returns (count > 0))
               else returns False)
              (\<lambda>currentOperationExists.
                 case resourceLastOps ! 0 of
                   OperationObject lastOperation \<Rightarrow> returns (Some (lastOperation, currentOperationExists))
                 | _ \<Rightarrow> panics))"

definition concurrent_operation :: "string \<Rightarrow> error" where
  "concurrent_operation description = HTTPError (http_err ''ConcurrentOperationInProgress'' description StatusUnprocessableEntity)"

definition checkForConcurrentOperations :: "Operation \<Rightarrow> Operation \<Rightarrow> error option" where
  "checkForConcurrentOperations operation lastOperation =
     (let isDeletionScheduled = InOrphanMitigationState lastOperation;
          isLastOpInProgress = (op_State lastOperation = IN_PROGRESS);
          isAReschedule = (Reschedule lastOperation \<and> Reschedule operation);
          another = Some (concurrent_operation ''Another concurrent operation in progress for this resource'');
          deletion = Some (concurrent_operation ''Deletion is currently in progress for this resource'');
          unknown = (\<lambda>t. Some (ErrorString (''operation type '' @ t @ '' is unknown type'')))
      in if op_Type lastOperation = CREATE then
           (if op_Type operation = CREATE then
              (if isLastOpInProgress \<and> \<not> isDeletionScheduled \<and> \<not> isAReschedule then another else None)
            else if op_Type operation = UPDATE then (if isLastOpInProgress then another else None)
            else if op_Type operation = DELETE then None
            else unknown (op_Type operation))
         else if op_Type lastOperation = UPDATE then
           (if op_Type operation = CREATE then (if isLastOpInProgress then another else None)
            else if op_Type operation = UPDATE then
              (if isLastOpInProgress \<and> \<not> isDeletionScheduled \<and> \<not> isAReschedule then another else None)
            else if op_Type operation = DELETE then None
            else unknown (op_Type operation))
         else if op_Type lastOperation = DELETE then
           (if op_Type operation = CREATE then (if isLastOpInProgress \<or> isDeletionScheduled then deletion else None)
            else if op_Type operation = UPDATE then (if isLastOpInProgress \<or> isDeletionScheduled then deletion else None)
            else if op_Type operation = DELETE then
              (if isLastOpInProgress \<and> \<not> isDeletionScheduled \<and> \<not> isAReschedule then deletion else None)
            else unknown (op_Type operation))
         else unknown (op_Type lastOperation))"

definition storeOrUpdateOperation :: "'s scheduler \<Rightarrow> Operation \<Rightarrow> bool \<Rightarrow> ('s sched, unit) call" where
  "storeOrUpdateOperation S operation currentOpExists =
     call_then
       (on_error
          (if \<not> currentOpExists then repo_call (r_Create (s_repository S) (OperationObject operation))
           else repo_call (r_Update (s_repository S) (OperationObject operation) [] []))
          (\<lambda>err. fails (handled err (ObjectType_String OperationType))))
       (\<lambda>_. returns ())"

definition manual_action :: "string \<Rightarrow> error" where
  "manual_action description = HTTPError (http_err ''ManualActionRequired'' description StatusUnprocessableEntity)"

definition validateOperationDoesNotExceedTimeouts :: "'s scheduler \<Rightarrow> Operation \<Rightarrow> ('s sched, error option) call" where
  "validateOperationDoesNotExceedTimeouts S operation =
     call_then
       (if CascadeRootID operation \<noteq> '''' \<and> InOrphanMitigationState operation
        then call_then (time_Now S) (\<lambda>now. returns (CreatedAt operation + cascadeOrphanMitigationTimeout S < now))
        else returns False)
       (\<lambda>exceeded.
          if exceeded then returns (Some (manual_action (''operations is older than ''
            @ fmt_Duration (s_fmt S) (cascadeOrphanMitigationTimeout S)
            @ '' and has exceed the maximmum cascade orphan mitigation timeout. Rootcause error: ''
            @ fmt_Errors (s_fmt S) (op_Errors operation))))
          else call_then (time_Now S) (\<lambda>now.
            returns (if CreatedAt operation + reconciliationOperationTimeout S < now
              then Some (manual_action (''operation is older than '' @ fmt_Duration (s_fmt S) (reconciliationOperationTimeout S)
                @ '' and has exceeded the maximum reconciliation timeout. Rootcause error: ''
                @ fmt_Errors (s_fmt S) (op_Errors operation)))
              else None)))"

definition blocked_update :: "Operation \<Rightarrow> Operation \<Rightarrow> bool" where
  "blocked_update operation lastOperation \<longleftrightarrow>
     op_Type operation = UPDATE \<and> op_Type lastOperation = CREATE \<and> op_State lastOperation = FAILED \<and>
     (ResourceType operation = ServiceBindingType \<or> ResourceType operation = ServiceInstanceType)"

definition executeOperationPreconditions :: "'s scheduler \<Rightarrow> Operation \<Rightarrow> ('s sched, unit) call" where
  "executeOperationPreconditions S operation =
     (if op_State operation = SUCCEEDED \<or> (op_State operation = FAILED \<and> \<not> InOrphanMitigationState operation)
      then fails (ErrorString (''scheduling for operations '' @ fmt_Operation (s_fmt S) operation
        @ '' is not allowed due to invalid state''))
      else
        call_then (validateOperationDoesNotExceedTimeouts S operation) (\<lambda>exceeded.
          case exceeded of
            Some err \<Rightarrow>
              (\<lambda>s. case updateOperationState (s_repository S) (operation\<lparr>DeletionScheduled := 0\<rparr>) FAILED (Some err) s of
                 ((Some _, _), s') \<Rightarrow>
                   (Fails (ErrorString (''failed to update error of operation with id '' @ ID operation @ '' to '' @ error_text err)), s')
               | ((None, _), s') \<Rightarrow> (Fails err, s'))
          | None \<Rightarrow>
              (case Operation_Validate operation of
                 Inl err \<Rightarrow> fails (ErrorString (''scheduled operation is not valid: '' @ error_text err))
               | Inr _ \<Rightarrow>
                   call_then (getResourceLastOperation S operation True) (\<lambda>last.
                     case last of
                       None \<Rightarrow> storeOrUpdateOperation S operation False
                     | Some (lastOperation, currentOpExists) \<Rightarrow>
                         (case checkForConcurrentOperations operation lastOperation of
                            Some err \<Rightarrow> fails err
                          | None \<Rightarrow>
                              if blocked_update operation lastOperation
                              then fails (HTTPError (http_err ''UpdateOperationIsNotAllowed''
                                ''Update is not possible for this resource'' StatusForbidden))
                              else storeOrUpdateOperation S operation currentOpExists)))))"

subsection \<open>Scheduling\<close>

definition ScheduleAsyncStorageAction :: "'s scheduler \<Rightarrow> Operation \<Rightarrow> 's storageAction \<Rightarrow> ('s sched, unit) call" where
  "ScheduleAsyncStorageAction S operation action s =
     (if workers s < s_poolSize S then
        (case executeOperationPreconditions S operation (s\<lparr>workers := workers s + 1\<rparr>) of
           (Fails err, s') \<Rightarrow> (Fails err, s'\<lparr>workers := workers s' - 1\<rparr>)
         | (Panicked, s') \<Rightarrow> (Panicked, s')
         | (Returns _, s') \<Rightarrow> (Returns (), s'\<lparr>jobs := jobs s' @ [(operation, action)]\<rparr>))
      else
        (Fails (HTTPError (http_err ''ServiceUnavailable''
           ''Failed to schedule job. Server is busy - try again in a few minutes.'' StatusServiceUnavailable)), s))"

text \<open>The deletion that an orphan mitigation runs.\<close>

definition deletionAction :: "'s scheduler \<Rightarrow> Operation \<Rightarrow> 's storageAction" where
  "deletionAction S opAfterJob op w =
     (case r_Delete (s_repository S) (ResourceType opAfterJob) (by_id (ResourceID opAfterJob)) w of
        (Inl err, w') \<Rightarrow>
          (Some (if err = ErrNotFoundInStorage then Inr None
             else Inl (handled err (ObjectType_String (ResourceType opAfterJob)))), op, w')
      | (Inr _, w') \<Rightarrow> (Some (Inr None), op, w'))"

text \<open>The state of a failed operation: a forced deletion removes the resource directly and then succeeds.\<close>

definition forced_state :: "'s scheduler \<Rightarrow> Operation \<Rightarrow> 's sched \<Rightarrow> OperationState \<times> 's sched" where
  "forced_state S opAfterJob s =
     (if IsForceDeleteCascadeOperation opAfterJob \<and> \<not> InOrphanMitigationState opAfterJob
      then (case repo_call (r_Delete (s_storage S) (ResourceType opAfterJob) (by_id (ResourceID opAfterJob))) s of
              (Fails err, s') \<Rightarrow> (if err \<noteq> ErrNotFoundInStorage then FAILED else SUCCEEDED, s')
            | (_, s') \<Rightarrow> (SUCCEEDED, s'))
      else (FAILED, s))"

definition fail_operation :: "'s scheduler \<Rightarrow> error \<Rightarrow> Operation \<Rightarrow> ('s sched, Operation) call" where
  "fail_operation S actionError opAfterJob =
     call_then
       (if op_Type opAfterJob = CREATE \<and> op_State opAfterJob = FAILED
        then call_then (fetchAndUpdateResource (s_storage S) (ResourceID opAfterJob) (ResourceType opAfterJob) (SetReady False))
               (\<lambda>_. updateTransitiveResources (s_storage S) (TransitiveResources opAfterJob) (SetReady False))
        else returns ())
       (\<lambda>_ s.
          case forced_state S opAfterJob s of
            (newState, s') \<Rightarrow>
              (case updateOperationState (s_storage S) opAfterJob newState (Some actionError) s' of
                 ((Some opErr, _), s'') \<Rightarrow>
                   (Fails (ErrorString (''setting new operation state failed: '' @ error_text opErr)), s'')
               | ((None, op), s'') \<Rightarrow> (Returns op, s'')))"

definition handleActionResponseFailure :: "'s scheduler \<Rightarrow> error \<Rightarrow> Operation \<Rightarrow> ('s sched, 'a) call" where
  "handleActionResponseFailure S actionError opAfterJob =
     call_then (s_InTransaction S (fail_operation S actionError opAfterJob)) (\<lambda>op.
       call_then
         (if InOrphanMitigationState op
          then call_then (time_Now S) (\<lambda>now.
                 returns (now < DeletionScheduled op + reconciliationOperationTimeout S \<and> op_State op \<noteq> SUCCEEDED))
          else returns False)
         (\<lambda>isDeleteRescheduleRequired.
            if isDeleteRescheduleRequired then
              call_then (time_Now S) (\<lambda>now s.
                case s_wait S (DeletionScheduled op + actionTimeout S * 2 < now) (sc_world s) of
                  (True, w) \<Rightarrow> (Fails (ErrorString ''sm context canceled: context canceled''), s\<lparr>sc_world := w\<rparr>)
                | (False, w) \<Rightarrow>
                    call_then
                      (on_error (ScheduleAsyncStorageAction S op (deletionAction S op))
                         (\<lambda>orphanMitigationErr. fails (HTTPError (http_err ''BrokerError''
                            (''job failed with '' @ error_text actionError @ '' and orphan mitigation failed with ''
                             @ error_text orphanMitigationErr) StatusBadGateway))))
                      (\<lambda>_. fails actionError) (s\<lparr>sc_world := w\<rparr>))
            else fails actionError))"

definition set_usable :: "Object \<Rightarrow> Object" where
  "set_usable obj = SetReady True (case obj of ServiceInstanceObject x \<Rightarrow> ServiceInstanceObject (x\<lparr>si_Usable := True\<rparr>) | _ \<Rightarrow> obj)"

text \<open>The operation of a job that succeeded, before it is stored with its final state.\<close>

definition finished_operation :: "Operation \<Rightarrow> OperationState \<times> Operation" where
  "finished_operation opAfterJob =
     (case (if op_Type opAfterJob \<noteq> DELETE \<and> InOrphanMitigationState opAfterJob then (FAILED, opAfterJob)
            else (if length (CascadeRootID opAfterJob) = 0 \<or> op_State opAfterJob \<noteq> PENDING then SUCCEEDED else op_State opAfterJob,
                  opAfterJob\<lparr>op_Errors := None\<rparr>)) of
        (finalState, op) \<Rightarrow> (finalState, op\<lparr>DeletionScheduled := 0\<rparr>))"

definition succeed_operation :: "'s scheduler \<Rightarrow> Object option \<Rightarrow> Operation \<Rightarrow> ('s sched, Object option) call" where
  "succeed_operation S actionObject opAfterJob =
     (case finished_operation opAfterJob of
        (finalState, op) \<Rightarrow>
          call_then
            (if op_Type op = CREATE \<and> finalState = SUCCEEDED
             then call_then (updateResource (s_storage S) actionObject set_usable) (\<lambda>obj.
                    call_then (updateTransitiveResources (s_storage S) (TransitiveResources op) (SetReady True)) (\<lambda>_.
                      returns (Some obj)))
             else returns actionObject)
            (\<lambda>actionObject s.
               case updateOperationState (s_storage S) op finalState None s of
                 ((Some err, _), s') \<Rightarrow> (Fails err, s')
               | ((None, _), s') \<Rightarrow> (Returns actionObject, s')))"

definition handleActionResponseSuccess :: "'s scheduler \<Rightarrow> Object option \<Rightarrow> Operation \<Rightarrow> ('s sched, Object option) call" where
  "handleActionResponseSuccess S actionObject opAfterJob =
     on_error (s_InTransaction S (succeed_operation S actionObject opAfterJob))
       (\<lambda>err. fails (ErrorString (''failed to update resource ready or operation state after a successfully executing operation with id ''
          @ ID opAfterJob @ '': '' @ error_text err)))"

definition handleActionResponse :: "'s scheduler \<Rightarrow> (error, Object option) result \<Rightarrow> Operation \<Rightarrow> ('s sched, Object option) call" where
  "handleActionResponse S response opBeforeJob =
     call_then (refetchOperation S opBeforeJob) (\<lambda>op.
       let opAfterJob = op\<lparr>TransitiveResources := TransitiveResources opBeforeJob\<rparr>
       in call_then (addOperationToContext S opAfterJob) (\<lambda>_.
            case response of
              Inl actionError \<Rightarrow> handleActionResponseFailure S actionError opAfterJob
            | Inr actionObject \<Rightarrow>
                if \<not> Reschedule opAfterJob then handleActionResponseSuccess S actionObject opAfterJob
                else returns actionObject))"

text \<open>The action changes the operation it was given; later steps see the changed one.\<close>

definition run_action :: "'s scheduler \<Rightarrow> 's storageAction \<Rightarrow> Operation \<Rightarrow> ('s sched, Object option \<times> Operation) call" where
  "run_action S action operation =
     call_then (addOperationToContext S operation) (\<lambda>_ s.
       case action operation (sc_world s) of
         (None, _, w) \<Rightarrow> (Panicked, s\<lparr>sc_world := w\<rparr>)
       | (Some response, op, w) \<Rightarrow>
           call_then (handleActionResponse S response op) (\<lambda>object. returns (object, op)) (s\<lparr>sc_world := w\<rparr>))"

definition ScheduleSyncStorageAction :: "'s scheduler \<Rightarrow> Operation \<Rightarrow> 's storageAction \<Rightarrow> ('s sched, Object option \<times> Operation) call" where
  "ScheduleSyncStorageAction S operation action =
     call_then (executeOperationPreconditions S operation) (\<lambda>_. run_action S action operation)"

text \<open>
  The goroutine of a job.  After a panic it marks the operation as failed; when that operation cannot
  be fetched, the deferred function itself dereferences a nil operation, and the process ends.
\<close>

definition run_job :: "'s scheduler \<Rightarrow> Operation \<times> 's storageAction \<Rightarrow> ('s sched, unit) call" where
  "run_job S = (\<lambda>(operation, action) s.
     let release = (\<lambda>s. (Returns (), s\<lparr>workers := workers s - 1\<rparr>))
     in case run_action S action operation s of
          (Panicked, s') \<Rightarrow>
            (case refetchOperation S operation s' of
               (Returns op, s'') \<Rightarrow>
                 release (snd (updateOperationState (s_repository S) op FAILED
                   (Some (HTTPError (http_err ''InternalServerError'' ''job interrupted'' StatusInternalServerError))) s''))
             | (_, s'') \<Rightarrow> (Panicked, s''))
        | (_, s') \<Rightarrow> release s')"

definition ScheduleStorageAction :: "'s scheduler \<Rightarrow> Operation \<Rightarrow> 's storageAction \<Rightarrow> bool \<Rightarrow> ('s sched, Object option \<times> bool) call" where
  "ScheduleStorageAction S operation action isAsyncSupported =
     (case op_Context operation of
        None \<Rightarrow> panics
      | Some context \<Rightarrow>
          if IsAsyncNotDefined context \<and> isAsyncSupported then
            call_then (ScheduleSyncStorageAction S operation action) (\<lambda>(object, operation).
              call_then (getResourceLastOperation S operation False) (\<lambda>last.
                case last of
                  None \<Rightarrow> panics
                | Some (lastOperation, _) \<Rightarrow>
                    if Reschedule lastOperation
                    then call_then (ScheduleAsyncStorageAction S operation action) (\<lambda>_. returns (None, True))
                    else returns (object, False)))
          else if Async context then
            (if \<not> isAsyncSupported then fails (HTTPError (http_err ''InvalidRequest''
               ''requested api doesn't support asynchronous operations'' StatusBadRequest))
             else call_then (ScheduleAsyncStorageAction S operation action) (\<lambda>_. returns (None, True)))
          else call_then (ScheduleSyncStorageAction S operation action) (\<lambda>(object, _). returns (object, False)))"


subsection \<open>The pool of workers\<close>

named_theorems keeping \<open>calls that leave the pool alone\<close>

text \<open>Everything but scheduling leaves the pool alone.\<close>

definition keeps :: "('s sched, 'a) call \<Rightarrow> bool" where
  "keeps f \<longleftrightarrow> (\<forall>s. workers (snd (f s)) = workers s \<and> jobs (snd (f s)) = jobs s)"

lemma keepsD: "keeps f \<Longrightarrow> f s = (r, s') \<Longrightarrow> workers s' = workers s \<and> jobs s' = jobs s"
  unfolding keeps_def by (metis snd_conv)

lemma keeps_call_then [keeping]: "keeps f \<Longrightarrow> (\<And>x. keeps (g x)) \<Longrightarrow> keeps (call_then f g)"
  unfolding keeps_def call_then_def by (auto split: prod.splits outcome.splits) (metis snd_conv)+

lemma keeps_on_error [keeping]: "keeps f \<Longrightarrow> (\<And>x. keeps (g x)) \<Longrightarrow> keeps (on_error f g)"
  unfolding keeps_def on_error_def by (auto split: prod.splits outcome.splits) (metis snd_conv)+

lemma keeps_basic [keeping]:
  "keeps (returns x)" "keeps (fails err)" "keeps panics" "keeps (repo_call f)" "keeps (time_Now S)"
  by (auto simp: keeps_def returns_def fails_def panics_def repo_call_def time_Now_def split: prod.splits sum.splits)

lemma keeps_if [keeping]: "keeps f \<Longrightarrow> keeps g \<Longrightarrow> keeps (if b then f else g)"
  by simp

lemma updateOperationState_keeps:
  "updateOperationState R operation state opErr s = (r, s') \<Longrightarrow> workers s' = workers s \<and> jobs s' = jobs s"
  by (auto simp: updateOperationState_def Let_def split: prod.splits sum.splits)

lemma keeps_InTransaction [keeping]:
  assumes "keeps f"
  shows "keeps (s_InTransaction S f)"
proof -
  have "workers s' = workers s \<and> jobs s' = jobs s" if "s_InTransaction S f s = (r, s')" for s r s'
  proof -
    obtain e w where b: "Beginx (s_db S) (sc_world s) = (e, w)" by fastforce
    obtain r1 s1 where f: "f (s\<lparr>sc_world := w\<rparr>) = (r1, s1)" by fastforce
    show ?thesis
      using that b f keepsD [OF assms f]
      by (cases e; cases r1) (auto simp: s_InTransaction_def Let_def split: prod.splits option.splits)
  qed
  then show ?thesis by (simp add: keeps_def) (metis prod.collapse)
qed

lemma keeps_resources [keeping]:
  "keeps (updateResource R obj f)" "keeps (fetchAndUpdateResource R i t f)" "keeps (updateTransitiveResources R rs f)"
proof -
  show up: "keeps (updateResource R obj f)" for obj by (cases obj) (simp_all add: updateResource_def keeping)
  have "workers s' = workers s \<and> jobs s' = jobs s" if "fetchAndUpdateResource R i t f s = (r, s')" for i t s r s'
  proof -
    obtain r1 s1 where get: "repo_call (r_Get R t (by_id i)) s = (r1, s1)" by fastforce
    have k: "keeps (call_then (updateResource R (Some obj) f) (\<lambda>_. returns ()))" for obj by (intro keeping up)
    show ?thesis
      using that get keepsD [OF keeps_basic(4) get] keepsD [OF k]
      by (cases r1) (auto simp: fetchAndUpdateResource_def split: if_splits)
  qed
  then show fetch: "keeps (fetchAndUpdateResource R i t f)" for i t by (simp add: keeps_def) (metis prod.collapse)
  show "keeps (updateTransitiveResources R rs f)" by (induction rs) (simp_all add: keeping fetch)
qed

lemma keeps_refetch [keeping]: "keeps (refetchOperation S operation)"
proof -
  have "workers s' = workers s \<and> jobs s' = jobs s" if "refetchOperation S operation s = (r, s')" for s r s'
  proof -
    obtain r1 s1 where get: "repo_call (r_Get (s_repository S) OperationType (by_id (ID operation))) s = (r1, s1)" by fastforce
    show ?thesis
      using that get keepsD [OF keeps_basic(4) get]
      by (cases r1) (auto simp: refetchOperation_def Let_def split: Object.splits prod.splits option.splits dest!: updateOperationState_keeps)
  qed
  then show ?thesis by (simp add: keeps_def) (metis prod.collapse)
qed

lemma keeps_context [keeping]: "keeps (addOperationToContext S operation)"
proof -
  have "workers s' = workers s \<and> jobs s' = jobs s" if "addOperationToContext S operation s = (r, s')" for s r s'
    using that by (auto simp: addOperationToContext_def Let_def split: sum.splits prod.splits option.splits dest!: updateOperationState_keeps)
  then show ?thesis by (simp add: keeps_def) (metis prod.collapse)
qed

lemma keeps_store [keeping]: "keeps (storeOrUpdateOperation S operation b)"
  unfolding storeOrUpdateOperation_def by (intro keeping)

lemma keeps_last [keeping]: "keeps (getResourceLastOperation S operation b)"
  unfolding getResourceLastOperation_def by (intro keeping) (auto intro!: keeping split: Object.splits)

lemma keeps_timeouts [keeping]: "keeps (validateOperationDoesNotExceedTimeouts S operation)"
  unfolding validateOperationDoesNotExceedTimeouts_def by (intro keeping)

lemma keeps_preconditions [keeping]: "keeps (executeOperationPreconditions S operation)"
proof -
  have timeout: "keeps (\<lambda>s. case updateOperationState R op FAILED (Some err) s of
      ((Some x, y), s') \<Rightarrow> (Fails (f x), s') | ((None, y), s') \<Rightarrow> (Fails err, s'))" for R :: "'a raw_repository" and op err f
    by (auto simp: keeps_def split: prod.splits option.splits dest!: updateOperationState_keeps)
  have rest: "keeps (case last of None \<Rightarrow> storeOrUpdateOperation S operation False | Some (lastOperation, e) \<Rightarrow>
      (case checkForConcurrentOperations operation lastOperation of Some err \<Rightarrow> fails err | None \<Rightarrow>
         if blocked_update operation lastOperation then fails x else storeOrUpdateOperation S operation e))" for last x
    by (auto intro!: keeping split: option.splits)
  show ?thesis
    unfolding executeOperationPreconditions_def
    by (intro keeping) (auto intro!: keeping timeout rest split: option.splits sum.splits)
qed


text \<open>Queries for operations return operations.\<close>

definition typed_repository :: "'s scheduler \<Rightarrow> bool" where
  "typed_repository S \<longleftrightarrow> (\<forall>q ps w xs w'. r_QueryForList (s_repository S) OperationType q ps w = (Inr xs, w') \<longrightarrow>
     (\<forall>x \<in> set xs. \<exists>op. x = OperationObject op))"

definition no_panic :: "('s, 'a) call \<Rightarrow> bool" where
  "no_panic f \<longleftrightarrow> (\<forall>s. fst (f s) \<noteq> Panicked)"

lemma no_panic_call_then: "no_panic f \<Longrightarrow> (\<And>x. no_panic (g x)) \<Longrightarrow> no_panic (call_then f g)"
  unfolding no_panic_def call_then_def by (auto split: prod.splits outcome.splits) (metis fst_conv)

lemma no_panic_on_error: "no_panic f \<Longrightarrow> (\<And>x. no_panic (g x)) \<Longrightarrow> no_panic (on_error f g)"
  unfolding no_panic_def on_error_def by (auto split: prod.splits outcome.splits) (metis fst_conv)

lemma no_panic_basic: "no_panic (returns x)" "no_panic (fails err)" "no_panic (repo_call f)" "no_panic (time_Now S)"
  by (auto simp: no_panic_def returns_def fails_def repo_call_def time_Now_def split: prod.splits sum.splits)

lemmas no_panic_intros = no_panic_call_then no_panic_on_error no_panic_basic

lemma no_panic_last:
  assumes "typed_repository S"
  shows "no_panic (getResourceLastOperation S operation b)"
proof -
  let ?q = "on_error (repo_call (r_QueryForList (s_repository S) OperationType ''QueryForLastOperationsPerResource''
     [''id_list'' \<mapsto> ResourceID operation, ''resource_type'' \<mapsto> ResourceType operation]))
     (\<lambda>err. fails (handled err (ObjectType_String OperationType)))"
  have ops: "\<exists>op. xs ! 0 = OperationObject op" if "?q s = (Returns xs, s')" "length xs \<noteq> 0" for s xs s'
  proof -
    from that(1) obtain w' where "r_QueryForList (s_repository S) OperationType ''QueryForLastOperationsPerResource''
        [''id_list'' \<mapsto> ResourceID operation, ''resource_type'' \<mapsto> ResourceType operation] (sc_world s) = (Inr xs, w')"
      by (auto simp: on_error_def repo_call_def fails_def split: prod.splits sum.splits outcome.splits)
    then have "\<forall>x \<in> set xs. \<exists>op. x = OperationObject op" using assms unfolding typed_repository_def by blast
    with that(2) show ?thesis by (simp add: nth_mem)
  qed
  have "no_panic ?q" by (intro no_panic_intros)
  then have q: "fst (?q s) \<noteq> Panicked" for s unfolding no_panic_def by blast
  have "fst (getResourceLastOperation S operation b s) \<noteq> Panicked" for s
  proof (cases "?q s")
    case (Pair r s')
    show ?thesis
    proof (cases r)
      case (Returns xs)
      let ?rest = "call_then (if b then call_then (on_error (repo_call (r_Count (s_repository S) OperationType (by_id (ID operation))))
            (\<lambda>err. fails (handled err (ObjectType_String OperationType)))) (\<lambda>count. returns (count > 0)) else returns False)
          (\<lambda>e. case xs ! 0 of OperationObject lastOperation \<Rightarrow> returns (Some (lastOperation, e)) | _ \<Rightarrow> panics)"
      have "no_panic ?rest" if ne: "length xs \<noteq> 0"
      proof -
        obtain op where "xs ! 0 = OperationObject op" using ops [OF _ ne] Pair Returns by blast
        then show ?thesis by (auto intro!: no_panic_intros)
      qed
      with Pair Returns show ?thesis
        by (auto simp: getResourceLastOperation_def no_panic_def returns_def)
    next
      case (Fails err)
      with Pair show ?thesis by (simp add: getResourceLastOperation_def)
    next
      case Panicked
      with Pair q [of s] show ?thesis by simp
    qed
  qed
  then show ?thesis by (simp add: no_panic_def)
qed

lemma no_panic_preconditions:
  assumes "typed_repository S"
  shows "no_panic (executeOperationPreconditions S operation)"
proof -
  have timeouts: "no_panic (validateOperationDoesNotExceedTimeouts S operation)"
    unfolding validateOperationDoesNotExceedTimeouts_def by (auto intro!: no_panic_intros split: if_splits)
  have store: "no_panic (storeOrUpdateOperation S operation b)" for b
    unfolding storeOrUpdateOperation_def by (auto intro!: no_panic_intros split: if_splits)
  have timeout: "no_panic (\<lambda>s. case updateOperationState R op FAILED (Some err) s of
      ((Some x, y), s') \<Rightarrow> (Fails (f x), s') | ((None, y), s') \<Rightarrow> (Fails err, s'))" for R :: "'a raw_repository" and op err f
    by (auto simp: no_panic_def split: prod.splits option.splits)
  have rest: "no_panic (case last of None \<Rightarrow> storeOrUpdateOperation S operation False | Some (lastOperation, e) \<Rightarrow>
      (case checkForConcurrentOperations operation lastOperation of Some err \<Rightarrow> fails err | None \<Rightarrow>
         if blocked_update operation lastOperation then fails x else storeOrUpdateOperation S operation e))" for last x
    by (auto intro!: no_panic_intros store split: option.splits)
  show ?thesis
    unfolding executeOperationPreconditions_def
    by (auto intro!: no_panic_call_then timeouts no_panic_basic timeout rest no_panic_last [OF assms] split: option.splits sum.splits)
qed

text \<open>A call that takes as many workers as it adds jobs, and no more than the pool has.\<close>

definition balanced :: "'s scheduler \<Rightarrow> ('s sched, 'a) call \<Rightarrow> bool" where
  "balanced S f \<longleftrightarrow> (\<forall>s r s'. f s = (r, s') \<longrightarrow>
     workers s' + length (jobs s) = workers s + length (jobs s') \<and> workers s' \<le> max (workers s) (s_poolSize S))"

lemma balancedD:
  assumes "balanced S f" "f s = (r, s')"
  shows "workers s' + length (jobs s) = workers s + length (jobs s')" "workers s' \<le> max (workers s) (s_poolSize S)"
  using assms unfolding balanced_def by blast+

lemma balancedD_world:
  assumes "balanced S f" "f (s\<lparr>sc_world := w\<rparr>) = (r, s')"
  shows "workers s' + length (jobs s) = workers s + length (jobs s') \<and> workers s' \<le> max (workers s) (s_poolSize S)"
  using balancedD [OF assms] by simp

lemma balanced_keeps: "keeps f \<Longrightarrow> balanced S f"
  unfolding balanced_def using keepsD by fastforce

lemma balanced_call_then:
  assumes f: "balanced S f" and g: "\<And>x. balanced S (g x)"
  shows "balanced S (call_then f g)"
  unfolding balanced_def
proof (intro allI impI)
  fix s r s'
  assume run: "call_then f g s = (r, s')"
  obtain r1 s1 where 1: "f s = (r1, s1)" by fastforce
  note b1 = balancedD [OF f 1]
  show "workers s' + length (jobs s) = workers s + length (jobs s') \<and> workers s' \<le> max (workers s) (s_poolSize S)"
  proof (cases r1)
    case (Returns x)
    with run 1 have "g x s1 = (r, s')" by simp
    from balancedD [OF g this] b1 show ?thesis by linarith
  qed (use run 1 b1 in auto)
qed

lemma balanced_on_error:
  assumes f: "balanced S f" and g: "\<And>x. keeps (g x)"
  shows "balanced S (on_error f g)"
  unfolding balanced_def
proof (intro allI impI)
  fix s r s'
  assume run: "on_error f g s = (r, s')"
  obtain r1 s1 where 1: "f s = (r1, s1)" by fastforce
  note b1 = balancedD [OF f 1]
  show "workers s' + length (jobs s) = workers s + length (jobs s') \<and> workers s' \<le> max (workers s) (s_poolSize S)"
  proof (cases r1)
    case (Fails x)
    with run 1 have "g x s1 = (r, s')" by (simp add: on_error_def)
    from keepsD [OF g this] b1 show ?thesis by simp
  qed (use run 1 b1 in \<open>auto simp: on_error_def\<close>)
qed

lemma balanced_schedule:
  assumes typed: "typed_repository S"
  shows "balanced S (ScheduleAsyncStorageAction S operation action)"
  unfolding balanced_def
proof (intro allI impI)
  fix s r s'
  assume run: "ScheduleAsyncStorageAction S operation action s = (r, s')"
  show "workers s' + length (jobs s) = workers s + length (jobs s') \<and> workers s' \<le> max (workers s) (s_poolSize S)"
  proof (cases "workers s < s_poolSize S")
    case True
    obtain r1 s1 where pre: "executeOperationPreconditions S operation (s\<lparr>workers := workers s + 1\<rparr>) = (r1, s1)" by fastforce
    have "r1 \<noteq> Panicked" using no_panic_preconditions [OF typed] pre unfolding no_panic_def by (metis fst_conv)
    with True run pre keepsD [OF keeps_preconditions pre] show ?thesis
      by (cases r1) (auto simp: ScheduleAsyncStorageAction_def)
  qed (use run in \<open>auto simp: ScheduleAsyncStorageAction_def\<close>)
qed


lemma forced_state_keeps: "forced_state S op s = (st, s') \<Longrightarrow> workers s' = workers s \<and> jobs s' = jobs s"
  using keepsD [OF keeps_basic(4)] by (fastforce simp: forced_state_def split: if_splits prod.splits outcome.splits)

lemma keeps_fail_operation [keeping]: "keeps (fail_operation S err op)"
proof -
  have "keeps (\<lambda>s. case forced_state S op s of
      (newState, s') \<Rightarrow> (case updateOperationState R op newState (Some err) s' of
         ((Some opErr, _), s'') \<Rightarrow> (Fails (g opErr), s'') | ((None, op), s'') \<Rightarrow> (Returns op, s'')))" for R g
    by (auto simp: keeps_def split: prod.splits option.splits dest!: updateOperationState_keeps forced_state_keeps)
  then show ?thesis unfolding fail_operation_def by (intro keeping) auto
qed

lemma keeps_success [keeping]: "keeps (handleActionResponseSuccess S obj op)"
proof -
  have "keeps (\<lambda>s. case updateOperationState R op st None s of ((Some err, _), s') \<Rightarrow> (Fails err, s') | ((None, _), s') \<Rightarrow> (Returns x, s'))"
    for R :: "'a raw_repository" and op st and x :: "Object option"
    by (auto simp: keeps_def split: prod.splits option.splits dest!: updateOperationState_keeps)
  then have "keeps (succeed_operation S obj op)"
    unfolding succeed_operation_def by (cases "finished_operation op") (auto intro!: keeping)
  then show ?thesis unfolding handleActionResponseSuccess_def by (intro keeping)
qed

lemma balanced_failure:
  assumes typed: "typed_repository S"
  shows "balanced S (handleActionResponseFailure S err op)"
proof -
  have wait: "balanced S (\<lambda>s. case s_wait S (f now) (sc_world s) of (True, w) \<Rightarrow> (Fails e, s\<lparr>sc_world := w\<rparr>)
      | (False, w) \<Rightarrow> call_then (on_error (ScheduleAsyncStorageAction S op act) (\<lambda>e. fails (h e))) (\<lambda>_. fails err) (s\<lparr>sc_world := w\<rparr>))"
    for f and now :: int and e op act h
  proof -
    let ?g = "call_then (on_error (ScheduleAsyncStorageAction S op act) (\<lambda>e. fails (h e))) (\<lambda>_. fails err)"
    have g: "balanced S ?g" by (intro balanced_call_then balanced_on_error balanced_schedule [OF typed] keeping balanced_keeps)
    show ?thesis
      unfolding balanced_def
    proof (intro allI impI, goal_cases)
      case (1 s r s')
      obtain b w where "s_wait S (f now) (sc_world s) = (b, w)" by fastforce
      with 1 balancedD_world [OF g, where s = s and w = w] show ?case by (cases b) auto
    qed
  qed
  show ?thesis
    unfolding handleActionResponseFailure_def
    by (auto intro!: balanced_call_then wait balanced_keeps [OF keeps_InTransaction [OF keeps_fail_operation]]
        balanced_keeps [OF keeps_basic(1)] balanced_keeps [OF keeps_basic(2)] balanced_keeps [OF keeps_basic(5)])
qed

lemma balanced_response:
  assumes typed: "typed_repository S"
  shows "balanced S (handleActionResponse S response op)"
  unfolding handleActionResponse_def Let_def
  by (auto intro!: balanced_call_then balanced_failure [OF typed] balanced_keeps [OF keeps_refetch] balanced_keeps [OF keeps_context]
      balanced_keeps [OF keeps_success] balanced_keeps [OF keeps_basic(1)] split: sum.splits)

lemma balanced_action:
  assumes typed: "typed_repository S"
  shows "balanced S (run_action S action operation)"
proof -
  have "balanced S (\<lambda>s. case action operation (sc_world s) of (None, _, w) \<Rightarrow> (Panicked, s\<lparr>sc_world := w\<rparr>)
      | (Some response, op, w) \<Rightarrow> call_then (handleActionResponse S response op) (\<lambda>object. returns (object, op)) (s\<lparr>sc_world := w\<rparr>))"
    unfolding balanced_def
  proof (intro allI impI, goal_cases)
    case (1 s r s')
    obtain resp op w where act: "action operation (sc_world s) = (resp, op, w)" by (metis prod_cases3)
    have b: "balanced S (call_then (handleActionResponse S response op) (\<lambda>object. returns (object, op)))" for response
      by (intro balanced_call_then balanced_response [OF typed] balanced_keeps [OF keeps_basic(1)])
    from 1 act show ?case
      by (cases resp) (use balancedD_world [OF b, where s = s and w = w] in auto)
  qed
  then show ?thesis
    unfolding run_action_def by (auto intro!: balanced_call_then balanced_keeps [OF keeps_context])
qed

lemma balanced_sync:
  assumes typed: "typed_repository S"
  shows "balanced S (ScheduleSyncStorageAction S operation action)"
  unfolding ScheduleSyncStorageAction_def
  by (intro balanced_call_then balanced_keeps [OF keeps_preconditions] balanced_action [OF typed])

lemma balanced_storage_action:
  assumes typed: "typed_repository S"
  shows "balanced S (ScheduleStorageAction S operation action isAsyncSupported)"
proof -
  note bs = balanced_call_then balanced_sync [OF typed] balanced_schedule [OF typed] balanced_keeps [OF keeps_last]
    balanced_keeps [OF keeps_basic(1)] balanced_keeps [OF keeps_basic(2)] balanced_keeps [OF keeps_basic(3)]
  have rest: "balanced S (case last of None \<Rightarrow> panics | Some (lastOperation, _) \<Rightarrow>
      if Reschedule lastOperation then call_then (ScheduleAsyncStorageAction S op action) (\<lambda>_. returns (None, True))
      else returns (object, False))" for last op object
    by (auto intro!: bs split: option.splits)
  show ?thesis
    unfolding ScheduleStorageAction_def by (auto intro!: bs rest split: option.splits)
qed

text \<open>A job that ends gives its worker back, also when its action panicked.\<close>

lemma run_job_workers:
  assumes typed: "typed_repository S" and run: "run_job S job s = (Returns (), s')" and w: "workers s = Suc (length (jobs s))"
    "workers s \<le> s_poolSize S"
  shows "workers s' = length (jobs s') \<and> workers s' \<le> s_poolSize S"
proof -
  obtain operation action where job: "job = (operation, action)" by fastforce
  obtain r s1 where act: "run_action S action operation s = (r, s1)" by fastforce
  note b = balancedD [OF balanced_action [OF typed] act]
  show ?thesis
  proof (cases r)
    case Panicked
    obtain r2 s2 where re: "refetchOperation S operation s1 = (r2, s2)" by fastforce
    from run job act Panicked re obtain op where r2: "r2 = Returns op" by (cases r2) (auto simp: run_job_def Let_def)
    obtain x s3 where up: "updateOperationState (s_repository S) op FAILED
        (Some (HTTPError (http_err ''InternalServerError'' ''job interrupted'' StatusInternalServerError))) s2 = (x, s3)" by fastforce
    from keepsD [OF keeps_refetch re] updateOperationState_keeps [OF up] b w run job act Panicked re r2 up show ?thesis
      by (auto simp: run_job_def Let_def)
  qed (use b w run job act in \<open>auto simp: run_job_def Let_def\<close>)
qed

inductive sched_run :: "'s scheduler \<Rightarrow> 's sched \<Rightarrow> 's sched \<Rightarrow> bool"
  for S where
  sched_refl: "sched_run S s s"
| sched_request: "sched_run S s s' \<Longrightarrow> ScheduleStorageAction S operation action isAsyncSupported s' = (r, s'') \<Longrightarrow> sched_run S s s''"
| sched_async: "sched_run S s s' \<Longrightarrow> ScheduleAsyncStorageAction S operation action s' = (r, s'') \<Longrightarrow> sched_run S s s''"
| sched_sync: "sched_run S s s' \<Longrightarrow> ScheduleSyncStorageAction S operation action s' = (r, s'') \<Longrightarrow> sched_run S s s''"
| sched_job: "sched_run S s s' \<Longrightarrow> jobs s' = before @ job # after \<Longrightarrow>
    run_job S job (s'\<lparr>jobs := before @ after\<rparr>) = (Returns (), s'') \<Longrightarrow> sched_run S s s''"
| sched_world: "sched_run S s s' \<Longrightarrow> sched_run S s (s'\<lparr>sc_world := w\<rparr>)"

text \<open>
  C13.  The pool bounds the asynchronous jobs.  In every sequence of requests, of jobs in any order
  (their actions may fail, panic or schedule orphan mitigations) and of changes by others, the number
  of taken workers is the number of jobs that have been started and not ended, and never exceeds the
  size of the pool; when all workers are taken, a request for another job is refused with status 503
  and changes nothing.
\<close>

theorem workers_bounded:
  assumes "typed_repository S" and "sched_run S \<lparr>sc_world = w, workers = 0, jobs = []\<rparr> s"
  shows "workers s = length (jobs s) \<and> workers s \<le> s_poolSize S \<and>
    (length (jobs s) = s_poolSize S \<longrightarrow> (\<exists>h. ScheduleAsyncStorageAction S operation action s = (Fails (HTTPError h), s) \<and> StatusCode h = 503))"
proof -
  have pool: "workers s = length (jobs s) \<and> workers s \<le> s_poolSize S"
    using assms(2)
  proof (induction "\<lparr>sc_world = w, workers = 0, jobs = []\<rparr>" s rule: sched_run.induct)
    case (sched_request s' operation action isAsyncSupported r s'')
    with balancedD [OF balanced_storage_action [OF assms(1)] sched_request(3)] show ?case by simp
  next
    case (sched_async s' operation action r s'')
    with balancedD [OF balanced_schedule [OF assms(1)] sched_async(3)] show ?case by simp
  next
    case (sched_sync s' operation action r s'')
    with balancedD [OF balanced_sync [OF assms(1)] sched_sync(3)] show ?case by simp
  next
    case (sched_job s' before job after s'')
    with run_job_workers [OF assms(1) sched_job(4)] show ?case by simp
  qed simp_all
  then show ?thesis by (simp add: ScheduleAsyncStorageAction_def)
qed


subsection \<open>The outcome of a job\<close>

text \<open>
  A repository that works: \<open>ops w\<close> are the stored operations.  It finds and updates operations, refreshing
  only their time of update; resources are found or reported as missing, and can be updated.
\<close>

definition stores :: "'s raw_repository \<Rightarrow> ('s \<Rightarrow> string \<Rightarrow> Operation option) \<Rightarrow> bool" where
  "stores R ops \<longleftrightarrow>
     (\<forall>i w. \<exists>w'. ops w' = ops w \<and> r_Get R OperationType (by_id i) w =
        (case ops w i of None \<Rightarrow> Inl ErrNotFoundInStorage | Some op \<Rightarrow> Inr (OperationObject op), w')) \<and>
     (\<forall>op w. \<exists>x w' t. r_Update R (OperationObject op) [] [] w = (Inr x, w') \<and> ops w' = (ops w)(ID op \<mapsto> op\<lparr>UpdatedAt := t\<rparr>)) \<and>
     (\<forall>t i w. t \<noteq> OperationType \<longrightarrow> (\<exists>r w'. r_Get R t (by_id i) w = (r, w') \<and> ops w' = ops w \<and>
        (case r of Inl err \<Rightarrow> err = ErrNotFoundInStorage | Inr x \<Rightarrow> GetType x = t))) \<and>
     (\<forall>x w. GetType x \<noteq> OperationType \<longrightarrow> (\<exists>y w'. r_Update R x [] [] w = (Inr y, w') \<and> ops w' = ops w)) \<and>
     (\<forall>t cs w. t \<noteq> OperationType \<longrightarrow> ops (snd (r_Delete R t cs w)) = ops w) \<and>
     (\<forall>op w. ops (snd (r_Create R (OperationObject op) w)) = ops w \<or>
        (\<exists>t. ops (snd (r_Create R (OperationObject op) w)) = (ops w)(ID op \<mapsto> op\<lparr>UpdatedAt := t\<rparr>))) \<and>
     (\<forall>q ps w. ops (snd (r_QueryForList R OperationType q ps w)) = ops w) \<and>
     (\<forall>cs w. ops (snd (r_Count R OperationType cs w)) = ops w)"

definition reliable :: "'s scheduler \<Rightarrow> ('s \<Rightarrow> string \<Rightarrow> Operation option) \<Rightarrow> bool" where
  "reliable S ops \<longleftrightarrow> stores (s_repository S) ops \<and> stores (s_storage S) ops \<and>
     (\<forall>w. \<exists>w'. Beginx (s_db S) w = (None, w') \<and> ops w' = ops w) \<and>
     (\<forall>w. \<exists>w'. Commit (s_db S) w = (None, w') \<and> ops w' = ops w) \<and>
     (\<forall>w. ops (snd (s_now S w)) = ops w) \<and> (\<forall>b w. ops (snd (s_wait S b w)) = ops w)"

lemma storesD:
  assumes "stores R ops"
  shows "\<exists>w'. ops w' = ops w \<and> r_Get R OperationType (by_id i) w =
      (case ops w i of None \<Rightarrow> Inl ErrNotFoundInStorage | Some op \<Rightarrow> Inr (OperationObject op), w')"
    and "\<exists>x w' t. r_Update R (OperationObject op) [] [] w = (Inr x, w') \<and> ops w' = (ops w)(ID op \<mapsto> op\<lparr>UpdatedAt := t\<rparr>)"
    and "ty \<noteq> OperationType \<Longrightarrow> \<exists>r w'. r_Get R ty (by_id i) w = (r, w') \<and> ops w' = ops w \<and>
      (case r of Inl err \<Rightarrow> err = ErrNotFoundInStorage | Inr x \<Rightarrow> GetType x = ty)"
    and "GetType x \<noteq> OperationType \<Longrightarrow> \<exists>y w'. r_Update R x [] [] w = (Inr y, w') \<and> ops w' = ops w"
    and "ty \<noteq> OperationType \<Longrightarrow> ops (snd (r_Delete R ty cs w)) = ops w"
    and "ops (snd (r_Create R (OperationObject op) w)) = ops w \<or>
      (\<exists>t. ops (snd (r_Create R (OperationObject op) w)) = (ops w)(ID op \<mapsto> op\<lparr>UpdatedAt := t\<rparr>))"
    and "ops (snd (r_QueryForList R OperationType q ps w)) = ops w"
    and "ops (snd (r_Count R OperationType cs w)) = ops w"
proof -
  note L = assms [unfolded stores_def]
  show "\<exists>w'. ops w' = ops w \<and> r_Get R OperationType (by_id i) w =
      (case ops w i of None \<Rightarrow> Inl ErrNotFoundInStorage | Some op \<Rightarrow> Inr (OperationObject op), w')" using L by simp
  show "\<exists>x w' t. r_Update R (OperationObject op) [] [] w = (Inr x, w') \<and> ops w' = (ops w)(ID op \<mapsto> op\<lparr>UpdatedAt := t\<rparr>)"
    using L by simp
  show "\<exists>r w'. r_Get R ty (by_id i) w = (r, w') \<and> ops w' = ops w \<and>
      (case r of Inl err \<Rightarrow> err = ErrNotFoundInStorage | Inr x \<Rightarrow> GetType x = ty)" if "ty \<noteq> OperationType" using L that by simp
  show "\<exists>y w'. r_Update R x [] [] w = (Inr y, w') \<and> ops w' = ops w" if "GetType x \<noteq> OperationType" using L that by simp
  show "ops (snd (r_Delete R ty cs w)) = ops w" if "ty \<noteq> OperationType" using L that by simp
  show "ops (snd (r_Create R (OperationObject op) w)) = ops w \<or>
      (\<exists>t. ops (snd (r_Create R (OperationObject op) w)) = (ops w)(ID op \<mapsto> op\<lparr>UpdatedAt := t\<rparr>))" using L by simp
  show "ops (snd (r_QueryForList R OperationType q ps w)) = ops w" using L by simp
  show "ops (snd (r_Count R OperationType cs w)) = ops w" using L by simp
qed

text \<open>A call that returns and relates the operations before, its value and the operations after.\<close>

definition achieves :: "('s \<Rightarrow> 'o) \<Rightarrow> ('o \<Rightarrow> 'a \<Rightarrow> 'o \<Rightarrow> bool) \<Rightarrow> ('s sched, 'a) call \<Rightarrow> bool" where
  "achieves ops Q f \<longleftrightarrow> (\<forall>s. \<exists>x s'. f s = (Returns x, s') \<and> Q (ops (sc_world s)) x (ops (sc_world s')))"

lemma achievesD:
  assumes "achieves ops Q f"
  obtains x s' where "f s = (Returns x, s')" "Q (ops (sc_world s)) x (ops (sc_world s'))"
  using assms unfolding achieves_def by blast

lemma achieves_returns: "(\<And>a. Q a x a) \<Longrightarrow> achieves ops Q (returns x)"
  by (simp add: achieves_def returns_def)

lemma achieves_call_then:
  assumes f: "achieves ops (\<lambda>a x b. b = a \<and> P x) f" and g: "\<And>x. P x \<Longrightarrow> achieves ops Q (g x)"
  shows "achieves ops Q (call_then f g)"
  unfolding achieves_def
proof
  fix s
  obtain x s1 where 1: "f s = (Returns x, s1)" "ops (sc_world s1) = ops (sc_world s)" "P x" using achievesD [OF f] by blast
  obtain y s2 where "g x s1 = (Returns y, s2)" "Q (ops (sc_world s1)) y (ops (sc_world s2))" using achievesD [OF g [OF 1(3)]] by blast
  with 1 show "\<exists>x s'. call_then f g s = (Returns x, s') \<and> Q (ops (sc_world s)) x (ops (sc_world s'))" by auto
qed

lemma achieves_quiet_then:
  assumes "achieves ops (\<lambda>a x b. b = a) f" and "\<And>x. achieves ops Q (g x)"
  shows "achieves ops Q (call_then f g)"
  using achieves_call_then [of ops "\<lambda>_. True" f Q g] assms by simp

lemma achieves_InTransaction:
  assumes S: "reliable S ops" and f: "achieves ops Q f"
  shows "achieves ops Q (s_InTransaction S f)"
  unfolding achieves_def
proof
  fix s :: "'a sched"
  obtain w1 where b: "Beginx (s_db S) (sc_world s) = (None, w1)" "ops w1 = ops (sc_world s)" using S by (auto simp: reliable_def) metis
  obtain x s1 where 1: "f (s\<lparr>sc_world := w1\<rparr>) = (Returns x, s1)" "Q (ops w1) x (ops (sc_world s1))"
    using achievesD [OF f, of "s\<lparr>sc_world := w1\<rparr>"] by auto
  obtain w2 where "Commit (s_db S) (sc_world s1) = (None, w2)" "ops w2 = ops (sc_world s1)" using S by (auto simp: reliable_def) metis
  with b 1 show "\<exists>x s'. s_InTransaction S f s = (Returns x, s') \<and> Q (ops (sc_world s)) x (ops (sc_world s'))"
    by (simp add: s_InTransaction_def Let_def)
qed

lemma GetType_set [simp]: "GetType (SetReady b x) = GetType x" "GetType (set_usable x) = GetType x"
  by (cases x; simp add: set_usable_def)+

lemma updateResource_achieves:
  assumes R: "stores R ops" and f: "GetType (f obj) \<noteq> OperationType"
  shows "achieves ops (\<lambda>a x b. b = a) (updateResource R (Some obj) f)"
  unfolding achieves_def
proof
  fix s :: "'a sched"
  obtain y w' where "r_Update R (f obj) [] [] (sc_world s) = (Inr y, w')" "ops w' = ops (sc_world s)" using storesD(4) [OF R f] by blast
  then show "\<exists>x s'. updateResource R (Some obj) f s = (Returns x, s') \<and> ops (sc_world s') = ops (sc_world s)"
    by (simp add: updateResource_def on_error_def repo_call_def)
qed

lemma fetchAndUpdateResource_achieves:
  assumes R: "stores R ops" and t: "t \<noteq> OperationType" and f: "\<And>x. GetType (f x) = GetType x"
  shows "achieves ops (\<lambda>a x b. b = a) (fetchAndUpdateResource R i t f)"
  unfolding achieves_def
proof
  fix s :: "'a sched"
  obtain r w' where get: "r_Get R t (by_id i) (sc_world s) = (r, w')" "ops w' = ops (sc_world s)"
    "case r of Inl err \<Rightarrow> err = ErrNotFoundInStorage | Inr x \<Rightarrow> GetType x = t" using storesD(3) [OF R t] by blast
  show "\<exists>x s'. fetchAndUpdateResource R i t f s = (Returns x, s') \<and> ops (sc_world s') = ops (sc_world s)"
  proof (cases r)
    case (Inl err)
    with get show ?thesis by (simp add: fetchAndUpdateResource_def repo_call_def)
  next
    case (Inr x)
    then have "GetType (f x) \<noteq> OperationType" using get(3) t f by simp
    then obtain y s' where "updateResource R (Some x) f (s\<lparr>sc_world := w'\<rparr>) = (Returns y, s')" "ops (sc_world s') = ops w'"
      using achievesD [OF updateResource_achieves [OF R], of f x "s\<lparr>sc_world := w'\<rparr>"] by auto
    with Inr get show ?thesis by (simp add: fetchAndUpdateResource_def repo_call_def returns_def)
  qed
qed

lemma updateTransitiveResources_achieves:
  assumes R: "stores R ops" and f: "\<And>x. GetType (f x) = GetType x" and rs: "\<forall>r \<in> set rs. rel_Type r \<noteq> OperationType"
  shows "achieves ops (\<lambda>a x b. b = a) (updateTransitiveResources R rs f)"
  using rs
proof (induction rs)
  case (Cons r rs)
  then show ?case
    using fetchAndUpdateResource_achieves [OF R _ f] by (auto intro!: achieves_quiet_then achieves_returns)
qed (simp add: achieves_returns)


text \<open>The operation with a new state and, unless it has one, an error.\<close>

definition with_outcome :: "OperationState \<Rightarrow> error option \<Rightarrow> Operation \<Rightarrow> Operation" where
  "with_outcome st err op = op\<lparr>op_State := st,
     op_Errors := (if op_Errors op = None then map_option ToHTTPError err else op_Errors op)\<rparr>"

lemma with_outcome_simps [simp]:
  "ID (with_outcome st err op) = ID op" "op_State (with_outcome st err op) = st"
  "DeletionScheduled (with_outcome st err op) = DeletionScheduled op"
  "op_Errors (with_outcome st err op) = (if op_Errors op = None then map_option ToHTTPError err else op_Errors op)"
  by (simp_all add: with_outcome_def)

lemma updateOperationState_stores:
  assumes "stores R ops"
  shows "\<exists>s' t. updateOperationState R op st err s = ((None, with_outcome st err op), s') \<and>
    ops (sc_world s') = (ops (sc_world s))(ID op \<mapsto> (with_outcome st err op)\<lparr>UpdatedAt := t\<rparr>)"
proof -
  have eq: "(case err of None \<Rightarrow> op\<lparr>op_State := st\<rparr> | Some e \<Rightarrow> if op_Errors (op\<lparr>op_State := st\<rparr>) = None
      then op\<lparr>op_State := st, op_Errors := Some (ToHTTPError e)\<rparr> else op\<lparr>op_State := st\<rparr>) = with_outcome st err op"
    by (cases err) (auto simp: with_outcome_def)
  obtain x w' t where "r_Update R (OperationObject (with_outcome st err op)) [] [] (sc_world s) = (Inr x, w')"
      "ops w' = (ops (sc_world s))(ID op \<mapsto> (with_outcome st err op)\<lparr>UpdatedAt := t\<rparr>)"
    using storesD(2) [OF assms, of "with_outcome st err op" "sc_world s"] by auto
  then show ?thesis unfolding updateOperationState_def Let_def eq by auto
qed

lemma succeed_operation_achieves:
  assumes R: "stores (s_storage S) ops" and fin: "finished_operation op = (st, op')"
    and obj: "op_Type op = CREATE \<and> st = SUCCEEDED \<longrightarrow> (\<exists>x. obj = Some x \<and> GetType x \<noteq> OperationType)"
    and rs: "\<forall>r \<in> set (TransitiveResources op). rel_Type r \<noteq> OperationType"
  shows "achieves ops (\<lambda>a _ b. \<exists>t. b = a(ID op \<mapsto> (with_outcome st None op')\<lparr>UpdatedAt := t\<rparr>)) (succeed_operation S obj op)"
proof -
  have op': "ID op' = ID op" "op_Type op' = op_Type op" "TransitiveResources op' = TransitiveResources op"
    using fin by (auto simp: finished_operation_def split: if_splits)
  have up: "achieves ops (\<lambda>a _ b. \<exists>t. b = a(ID op \<mapsto> (with_outcome st None op')\<lparr>UpdatedAt := t\<rparr>))
      (\<lambda>s. case updateOperationState (s_storage S) op' st None s of ((Some err, _), s') \<Rightarrow> (Fails err, s') | ((None, _), s') \<Rightarrow> (Returns x, s'))"
    for x :: "Object option"
    unfolding achieves_def
  proof
    fix s :: "'a sched"
    obtain s' t where "updateOperationState (s_storage S) op' st None s = ((None, with_outcome st None op'), s')"
      "ops (sc_world s') = (ops (sc_world s))(ID op \<mapsto> (with_outcome st None op')\<lparr>UpdatedAt := t\<rparr>)"
      using updateOperationState_stores [OF R, of op' st None s] op' by auto
    then show "\<exists>y s'. (case updateOperationState (s_storage S) op' st None s of ((Some err, _), s') \<Rightarrow> (Fails err, s')
        | ((None, _), s') \<Rightarrow> (Returns x, s')) = (Returns y, s') \<and>
        (\<exists>t. ops (sc_world s') = (ops (sc_world s))(ID op \<mapsto> (with_outcome st None op')\<lparr>UpdatedAt := t\<rparr>))" by auto
  qed
  have "achieves ops (\<lambda>a x b. b = a) (call_then (updateResource (s_storage S) obj set_usable) (\<lambda>obj.
      call_then (updateTransitiveResources (s_storage S) (TransitiveResources op') (SetReady True)) (\<lambda>_. returns (Some obj))))"
    if created: "op_Type op = CREATE \<and> st = SUCCEEDED"
  proof -
    obtain x where x: "obj = Some x" "GetType x \<noteq> OperationType" using obj created by blast
    have "achieves ops (\<lambda>a x b. b = a) (updateTransitiveResources (s_storage S) (TransitiveResources op') (SetReady True))"
      using updateTransitiveResources_achieves [OF R] rs op'(3) by simp
    then show ?thesis
      unfolding x using updateResource_achieves [OF R, of set_usable x] x(2) by (auto intro!: achieves_quiet_then achieves_returns)
  qed
  then show ?thesis
    unfolding succeed_operation_def fin prod.case op'(2) by (intro achieves_quiet_then up) (auto intro!: achieves_returns)
qed

lemma fail_operation_achieves:
  assumes R: "stores (s_storage S) ops" and ty: "ResourceType op \<noteq> OperationType"
    and rs: "\<forall>r \<in> set (TransitiveResources op). rel_Type r \<noteq> OperationType"
  shows "achieves ops (\<lambda>a op' b. \<exists>t st. st \<in> {FAILED, SUCCEEDED} \<and>
      (st = SUCCEEDED \<longrightarrow> IsForceDeleteCascadeOperation op \<and> \<not> InOrphanMitigationState op) \<and>
      op' = with_outcome st (Some err) op \<and> b = a(ID op \<mapsto> op'\<lparr>UpdatedAt := t\<rparr>)) (fail_operation S err op)"
  (is "achieves ops ?Q _")
proof -
  have ready: "achieves ops (\<lambda>a x b. b = a) (if op_Type op = CREATE \<and> op_State op = FAILED
      then call_then (fetchAndUpdateResource (s_storage S) (ResourceID op) (ResourceType op) (SetReady False))
        (\<lambda>_. updateTransitiveResources (s_storage S) (TransitiveResources op) (SetReady False)) else returns ())"
    using fetchAndUpdateResource_achieves [OF R ty] updateTransitiveResources_achieves [OF R _ rs]
    by (auto intro!: achieves_quiet_then achieves_returns)
  have up: "achieves ops ?Q (\<lambda>s. case forced_state S op s of (newState, s') \<Rightarrow>
      (case updateOperationState (s_storage S) op newState (Some err) s' of ((Some opErr, _), s'') \<Rightarrow> (Fails (h opErr), s'')
       | ((None, op), s'') \<Rightarrow> (Returns op, s'')))" for h
    unfolding achieves_def
  proof
    fix s :: "'a sched"
    obtain st s1 where st: "forced_state S op s = (st, s1)" by fastforce
    have "ops (sc_world s1) = ops (sc_world s)"
      using st storesD(5) [OF R ty, of "by_id (ResourceID op)" "sc_world s"]
      by (auto simp: forced_state_def repo_call_def split: if_splits prod.splits sum.splits)
    moreover have "st \<in> {FAILED, SUCCEEDED}" "st = SUCCEEDED \<longrightarrow> IsForceDeleteCascadeOperation op \<and> \<not> InOrphanMitigationState op"
      using st by (auto simp: forced_state_def SUCCEEDED_def FAILED_def split: if_splits prod.splits outcome.splits)
    moreover obtain s' t where up: "updateOperationState (s_storage S) op st (Some err) s1 = ((None, with_outcome st (Some err) op), s')"
        "ops (sc_world s') = (ops (sc_world s1))(ID op \<mapsto> (with_outcome st (Some err) op)\<lparr>UpdatedAt := t\<rparr>)"
      using updateOperationState_stores [OF R, of op st "Some err" s1] by blast
    ultimately have "?Q (ops (sc_world s)) (with_outcome st (Some err) op) (ops (sc_world s'))" by (intro exI conjI) auto
    with up(1) st show "\<exists>x s'. (case forced_state S op s of (newState, s') \<Rightarrow>
        (case updateOperationState (s_storage S) op newState (Some err) s' of ((Some opErr, _), s'') \<Rightarrow> (Fails (h opErr), s'')
         | ((None, op), s'') \<Rightarrow> (Returns op, s''))) = (Returns x, s') \<and> ?Q (ops (sc_world s)) x (ops (sc_world s'))"
      by (intro exI [of _ "with_outcome st (Some err) op"] exI [of _ s']) simp
  qed
  show ?thesis unfolding fail_operation_def by (intro achieves_quiet_then ready up)
qed


text \<open>Calls that keep a property of the stored operations, whatever their outcome.\<close>

definition preserves :: "('s \<Rightarrow> 'o) \<Rightarrow> ('o \<Rightarrow> bool) \<Rightarrow> ('s sched, 'a) call \<Rightarrow> bool" where
  "preserves ops I f \<longleftrightarrow> (\<forall>s. I (ops (sc_world s)) \<longrightarrow> I (ops (sc_world (snd (f s)))))"

lemma preservesD: "preserves ops I f \<Longrightarrow> f s = (r, s') \<Longrightarrow> I (ops (sc_world s)) \<Longrightarrow> I (ops (sc_world s'))"
  unfolding preserves_def by (metis snd_conv)

lemma preserves_call_then: "preserves ops I f \<Longrightarrow> (\<And>x. preserves ops I (g x)) \<Longrightarrow> preserves ops I (call_then f g)"
  unfolding preserves_def call_then_def by (auto split: prod.splits outcome.splits)

lemma preserves_on_error: "preserves ops I f \<Longrightarrow> (\<And>x. preserves ops I (g x)) \<Longrightarrow> preserves ops I (on_error f g)"
  unfolding preserves_def on_error_def by (auto split: prod.splits outcome.splits)

lemma preserves_basic: "preserves ops I (returns x)" "preserves ops I (fails err)" "preserves ops I panics"
  by (simp_all add: preserves_def returns_def fails_def panics_def)

lemma preserves_repo_call: "(\<And>w. I (ops w) \<Longrightarrow> I (ops (snd (f w)))) \<Longrightarrow> preserves ops I (repo_call f)"
  unfolding preserves_def repo_call_def by (auto split: prod.splits sum.splits) (metis snd_conv)+

lemma preserves_time_Now: "reliable S ops \<Longrightarrow> preserves ops I (time_Now S)"
  unfolding preserves_def time_Now_def reliable_def by (auto split: prod.splits) (metis snd_conv)

lemmas preserves_intros = preserves_call_then preserves_on_error preserves_basic preserves_time_Now

text \<open>The stored operation has failed with a given error.\<close>

definition failed_with :: "string \<Rightarrow> http_error option \<Rightarrow> (string \<Rightarrow> Operation option) \<Rightarrow> bool" where
  "failed_with i e ops \<longleftrightarrow> (\<exists>o1. ops i = Some o1 \<and> op_State o1 = FAILED \<and> op_Errors o1 = e)"

lemma preconditions_failed_with:
  assumes S: "reliable S ops" and op: "op_State op = FAILED" "op_Errors op = Some e"
  shows "preserves ops (failed_with (ID op) (Some e)) (executeOperationPreconditions S op)"
    (is "preserves ops ?I _")
proof -
  have R: "stores (s_repository S) ops" using S by (simp add: reliable_def)
  have up: "preserves ops ?I (repo_call (r_Update (s_repository S) (OperationObject op) [] []))"
  proof (rule preserves_repo_call)
    fix w
    obtain x w' t where "r_Update (s_repository S) (OperationObject op) [] [] w = (Inr x, w')" "ops w' = (ops w)(ID op \<mapsto> op\<lparr>UpdatedAt := t\<rparr>)"
      using storesD(2) [OF R] by blast
    then show "?I (ops (snd (r_Update (s_repository S) (OperationObject op) [] [] w)))" using op by (simp add: failed_with_def)
  qed
  have cr: "preserves ops ?I (repo_call (r_Create (s_repository S) (OperationObject op)))"
  proof (rule preserves_repo_call)
    fix w
    assume "?I (ops w)"
    then show "?I (ops (snd (r_Create (s_repository S) (OperationObject op) w)))"
      using storesD(6) [OF R, of op w] op by (auto simp: failed_with_def)
  qed
  have store: "preserves ops ?I (storeOrUpdateOperation S op b)" for b
    unfolding storeOrUpdateOperation_def using up cr by (cases b) (auto intro!: preserves_intros)
  have last: "preserves ops ?I (getResourceLastOperation S op b)" for b
  proof -
    have "preserves ops ?I (repo_call (r_QueryForList (s_repository S) OperationType q ps))"
      "preserves ops ?I (repo_call (r_Count (s_repository S) OperationType cs))" for q ps cs
      using storesD(7,8) [OF R] by (auto intro!: preserves_repo_call)
    then show ?thesis
      unfolding getResourceLastOperation_def by (auto intro!: preserves_intros split: Object.splits)
  qed
  have timeouts: "preserves ops ?I (validateOperationDoesNotExceedTimeouts S op)"
    unfolding validateOperationDoesNotExceedTimeouts_def using S by (auto intro!: preserves_intros)
  have timeout: "preserves ops ?I (\<lambda>s. case updateOperationState (s_repository S) (op\<lparr>DeletionScheduled := 0\<rparr>) FAILED (Some err) s of
      ((Some x, y), s') \<Rightarrow> (Fails (f x), s') | ((None, y), s') \<Rightarrow> (Fails err, s'))" for err f
    unfolding preserves_def
  proof (intro allI impI)
    fix s :: "'a sched"
    obtain s' t where "updateOperationState (s_repository S) (op\<lparr>DeletionScheduled := 0\<rparr>) FAILED (Some err) s =
        ((None, with_outcome FAILED (Some err) (op\<lparr>DeletionScheduled := 0\<rparr>)), s')"
      "ops (sc_world s') = (ops (sc_world s))(ID op \<mapsto> (with_outcome FAILED (Some err) (op\<lparr>DeletionScheduled := 0\<rparr>))\<lparr>UpdatedAt := t\<rparr>)"
      using updateOperationState_stores [OF R, of "op\<lparr>DeletionScheduled := 0\<rparr>" FAILED "Some err" s] by auto
    then show "?I (ops (sc_world (snd (case updateOperationState (s_repository S) (op\<lparr>DeletionScheduled := 0\<rparr>) FAILED (Some err) s of
        ((Some x, y), s') \<Rightarrow> (Fails (f x), s') | ((None, y), s') \<Rightarrow> (Fails err, s')))))"
      using op by (simp add: failed_with_def)
  qed
  show ?thesis
    unfolding executeOperationPreconditions_def
    by (auto intro!: preserves_call_then preserves_basic timeouts timeout last store split: option.splits sum.splits)
qed

lemma schedule_failed_with:
  assumes S: "reliable S ops" and op: "op_State op = FAILED" "op_Errors op = Some e"
  shows "preserves ops (failed_with (ID op) (Some e)) (ScheduleAsyncStorageAction S op action)"
  unfolding preserves_def
proof (intro allI impI)
  fix s :: "'a sched"
  assume I: "failed_with (ID op) (Some e) (ops (sc_world s))"
  obtain r1 s1 where pre: "executeOperationPreconditions S op (s\<lparr>workers := workers s + 1\<rparr>) = (r1, s1)" by fastforce
  have "failed_with (ID op) (Some e) (ops (sc_world s1))"
    using preservesD [OF preconditions_failed_with [OF S op] pre] I by simp
  with I pre show "failed_with (ID op) (Some e) (ops (sc_world (snd (ScheduleAsyncStorageAction S op action s))))"
    by (cases r1) (auto simp: ScheduleAsyncStorageAction_def)
qed


lemma failure_outcome:
  assumes S: "reliable S ops" "typed_repository S" and ty: "ResourceType op \<noteq> OperationType"
    and rs: "\<forall>r \<in> set (TransitiveResources op). rel_Type r \<noteq> OperationType"
    and run: "handleActionResponseFailure S err op s = (r, s')"
  shows "(\<exists>e. r = Fails e) \<and> (\<exists>o1. ops (sc_world s') (ID op) = Some o1 \<and> op_State o1 \<in> {FAILED, SUCCEEDED} \<and>
    (op_State o1 = SUCCEEDED \<longrightarrow> IsForceDeleteCascadeOperation op \<and> \<not> InOrphanMitigationState op) \<and>
    op_Errors o1 = (if op_Errors op = None then Some (ToHTTPError err) else op_Errors op))"
proof -
  have T: "stores (s_storage S) ops" using S by (simp add: reliable_def)
  obtain op' s1 where tx: "s_InTransaction S (fail_operation S err op) s = (Returns op', s1)"
    and "\<exists>t st. st \<in> {FAILED, SUCCEEDED} \<and> (st = SUCCEEDED \<longrightarrow> IsForceDeleteCascadeOperation op \<and> \<not> InOrphanMitigationState op) \<and>
      op' = with_outcome st (Some err) op \<and> ops (sc_world s1) = (ops (sc_world s))(ID op \<mapsto> op'\<lparr>UpdatedAt := t\<rparr>)"
    using achievesD [OF achieves_InTransaction [OF S(1) fail_operation_achieves [OF T ty rs]], of err s] by blast
  then obtain t st where st: "st \<in> {FAILED, SUCCEEDED}" "st = SUCCEEDED \<longrightarrow> IsForceDeleteCascadeOperation op \<and> \<not> InOrphanMitigationState op"
    and op': "op' = with_outcome st (Some err) op" and w1: "ops (sc_world s1) = (ops (sc_world s))(ID op \<mapsto> op'\<lparr>UpdatedAt := t\<rparr>)" by blast
  let ?e = "if op_Errors op = None then Some (ToHTTPError err) else op_Errors op"
  obtain e where e: "?e = Some e" "op_Errors op' = Some e" unfolding op' by (cases "op_Errors op") auto
  show ?thesis
  proof (cases "InOrphanMitigationState op'")
    case False
    then have "r = Fails err \<and> s' = s1" using run tx by (simp add: handleActionResponseFailure_def returns_def fails_def)
    with st w1 show ?thesis by (auto simp: op')
  next
    case True
    then have fd: "st = FAILED" using st by (auto simp: op' InOrphanMitigationState_def)
    then have op'f: "op_State op' = FAILED" "op_Errors op' = Some e" "ID op' = ID op" using e by (simp_all add: op')
    have I1: "failed_with (ID op) (Some e) (ops (sc_world s1))" using w1 op'f by (simp add: failed_with_def)
    obtain now w2 where n: "s_now S (sc_world s1) = (now, w2)" by fastforce
    obtain now2 w3 where n2: "s_now S w2 = (now2, w3)" by fastforce
    obtain b w4 where wt: "s_wait S (DeletionScheduled op' + actionTimeout S * 2 < now2) w3 = (b, w4)" by fastforce
    have w: "ops w2 = ops (sc_world s1)" "ops w4 = ops (sc_world s1)"
      using S(1) n n2 wt unfolding reliable_def by (metis snd_conv)+
    obtain r5 s5 where sch: "ScheduleAsyncStorageAction S op' (deletionAction S op') (s1\<lparr>sc_world := w4\<rparr>) = (r5, s5)" by fastforce
    have "r5 \<noteq> Panicked"
    proof -
      have "no_panic (executeOperationPreconditions S op')" by (rule no_panic_preconditions [OF S(2)])
      then show ?thesis using sch unfolding no_panic_def ScheduleAsyncStorageAction_def
        by (auto split: if_splits prod.splits outcome.splits) (metis fst_conv)
    qed
    moreover have "failed_with (ID op) (Some e) (ops (sc_world s5))"
      using preservesD [OF schedule_failed_with [OF S(1) op'f(1,2)] sch] I1 w op'f(3) by simp
    ultimately have "(\<exists>e. r = Fails e) \<and> failed_with (ID op) (Some e) (ops (sc_world s'))"
      using run tx True n n2 wt sch I1 w
      by (cases r5; cases b)
        (auto simp: handleActionResponseFailure_def time_Now_def returns_def fails_def on_error_def split: if_splits)
    with e show ?thesis by (auto simp: failed_with_def SUCCEEDED_def FAILED_def)
  qed
qed



subsection \<open>Concurrent operations\<close>

text \<open>
  When a new operation may follow the last one of its resource.  While the last one is in progress,
  only a deletion may follow a create or update, and an operation of the same type as a further run or
  as the orphan mitigation of the last one.  After a deletion that still has to be mitigated, only
  deletions.
\<close>

definition compatible :: "Operation \<Rightarrow> Operation \<Rightarrow> bool" where
  "compatible op prev \<longleftrightarrow> op_Type op \<in> {CREATE, UPDATE, DELETE} \<and> op_Type prev \<in> {CREATE, UPDATE, DELETE} \<and>
     (if op_State prev = IN_PROGRESS
      then op_Type op = DELETE \<and> op_Type prev \<noteq> DELETE \<or>
           op_Type op = op_Type prev \<and> (InOrphanMitigationState prev \<or> Reschedule prev \<and> Reschedule op)
      else op_Type prev = DELETE \<and> InOrphanMitigationState prev \<longrightarrow> op_Type op = DELETE)"

lemma checkForConcurrentOperations_None_iff: "checkForConcurrentOperations op prev = None \<longleftrightarrow> compatible op prev"
  by (auto simp: checkForConcurrentOperations_def compatible_def Let_def CREATE_def UPDATE_def DELETE_def)

lemma getResourceLastOperation_Returns:
  assumes "getResourceLastOperation S op b s = (Returns x, s')"
  shows "\<exists>w xs w'. r_QueryForList (s_repository S) OperationType ''QueryForLastOperationsPerResource''
      [''id_list'' \<mapsto> ResourceID op, ''resource_type'' \<mapsto> ResourceType op] w = (Inr xs, w') \<and>
    (case x of None \<Rightarrow> xs = [] | Some (prev, _) \<Rightarrow> xs \<noteq> [] \<and> hd xs = OperationObject prev)"
proof -
  obtain xs s1 where q: "on_error (repo_call (r_QueryForList (s_repository S) OperationType ''QueryForLastOperationsPerResource''
      [''id_list'' \<mapsto> ResourceID op, ''resource_type'' \<mapsto> ResourceType op])) (\<lambda>err. fails (handled err (ObjectType_String OperationType))) s
      = (Returns xs, s1)"
    and rest: "(if length xs = 0 then returns None else call_then
        (if b then call_then (on_error (repo_call (r_Count (s_repository S) OperationType (by_id (ID op))))
            (\<lambda>err. fails (handled err (ObjectType_String OperationType)))) (\<lambda>count. returns (count > 0)) else returns False)
        (\<lambda>e. case xs ! 0 of OperationObject prev \<Rightarrow> returns (Some (prev, e)) | _ \<Rightarrow> panics)) s1 = (Returns x, s')"
    using assms unfolding getResourceLastOperation_def by (rule call_then_ReturnsE)
  have "\<exists>w'. r_QueryForList (s_repository S) OperationType ''QueryForLastOperationsPerResource''
      [''id_list'' \<mapsto> ResourceID op, ''resource_type'' \<mapsto> ResourceType op] (sc_world s) = (Inr xs, w')"
    using q by (auto simp: on_error_def repo_call_def fails_def split: prod.splits sum.splits)
  moreover have "case x of None \<Rightarrow> xs = [] | Some (prev, _) \<Rightarrow> xs \<noteq> [] \<and> hd xs = OperationObject prev"
  proof (cases xs)
    case Nil
    with rest show ?thesis by (simp add: returns_def)
  next
    case (Cons y ys)
    with rest show ?thesis
      by (auto simp: returns_def panics_def elim!: call_then_ReturnsE split: Object.splits)
  qed
  ultimately show ?thesis by blast
qed



subsection \<open>An example\<close>

text \<open>A store of operations, and a scheduler on it with one worker.\<close>

type_synonym op_world = "string \<Rightarrow> Operation option"

definition put_operation :: "Object \<Rightarrow> op_world \<Rightarrow> (error, Object) result \<times> op_world" where
  "put_operation x w = (Inr x, case x of OperationObject op \<Rightarrow> w(ID op \<mapsto> op) | _ \<Rightarrow> w)"

definition get_operation :: "ObjectType \<Rightarrow> Criterion list \<Rightarrow> op_world \<Rightarrow> (error, Object) result \<times> op_world" where
  "get_operation t cs w =
     (if t = OperationType
      then case w (concat (concat (map RightOp cs))) of None \<Rightarrow> Inl ErrNotFoundInStorage | Some op \<Rightarrow> Inr (OperationObject op)
      else Inl ErrNotFoundInStorage, w)"

definition op_repository :: "op_world raw_repository" where
  "op_repository = \<lparr>r_Create = put_operation, r_Get = get_operation, r_GetForUpdate = get_operation,
     r_List = (\<lambda>_ _ w. (Inr [], w)), r_ListNoLabels = (\<lambda>_ _ w. (Inr [], w)), r_Count = (\<lambda>_ _ w. (Inr 0, w)),
     r_CountLabelValues = (\<lambda>_ _ w. (Inr 0, w)), r_QueryForList = (\<lambda>_ _ _ w. (Inr [], w)),
     r_DeleteReturning = (\<lambda>_ _ w. (Inr [], w)), r_Delete = (\<lambda>_ _ w. (Inr (), w)),
     r_Update = (\<lambda>x _ _. put_operation x), r_UpdateLabels = (\<lambda>_ _ _ _ w. (Inr (), w))\<rparr>"

definition one_worker :: "op_world scheduler" where
  "one_worker = \<lparr>s_repository = op_repository, s_storage = op_repository,
     s_db = \<lparr>Beginx = (\<lambda>w. (None, w)), Commit = (\<lambda>w. (None, w)), Rollback = (\<lambda>w. (None, w))\<rparr>,
     s_now = (\<lambda>w. (0, w)), s_wait = (\<lambda>_ w. (False, w)), s_poolSize = 1, actionTimeout = 1,
     reconciliationOperationTimeout = 1, cascadeOrphanMitigationTimeout = 1,
     s_fmt = \<lparr>fmt_Operation = (\<lambda>_. ''''), fmt_Errors = (\<lambda>_. ''''), fmt_Duration = (\<lambda>_. '''')\<rparr>\<rparr>"

definition a_deletion :: Operation where
  "a_deletion = \<lparr>ID = ''op'', CreatedAt = 0, UpdatedAt = 0, Labels = Map.empty, PagingSequence = 0, Ready = True,
     op_Description = '''', op_Type = DELETE, op_State = IN_PROGRESS, ResourceID = ''i'', TransitiveResources = [],
     ResourceType = ServiceInstanceType, op_Errors = None, op_PlatformID = '''', CorrelationID = '''', ExternalID = '''',
     ParentID = '''', CascadeRootID = '''', op_Context = None, Reschedule = False, RescheduleTimestamp = 0, DeletionScheduled = 0\<rparr>"

lemma get_by_id: "concat (concat (map RightOp (by_id i))) = i"
  by (simp add: by_id_def ByField_def NewCriterion_def)

lemma op_repository_stores: "stores op_repository (\<lambda>w. w)"
proof -
  have put: "put_operation x w = (Inr x, w)" if "GetType x \<noteq> OperationType" for x w
    using that by (cases x) (auto simp: put_operation_def)
  have upd: "\<exists>t. w(ID op \<mapsto> op) = w(ID op \<mapsto> op\<lparr>UpdatedAt := t\<rparr>)" for op :: Operation and w
    by (rule exI [of _ "UpdatedAt op"]) simp
  have ops: "put_operation (OperationObject op) w = (Inr (OperationObject op), w(ID op \<mapsto> op))" for op w
    by (simp add: put_operation_def)
  show ?thesis
    unfolding stores_def by (auto simp: op_repository_def get_operation_def get_by_id put ops upd)
qed

lemma one_worker_reliable: "reliable one_worker (\<lambda>w. w)"
  using op_repository_stores by (simp add: reliable_def one_worker_def)

lemma one_worker_typed: "typed_repository one_worker"
  by (simp add: typed_repository_def one_worker_def op_repository_def)

lemma a_deletion_preconditions:
  "executeOperationPreconditions one_worker a_deletion s = (Returns (), s\<lparr>sc_world := (sc_world s)(''op'' \<mapsto> a_deletion)\<rparr>)"
proof -
  have valid: "Operation_Validate a_deletion = Inr ()"
    by (simp add: Operation_Validate_Inr_iff a_deletion_def HasRFC3986ReservedSymbols_def reservedSymbolsRFC3986_def
        strings_ContainsRune_def DELETE_def IN_PROGRESS_def PENDING_def type_names)
  have times: "validateOperationDoesNotExceedTimeouts one_worker a_deletion s = (Returns None, s)"
    by (simp add: validateOperationDoesNotExceedTimeouts_def call_then_def returns_def time_Now_def one_worker_def a_deletion_def)
  have last: "getResourceLastOperation one_worker a_deletion True s = (Returns None, s)"
    by (simp add: getResourceLastOperation_def call_then_def on_error_def repo_call_def one_worker_def op_repository_def returns_def)
  have store: "storeOrUpdateOperation one_worker a_deletion False s = (Returns (), s\<lparr>sc_world := (sc_world s)(''op'' \<mapsto> a_deletion)\<rparr>)"
    by (simp add: storeOrUpdateOperation_def call_then_def on_error_def repo_call_def one_worker_def op_repository_def put_operation_def returns_def)
      (simp add: a_deletion_def)
  have "op_State a_deletion = IN_PROGRESS" by (simp add: a_deletion_def)
  with valid times last store show ?thesis
    by (simp add: executeOperationPreconditions_def IN_PROGRESS_def SUCCEEDED_def FAILED_def)
qed

theorem workers_bounded_witness:
  "\<exists>s h. sched_run one_worker \<lparr>sc_world = Map.empty, workers = 0, jobs = []\<rparr> s \<and> workers s = 1 \<and>
    ScheduleAsyncStorageAction one_worker a_deletion (deletionAction one_worker a_deletion) s = (Fails (HTTPError h), s) \<and> StatusCode h = 503"
proof -
  let ?start = "\<lparr>sc_world = Map.empty, workers = 0, jobs = []\<rparr> :: op_world sched"
  let ?act = "deletionAction one_worker a_deletion"
  let ?s = "\<lparr>sc_world = [''op'' \<mapsto> a_deletion], workers = 1, jobs = [(a_deletion, ?act)]\<rparr>"
  have pool: "s_poolSize one_worker = 1" by (simp add: one_worker_def)
  have "ScheduleAsyncStorageAction one_worker a_deletion ?act ?start = (Returns (), ?s)"
    by (simp add: ScheduleAsyncStorageAction_def a_deletion_preconditions pool)
  then have run: "sched_run one_worker ?start ?s" by (rule sched_async [OF sched_refl])
  from workers_bounded [OF one_worker_typed run, of a_deletion ?act] pool obtain h
    where "ScheduleAsyncStorageAction one_worker a_deletion ?act ?s = (Fails (HTTPError h), ?s)" "StatusCode h = 503" by auto
  with run show ?thesis by (intro exI [of _ ?s] exI [of _ h]) simp
qed



end
