(* ===== verification/Cascade.thy ===== *)
theory Cascade
  imports Scheduler Templates ResourceTypes
begin

text \<open>
  Cascade deletion: the hierarchy of tenants, platforms, brokers, instances and bindings
  (\<open>src/pkg/types/cascade\<close>), the tree of operations that a cascade creates
  (\<open>src/operations/cascade_utils.go\<close>) and the two interceptors that create it.

  What the calls read from their environment is a parameter: the repository, the keys of parent
  labels in the context, the order in which Go walks a map of children, the clock and the
  generator of identifiers.  The descent into the hierarchy need not end when the stored references
  have a cycle, so it is a partial function: \<open>None\<close> means that it does not return.
\<close>

subsection \<open>The hierarchy\<close>

type_synonym ChildrenCriterion = "(ObjectType \<times> Criterion list list) list"

type_synonym CascadeChildren = "(ObjectType \<times> Object list) list"

datatype cascadeObject =
    TenantCascade string string
  | PlatformCascade Platform
  | ServiceBrokerCascade ServiceBroker
  | ServiceInstanceCascade ServiceInstance "string list"

record 's cascade_env =
  ce_TenantIdentifier :: string
  ce_ParentKeys :: "string list"
  ce_walk :: "ObjectType list \<Rightarrow> ObjectType list"
  ce_uuid :: "'s \<Rightarrow> (error, string) result \<times> 's"
  ce_now :: "'s \<Rightarrow> int \<times> 's"

text \<open>A failed type assertion is \<open>None\<close>; the inner \<open>None\<close> is an object without children.\<close>

definition GetCascadeObject :: "'s cascade_env \<Rightarrow> Object \<Rightarrow> cascadeObject option option" where
  "GetCascadeObject env ob =
     (if GetType ob = TenantType then
        (case ob of ResourceObject t \<Rightarrow> Some (Some (TenantCascade (ID t) (ce_TenantIdentifier env))) | _ \<Rightarrow> None)
      else if GetType ob = PlatformType then
        (case ob of PlatformObject p \<Rightarrow> Some (Some (PlatformCascade p)) | _ \<Rightarrow> None)
      else if GetType ob = ServiceBrokerType then
        (case ob of ServiceBrokerObject b \<Rightarrow> Some (Some (ServiceBrokerCascade b)) | _ \<Rightarrow> None)
      else if GetType ob = ServiceInstanceType then
        (case ob of ServiceInstanceObject i \<Rightarrow> Some (Some (ServiceInstanceCascade i (ce_ParentKeys env))) | _ \<Rightarrow> None)
      else Some None)"

definition broker_planIDs :: "ServiceBroker \<Rightarrow> string list" where
  "broker_planIDs sb = concat (map (\<lambda>f. map ID (so_Plans f)) (sb_Services sb))"

definition children_by_label :: "string \<Rightarrow> string list \<Rightarrow> string" where
  "children_by_label i keys =
     (case GetSubQueryWithParams QueryForInstanceChildrenByLabel
        [''PARENT_ID'' \<mapsto> VString i, ''PARENT_KEYS'' \<mapsto> VString (sq @ strings_Join keys (sq @ '','' @ sq) @ sq)] of
        Inl _ \<Rightarrow> '''' | Inr q \<Rightarrow> q)"

definition tenant_children :: "string \<Rightarrow> string \<Rightarrow> ChildrenCriterion" where
  "tenant_children i ident =
     [(PlatformType, [[ByLabel EqualsOperator ident [i]]]),
      (ServiceBrokerType, [[ByLabel EqualsOperator ident [i]]]),
      (ServiceInstanceType, [[ByLabel EqualsOperator ident [i]]])]"

definition platform_children :: "Platform \<Rightarrow> ChildrenCriterion" where
  "platform_children p = [(ServiceInstanceType, [[ByField EqualsOperator ''platform_id'' [ID p]]])]"

definition broker_children :: "ServiceBroker \<Rightarrow> ChildrenCriterion" where
  "broker_children sb = [(ServiceInstanceType, [[ByField InOperator ''service_plan_id'' (broker_planIDs sb)]])]"

definition instance_children :: "ServiceInstance \<Rightarrow> string list \<Rightarrow> ChildrenCriterion" where
  "instance_children si keys =
     [(ServiceBindingType, [[ByField EqualsOperator ''service_instance_id'' [ID si]]]),
      (ServiceInstanceType, [[ByField EqualsOperator ''referenced_instance_id'' [ID si]]] @
         (if length keys > 0 then [[ByExists (children_by_label (ID si) keys)]] else []))]"

primrec GetChildrenCriterion :: "cascadeObject \<Rightarrow> ChildrenCriterion" where
  "GetChildrenCriterion (TenantCascade i ident) = tenant_children i ident"
| "GetChildrenCriterion (PlatformCascade p) = platform_children p"
| "GetChildrenCriterion (ServiceBrokerCascade sb) = broker_children sb"
| "GetChildrenCriterion (ServiceInstanceCascade si keys) = instance_children si keys"

declare tenant_children_def [simp] platform_children_def [simp] broker_children_def [simp] instance_children_def [simp]

text \<open>The children of a type, and a type's children replaced.\<close>

definition children_of :: "CascadeChildren \<Rightarrow> ObjectType \<Rightarrow> Object list option" where
  "children_of children t = map_of children t"

definition put_children :: "ObjectType \<Rightarrow> Object list \<Rightarrow> CascadeChildren \<Rightarrow> CascadeChildren" where
  "put_children t obs children =
     (if t \<in> fst ` set children then map (\<lambda>(u, xs). if u = t then (u, obs) else (u, xs)) children
      else children @ [(t, obs)])"

definition listed :: "CascadeChildren \<Rightarrow> ObjectType \<Rightarrow> Object list" where
  "listed children t = (case children_of children t of None \<Rightarrow> [] | Some obs \<Rightarrow> obs)"

text \<open>
  \<open>CleanDuplicates\<close> of a tenant: instances of its brokers' plans and of its platforms are reached
  through these.  \<open>None\<close> is a failed type assertion.
\<close>

definition plans_of_broker :: "Object \<Rightarrow> string list option" where
  "plans_of_broker ob = (case ob of ServiceBrokerObject sb \<Rightarrow> Some (broker_planIDs sb) | _ \<Rightarrow> None)"

definition as_instance :: "Object \<Rightarrow> ServiceInstance option" where
  "as_instance ob = (case ob of ServiceInstanceObject i \<Rightarrow> Some i | _ \<Rightarrow> None)"

definition CleanDuplicates :: "CascadeChildren \<Rightarrow> CascadeChildren option" where
  "CleanDuplicates children =
     (case children_of children ServiceInstanceType of
        None \<Rightarrow> Some children
      | Some instances \<Rightarrow>
          if length instances = 0 then Some children
          else
            (case (those (map plans_of_broker (listed children ServiceBrokerType)), those (map as_instance instances)) of
               (Some planIDs, Some is) \<Rightarrow>
                 (let platformIDs = map GetID (listed children PlatformType);
                      kept = filter (\<lambda>i. si_ServicePlanID i \<notin> set (concat planIDs) \<and> si_PlatformID i \<notin> set platformIDs) is
                  in Some (put_children ServiceInstanceType (map ServiceInstanceObject kept) children))
             | _ \<Rightarrow> None))"

subsection \<open>Reading the hierarchy\<close>

definition raw_call :: "('s \<Rightarrow> (error, 'a) result \<times> 's) \<Rightarrow> ('s, 'a) call" where
  "raw_call f w = (case f w of (Inl err, w') \<Rightarrow> (Fails err, w') | (Inr x, w') \<Rightarrow> (Returns x, w'))"

fun list_each :: "'s raw_repository \<Rightarrow> ObjectType \<Rightarrow> Criterion list list \<Rightarrow> ('s, Object list) call" where
  "list_each R t [] = returns []"
| "list_each R t (cs # rest) =
     call_then (raw_call (r_List R t cs)) (\<lambda>obs. call_then (list_each R t rest) (\<lambda>more. returns (obs @ more)))"

text \<open>
  \<open>ListCascadeChildren\<close>: the criteria of a type are alternatives, and their lists are joined.  A
  type without alternatives would have no entry; every type of \<open>GetChildrenCriterion\<close> has one.
\<close>

fun ListCascadeChildren :: "'s raw_repository \<Rightarrow> ChildrenCriterion \<Rightarrow> ('s, CascadeChildren) call" where
  "ListCascadeChildren R [] = returns []"
| "ListCascadeChildren R ((t, alternatives) # rest) =
     call_then (list_each R t alternatives) (\<lambda>obs.
     call_then (ListCascadeChildren R rest) (\<lambda>children. returns ((t, obs) # children)))"

definition in_order :: "'s cascade_env \<Rightarrow> (ObjectType \<times> 'b) list \<Rightarrow> (ObjectType \<times> 'b) list" where
  "in_order env m = concat (map (\<lambda>t. filter (\<lambda>p. fst p = t) m) (ce_walk env (map fst m)))"

fun with_plans :: "'s raw_repository \<Rightarrow> Object list \<Rightarrow> ('s, ServiceOffering list) call" where
  "with_plans R [] = returns []"
| "with_plans R (ob # rest) =
     (case ob of
        ServiceOfferingObject f \<Rightarrow>
          call_then (raw_call (r_List R ServicePlanType [ByField EqualsOperator ''service_offering_id'' [ID f]])) (\<lambda>plans.
            if list_all (\<lambda>p. case p of ServicePlanObject _ \<Rightarrow> True | _ \<Rightarrow> False) plans
            then call_then (with_plans R rest) (\<lambda>fs.
                   returns (f\<lparr>so_Plans := so_Plans f @ map (\<lambda>p. case p of ServicePlanObject x \<Rightarrow> x) plans\<rparr> # fs))
            else panics)
      | _ \<Rightarrow> panics)"

definition EnrichBrokersOfferings :: "'s raw_repository \<Rightarrow> Object \<Rightarrow> ('s, Object) call" where
  "EnrichBrokersOfferings R brokerObj =
     (case brokerObj of
        ServiceBrokerObject broker \<Rightarrow>
          call_then (raw_call (r_List R ServiceOfferingType [ByField EqualsOperator ''broker_id'' [ID broker]])) (\<lambda>offerings.
          call_then (with_plans R offerings) (\<lambda>fs.
            returns (ServiceBrokerObject (broker\<lparr>sb_Services := sb_Services broker @ fs\<rparr>))))
      | _ \<Rightarrow> panics)"

fun enrich_all :: "'s raw_repository \<Rightarrow> Object list \<Rightarrow> ('s, Object list) call" where
  "enrich_all R [] = returns []"
| "enrich_all R (b # bs) =
     call_then (EnrichBrokersOfferings R b) (\<lambda>b'. call_then (enrich_all R bs) (\<lambda>bs'. returns (b' # bs')))"

definition GetObjectChildren :: "'s raw_repository \<Rightarrow> 's cascade_env \<Rightarrow> Object \<Rightarrow> ('s, CascadeChildren) call" where
  "GetObjectChildren R env ob =
     (case GetCascadeObject env ob of
        None \<Rightarrow> panics
      | Some None \<Rightarrow> returns []
      | Some (Some c) \<Rightarrow>
          call_then (ListCascadeChildren R (in_order env (GetChildrenCriterion c))) (\<lambda>children.
          call_then
            (case children_of children ServiceBrokerType of
               None \<Rightarrow> returns children
             | Some brokers \<Rightarrow>
                 call_then (enrich_all R brokers) (\<lambda>bs. returns (put_children ServiceBrokerType bs children)))
            (\<lambda>children.
               case c of
                 TenantCascade _ _ \<Rightarrow> (case CleanDuplicates children of None \<Rightarrow> panics | Some children \<Rightarrow> returns children)
               | _ \<Rightarrow> returns children)))"

subsection \<open>The tree of operations\<close>

definition FindCascadeOperationForResource :: "'s raw_repository \<Rightarrow> string \<Rightarrow> ('s, Operation option) call" where
  "FindCascadeOperationForResource R resourceID w =
     (case raw_call (r_Get R OperationType
        [ByField EqualsOperator ''resource_id'' [resourceID],
         ByField InOperator ''state'' [IN_PROGRESS, PENDING],
         ByField NotEqualsOperator ''cascade_root_id'' [''''],
         OrderResultBy ''updated_at'' DescOrder]) w of
        (Fails err, w') \<Rightarrow> if err = ErrNotFoundInStorage then (Returns None, w') else (Fails err, w')
      | (Returns (OperationObject op), w') \<Rightarrow> (Returns (Some op), w')
      | (_, w') \<Rightarrow> (Panicked, w'))"

definition env_now :: "'s cascade_env \<Rightarrow> ('s, int) call" where
  "env_now env w = (case ce_now env w of (t, w') \<Rightarrow> (Returns t, w'))"

definition child_operation :: "string \<Rightarrow> int \<Rightarrow> Object \<Rightarrow> Operation \<Rightarrow> Operation" where
  "child_operation i now ob operation =
     \<lparr>ID = i, CreatedAt = now, UpdatedAt = now, Labels = Labels operation, PagingSequence = 0, Ready = True,
      op_Description = '''', op_Type = DELETE, op_State = PENDING, ResourceID = GetID ob, TransitiveResources = [],
      ResourceType = GetType ob, op_Errors = None, op_PlatformID = op_PlatformID operation,
      CorrelationID = CorrelationID operation, ExternalID = '''', ParentID = ID operation,
      CascadeRootID = CascadeRootID operation, op_Context = None, Reschedule = False, RescheduleTimestamp = 0,
      DeletionScheduled = 0\<rparr>"

definition makeCascadeOperationForChild :: "'s cascade_env \<Rightarrow> Object \<Rightarrow> Operation \<Rightarrow> ('s, Operation) call" where
  "makeCascadeOperationForChild env ob operation =
     call_then (raw_call (ce_uuid env)) (\<lambda>i.
     call_then (env_now env) (\<lambda>now. returns (child_operation i now ob operation)))"

text \<open>Calls that need not return, and the loop over the children of an object.\<close>

type_synonym ('s, 'a) pcall = "'s \<Rightarrow> ('a outcome \<times> 's) option"

definition pcall_then :: "('s, 'a) pcall \<Rightarrow> ('a \<Rightarrow> ('s, 'b) pcall) \<Rightarrow> ('s, 'b) pcall" where
  "pcall_then f g w =
     (case f w of
        None \<Rightarrow> None
      | Some (Returns x, w') \<Rightarrow> g x w'
      | Some (Fails err, w') \<Rightarrow> Some (Fails err, w')
      | Some (Panicked, w') \<Rightarrow> Some (Panicked, w'))"

definition ending :: "('s, 'a) call \<Rightarrow> ('s, 'a) pcall" where
  "ending f w = Some (f w)"

fun each_child :: "'s cascade_env \<Rightarrow> (Object \<Rightarrow> Operation \<Rightarrow> ('s, Operation list) pcall) \<Rightarrow> Operation \<Rightarrow> Object list
    \<Rightarrow> ('s, Operation list) pcall" where
  "each_child env descend operation [] = ending (returns [])"
| "each_child env descend operation (child # rest) =
     pcall_then (ending (makeCascadeOperationForChild env child operation)) (\<lambda>childOperation.
     pcall_then (descend child childOperation) (\<lambda>childrenSubOperations.
     pcall_then (each_child env descend operation rest) (\<lambda>operations.
       ending (returns (childOperation # childrenSubOperations @ operations)))))"

text \<open>The number bounds the depth of the descent: \<open>None\<close> stands for a deeper hierarchy.\<close>

primrec recursiveGetAllLevelsCascadeOperations ::
  "nat \<Rightarrow> 's raw_repository \<Rightarrow> 's cascade_env \<Rightarrow> Object \<Rightarrow> Operation \<Rightarrow> ('s, Operation list) pcall" where
  "recursiveGetAllLevelsCascadeOperations 0 R env ob operation = (\<lambda>w. None)"
| "recursiveGetAllLevelsCascadeOperations (Suc n) R env ob operation =
     pcall_then (ending (GetObjectChildren R env ob)) (\<lambda>mapOfChildren.
       each_child env (recursiveGetAllLevelsCascadeOperations n R env) operation
         (concat (map snd (in_order env mapOfChildren))))"

definition GetAllLevelsCascadeOperations ::
  "nat \<Rightarrow> 's raw_repository \<Rightarrow> 's cascade_env \<Rightarrow> Object \<Rightarrow> Operation \<Rightarrow> ('s, Operation list) pcall" where
  "GetAllLevelsCascadeOperations n R env ob operation =
     pcall_then (ending (if GetType ob = ServiceBrokerType then EnrichBrokersOfferings R ob else returns ob)) (\<lambda>ob.
       recursiveGetAllLevelsCascadeOperations n R env ob operation)"

record CascadedOperations =
  AllOperationsCount :: nat
  FailedOperations :: "Operation list"
  InProgressOperations :: "Operation list"
  SucceededOperations :: "Operation list"
  OrphanMitigationOperations :: "Operation list"
  PendingOperations :: "Operation list"

definition as_operation :: "Object \<Rightarrow> Operation option" where
  "as_operation ob = (case ob of OperationObject op \<Rightarrow> Some op | _ \<Rightarrow> None)"

definition in_state :: "OperationState \<Rightarrow> Operation list \<Rightarrow> Operation list" where
  "in_state st ops = filter (\<lambda>op. \<not> InOrphanMitigationState op \<and> op_State op = st) ops"

definition cascaded :: "Operation list \<Rightarrow> CascadedOperations" where
  "cascaded ops =
     \<lparr>AllOperationsCount = length ops, FailedOperations = in_state FAILED ops, InProgressOperations = in_state IN_PROGRESS ops,
      SucceededOperations = in_state SUCCEEDED ops, OrphanMitigationOperations = filter InOrphanMitigationState ops,
      PendingOperations = in_state PENDING ops\<rparr>"

definition GetSubOperations :: "'s raw_repository \<Rightarrow> Operation \<Rightarrow> ('s, CascadedOperations) call" where
  "GetSubOperations R operation =
     call_then (raw_call (r_List R OperationType [ByField EqualsOperator ''parent_id'' [ID operation]])) (\<lambda>objs.
       case those (map as_operation objs) of
         None \<Rightarrow> panics
       | Some subOperations \<Rightarrow> returns (cascaded subOperations))"

text \<open>The state of a finished operation on the same resource, and whether one is under way.\<close>

definition handleDuplicateOperations :: "'s raw_repository \<Rightarrow> Operation \<Rightarrow> ('s, OperationState \<times> bool) call" where
  "handleDuplicateOperations R operation =
     call_then (raw_call (r_List R OperationType
        [ByField EqualsOperator ''resource_id'' [ResourceID operation],
         ByField EqualsOperator ''resource_type'' [ResourceType operation],
         ByField EqualsOperator ''type'' [op_Type operation],
         ByField EqualsOperator ''cascade_root_id'' [CascadeRootID operation],
         OrderResultBy ''updated_at'' DescOrder])) (\<lambda>objs.
       case objs of
         [] \<Rightarrow> returns ('''', False)
       | ob # _ \<Rightarrow>
           (case ob of
              OperationObject same \<Rightarrow>
                returns (if InOrphanMitigationState same then ('''', True)
                  else if op_State same = IN_PROGRESS then ('''', True)
                  else if op_State same = SUCCEEDED \<or> op_State same = FAILED then (op_State same, False)
                  else ('''', False))
            | _ \<Rightarrow> panics))"

text \<open>
  Errors of sub-operations.  How the list of errors is written into and read from the error of an
  operation is up to the JSON libraries.
\<close>

record cascade_error =
  ce_ParentType :: ObjectType
  ce_ParentID :: string
  ce_ResourceType :: ObjectType
  ce_ResourceID :: string
  ce_Message :: http_error

record cascade_codec =
  cc_read :: "http_error option \<Rightarrow> cascade_error list option"
  cc_write :: "cascade_error list \<Rightarrow> (error, http_error) result"

definition operation_errors :: "cascade_codec \<Rightarrow> string \<Rightarrow> ObjectType \<Rightarrow> Operation \<Rightarrow> cascade_error list" where
  "operation_errors cc resourceID resourceType failedOP =
     (case cc_read cc (op_Errors failedOP) of
        Some childErrors \<Rightarrow> childErrors
      | None \<Rightarrow>
          (case op_Errors failedOP of
             None \<Rightarrow> []
           | Some e \<Rightarrow> [\<lparr>ce_ParentType = resourceType, ce_ParentID = resourceID, ce_ResourceType = ResourceType failedOP,
               ce_ResourceID = ResourceID failedOP, ce_Message = e\<rparr>]))"

definition PrepareAggregatedErrorsArray ::
  "cascade_codec \<Rightarrow> Operation list \<Rightarrow> string \<Rightarrow> ObjectType \<Rightarrow> (error, http_error) result" where
  "PrepareAggregatedErrorsArray cc failedSubOperations resourceID resourceType =
     cc_write cc (concat (map (operation_errors cc resourceID resourceType) failedSubOperations))"

subsection \<open>Creating the tree\<close>

text \<open>The properties that both interceptors give to the operation; the clock is read twice.\<close>

definition init_operation :: "'s cascade_env \<Rightarrow> Operation \<Rightarrow> ('s, Operation) call" where
  "init_operation env operation =
     call_then (env_now env) (\<lambda>t1.
     call_then (env_now env) (\<lambda>t2.
       let op = operation\<lparr>op_PlatformID := SMPlatform, op_State := PENDING, CreatedAt := t1, UpdatedAt := t2, Ready := True\<rparr>
       in (case Operation_Validate op of Inl err \<Rightarrow> fails err | Inr _ \<Rightarrow> returns op)))"

fun create_operations :: "'s raw_repository \<Rightarrow> Operation list \<Rightarrow> ('s, unit) call" where
  "create_operations R [] = returns ()"
| "create_operations R (op # ops) =
     call_then (on_error (raw_call (r_Create R (OperationObject op))) (\<lambda>err. fails (handled err OperationType)))
       (\<lambda>_. create_operations R ops)"

definition find_duplicate ::
  "'s raw_repository \<Rightarrow> Operation \<Rightarrow> ('s, Object) pcall \<Rightarrow> ('s, Object) pcall" where
  "find_duplicate R operation go_on =
     pcall_then (ending (FindCascadeOperationForResource R (ResourceID operation))) (\<lambda>duplicate.
       case duplicate of Some op \<Rightarrow> ending (returns (OperationObject op)) | None \<Rightarrow> go_on)"

definition cascade_OnTxCreate ::
  "nat \<Rightarrow> 's raw_repository \<Rightarrow> 's cascade_env \<Rightarrow> (Object \<Rightarrow> ('s, Object) call) \<Rightarrow> Object \<Rightarrow> ('s, Object) pcall" where
  "cascade_OnTxCreate n R env f ob =
     (case ob of
        OperationObject operation \<Rightarrow>
          if IsVirtualType (ResourceType operation) \<or> CascadeRootID operation = '''' \<or> op_Type operation \<noteq> DELETE
          then ending (f (OperationObject operation))
          else find_duplicate R operation
            (pcall_then (ending (init_operation env operation)) (\<lambda>op.
             pcall_then (ending (raw_call (r_Get R (ResourceType op) (by_id (ResourceID op))))) (\<lambda>cascadeResource.
             pcall_then (GetAllLevelsCascadeOperations n R env cascadeResource op) (\<lambda>ops.
             pcall_then (ending (create_operations R ops)) (\<lambda>_. ending (f (OperationObject op)))))))
      | _ \<Rightarrow> ending panics)"

definition NewTenant :: "string \<Rightarrow> resource" where
  "NewTenant i = \<lparr>ID = i, CreatedAt = 0, UpdatedAt = 0, Labels = Map.empty, PagingSequence = 0, Ready = False,
     res_Type = TenantType, res_Data = ''''\<rparr>"

definition virtual_OnTxCreate ::
  "nat \<Rightarrow> 's raw_repository \<Rightarrow> 's cascade_env \<Rightarrow> (Object \<Rightarrow> ('s, Object) call) \<Rightarrow> Object \<Rightarrow> ('s, Object) pcall" where
  "virtual_OnTxCreate n R env f ob =
     (case ob of
        OperationObject operation \<Rightarrow>
          if \<not> IsVirtualType (ResourceType operation) \<or> CascadeRootID operation = '''' \<or> op_Type operation \<noteq> DELETE
          then ending (f (OperationObject operation))
          else find_duplicate R operation
            (pcall_then (ending (init_operation env operation)) (\<lambda>op.
             pcall_then (GetAllLevelsCascadeOperations n R env (ResourceObject (NewTenant (ResourceID op))) op) (\<lambda>ops.
               let op = (if length ops = 0 then op\<lparr>op_State := SUCCEEDED\<rparr> else op)
               in pcall_then (ending (create_operations R ops)) (\<lambda>_. ending (f (OperationObject op))))))
      | _ \<Rightarrow> ending panics)"

end
