(* ===== verification/CascadeFacts.thy ===== *)
theory CascadeFacts
  imports Cascade
begin

text \<open>
  The tree of operations that a cascade deletion creates: it covers the hierarchy below the resource,
  every operation hangs on the operation of its parent, and the descent ends exactly when
  the hierarchy does.
\<close>

subsection \<open>The hierarchy that a repository shows\<close>

text \<open>
  The children of each object of a set, read without failures and whatever the state, and
  identifiers that can be generated.
\<close>

definition shows_hierarchy ::
  "'s raw_repository \<Rightarrow> 's cascade_env \<Rightarrow> Object set \<Rightarrow> (Object \<Rightarrow> Object list) \<Rightarrow> bool" where
  "shows_hierarchy R env D kids \<longleftrightarrow>
     (\<forall>ob\<in>D. set (kids ob) \<subseteq> D) \<and>
     (\<forall>ob\<in>D. \<forall>w. \<exists>children w'. GetObjectChildren R env ob w = (Returns children, w') \<and>
        concat (map snd (in_order env children)) = kids ob) \<and>
     (\<forall>w. \<exists>i w'. ce_uuid env w = (Inr i, w'))"

text \<open>The resources below an object, parents first, down to a depth.\<close>

definition resource_of :: "Object \<Rightarrow> ObjectType \<times> string" where
  "resource_of ob = (GetType ob, GetID ob)"

primrec below :: "nat \<Rightarrow> (Object \<Rightarrow> Object list) \<Rightarrow> Object \<Rightarrow> (ObjectType \<times> string) list" where
  "below 0 kids ob = []"
| "below (Suc n) kids ob = concat (map (\<lambda>c. resource_of c # below n kids c) (kids ob))"

text \<open>Every operation has its parent among the given ones or before it in the list.\<close>

fun hangs_on :: "string set \<Rightarrow> Operation list \<Rightarrow> bool" where
  "hangs_on parents [] = True"
| "hangs_on parents (op # ops) \<longleftrightarrow> ParentID op \<in> parents \<and> hangs_on (insert (ID op) parents) ops"

definition made_for :: "Operation \<Rightarrow> Operation \<Rightarrow> bool" where
  "made_for root op \<longleftrightarrow> op_Type op = DELETE \<and> op_State op = PENDING \<and> CascadeRootID op = CascadeRootID root \<and>
     op_PlatformID op = op_PlatformID root \<and> CorrelationID op = CorrelationID root \<and> Labels op = Labels root"

lemma hangs_on_mono: "hangs_on A ops \<Longrightarrow> A \<subseteq> B \<Longrightarrow> hangs_on B ops"
  by (induction ops arbitrary: A B) (auto, metis insert_mono)

lemma hangs_on_append: "hangs_on A (xs @ ys) \<longleftrightarrow> hangs_on A xs \<and> hangs_on (A \<union> ID ` set xs) ys"
  by (induction xs arbitrary: A) auto

lemma made_for_trans: "made_for root op \<Longrightarrow> made_for op o' \<Longrightarrow> made_for root o'"
  by (simp add: made_for_def)

lemma pcall_then_simps [simp]:
  "f w = Some (Returns x, w') \<Longrightarrow> pcall_then f g w = g x w'"
  "f w = None \<Longrightarrow> pcall_then f g w = None"
  by (simp_all add: pcall_then_def)

lemma pcall_ending [simp]: "f w = (Returns x, w') \<Longrightarrow> pcall_then (ending f) g w = g x w'"
  by (simp add: ending_def)

lemma makeCascadeOperation_makes:
  assumes "shows_hierarchy R env D kids"
  obtains op w' where "makeCascadeOperationForChild env ob operation w = (Returns op, w')"
    "made_for operation op" "ParentID op = ID operation" "(ResourceType op, ResourceID op) = resource_of ob"
proof -
  obtain i w1 where "ce_uuid env w = (Inr i, w1)" using assms unfolding shows_hierarchy_def by blast
  moreover obtain t w2 where "ce_now env w1 = (t, w2)" by fastforce
  ultimately show ?thesis
    by (intro that [of "child_operation i t ob operation" w2])
      (simp_all add: makeCascadeOperationForChild_def raw_call_def call_then_def env_now_def returns_def
        child_operation_def made_for_def resource_of_def)
qed

subsection \<open>Complete trees\<close>

definition covers :: "Operation \<Rightarrow> (ObjectType \<times> string) list \<Rightarrow> Operation list \<Rightarrow> bool" where
  "covers operation resources ops \<longleftrightarrow>
     map (\<lambda>op. (ResourceType op, ResourceID op)) ops = resources \<and> hangs_on {ID operation} ops \<and>
     (\<forall>op\<in>set ops. made_for operation op)"

lemma each_child_covers:
  assumes hier: "shows_hierarchy R env D kids"
    and descend: "\<And>c op w. c \<in> set cs \<Longrightarrow> \<exists>ops w'. descend c op w = Some (Returns ops, w') \<and> covers op (res c) ops"
  shows "\<exists>ops w'. each_child env descend operation cs w = Some (Returns ops, w') \<and>
    covers operation (concat (map (\<lambda>c. resource_of c # res c) cs)) ops"
  using descend
proof (induction cs arbitrary: w)
  case Nil
  then show ?case by (simp add: ending_def returns_def covers_def)
next
  case (Cons c cs)
  obtain op w1 where op: "makeCascadeOperationForChild env c operation w = (Returns op, w1)"
    "made_for operation op" "ParentID op = ID operation" "(ResourceType op, ResourceID op) = resource_of c"
    using makeCascadeOperation_makes [OF hier] by blast
  obtain sub w2 where sub: "descend c op w1 = Some (Returns sub, w2)" "covers op (res c) sub"
    using Cons.prems [of c op w1] by auto
  obtain ops w3 where ops: "each_child env descend operation cs w2 = Some (Returns ops, w3)"
    "covers operation (concat (map (\<lambda>c. resource_of c # res c) cs)) ops"
    using Cons.IH [of w2] Cons.prems by auto
  have "hangs_on (insert (ID op) {ID operation}) sub" "hangs_on (insert (ID op) {ID operation} \<union> ID ` set sub) ops"
    using sub(2) ops(2) by (auto simp: covers_def elim!: hangs_on_mono)
  moreover have "\<forall>o'\<in>set sub. made_for operation o'"
    using sub(2) op(2) made_for_trans by (auto simp: covers_def)
  ultimately have "covers operation (concat (map (\<lambda>c. resource_of c # res c) (c # cs))) (op # sub @ ops)"
    using op sub(2) ops(2) by (simp add: covers_def hangs_on_append ball_Un)
  with op(1) sub(1) ops(1) show ?case by (auto simp: ending_def returns_def)
qed

text \<open>
  Below a resource whose hierarchy is at most as deep as the bound, the descent returns, and it
  returns one operation for each place in the hierarchy, parents first.
\<close>

lemma descent_covers:
  assumes hier: "shows_hierarchy R env D kids" and rank: "\<And>ob c. ob \<in> D \<Longrightarrow> c \<in> set (kids ob) \<Longrightarrow> rank c < rank ob"
  shows "rank ob < n \<Longrightarrow> ob \<in> D \<Longrightarrow>
    \<exists>ops w'. recursiveGetAllLevelsCascadeOperations n R env ob operation w = Some (Returns ops, w') \<and>
      covers operation (below n kids ob) ops"
proof (induction n arbitrary: ob operation w)
  case (Suc n)
  obtain children w1 where 1: "GetObjectChildren R env ob w = (Returns children, w1)"
    "concat (map snd (in_order env children)) = kids ob"
    using hier Suc.prems(2) unfolding shows_hierarchy_def by blast
  have kids: "set (kids ob) \<subseteq> D" using hier Suc.prems(2) unfolding shows_hierarchy_def by blast
  have "\<exists>ops w'. recursiveGetAllLevelsCascadeOperations n R env c op w = Some (Returns ops, w') \<and> covers op (below n kids c) ops"
    if "c \<in> set (kids ob)" for c op w
    by (rule Suc.IH) (use rank [OF Suc.prems(2) that] Suc.prems kids that in auto)
  from each_child_covers [OF hier this, where operation = operation and w = w1] 1 show ?case by simp
qed simp


subsection \<open>Cycles\<close>

definition runs_or_hangs :: "('s, 'a) pcall \<Rightarrow> bool" where
  "runs_or_hangs f \<longleftrightarrow> (\<forall>w. f w = None \<or> (\<exists>x w'. f w = Some (Returns x, w')))"

lemma runs_or_hangsE:
  fixes f :: "('s, 'a) pcall"
  assumes "runs_or_hangs f"
  obtains (hangs) "f w = None" | (runs) x w' where "f w = Some (Returns x, w')"
proof (cases "f w")
  case None
  then show ?thesis by (rule hangs)
next
  case (Some r)
  with assms obtain x w' where "f w = Some (Returns x, w')" unfolding runs_or_hangs_def by (metis option.distinct(1))
  then show ?thesis by (rule runs)
qed

lemma each_child_step:
  assumes hier: "shows_hierarchy R env D kids" and runs: "\<And>op. runs_or_hangs (descend d op)"
  obtains "each_child env descend operation (d # ds) w = None"
  | op w1 sub w2 where "descend d op w1 = Some (Returns sub, w2)"
    "each_child env descend operation (d # ds) w =
       pcall_then (each_child env descend operation ds) (\<lambda>ops. ending (returns (op # sub @ ops))) w2"
proof -
  obtain op w1 where op: "makeCascadeOperationForChild env d operation w = (Returns op, w1)"
    using makeCascadeOperation_makes [OF hier] by blast
  consider "descend d op w1 = None" | sub w2 where "descend d op w1 = Some (Returns sub, w2)"
    by (rule runs_or_hangsE [OF runs])
  then show ?thesis
  proof cases
    case 1
    with op show ?thesis by (intro that(1)) simp
  next
    case (2 sub w2)
    with op show ?thesis by (intro that(2)) simp_all
  qed
qed

lemma each_child_runs_or_hangs:
  assumes "shows_hierarchy R env D kids"
  shows "(\<And>c op. c \<in> set cs \<Longrightarrow> runs_or_hangs (descend c op)) \<Longrightarrow> runs_or_hangs (each_child env descend operation cs)"
proof (induction cs)
  case (Cons d ds)
  then have ds: "runs_or_hangs (each_child env descend operation ds)" by simp
  have "each_child env descend operation (d # ds) w = None \<or>
      (\<exists>x w'. each_child env descend operation (d # ds) w = Some (Returns x, w'))" for w
  proof (rule each_child_step [OF assms, of descend d operation ds w])
    show "runs_or_hangs (descend d op)" for op using Cons.prems by simp
  next
    fix op w1 sub w2
    assume eq: "each_child env descend operation (d # ds) w =
      pcall_then (each_child env descend operation ds) (\<lambda>ops. ending (returns (op # sub @ ops))) w2"
    show ?thesis
      unfolding eq by (rule runs_or_hangsE [OF ds, of w2]) (simp_all add: ending_def returns_def)
  qed simp
  then show ?case by (simp add: runs_or_hangs_def)
qed (simp add: runs_or_hangs_def ending_def returns_def)

lemma each_child_hangs:
  assumes "shows_hierarchy R env D kids" and hang: "\<And>op w. descend c op w = None"
  shows "(\<And>c op. c \<in> set cs \<Longrightarrow> runs_or_hangs (descend c op)) \<Longrightarrow> c \<in> set cs \<Longrightarrow>
    each_child env descend operation cs w = None"
proof (induction cs arbitrary: w)
  case (Cons d ds)
  show ?case
  proof (rule each_child_step [OF assms(1), of descend d operation ds w])
    show "runs_or_hangs (descend d op)" for op using Cons.prems by simp
  next
    fix op w1 sub w2
    assume a: "descend d op w1 = Some (Returns sub, w2)" "each_child env descend operation (d # ds) w =
      pcall_then (each_child env descend operation ds) (\<lambda>ops. ending (returns (op # sub @ ops))) w2"
    with hang have "d \<noteq> c" by auto
    with Cons have "each_child env descend operation ds w2 = None" by auto
    with a(2) show ?thesis by simp
  qed simp
qed simp

lemma hierarchy_children:
  assumes "shows_hierarchy R env D kids" "ob \<in> D"
  obtains children w' where "GetObjectChildren R env ob w = (Returns children, w')"
    "concat (map snd (in_order env children)) = kids ob" "set (kids ob) \<subseteq> D"
  using assms unfolding shows_hierarchy_def by metis

lemma descent_runs_or_hangs:
  assumes "shows_hierarchy R env D kids"
  shows "ob \<in> D \<Longrightarrow> runs_or_hangs (recursiveGetAllLevelsCascadeOperations n R env ob operation)"
proof (induction n arbitrary: ob operation)
  case (Suc n)
  have "recursiveGetAllLevelsCascadeOperations (Suc n) R env ob operation w = None \<or>
      (\<exists>x w'. recursiveGetAllLevelsCascadeOperations (Suc n) R env ob operation w = Some (Returns x, w'))" for w
  proof (rule hierarchy_children [OF assms Suc.prems, of w])
    fix children w1
    assume 1: "GetObjectChildren R env ob w = (Returns children, w1)" "concat (map snd (in_order env children)) = kids ob"
      "set (kids ob) \<subseteq> D"
    have "runs_or_hangs (each_child env (recursiveGetAllLevelsCascadeOperations n R env) operation (kids ob))"
      by (rule each_child_runs_or_hangs [OF assms Suc.IH]) (use 1(3) in blast)
    with 1 show ?thesis by (simp add: runs_or_hangs_def)
  qed
  then show ?case by (simp add: runs_or_hangs_def)
qed (simp add: runs_or_hangs_def)

text \<open>
  C40.  When the stored references below a resource form a cycle, the descent never returns, whatever the
  depth: each resource of the cycle has a child that is again in the cycle.
\<close>

theorem cascade_cycle_never_returns:
  assumes "shows_hierarchy R env D kids" "C \<subseteq> D" "\<forall>ob\<in>C. \<exists>c\<in>set (kids ob). c \<in> C" "ob \<in> C"
  shows "\<forall>n. recursiveGetAllLevelsCascadeOperations n R env ob operation w = None"
proof
  fix n
  show "recursiveGetAllLevelsCascadeOperations n R env ob operation w = None"
    using assms(4)
  proof (induction n arbitrary: ob operation w)
    case (Suc n)
    then have "ob \<in> D" using assms(2) by blast
    show ?case
    proof (rule hierarchy_children [OF assms(1) \<open>ob \<in> D\<close>, of w])
      fix children w1
      assume 1: "GetObjectChildren R env ob w = (Returns children, w1)" "concat (map snd (in_order env children)) = kids ob"
        "set (kids ob) \<subseteq> D"
      obtain c where c: "c \<in> set (kids ob)" "c \<in> C" using assms(3) Suc.prems by blast
      have "each_child env (recursiveGetAllLevelsCascadeOperations n R env) operation (kids ob) w1 = None"
      proof (rule each_child_hangs [OF assms(1) _ _ c(1)])
        show "recursiveGetAllLevelsCascadeOperations n R env c op w = None" for op w by (rule Suc.IH [OF c(2)])
        show "runs_or_hangs (recursiveGetAllLevelsCascadeOperations n R env c' op)" if "c' \<in> set (kids ob)" for c' op
          by (rule descent_runs_or_hangs [OF assms(1)]) (use that 1(3) in blast)
      qed
      with 1 show ?thesis by simp
    qed
  qed simp
qed

subsection \<open>An example\<close>

text \<open>
  An instance with one binding; in the second repository the instance refers to itself.
\<close>

definition an_instance :: Object where
  "an_instance = ServiceInstanceObject
     \<lparr>ID = ''i1'', CreatedAt = 0, UpdatedAt = 0, Labels = Map.empty, PagingSequence = 0, Ready = True,
      si_Name = ''db'', si_ServicePlanID = ''sp1'', si_ReferencedInstanceID = '''', si_PlatformID = ''p1'', si_DashboardURL = '''',
      si_MaintenanceInfo = None, si_Context = None, si_UpdateValues = '''', si_PreviousValues = None, si_Parameters = '''',
      si_Usable = True, si_Shared = None\<rparr>"

definition a_binding :: Object where
  "a_binding = ServiceBindingObject
     \<lparr>ID = ''b1'', CreatedAt = 0, UpdatedAt = 0, Labels = Map.empty, PagingSequence = 0, Ready = True,
      bd_Name = ''key'', bd_ServiceInstanceID = ''i1'', bd_SyslogDrainURL = '''', bd_RouteServiceURL = '''', bd_VolumeMounts = None,
      bd_Endpoints = None, bd_Context = None, bd_BindResource = None, bd_Credentials = None, bd_Parameters = '''', bd_Integrity = ''''\<rparr>"

definition hierarchy_repository :: "bool \<Rightarrow> op_world raw_repository" where
  "hierarchy_repository cyclic = op_repository\<lparr>r_List := (\<lambda>t cs w.
     (Inr (if t = ServiceBindingType then [a_binding] else if cyclic then [an_instance] else []), w))\<rparr>"

definition hierarchy_env :: "op_world cascade_env" where
  "hierarchy_env = \<lparr>ce_TenantIdentifier = ''tenant'', ce_ParentKeys = [], ce_walk = (\<lambda>ts. ts),
     ce_uuid = (\<lambda>w. (Inr ''u'', w)), ce_now = (\<lambda>w. (1, w))\<rparr>"

definition example_kids :: "bool \<Rightarrow> Object \<Rightarrow> Object list" where
  "example_kids cyclic ob = (if ob = an_instance then a_binding # (if cyclic then [an_instance] else []) else [])"

lemma example_types: "GetType an_instance = ServiceInstanceType" "GetType a_binding = ServiceBindingType" "an_instance \<noteq> a_binding"
  by (simp_all add: an_instance_def a_binding_def)

lemma example_hierarchy:
  "shows_hierarchy (hierarchy_repository cyclic) hierarchy_env {an_instance, a_binding} (example_kids cyclic)"
proof -
  have "GetObjectChildren (hierarchy_repository cyclic) hierarchy_env a_binding w = (Returns [], w)" for w
    by (simp add: GetObjectChildren_def GetCascadeObject_def example_types returns_def type_names)
  moreover have "GetObjectChildren (hierarchy_repository cyclic) hierarchy_env an_instance w =
      (Returns [(ServiceBindingType, [a_binding]), (ServiceInstanceType, if cyclic then [an_instance] else [])], w)" for w
    unfolding GetObjectChildren_def GetCascadeObject_def example_types
    by (simp add: an_instance_def type_names hierarchy_env_def in_order_def children_of_def raw_call_def hierarchy_repository_def
        call_then_def returns_def)
  moreover have "ServiceBindingType \<noteq> ServiceInstanceType" by (simp add: type_names)
  ultimately show ?thesis
    unfolding shows_hierarchy_def example_kids_def
    by (auto simp: in_order_def hierarchy_env_def example_types)
qed


theorem cascade_cycle_never_returns_witness:
  "recursiveGetAllLevelsCascadeOperations 100 (hierarchy_repository True) hierarchy_env an_instance a_deletion Map.empty = None"
  using cascade_cycle_never_returns [OF example_hierarchy [of True], of "{an_instance}" an_instance a_deletion Map.empty]
  by (simp add: example_kids_def)

end
