(* ===== verification/Maintainer.thy ===== *)
theory Maintainer
  imports Cascade EncryptionKey
begin

text \<open>
  The settings of operations (\<open>src/operations/config.go\<close>) and the maintainer
  (\<open>src/operations/maintainer.go\<close>): ten recurring functions that remove old operations, schedule
  the pending deletions of a cascade and take up operations whose process has died.  Each runs
  under an advisory lock of its own.

  The functions share the storage and two schedulers with their pools of workers.  Everything they
  log is left out, and an error that is only logged is dropped.  The batches of a clean-up are a
  partial function, since the loop need not end when the batch size is zero.
\<close>

subsection \<open>Settings\<close>

text \<open>Durations are numbers of nanoseconds.\<close>

record PoolSettings =
  ps_Resource :: string
  ps_Size :: int

record operations_Settings =
  ActionTimeout :: int
  ReconciliationOperationTimeout :: int
  CascadeOrphanMitigationTimeout :: int
  PollCascadeInterval :: int
  CleanupInterval :: int
  MaintainerRetryInterval :: int
  DeleteOperationsBatchSize :: int
  Lifespan :: int
  ReschedulingInterval :: int
  ReschedulingLongInterval :: int
  PollingInterval :: int
  DefaultPoolSize :: int
  DefaultCascadePollingPoolSize :: int
  Pools :: "PoolSettings list"
  SMSupportedPlatformType :: "string list"

definition time_Second :: int where "time_Second = 1000000000"
definition time_Minute :: int where "time_Minute = 60 * time_Second"
definition time_Hour :: int where "time_Hour = 60 * time_Minute"

definition DefaultSettings :: operations_Settings where
  "DefaultSettings =
     \<lparr>ActionTimeout = 15 * time_Minute, ReconciliationOperationTimeout = 7 * 24 * time_Hour,
      CascadeOrphanMitigationTimeout = 6 * time_Hour, PollCascadeInterval = 4 * time_Second,
      CleanupInterval = 1 * time_Hour, MaintainerRetryInterval = 10 * time_Minute,
      DeleteOperationsBatchSize = 1000, Lifespan = 7 * 24 * time_Hour, ReschedulingInterval = 10 * time_Second,
      ReschedulingLongInterval = 1 * time_Hour, PollingInterval = 4 * time_Second, DefaultPoolSize = 20,
      DefaultCascadePollingPoolSize = 20, Pools = [], SMSupportedPlatformType = [SMPlatform]\<rparr>"

definition PoolSettings_Validate :: "PoolSettings \<Rightarrow> error option" where
  "PoolSettings_Validate ps =
     (if ps_Size ps \<le> 0
      then Some (ErrorString (''validate Settings: Pool size for resource '' @ sq @ ps_Resource ps @ sq @ '' must be larger than 0''))
      else None)"

fun validate_pools :: "PoolSettings list \<Rightarrow> error option" where
  "validate_pools [] = None"
| "validate_pools (pool # pools) =
     (case PoolSettings_Validate pool of Some err \<Rightarrow> Some err | None \<Rightarrow> validate_pools pools)"

definition minTimePeriod :: int where "minTimePeriod = 1"

definition must_be_larger :: "string \<Rightarrow> string \<Rightarrow> error option" where
  "must_be_larger name bound = Some (ErrorString (''validate Settings: '' @ name @ '' must be larger than '' @ bound))"

definition Settings_Validate :: "operations_Settings \<Rightarrow> error option" where
  "Settings_Validate s =
     (if ActionTimeout s \<le> minTimePeriod then must_be_larger ''ActionTimeout'' ''1ns''
      else if CleanupInterval s \<le> minTimePeriod then must_be_larger ''CleanupInterval'' ''1ns''
      else if ReconciliationOperationTimeout s \<le> minTimePeriod then must_be_larger ''ReconciliationOperationTimeout'' ''1ns''
      else if ReschedulingInterval s \<le> minTimePeriod then must_be_larger ''ReschedulingInterval'' ''1ns''
      else if PollingInterval s \<le> minTimePeriod then must_be_larger ''PollingInterval'' ''1ns''
      else if MaintainerRetryInterval s \<le> minTimePeriod then must_be_larger ''MaintainerRetryInterval'' ''1ns''
      else if DefaultPoolSize s \<le> 0 then must_be_larger ''DefaultPoolSize'' ''0''
      else if DefaultCascadePollingPoolSize s \<le> 0 then must_be_larger ''DefaultCascadePollingPoolSize'' ''0''
      else validate_pools (Pools s))"

subsection \<open>The maintainer\<close>

text \<open>\<open>om_entities\<close> lists the names and tables of \<open>GetEntities\<close>, \<open>om_ToRFCNanoFormat\<close> writes a time.\<close>

record 's maintainer =
  om_repository :: "'s raw_repository"
  om_entities :: "(string \<times> string) list"
  om_scheduler :: "'s scheduler"
  om_cascadePollingScheduler :: "'s scheduler"
  om_settings :: operations_Settings
  om_codec :: cascade_codec
  om_now :: "'s \<Rightarrow> int \<times> 's"
  om_ToRFCNanoFormat :: "int \<Rightarrow> string"

record 's maint =
  m_world :: 's
  m_workers :: nat
  m_jobs :: "(Operation \<times> 's storageAction) list"
  c_workers :: nat
  c_jobs :: "(Operation \<times> 's storageAction) list"
  operationLockers :: "string \<rightharpoonup> Locker"

text \<open>A call on the storage, on the first scheduler and on the scheduler of cascades.\<close>

definition in_storage :: "('s \<Rightarrow> (error, 'a) result \<times> 's) \<Rightarrow> ('s maint, 'a) call" where
  "in_storage f m = (case raw_call f (m_world m) of (r, w) \<Rightarrow> (r, m\<lparr>m_world := w\<rparr>))"

definition on_storage :: "('s, 'a) call \<Rightarrow> ('s maint, 'a) call" where
  "on_storage f m = (case f (m_world m) of (r, w) \<Rightarrow> (r, m\<lparr>m_world := w\<rparr>))"

definition in_pool :: "('s sched, 'a) call \<Rightarrow> ('s maint, 'a) call" where
  "in_pool f m =
     (case f \<lparr>sc_world = m_world m, workers = m_workers m, jobs = m_jobs m\<rparr> of
        (r, s) \<Rightarrow> (r, m\<lparr>m_world := sc_world s, m_workers := workers s, m_jobs := jobs s\<rparr>))"

definition in_cascade_pool :: "('s sched, 'a) call \<Rightarrow> ('s maint, 'a) call" where
  "in_cascade_pool f m =
     (case f \<lparr>sc_world = m_world m, workers = c_workers m, jobs = c_jobs m\<rparr> of
        (r, s) \<Rightarrow> (r, m\<lparr>m_world := sc_world s, c_workers := workers s, c_jobs := jobs s\<rparr>))"

text \<open>An error that is logged and dropped.\<close>

definition logged :: "('s, 'a) call \<Rightarrow> ('s, unit) call" where
  "logged f = on_error (call_then f (\<lambda>_. returns ())) (\<lambda>_. returns ())"

definition logged_default :: "'a \<Rightarrow> ('s, 'a) call \<Rightarrow> ('s, 'a) call" where
  "logged_default x f = on_error f (\<lambda>_. returns x)"

definition time_now :: "'s maintainer \<Rightarrow> ('s maint, int) call" where
  "time_now om m = (case om_now om (m_world m) of (t, w) \<Rightarrow> (Returns t, m\<lparr>m_world := w\<rparr>))"

definition ZeroTime :: string where
  "ZeroTime = ''0001-01-01 00:00:00+00''"

definition not_updated_for :: "'s maintainer \<Rightarrow> int \<Rightarrow> int \<Rightarrow> Criterion" where
  "not_updated_for om age currentTime = ByField LessThanOperator ''updated_at'' [om_ToRFCNanoFormat om (currentTime - age)]"

definition not_last_of_resource :: Criterion where
  "not_last_of_resource = BySubquery InSubqueryOperator ''id'' (GetSubQuery QueryForAllNotLastOperationsPerResource)"

text \<open>The loop over listed operations; an element that is not an operation fails its type assertion.\<close>

fun each_operation :: "(Operation \<Rightarrow> 'x \<Rightarrow> ('s, 'x) call) \<Rightarrow> Object list \<Rightarrow> 'x \<Rightarrow> ('s, 'x) call" where
  "each_operation f [] x = returns x"
| "each_operation f (ob # obs) x =
     (case as_operation ob of
        None \<Rightarrow> panics
      | Some operation \<Rightarrow> call_then (f operation x) (\<lambda>y. each_operation f obs y))"

subsection \<open>Cleaning up\<close>

text \<open>
  \<open>batchDeleteOperation\<close>: the storage after the loop.  The bound \<open>math.Ceil(count / batchSize)\<close> is compared with a
  counter; on counts below \<open>2 ^ 53\<close> floating point division is exact enough for \<open>i * batchSize < count\<close>, also with a batch size of
  zero (the quotient is infinite) and with a negative one (no round).
\<close>

definition another_batch :: "int \<Rightarrow> int \<Rightarrow> nat \<Rightarrow> bool" where
  "another_batch number batchSize i \<longleftrightarrow> 0 \<le> batchSize \<and> int i * batchSize < number"

partial_function (option) delete_batches ::
  "'s raw_repository \<Rightarrow> Criterion list \<Rightarrow> int \<Rightarrow> int \<Rightarrow> nat \<Rightarrow> 's \<Rightarrow> 's option" where
  "delete_batches R criteria batchSize number i w =
     (if another_batch number batchSize i then
        (case r_List R OperationType criteria w of
           (Inl _, w') \<Rightarrow> Some w'
         | (Inr operations, w') \<Rightarrow>
             if length operations = 0 then Some w'
             else
               (case r_Delete R OperationType [ByField InOperator ''id'' (map GetID operations)] w' of
                  (Inl err, w'') \<Rightarrow>
                    if err \<noteq> ErrNotFoundInStorage then Some w'' else delete_batches R criteria batchSize number (Suc i) w''
                | (Inr _, w'') \<Rightarrow> delete_batches R criteria batchSize number (Suc i) w''))
      else Some w)"

definition batchDeleteOperation :: "'s raw_repository \<Rightarrow> Criterion list \<Rightarrow> int \<Rightarrow> 's \<Rightarrow> 's option" where
  "batchDeleteOperation R criteria batchSize w =
     (case r_Count R OperationType criteria w of
        (Inl _, w') \<Rightarrow> Some w'
      | (Inr numberOfOperationsToDelete, w') \<Rightarrow>
          delete_batches R (criteria @ [LimitResultBy batchSize]) batchSize numberOfOperationsToDelete 0 w')"

definition batch_delete :: "'s maintainer \<Rightarrow> Criterion list \<Rightarrow> ('s maint, unit) pcall" where
  "batch_delete om criteria m =
     (case batchDeleteOperation (om_repository om) criteria (DeleteOperationsBatchSize (om_settings om)) (m_world m) of
        None \<Rightarrow> None
      | Some w \<Rightarrow> Some (Returns (), m\<lparr>m_world := w\<rparr>))"

definition cleanupExternalOperations :: "'s maintainer \<Rightarrow> ('s maint, unit) pcall" where
  "cleanupExternalOperations om =
     pcall_then (ending (time_now om)) (\<lambda>currentTime.
       batch_delete om
         [ByField NotEqualsOperator ''platform_id'' [SMPlatform],
          not_updated_for om (Lifespan (om_settings om)) currentTime,
          not_last_of_resource])"

definition cleanupInternalSuccessfulOperations :: "'s maintainer \<Rightarrow> ('s maint, unit) pcall" where
  "cleanupInternalSuccessfulOperations om =
     pcall_then (ending (time_now om)) (\<lambda>currentTime.
       batch_delete om
         [ByField EqualsOperator ''platform_id'' [SMPlatform],
          ByField EqualsOperator ''state'' [SUCCEEDED],
          ByField EqualsOrNilOperator ''cascade_root_id'' [''''],
          not_updated_for om (Lifespan (om_settings om)) currentTime,
          not_last_of_resource])"

definition cleanupInternalFailedOperations :: "'s maintainer \<Rightarrow> ('s maint, unit) pcall" where
  "cleanupInternalFailedOperations om =
     pcall_then (ending (time_now om)) (\<lambda>currentTime.
       batch_delete om
         [ByField EqualsOperator ''platform_id'' [SMPlatform],
          ByField EqualsOperator ''state'' [FAILED],
          ByField EqualsOperator ''reschedule'' [''false''],
          ByField EqualsOperator ''deletion_scheduled'' [ZeroTime],
          ByField EqualsOrNilOperator ''cascade_root_id'' [''''],
          not_updated_for om (Lifespan (om_settings om)) currentTime,
          not_last_of_resource])"

fun delete_cascades :: "'s raw_repository \<Rightarrow> Object list \<Rightarrow> ('s maint, unit) call" where
  "delete_cascades R [] = returns ()"
| "delete_cascades R (root # roots) =
     call_then (logged (in_storage (r_Delete R OperationType [ByField EqualsOperator ''cascade_root_id'' [GetID root]])))
       (\<lambda>_. delete_cascades R roots)"

definition CleanupFinishedCascadeOperations :: "'s maintainer \<Rightarrow> ('s maint, unit) call" where
  "CleanupFinishedCascadeOperations om =
     call_then (time_now om) (\<lambda>currentTime.
     logged (call_then
       (in_storage (r_List (om_repository om) OperationType
          [ByField EqualsOperator ''platform_id'' [SMPlatform],
           ByField EqualsOrNilOperator ''parent_id'' [''''],
           ByField NotEqualsOperator ''cascade_root_id'' [''''],
           ByField InOperator ''state'' [SUCCEEDED, FAILED],
           not_updated_for om (Lifespan (om_settings om)) currentTime,
           not_last_of_resource]))
       (\<lambda>roots. delete_cascades (om_repository om) roots)))"

definition without_resource :: "(string \<times> string) list \<Rightarrow> Criterion list" where
  "without_resource entities =
     map (\<lambda>(_, tableName).
       ByNotExists (case GetSubQueryWithParams QueryForOperationsWithResource [''RESOURCE_TABLE'' \<mapsto> VString tableName] of
                      Inl _ \<Rightarrow> '''' | Inr subQuery \<Rightarrow> subQuery))
       (filter (\<lambda>(_, tableName). tableName \<noteq> ''operations'') entities)"

definition CleanupResourcelessOperations :: "'s maintainer \<Rightarrow> ('s maint, unit) call" where
  "CleanupResourcelessOperations om =
     call_then (time_now om) (\<lambda>currentTime.
       logged (in_storage (r_Delete (om_repository om) OperationType
         (not_updated_for om (Lifespan (om_settings om)) currentTime # without_resource (om_entities om)))))"

subsection \<open>Cascades\<close>

text \<open>An error of the sub-operations' list ends the pass.\<close>

definition all_finished_one_failed :: "CascadedOperations \<Rightarrow> bool" where
  "all_finished_one_failed sub \<longleftrightarrow>
     length (FailedOperations sub) > 0 \<and>
     length (FailedOperations sub) + length (SucceededOperations sub) = AllOperationsCount sub"

definition all_succeeded :: "CascadedOperations \<Rightarrow> bool" where
  "all_succeeded sub \<longleftrightarrow> AllOperationsCount sub = length (SucceededOperations sub)"

definition failed_root :: "cascade_codec \<Rightarrow> CascadedOperations \<Rightarrow> Operation \<Rightarrow> Operation" where
  "failed_root cc sub root =
     root\<lparr>op_Errors := (case PrepareAggregatedErrorsArray cc (FailedOperations sub) (ResourceID root) (ResourceType root) of
                          Inl _ \<Rightarrow> None | Inr errorsJson \<Rightarrow> Some errorsJson),
          op_State := FAILED\<rparr>"

definition update_root :: "'s maintainer \<Rightarrow> Operation \<Rightarrow> unit \<Rightarrow> ('s maint, unit) call" where
  "update_root om root _ =
     call_then (on_storage (GetSubOperations (om_repository om) root)) (\<lambda>sub.
       let byRootID = [ByField EqualsOperator ''cascade_root_id'' [ID root]];
           update = (\<lambda>op. logged (in_storage (r_Update (om_repository om) (OperationObject op) [] byRootID)));
           failed = failed_root (om_codec om) sub root
       in call_then (if all_finished_one_failed sub then update failed else returns ()) (\<lambda>_.
            if all_succeeded sub
            then update ((if all_finished_one_failed sub then failed else root)\<lparr>op_State := SUCCEEDED\<rparr>)
            else returns ()))"

definition PollUpdateCascadeOperations :: "'s maintainer \<Rightarrow> ('s maint, unit) call" where
  "PollUpdateCascadeOperations om =
     logged (call_then
       (in_storage (r_List (om_repository om) OperationType
          [ByField EqualsOperator ''platform_id'' [SMPlatform],
           ByField EqualsOperator ''type'' [UPDATE],
           ByField EqualsOperator ''state'' [IN_PROGRESS],
           ByField EqualsOrNilOperator ''parent_id'' [''''],
           ByField NotEqualsOperator ''cascade_root_id'' ['''']]))
       (\<lambda>roots. each_operation (update_root om) roots ()))"

text \<open>
  One pending operation of a pass.  The state of the loop is the list of the resources that the pass
  skips from now on.
\<close>

definition update_operation :: "'s maintainer \<Rightarrow> Operation \<Rightarrow> ('s maint, unit) call" where
  "update_operation om operation = logged (in_storage (r_Update (om_repository om) (OperationObject operation) [] []))"

definition failed_pending :: "cascade_codec \<Rightarrow> CascadedOperations \<Rightarrow> Operation \<Rightarrow> Operation" where
  "failed_pending cc sub operation =
     (if \<not> IsForceDeleteCascadeOperation operation
      then (case PrepareAggregatedErrorsArray cc (FailedOperations sub) (ResourceID operation) (ResourceType operation) of
              Inl _ \<Rightarrow> operation | Inr errorsJson \<Rightarrow> operation\<lparr>op_Errors := Some errorsJson\<rparr>)
      else if CascadeRootID operation = ID operation
      then operation\<lparr>op_Errors := Some (http_err ''InternalServerError''
             (''failed to force cascade delete of '' @ ResourceType operation @ '' with id '' @ ResourceID operation) 0)\<rparr>
      else operation)\<lparr>op_State := FAILED\<rparr>"

definition start_deletion :: "'s maintainer \<Rightarrow> Operation \<Rightarrow> string list \<Rightarrow> ('s maint, string list) call" where
  "start_deletion om operation skip =
     call_then (on_storage (handleDuplicateOperations (om_repository om) operation)) (\<lambda>(sameResourceState, same_running).
       if same_running then returns (ResourceID operation # skip)
       else if sameResourceState \<noteq> ''''
       then call_then (update_operation om (operation\<lparr>op_State := sameResourceState\<rparr>)) (\<lambda>_. returns skip)
       else
         (let S = om_cascadePollingScheduler om; operation = operation\<lparr>op_State := IN_PROGRESS\<rparr>
          in call_then (in_cascade_pool (ScheduleAsyncStorageAction S operation (deletionAction S operation)))
               (\<lambda>_. returns (ResourceID operation # skip))))"

definition act_on_children ::
  "'s maintainer \<Rightarrow> Operation \<Rightarrow> string list \<Rightarrow> CascadedOperations \<Rightarrow> ('s maint, string list) call" where
  "act_on_children om operation skip sub =
     (if all_succeeded sub then
        (if IsVirtualType (ResourceType operation)
         then call_then (update_operation om (operation\<lparr>op_State := SUCCEEDED\<rparr>)) (\<lambda>_. returns skip)
         else start_deletion om operation skip)
      else if all_finished_one_failed sub
      then call_then (update_operation om (failed_pending (om_codec om) sub operation)) (\<lambda>_. returns skip)
      else returns skip)"

definition poll_pending :: "'s maintainer \<Rightarrow> Operation \<Rightarrow> string list \<Rightarrow> ('s maint, string list) call" where
  "poll_pending om operation skip =
     (if ResourceID operation \<in> set skip then returns skip
      else
        logged_default skip
          (call_then (on_storage (GetSubOperations (om_repository om) operation)) (act_on_children om operation skip)))"

definition pending_criteria :: "Criterion list" where
  "pending_criteria =
     [ByField NotEqualsOperator ''cascade_root_id'' [''''],
      ByField EqualsOperator ''type'' [DELETE],
      ByField EqualsOperator ''state'' [PENDING]]"

definition pollPendingCascadeOperations :: "'s maintainer \<Rightarrow> ('s maint, unit) call" where
  "pollPendingCascadeOperations om =
     logged (call_then (in_storage (r_List (om_repository om) OperationType pending_criteria))
       (\<lambda>operations. each_operation (poll_pending om) operations []))"

subsection \<open>Operations that nobody works on\<close>

text \<open>The actions of a rescheduled operation; calling the nil action is a panic.\<close>

definition nil_action :: "'s storageAction" where
  "nil_action op w = (None, op, w)"

definition written :: "Operation \<Rightarrow> ('s \<Rightarrow> (error, Object) result \<times> 's) \<Rightarrow> 's storageAction" where
  "written operation f op w =
     (case f w of
        (Inl err, w') \<Rightarrow> (Some (Inl (handled err (ObjectType_String (ResourceType operation)))), op, w')
      | (Inr ob, w') \<Rightarrow> (Some (Inr (Some ob)), op, w'))"

definition fetched_or_nil :: "(Object \<Rightarrow> 's storageAction) \<Rightarrow> 's maintainer \<Rightarrow> Operation \<Rightarrow> ('s maint, 's storageAction) call" where
  "fetched_or_nil action om operation =
     logged_default nil_action
       (call_then (in_storage (r_Get (om_repository om) (ResourceType operation) (by_id (ResourceID operation))))
          (\<lambda>ob. returns (action ob)))"

definition unfinished_action :: "'s maintainer \<Rightarrow> Operation \<Rightarrow> ('s maint, 's storageAction) call" where
  "unfinished_action om operation =
     (let S = om_scheduler om; R = s_repository S
      in if op_Type operation = CREATE then fetched_or_nil (\<lambda>ob. written operation (r_Create R ob)) om operation
         else if op_Type operation = UPDATE
         then fetched_or_nil (\<lambda>ob. written operation (r_Update R ob [] (by_id (ResourceID operation)))) om operation
         else if op_Type operation = DELETE then returns (deletionAction S operation)
         else returns nil_action)"

definition reschedule_unfinished :: "'s maintainer \<Rightarrow> Operation \<Rightarrow> unit \<Rightarrow> ('s maint, unit) call" where
  "reschedule_unfinished om operation _ =
     call_then (unfinished_action om operation) (\<lambda>action.
       logged (in_pool (ScheduleAsyncStorageAction (om_scheduler om) operation action)))"

definition rescheduleUnfinishedOperations :: "'s maintainer \<Rightarrow> ('s maint, unit) call" where
  "rescheduleUnfinishedOperations om =
     call_then (time_now om) (\<lambda>currentTime.
     logged (call_then
       (in_storage (r_List (om_repository om) OperationType
          [ByField EqualsOperator ''platform_id'' [SMPlatform],
           ByField EqualsOperator ''state'' [IN_PROGRESS],
           ByField EqualsOperator ''reschedule'' [''true''],
           ByField EqualsOperator ''deletion_scheduled'' [ZeroTime],
           not_updated_for om (ActionTimeout (om_settings om)) currentTime]))
       (\<lambda>operations. each_operation (reschedule_unfinished om) operations ())))"

definition schedule_deletion :: "'s maintainer \<Rightarrow> Operation \<Rightarrow> ('s maint, unit) call" where
  "schedule_deletion om operation =
     (let S = om_scheduler om in logged (in_pool (ScheduleAsyncStorageAction S operation (deletionAction S operation))))"

definition rescheduleOrphanMitigationOperations :: "'s maintainer \<Rightarrow> ('s maint, unit) call" where
  "rescheduleOrphanMitigationOperations om =
     call_then (time_now om) (\<lambda>currentTime.
     logged (call_then
       (in_storage (r_List (om_repository om) OperationType
          [ByField EqualsOperator ''platform_id'' [SMPlatform],
           ByField NotEqualsOperator ''deletion_scheduled'' [ZeroTime],
           ByField NotEqualsOperator ''type'' [UPDATE],
           not_updated_for om (ActionTimeout (om_settings om)) currentTime]))
       (\<lambda>operations. each_operation (\<lambda>operation _. schedule_deletion om operation) operations ())))"

definition mark_stuck :: "'s maintainer \<Rightarrow> Operation \<Rightarrow> unit \<Rightarrow> ('s maint, unit) call" where
  "mark_stuck om operation _ =
     (let deletes = (op_Type operation = CREATE \<or> op_Type operation = DELETE);
          operation = operation\<lparr>op_State := FAILED\<rparr>
      in call_then
           (if deletes then call_then (time_now om) (\<lambda>now. returns (operation\<lparr>DeletionScheduled := now\<rparr>)) else returns operation)
           (\<lambda>operation.
              logged (call_then (in_storage (r_Update (om_repository om) (OperationObject operation) [] [])) (\<lambda>_.
                if deletes then schedule_deletion om operation else returns ()))))"

definition markStuckOperationsFailed :: "'s maintainer \<Rightarrow> ('s maint, unit) call" where
  "markStuckOperationsFailed om =
     call_then (time_now om) (\<lambda>currentTime.
     logged (call_then
       (in_storage (r_List (om_repository om) OperationType
          [ByField EqualsOperator ''platform_id'' [SMPlatform],
           ByField EqualsOperator ''state'' [IN_PROGRESS],
           ByField EqualsOperator ''reschedule'' [''false''],
           ByField EqualsOperator ''deletion_scheduled'' [ZeroTime],
           not_updated_for om (ActionTimeout (om_settings om)) currentTime]))
       (\<lambda>operations. each_operation (mark_stuck om) operations ())))"

subsection \<open>Running\<close>

record 's maintainerFunctor =
  mf_name :: string
  mf_interval :: int
  mf_execute :: "('s maint, unit) pcall"

definition named_functor :: "string \<Rightarrow> int \<Rightarrow> ('s maint, unit) pcall \<Rightarrow> 's maintainerFunctor" where
  "named_functor n i f = \<lparr>mf_name = n, mf_interval = i, mf_execute = f\<rparr>"

definition functors :: "'s maintainer \<Rightarrow> 's maintainerFunctor list" where
  "functors om =
     (let options = om_settings om; cleanup = CleanupInterval options; poll = PollCascadeInterval options;
          retry = MaintainerRetryInterval options
      in [named_functor ''cleanupExternalOperations'' cleanup (cleanupExternalOperations om),
          named_functor ''cleanupInternalSuccessfulOperations'' cleanup (cleanupInternalSuccessfulOperations om),
          named_functor ''cleanupInternalFailedOperations'' cleanup (cleanupInternalFailedOperations om),
          named_functor ''cleanupFinishedCascadeOperations'' cleanup (ending (CleanupFinishedCascadeOperations om)),
          named_functor ''pollUpdateCascadeOperations'' poll (ending (PollUpdateCascadeOperations om)),
          named_functor ''cleanupResourcelessOperations'' cleanup (ending (CleanupResourcelessOperations om)),
          named_functor ''pollPendingCascadeOperations'' poll (ending (pollPendingCascadeOperations om)),
          named_functor ''markStuckOperationsFailed'' retry (ending (markStuckOperationsFailed om)),
          named_functor ''rescheduleUnfinishedOperations'' retry (ending (rescheduleUnfinishedOperations om)),
          named_functor ''rescheduleOrphanMitigationOperations'' retry (ending (rescheduleOrphanMitigationOperations om))])"

definition initialOperationsLockIndex :: int where
  "initialOperationsLockIndex = 200"

text \<open>The lockers of a new maintainer; the argument makes a locker with an advisory index.\<close>

fun add_lockers :: "(int \<Rightarrow> Locker) \<Rightarrow> int \<Rightarrow> 's maintainerFunctor list \<Rightarrow> (string \<rightharpoonup> Locker) \<Rightarrow> (string \<rightharpoonup> Locker)" where
  "add_lockers lockerCreatorFunc i [] lockers = lockers"
| "add_lockers lockerCreatorFunc i (f # fs) lockers =
     add_lockers lockerCreatorFunc (i + 1) fs (lockers(mf_name f \<mapsto> lockerCreatorFunc i))"

definition NewMaintainer_lockers :: "(int \<Rightarrow> Locker) \<Rightarrow> 's maintainer \<Rightarrow> (string \<rightharpoonup> Locker)" where
  "NewMaintainer_lockers lockerCreatorFunc om =
     add_lockers lockerCreatorFunc initialOperationsLockIndex (functors om) Map.empty"

text \<open>
  One run of a functor: nothing happens when its lock is taken, and the lock is given back also after
  a panic.
\<close>

definition unlock_functor :: "'s pg_lib \<Rightarrow> string \<Rightarrow> 's maint \<Rightarrow> 's maint" where
  "unlock_functor pg n m =
     (case operationLockers m n of
        None \<Rightarrow> m
      | Some l \<Rightarrow>
          (case Unlock pg l (m_world m) of
             (_, l', w) \<Rightarrow> m\<lparr>m_world := w, operationLockers := (operationLockers m)(n \<mapsto> l')\<rparr>))"

definition maintainerFunc :: "'s pg_lib \<Rightarrow> 's maintainerFunctor \<Rightarrow> ('s maint, unit) pcall" where
  "maintainerFunc pg f m =
     (case operationLockers m (mf_name f) of
        None \<Rightarrow> Some (Panicked, m)
      | Some l \<Rightarrow>
          (case TryLock pg l (m_world m) of
             (err, l', w) \<Rightarrow>
               let m = m\<lparr>m_world := w, operationLockers := (operationLockers m)(mf_name f \<mapsto> l')\<rparr>
               in if err \<noteq> None then Some (Returns (), m)
                  else (case mf_execute f m of None \<Rightarrow> None | Some (r, m') \<Rightarrow> Some (r, unlock_functor pg (mf_name f) m'))))"

text \<open>
  \<open>processOperations\<close>: a run for each tick until the context is done; a ticker with an interval that is
  not positive panics.
\<close>

fun each_tick :: "nat \<Rightarrow> ('s maint, unit) pcall \<Rightarrow> ('s maint, unit) pcall" where
  "each_tick 0 f = ending (returns ())"
| "each_tick (Suc ticks) f = pcall_then f (\<lambda>_. each_tick ticks f)"

definition processOperations :: "nat \<Rightarrow> 's pg_lib \<Rightarrow> 's maintainerFunctor \<Rightarrow> ('s maint, unit) pcall" where
  "processOperations ticks pg f =
     (if mf_interval f \<le> 0 then ending panics else each_tick ticks (maintainerFunc pg f))"

end
