(* ===== verification/MaintainerFacts.thy ===== *)
theory MaintainerFacts
  imports Maintainer
begin

text \<open>
  What the maintainer guarantees: a clean-up ends and removes everything it counted, a pass over the
  pending operations of cascades starts a deletion only when everything below is gone and at most
  one for each resource, and a functor runs only while its advisory lock is held.
\<close>

subsection \<open>Clean-up in batches\<close>

lemma delete_batches_returns:
  assumes "0 < b"
  shows "\<exists>w'. delete_batches R cs b n i w = Some w'"
proof (induction "nat (n - int i * b)" arbitrary: i w rule: less_induct)
  case less
  show ?case
  proof (cases "another_batch n b i")
    case True
    then have "nat (n - int (Suc i) * b) < nat (n - int i * b)" using assms by (simp add: another_batch_def algebra_simps)
    then have "\<exists>w'. delete_batches R cs b n (Suc i) w = Some w'" for w by (rule less)
    then show ?thesis
      by (subst delete_batches.simps) (auto split: sum.splits prod.splits)
  qed (subst delete_batches.simps, simp)
qed

text \<open>
  A storage whose operations that meet the criteria are \<open>view w\<close>: it counts and lists them and deletes by
  identifier, saying possibly that there is nothing to delete.
\<close>

definition cleans :: "'s raw_repository \<Rightarrow> Criterion list \<Rightarrow> int \<Rightarrow> ('s \<Rightarrow> Object list) \<Rightarrow> bool" where
  "cleans R cs b view \<longleftrightarrow>
     (\<forall>w. \<exists>w'. r_Count R OperationType cs w = (Inr (int (length (view w))), w') \<and> view w' = view w) \<and>
     (\<forall>w. \<exists>w'. r_List R OperationType (cs @ [LimitResultBy b]) w = (Inr (take (nat b) (view w)), w') \<and> view w' = view w) \<and>
     (\<forall>ids w. \<exists>r w'. r_Delete R OperationType [ByField InOperator ''id'' ids] w = (r, w') \<and>
        r \<in> {Inr (), Inl ErrNotFoundInStorage} \<and> view w' = filter (\<lambda>ob. GetID ob \<notin> set ids) (view w))"

lemma length_filter_listed:
  "length (filter (\<lambda>ob. GetID ob \<notin> set (map GetID (take k obs))) obs) \<le> length obs - k"
proof -
  let ?P = "\<lambda>ob. GetID ob \<notin> set (map GetID (take k obs))"
  have "filter ?P (take k obs) = []" by (simp add: filter_empty_conv)
  then have "filter ?P obs = filter ?P (drop k obs)" by (metis append_Nil append_take_drop_id filter_append)
  then show ?thesis by (metis length_drop length_filter_le)
qed

lemma delete_batches_empties:
  assumes "cleans R cs b view" "0 < b"
  shows "int (length (view w)) \<le> n - int i * b \<or> view w = [] \<Longrightarrow>
    \<exists>w'. delete_batches R (cs @ [LimitResultBy b]) b n i w = Some w' \<and> view w' = []"
proof (induction "nat (n - int i * b)" arbitrary: i w rule: less_induct)
  case less
  show ?case
  proof (cases "another_batch n b i")
    case True
    obtain w1 where l: "r_List R OperationType (cs @ [LimitResultBy b]) w = (Inr (take (nat b) (view w)), w1)" "view w1 = view w"
      using assms(1) unfolding cleans_def by metis
    show ?thesis
    proof (cases "view w = []")
      case True
      with l \<open>another_batch n b i\<close> show ?thesis by (subst delete_batches.simps) simp
    next
      case False
      let ?ids = "map GetID (take (nat b) (view w))"
      obtain r w2 where d: "r_Delete R OperationType [ByField InOperator ''id'' ?ids] w1 = (r, w2)"
        "r \<in> {Inr (), Inl ErrNotFoundInStorage}" "view w2 = filter (\<lambda>ob. GetID ob \<notin> set ?ids) (view w)"
        using assms(1) l(2) unfolding cleans_def by metis
      have "length (view w2) \<le> length (view w) - nat b" unfolding d(3) by (rule length_filter_listed)
      then have "int (length (view w2)) \<le> n - int (Suc i) * b \<or> view w2 = []"
        using less.prems False by (cases "length (view w) \<le> nat b") (auto simp: algebra_simps)
      moreover have "nat (n - int (Suc i) * b) < nat (n - int i * b)"
        using True assms(2) by (simp add: another_batch_def algebra_simps)
      ultimately obtain w' where "delete_batches R (cs @ [LimitResultBy b]) b n (Suc i) w2 = Some w'" "view w' = []"
        using less.hyps by blast
      with True False l d assms(2) show ?thesis by (subst delete_batches.simps) auto
    qed
  next
    case False
    have "view w = []"
    proof (rule ccontr)
      assume "view w \<noteq> []"
      with less.prems have "0 < n - int i * b" by (cases "view w") auto
      with False assms(2) show False by (simp add: another_batch_def)
    qed
    with False show ?thesis by (subst delete_batches.simps) simp
  qed
qed

text \<open>
  C18.  A clean-up with a positive batch size returns whatever the storage answers.  When the storage
  counts, lists and deletes without other errors, no operation that met the criteria is left.
\<close>

theorem batchDeleteOperation_empties:
  assumes "0 < b"
  shows "\<exists>w'. batchDeleteOperation R cs b w = Some w' \<and> (cleans R cs b view \<longrightarrow> view w' = [])"
proof (cases "cleans R cs b view")
  case True
  then obtain w1 where c: "r_Count R OperationType cs w = (Inr (int (length (view w))), w1)" "view w1 = view w"
    unfolding cleans_def by metis
  from delete_batches_empties [OF True assms, of w1 "int (length (view w))" 0] c show ?thesis
    by (auto simp: batchDeleteOperation_def)
next
  case False
  obtain r w1 where "r_Count R OperationType cs w = (r, w1)" by fastforce
  with False delete_batches_returns [OF assms] show ?thesis by (cases r) (auto simp: batchDeleteOperation_def)
qed

subsection \<open>Pending deletions of a cascade\<close>

text \<open>A call that starts no goroutine.\<close>

definition idle :: "('s maint, 'a) call \<Rightarrow> bool" where
  "idle f \<longleftrightarrow> (\<forall>m r m'. f m = (r, m') \<longrightarrow> c_jobs m' = c_jobs m \<and> m_jobs m' = m_jobs m)"

lemma idleD: "idle f \<Longrightarrow> f m = (r, m') \<Longrightarrow> c_jobs m' = c_jobs m \<and> m_jobs m' = m_jobs m"
  by (simp add: idle_def)

lemma idle_call_then: "idle f \<Longrightarrow> (\<And>x. idle (g x)) \<Longrightarrow> idle (call_then f g)"
  by (fastforce simp: idle_def call_then_def split: prod.splits outcome.splits)

lemma idle_on_error: "idle f \<Longrightarrow> (\<And>x. idle (g x)) \<Longrightarrow> idle (on_error f g)"
  by (fastforce simp: idle_def on_error_def split: prod.splits outcome.splits)

lemma idle_basic: "idle (returns x)" "idle (in_storage f)" "idle (on_storage g)"
  by (auto simp: idle_def returns_def in_storage_def on_storage_def split: prod.splits)

lemma idle_logged: "idle f \<Longrightarrow> idle (logged f)"
  by (simp add: logged_def idle_call_then idle_on_error idle_basic)

lemma idle_update: "idle (update_operation om operation)"
  by (simp add: update_operation_def idle_logged idle_basic)

lemmas idle_intros = idle_call_then idle_on_error idle_basic idle_logged idle_update

lemma schedule_jobs:
  assumes "ScheduleAsyncStorageAction S operation action s = (r, s')"
  shows "jobs s' = jobs s @ (if r = Returns () then [(operation, action)] else [])"
proof -
  have "jobs s2 = jobs s" if "executeOperationPreconditions S operation (s\<lparr>workers := workers s + 1\<rparr>) = (r2, s2)" for r2 s2
    using keepsD [OF keeps_preconditions that] by simp
  with assms show ?thesis
    by (auto simp: ScheduleAsyncStorageAction_def split: if_splits prod.splits outcome.splits)
qed

text \<open>A deletion that a pass may start: everything below the resource has succeeded.\<close>

definition due :: "'s maintainer \<Rightarrow> Operation \<times> 's storageAction \<Rightarrow> bool" where
  "due om = (\<lambda>(operation, action).
     op_State operation = IN_PROGRESS \<and> \<not> IsVirtualType (ResourceType operation) \<and>
     action = deletionAction (om_cascadePollingScheduler om) operation \<and>
     (\<exists>sub w w'. GetSubOperations (om_repository om) operation w = (Returns sub, w') \<and> all_succeeded sub))"

definition started ::
  "'s maintainer \<Rightarrow> string list \<Rightarrow> 's maint \<Rightarrow> string list outcome \<Rightarrow> 's maint \<Rightarrow> (Operation \<times> 's storageAction) list \<Rightarrow> bool" where
  "started om skip m r m' new \<longleftrightarrow>
     c_jobs m' = c_jobs m @ new \<and> m_jobs m' = m_jobs m \<and> (\<forall>j\<in>set new. due om j) \<and>
     distinct (map (ResourceID \<circ> fst) new) \<and> set (map (ResourceID \<circ> fst) new) \<inter> set skip = {} \<and>
     (\<forall>skip'. r = Returns skip' \<longrightarrow> set skip \<union> set (map (ResourceID \<circ> fst) new) \<subseteq> set skip')"

lemma started_trans:
  assumes "started om skip m (Returns skip1) m1 new" "started om skip1 m1 r m' rest"
  shows "started om skip m r m' (new @ rest)"
proof -
  let ?new = "set (map (ResourceID \<circ> fst) new)" and ?more = "set (map (ResourceID \<circ> fst) rest)"
  have "?new \<inter> set skip = {}" "set skip \<union> ?new \<subseteq> set skip1" "?more \<inter> set skip1 = {}"
    "\<forall>skip'. r = Returns skip' \<longrightarrow> set skip1 \<union> ?more \<subseteq> set skip'"
    using assms unfolding started_def by blast+
  then have "?new \<inter> ?more = {}" "(?new \<union> ?more) \<inter> set skip = {}"
    "\<forall>skip'. r = Returns skip' \<longrightarrow> set skip \<union> (?new \<union> ?more) \<subseteq> set skip'" by blast+
  with assms show ?thesis
    by (simp only: started_def map_append set_append distinct_append ball_Un append_assoc) simp
qed

text \<open>One operation of a pass: it starts its own deletion and is then skipped, or it starts nothing.\<close>

definition starts_one :: "'s maintainer \<Rightarrow> Operation \<Rightarrow> string list \<Rightarrow> 's maint \<Rightarrow> string list outcome \<Rightarrow> 's maint \<Rightarrow> bool" where
  "starts_one om operation skip m r m' \<longleftrightarrow> m_jobs m' = m_jobs m \<and>
     (c_jobs m' = c_jobs m \<and> (\<forall>skip'. r = Returns skip' \<longrightarrow> set skip \<subseteq> set skip') \<or>
      (\<exists>j. c_jobs m' = c_jobs m @ [j] \<and> due om j \<and> ResourceID (fst j) = ResourceID operation \<and>
         r = Returns (ResourceID operation # skip)))"

lemma starts_one_idle:
  assumes "f m = (r, m')" "idle f" "\<And>skip'. r = Returns skip' \<Longrightarrow> set skip \<subseteq> set skip'"
  shows "starts_one om operation skip m r m'"
  using idleD [OF assms(2,1)] assms(3) by (auto simp: starts_one_def)

lemma update_then:
  assumes "call_then (update_operation om op) (\<lambda>_. returns skip) m = (r, m')"
  shows "starts_one om operation skip m r m'"
proof (rule starts_one_idle [where f = "call_then (update_operation om op) (\<lambda>_. returns skip)"])
  show "set skip \<subseteq> set skip'" if "r = Returns skip'" for skip'
    using assms that by (auto simp: call_then_def returns_def split: prod.splits outcome.splits)
qed (use assms in \<open>auto intro: idle_intros\<close>)

lemma in_cascade_pool_schedule:
  assumes "in_cascade_pool (ScheduleAsyncStorageAction S operation action) m = (r, m')"
  shows "m_jobs m' = m_jobs m \<and> c_jobs m' = c_jobs m @ (if r = Returns () then [(operation, action)] else [])"
  using assms schedule_jobs [of S operation action "\<lparr>sc_world = m_world m, workers = c_workers m, jobs = c_jobs m\<rparr>"]
  by (auto simp: in_cascade_pool_def split: prod.splits)

lemma start_deletion_starts:
  assumes run: "start_deletion om operation skip m = (r, m')" and virtual: "\<not> IsVirtualType (ResourceType operation)"
    and sub: "GetSubOperations (om_repository om) operation w = (Returns sub, w')" "all_succeeded sub"
  shows "starts_one om operation skip m r m'"
proof -
  obtain r1 m1 where dup: "on_storage (handleDuplicateOperations (om_repository om) operation) m = (r1, m1)" by fastforce
  note same = idleD [OF idle_basic(3) dup]
  show ?thesis
  proof (cases r1)
    case (Returns x)
    obtain st running where x: "x = (st, running)" by fastforce
    show ?thesis
    proof (cases "running \<or> st \<noteq> ''''")
      case True
      have "starts_one om operation skip m1 r m'"
      proof (cases running)
        case True
        with run dup Returns x show ?thesis by (auto simp: start_deletion_def starts_one_def returns_def)
      next
        case False
        with \<open>running \<or> st \<noteq> ''''\<close> run dup Returns x show ?thesis
          by (intro update_then) (simp add: start_deletion_def)
      qed
      with same show ?thesis by (simp add: starts_one_def)
    next
      case False
      let ?op = "operation\<lparr>op_State := IN_PROGRESS\<rparr>" and ?S = "om_cascadePollingScheduler om"
      obtain r2 m2 where sched: "in_cascade_pool (ScheduleAsyncStorageAction ?S ?op (deletionAction ?S ?op)) m1 = (r2, m2)" by fastforce
      from in_cascade_pool_schedule [OF sched] have jobs: "m_jobs m2 = m_jobs m"
        "c_jobs m2 = c_jobs m @ (if r2 = Returns () then [(?op, deletionAction ?S ?op)] else [])" using same by auto
      have "due om (?op, deletionAction ?S ?op)" using virtual sub by (auto simp: due_def GetSubOperations_def)
      moreover have "m' = m2 \<and> (if r2 = Returns () then r = Returns (ResourceID operation # skip) else (\<forall>y. r \<noteq> Returns y))"
        using run dup Returns x False sched
        by (cases r2) (auto simp: start_deletion_def Let_def returns_def)
      ultimately show ?thesis using jobs by (auto simp: starts_one_def split: if_splits)
    qed
  qed (use run dup same in \<open>auto simp: start_deletion_def starts_one_def\<close>)
qed

lemma logged_default_starts_one:
  assumes "logged_default skip f m = (r, m')" "\<And>r1 m1. f m = (r1, m1) \<Longrightarrow> starts_one om operation skip m r1 m1"
  shows "starts_one om operation skip m r m'"
proof -
  obtain r1 m1 where f: "f m = (r1, m1)" by fastforce
  from assms(1) f assms(2) [OF f] show ?thesis
    by (cases r1) (auto simp: logged_default_def on_error_def returns_def starts_one_def)
qed

lemma act_on_children_starts:
  assumes run: "act_on_children om operation skip sub m = (r, m')"
    and sub: "GetSubOperations (om_repository om) operation w = (Returns sub, w')"
  shows "starts_one om operation skip m r m'"
proof -
  consider (virtual) op where "act_on_children om operation skip sub = call_then (update_operation om op) (\<lambda>_. returns skip)"
    | (delete) "act_on_children om operation skip sub = start_deletion om operation skip" "all_succeeded sub"
        "\<not> IsVirtualType (ResourceType operation)"
    | (nothing) "act_on_children om operation skip sub = returns skip"
    unfolding act_on_children_def by metis
  then show ?thesis
  proof cases
    case virtual
    with run show ?thesis by (simp add: update_then)
  next
    case delete
    with run sub show ?thesis by (simp add: start_deletion_starts)
  next
    case nothing
    with run show ?thesis by (auto simp: returns_def starts_one_def)
  qed
qed

lemma poll_pending_starts_one:
  assumes "poll_pending om operation skip m = (r, m')" "ResourceID operation \<notin> set skip"
  shows "starts_one om operation skip m r m'"
proof (rule logged_default_starts_one)
  let ?get = "on_storage (GetSubOperations (om_repository om) operation)"
  from assms show "logged_default skip (call_then ?get (act_on_children om operation skip)) m = (r, m')"
    by (simp add: poll_pending_def)
  fix r1 m1
  assume run: "call_then ?get (act_on_children om operation skip) m = (r1, m1)"
  obtain r2 m2 where get: "?get m = (r2, m2)" by fastforce
  note same = idleD [OF idle_basic(3) get]
  show "starts_one om operation skip m r1 m1"
  proof (cases r2)
    case (Returns sub)
    from get Returns obtain w' where sub: "GetSubOperations (om_repository om) operation (m_world m) = (Returns sub, w')"
      by (auto simp: on_storage_def split: prod.splits)
    have "starts_one om operation skip m2 r1 m1"
      by (rule act_on_children_starts [OF _ sub]) (use run get Returns in simp)
    with same show ?thesis by (simp add: starts_one_def)
  qed (use run get same in \<open>auto simp: starts_one_def\<close>)
qed

lemma poll_pending_skipped:
  "ResourceID operation \<in> set skip \<Longrightarrow> poll_pending om operation skip m = (Returns skip, m)"
  by (simp add: poll_pending_def returns_def)

lemma poll_pending_starts:
  assumes "poll_pending om operation skip m = (r, m')"
  shows "\<exists>new. started om skip m r m' new"
proof (cases "ResourceID operation \<in> set skip")
  case True
  with assms have "r = Returns skip" "m' = m" by (auto simp: poll_pending_skipped)
  then show ?thesis by (intro exI [of _ "[]"]) (simp add: started_def)
next
  case False
  from poll_pending_starts_one [OF assms False] consider
      (idle) "c_jobs m' = c_jobs m" "m_jobs m' = m_jobs m" "\<forall>skip'. r = Returns skip' \<longrightarrow> set skip \<subseteq> set skip'"
    | (job) j where "c_jobs m' = c_jobs m @ [j]" "m_jobs m' = m_jobs m" "due om j" "ResourceID (fst j) = ResourceID operation"
        "r = Returns (ResourceID operation # skip)"
    unfolding starts_one_def by blast
  then show ?thesis
  proof cases
    case idle
    then show ?thesis by (intro exI [of _ "[]"]) (simp add: started_def)
  next
    case job
    with False show ?thesis by (intro exI [of _ "[j]"]) (auto simp: started_def)
  qed
qed

lemma each_operation_starts:
  "each_operation (poll_pending om) obs skip m = (r, m') \<Longrightarrow> \<exists>new. started om skip m r m' new"
proof (induction obs arbitrary: skip m)
  case Nil
  then show ?case by (intro exI [of _ "[]"]) (auto simp: started_def returns_def)
next
  case (Cons ob obs)
  show ?case
  proof (cases "as_operation ob")
    case None
    with Cons.prems show ?thesis by (intro exI [of _ "[]"]) (auto simp: started_def panics_def)
  next
    case (Some operation)
    with Cons.prems have run: "call_then (poll_pending om operation skip) (each_operation (poll_pending om) obs) m = (r, m')" by simp
    obtain r1 m1 where one: "poll_pending om operation skip m = (r1, m1)" by fastforce
    from poll_pending_starts [OF one] obtain new where new: "started om skip m r1 m1 new" by blast
    show ?thesis
    proof (cases r1)
      case (Returns skip1)
      with run one have "each_operation (poll_pending om) obs skip1 m1 = (r, m')" by simp
      then obtain rest where "started om skip1 m1 r m' rest" using Cons.IH by blast
      with started_trans new Returns show ?thesis by blast
    qed (use run one new in \<open>auto simp: started_def\<close>)
  qed
qed


subsection \<open>Functors and their locks\<close>

text \<open>
  The documented behaviour of \<open>pg_try_advisory_lock\<close>: it answers true only when no other session holds the lock, which
  the session then holds.
\<close>

definition try_lock_law :: "'w pg_lib \<Rightarrow> ('w \<Rightarrow> pg_view) \<Rightarrow> bool" where
  "try_lock_law pg view \<longleftrightarrow>
     (\<forall>i c w rows w'. pg_try_advisory_lock pg i c w = (Inr rows, w') \<longrightarrow> scan_rows rows False = Inr True \<longrightarrow>
        v_holder (view w) i \<in> {None, Some c} \<and> v_holder (view w') i = Some c)"

lemma TryLock_holds:
  assumes laws: "pg_laws pg view" "try_lock_law pg view" and run: "TryLock pg l w = (None, l', w')"
  shows "\<exists>c. lockerCon l' = Some c \<and> isLocked l' \<and> AdvisoryIndex l' = AdvisoryIndex l \<and> c \<notin> v_open (view w) \<and>
    v_holder (view w) (AdvisoryIndex l) \<in> {None, Some c} \<and> v_holder (view w') (AdvisoryIndex l) = Some c"
proof -
  from run have free: "\<not> (isLocked l \<or> lockerCon l \<noteq> None)"
    unfolding TryLock_def by (rule contrapos_pn) (simp only: if_True prod.inject option.distinct, simp)
  obtain rc w1 where conn: "pg_Conn pg w = (rc, w1)" by fastforce
  with run free obtain c where c: "rc = Inr c" by (cases rc) (auto simp: TryLock_def)
  note v1 = pg_lawsD(2) [OF laws(1) conn [unfolded c]]
  obtain r w2 where lock: "pg_try_advisory_lock pg (AdvisoryIndex l) c w1 = (r, w2)" by fastforce
  with run free conn c obtain rows where rows: "r = Inr rows" "scan_rows rows False = Inr True" "l' = l\<lparr>lockerCon := Some c, isLocked := True\<rparr>" "w' = w2"
    by (auto simp: TryLock_def Let_def release_def split: sum.splits if_splits)
  from laws(2) lock rows have "v_holder (view w1) (AdvisoryIndex l) \<in> {None, Some c} \<and> v_holder (view w2) (AdvisoryIndex l) = Some c"
    unfolding try_lock_law_def by blast
  with v1 rows show ?thesis by auto
qed

text \<open>Every functor has a locker of its own, with an index from 200 on.\<close>

lemma functor_lockers:
  "map (\<lambda>f. NewMaintainer_lockers create om (mf_name f)) (functors om) = map (\<lambda>i. Some (create i)) [200..209]"
  by (simp add: NewMaintainer_lockers_def functors_def named_functor_def Let_def initialOperationsLockIndex_def upto_rec_numeral)

lemma functor_names_distinct: "distinct (map mf_name (functors om))"
  by (simp add: functors_def named_functor_def Let_def)

definition other_session_holds :: "pg_view \<Rightarrow> int \<Rightarrow> bool" where
  "other_session_holds v i \<longleftrightarrow> (\<exists>d \<in> v_open v. v_holder v i = Some d)"

text \<open>
  C19.  A run of a functor executes it only while a session of its own holds the functor's
  advisory lock.  While another session holds the lock, the run returns at once and its effect does
  not depend on what the functor would do.
\<close>

theorem maintainerFunc_holds_lock:
  assumes laws: "pg_laws pg view" "try_lock_law pg view" and l: "operationLockers m (mf_name f) = Some l"
  shows "(\<forall>g. mf_name g = mf_name f \<longrightarrow> maintainerFunc pg g m = maintainerFunc pg f m) \<and>
       (\<exists>m'. maintainerFunc pg f m = Some (Returns (), m')) \<or>
     \<not> other_session_holds (view (m_world m)) (AdvisoryIndex l) \<and>
     (\<exists>m1 l1. operationLockers m1 (mf_name f) = Some l1 \<and> lockerCon l1 \<noteq> None \<and>
        v_holder (view (m_world m1)) (AdvisoryIndex l) = lockerCon l1 \<and>
        maintainerFunc pg f m = map_option (\<lambda>(r, m'). (r, unlock_functor pg (mf_name f) m')) (mf_execute f m1))"
proof -
  obtain err l1 w where lock: "TryLock pg l (m_world m) = (err, l1, w)" by (metis prod_cases3)
  let ?m1 = "m\<lparr>m_world := w, operationLockers := (operationLockers m)(mf_name f \<mapsto> l1)\<rparr>"
  show ?thesis
  proof (cases err)
    case (Some e)
    with l lock have "maintainerFunc pg g m = Some (Returns (), ?m1)" if "mf_name g = mf_name f" for g
      using that by (simp add: maintainerFunc_def)
    then show ?thesis by simp
  next
    case None
    from TryLock_holds [OF laws lock [unfolded None]] obtain c where c: "lockerCon l1 = Some c" "c \<notin> v_open (view (m_world m))"
      "v_holder (view (m_world m)) (AdvisoryIndex l) \<in> {None, Some c}" "v_holder (view w) (AdvisoryIndex l) = Some c" by blast
    have "maintainerFunc pg f m = map_option (\<lambda>(r, m'). (r, unlock_functor pg (mf_name f) m')) (mf_execute f ?m1)"
      using l lock None by (auto simp: maintainerFunc_def map_option_case split: option.splits)
    moreover have "\<not> other_session_holds (view (m_world m)) (AdvisoryIndex l)" using c(2,3) by (auto simp: other_session_holds_def)
    ultimately show ?thesis using c by (intro disjI2 conjI exI [of _ ?m1] exI [of _ l1]) auto
  qed
qed

subsection \<open>Examples\<close>

text \<open>A storage of operations that are all old, and a clean-up of three of them in batches of two.\<close>

definition old_operations :: "Object list raw_repository" where
  "old_operations = \<lparr>r_Create = (\<lambda>x w. (Inr x, w @ [x])), r_Get = (\<lambda>_ _ w. (Inl ErrNotFoundInStorage, w)),
     r_GetForUpdate = (\<lambda>_ _ w. (Inl ErrNotFoundInStorage, w)), r_List = (\<lambda>_ _ w. (Inr (take 2 w), w)),
     r_ListNoLabels = (\<lambda>_ _ w. (Inr w, w)), r_Count = (\<lambda>_ _ w. (Inr (int (length w)), w)),
     r_CountLabelValues = (\<lambda>_ _ w. (Inr 0, w)), r_QueryForList = (\<lambda>_ _ _ w. (Inr [], w)),
     r_DeleteReturning = (\<lambda>_ _ w. (Inr w, [])),
     r_Delete = (\<lambda>_ cs w. (Inr (), filter (\<lambda>ob. GetID ob \<notin> set (RightOp (hd cs))) w)),
     r_Update = (\<lambda>x _ _ w. (Inr x, w)), r_UpdateLabels = (\<lambda>_ _ _ _ w. (Inr (), w))\<rparr>"

lemma old_operations_cleans: "cleans old_operations [] 2 (\<lambda>w. w)"
  by (simp add: cleans_def old_operations_def ByField_def NewCriterion_def)

definition three_old :: "Object list" where
  "three_old = map (\<lambda>i. OperationObject (a_deletion\<lparr>ID := i\<rparr>)) [''a'', ''b'', ''c'']"

theorem batchDeleteOperation_empties_witness: "batchDeleteOperation old_operations [] 2 three_old = Some []"
  using batchDeleteOperation_empties [of 2 old_operations "[]" three_old "\<lambda>w. w"] old_operations_cleans by auto

text \<open>Two pending operations of the same resource without sub-operations.\<close>

definition pending_deletion :: Operation where
  "pending_deletion = a_deletion\<lparr>op_State := PENDING\<rparr>"

definition pending_repository :: "op_world raw_repository" where
  "pending_repository = op_repository\<lparr>r_List := (\<lambda>_ cs w.
     (Inr (if cs = pending_criteria then [OperationObject pending_deletion, OperationObject pending_deletion] else []), w))\<rparr>"

definition example_maintainer :: "op_world maintainer" where
  "example_maintainer = \<lparr>om_repository = pending_repository, om_entities = [], om_scheduler = one_worker,
     om_cascadePollingScheduler = one_worker, om_settings = DefaultSettings,
     om_codec = \<lparr>cc_read = (\<lambda>_. None), cc_write = (\<lambda>_. Inl ErrNotFoundInStorage)\<rparr>,
     om_now = (\<lambda>w. (0, w)), om_ToRFCNanoFormat = (\<lambda>_. '''')\<rparr>"

definition at_rest :: "'s \<Rightarrow> 's maint" where
  "at_rest w = \<lparr>m_world = w, m_workers = 0, m_jobs = [], c_workers = 0, c_jobs = [], operationLockers = Map.empty\<rparr>"

lemma pending_starts:
  "pollPendingCascadeOperations example_maintainer (at_rest Map.empty) =
     (Returns (), (at_rest [''op'' \<mapsto> a_deletion])\<lparr>c_workers := 1, c_jobs := [(a_deletion, deletionAction one_worker a_deletion)]\<rparr>)"
proof -
  let ?m = "at_rest Map.empty :: op_world maint"
  let ?m1 = "(at_rest [''op'' \<mapsto> a_deletion])\<lparr>c_workers := 1, c_jobs := [(a_deletion, deletionAction one_worker a_deletion)]\<rparr>"
  have op: "pending_deletion\<lparr>op_State := IN_PROGRESS\<rparr> = a_deletion" "ResourceID pending_deletion = ''i''" "ResourceID a_deletion = ''i''"
    "\<not> IsVirtualType (ResourceType pending_deletion)"
    by (simp_all add: pending_deletion_def a_deletion_def IsVirtualType_def type_names)
  have crit: "[ByField EqualsOperator ''parent_id'' x] \<noteq> pending_criteria" "ByField EqualsOperator ''resource_id'' y # ys \<noteq> pending_criteria" for x y ys
    by (simp_all add: pending_criteria_def ByField_def NewCriterion_def)
  have l: "r_List pending_repository t cs w = (Inr (if cs = pending_criteria then [OperationObject pending_deletion, OperationObject pending_deletion] else []), w)" for t cs w
    by (simp add: pending_repository_def)
  have sub: "on_storage (GetSubOperations pending_repository pending_deletion) m = (Returns (cascaded []), m)" for m
    by (simp add: on_storage_def GetSubOperations_def call_then_def raw_call_def l crit returns_def)
  have dup: "on_storage (handleDuplicateOperations pending_repository pending_deletion) m = (Returns ('''', False), m)" for m
    by (simp add: on_storage_def handleDuplicateOperations_def call_then_def raw_call_def l crit returns_def)
  have all: "all_succeeded (cascaded [])" by (simp add: all_succeeded_def cascaded_def in_state_def)
  have pool: "s_poolSize one_worker = 1" by (simp add: one_worker_def)
  have sched: "in_cascade_pool (ScheduleAsyncStorageAction one_worker a_deletion (deletionAction one_worker a_deletion)) ?m = (Returns (), ?m1)"
    by (simp add: in_cascade_pool_def ScheduleAsyncStorageAction_def a_deletion_preconditions pool at_rest_def)
  have om: "om_repository example_maintainer = pending_repository" "om_cascadePollingScheduler example_maintainer = one_worker"
    by (simp_all add: example_maintainer_def)
  have "start_deletion example_maintainer pending_deletion [] ?m = (Returns [''i''], ?m1)"
    by (simp add: start_deletion_def om dup Let_def op sched returns_def)
  then have "poll_pending example_maintainer pending_deletion [] ?m = (Returns [''i''], ?m1)"
    by (simp add: poll_pending_def om sub act_on_children_def all op logged_default_def on_error_def)
  then show ?thesis
    by (simp add: pollPendingCascadeOperations_def logged_def on_error_def in_storage_def raw_call_def om l as_operation_def
        poll_pending_skipped op returns_def)
qed


text \<open>A functor whose lock is held by session 7.\<close>

definition locked_world :: example_world where
  "locked_world = \<lparr>ew_holder = [200 \<mapsto> 7], ew_open = [7], ew_rows = []\<rparr>"

definition locked_maint :: "example_world maint" where
  "locked_maint = (at_rest locked_world)\<lparr>operationLockers := [''f'' \<mapsto> \<lparr>isLocked = False, AdvisoryIndex = 200, lockerCon = None\<rparr>]\<rparr>"

lemma example_try_lock: "try_lock_law example_pg example_view"
  by (auto simp: try_lock_law_def example_pg_def example_view_def split: if_splits)

theorem maintainerFunc_holds_lock_witness:
  "\<exists>m'. \<forall>f. maintainerFunc example_pg (named_functor ''f'' 1 f) locked_maint = Some (Returns (), m')"
proof -
  let ?g = "named_functor ''f'' 1 (\<lambda>_. None) :: example_world maintainerFunctor"
  have "operationLockers locked_maint (mf_name ?g) = Some \<lparr>isLocked = False, AdvisoryIndex = 200, lockerCon = None\<rparr>"
    by (simp add: locked_maint_def named_functor_def)
  note run = maintainerFunc_holds_lock [OF example_pg_laws example_try_lock this]
  have held: "other_session_holds (example_view (m_world locked_maint)) 200"
    by (simp add: other_session_holds_def locked_maint_def at_rest_def locked_world_def example_view_def)
  have names: "mf_name (named_functor n i f) = n" for n i and f :: "(example_world maint, unit) pcall"
    by (simp add: named_functor_def)
  from run held have same: "\<forall>g. mf_name g = mf_name ?g \<longrightarrow> maintainerFunc example_pg g locked_maint = maintainerFunc example_pg ?g locked_maint"
    and "\<exists>m'. maintainerFunc example_pg ?g locked_maint = Some (Returns (), m')" by (simp_all only: Locker.simps) blast+
  then obtain m' where "maintainerFunc example_pg ?g locked_maint = Some (Returns (), m')" by blast
  then have "maintainerFunc example_pg (named_functor ''f'' 1 f) locked_maint = Some (Returns (), m')" for f
    using same names by metis
  then show ?thesis by blast
qed

end
