(* ===== verification/PredefinedPlans.thy ===== *)
theory PredefinedPlans
  imports Cascade
begin

text \<open>
  The plan of references to shared instances (\<open>src/schemas/predefined_plans.go\<close>), which a catalog
  gets when one of its plans supports instance sharing, with the texts of
  \<open>src/pkg/instance_sharing\<close>.
\<close>

subsection \<open>The schema\<close>

definition ReferencePlanName :: string where
  "ReferencePlanName = ''reference-instance''"

abbreviation ReferencePlanDescription :: string where
  "ReferencePlanDescription \<equiv> ''Allows to create a reference to a shared service instance from any environment in a subaccount and manage service bindings to that service instance.''"

abbreviation ReferencedInstanceIDKey :: string where
  "ReferencedInstanceIDKey \<equiv> ''referenced_instance_id''"

abbreviation ReferencedInstanceIDTitle :: string where
  "ReferencedInstanceIDTitle \<equiv> ''Shared Instance ID''"

abbreviation ReferencedInstanceIDDescription :: string where
  "ReferencedInstanceIDDescription \<equiv> ''Specify the ID of the instance to which you want to create the reference.''"

abbreviation SelectorsKey :: string where
  "SelectorsKey \<equiv> ''selectors''"

abbreviation BySelectorsTitle :: string where
  "BySelectorsTitle \<equiv> ''Find by''"

abbreviation BySelectorsDescription :: string where
  "BySelectorsDescription \<equiv> ''You can create a reference to a shared service instance without providing its ID. Use instead various attributes, such as plan, instance name, or labels to find a matching shared instance to which to create the reference.''"

abbreviation ReferenceInstanceNameSelectorKey :: string where
  "ReferenceInstanceNameSelectorKey \<equiv> ''instance_name_selector''"

abbreviation ReferenceInstanceNameSelectorTitle :: string where
  "ReferenceInstanceNameSelectorTitle \<equiv> ''Instance Name''"

abbreviation ReferenceInstanceNameSelectorDescription :: string where
  "ReferenceInstanceNameSelectorDescription \<equiv> ''Specify the instance name of the shared instance to which you want to create the reference.''"

abbreviation ReferencePlanNameSelectorKey :: string where
  "ReferencePlanNameSelectorKey \<equiv> ''plan_name_selector''"

abbreviation ReferencePlanNameSelectorTitle :: string where
  "ReferencePlanNameSelectorTitle \<equiv> ''Plan Name''"

abbreviation ReferencePlanNameSelectorDescription :: string where
  "ReferencePlanNameSelectorDescription \<equiv> ''Specify the plan name of the shared instance to which you want to create the reference.''"

abbreviation ReferenceLabelSelectorKey :: string where
  "ReferenceLabelSelectorKey \<equiv> ''instance_label_selector''"

abbreviation ReferenceLabelSelectorTitle :: string where
  "ReferenceLabelSelectorTitle \<equiv> ''Labels''"

abbreviation ReferenceLabelSelectorDescription :: string where
  "ReferenceLabelSelectorDescription \<equiv> ''Use label query to find the shared instance to which you want to create the reference. For example: '' @ [CHR 0xE2, CHR 0x80, CHR 0x9C] @ ''origin eq '' @ [CHR 0xE2, CHR 0x80, CHR 0x98] @ ''eu'' @ [CHR 0xE2, CHR 0x80, CHR 0x99] @ [CHR 0xE2, CHR 0x80, CHR 0x9D] @ '' returns an instance whose origin is in the EU. You can add multiple label queries to a single search.''"

definition quoted :: "string \<Rightarrow> string" where
  "quoted s = dq @ s @ dq"

definition ind :: "nat \<Rightarrow> string" where
  "ind n = replicate n CHR 0x20"

definition BuildReferencePlanSchema :: string where
  "BuildReferencePlanSchema = strings_Join
     [''{'',
      ind 2 @ quoted ''ready'' @ '': true,'',
      ind 2 @ quoted ''name'' @ '': '' @ quoted ReferencePlanName @ '','',
      ind 2 @ quoted ''catalog_name'' @ '': '' @ quoted ReferencePlanName @ '','',
      ind 2 @ quoted ''description'' @ '': '' @ quoted ReferencePlanDescription @ '','',
      ind 2 @ quoted ''free'' @ '': true,'',
      ind 2 @ quoted ''bindable'' @ '': true,'',
      ind 2 @ quoted ''plan_updateable'' @ '': false,'',
      ind 2 @ quoted ''binding_rotatable'' @ '': true,'',
      ind 2 @ quoted ''metadata'' @ '': {'',
      ind 4 @ quoted ''supportedPlatforms'' @ '': []'',
      ind 2 @ ''},'',
      ind 2 @ quoted ''schemas'' @ '': {'',
      ind 4 @ quoted ''service_instance'' @ '': {'',
      ind 6 @ quoted ''create'' @ '': {'',
      ind 8 @ quoted ''parameters'' @ '': {'',
      ind 10 @ quoted ''$schema'' @ '': '' @ quoted ''http://json-schema.org/draft-04/schema#'' @ '','',
      ind 10 @ quoted ''type'' @ '': '' @ quoted ''object'' @ '','',
      ind 10 @ quoted ''additionalProperties'' @ '': false,'',
      ind 10 @ quoted ''_show_form_view'' @ '': true,'',
      ind 10 @ quoted ''_controlsOrder'' @ '': ['',
      ind 12 @ quoted ReferencedInstanceIDKey @ '','',
      ind 12 @ quoted SelectorsKey,
      ind 10 @ ''],'',
      ind 10 @ quoted ''properties'' @ '': {'',
      ind 12 @ quoted ReferencedInstanceIDKey @ '': {'',
      ind 14 @ quoted ''title'' @ '': '' @ quoted ReferencedInstanceIDTitle @ '','',
      ind 14 @ quoted ''description'' @ '': '' @ quoted ReferencedInstanceIDDescription @ '','',
      ind 14 @ quoted ''type'' @ '': '' @ quoted ''string'' @ '','',
      ind 14 @ quoted ''minLength'' @ '': 0,'',
      ind 14 @ quoted ''maxLength'' @ '': 100'',
      ind 12 @ ''},'',
      ind 12 @ quoted SelectorsKey @ '': {'',
      ind 14 @ quoted ''title'' @ '': '' @ quoted BySelectorsTitle @ '','',
      ind 14 @ quoted ''description'' @ '': '' @ quoted BySelectorsDescription @ '','',
      ind 14 @ quoted ''type'' @ '': '' @ quoted ''object'' @ '','',
      ind 14 @ quoted ''_controlsOrder'' @ '': ['',
      ind 16 @ quoted ReferenceInstanceNameSelectorKey @ '','',
      ind 16 @ quoted ReferencePlanNameSelectorKey @ '','',
      ind 16 @ quoted ReferenceLabelSelectorKey,
      ind 14 @ ''],'',
      ind 14 @ quoted ''properties'' @ '': {'',
      ind 16 @ quoted ReferenceInstanceNameSelectorKey @ '': {'',
      ind 18 @ quoted ''title'' @ '': '' @ quoted ReferenceInstanceNameSelectorTitle @ '','',
      ind 18 @ quoted ''description'' @ '': '' @ quoted ReferenceInstanceNameSelectorDescription @ '','',
      ind 18 @ quoted ''type'' @ '': '' @ quoted ''string'' @ '','',
      ind 18 @ quoted ''minLength'' @ '': 0,'',
      ind 18 @ quoted ''maxLength'' @ '': 100'',
      ind 16 @ ''},'',
      ind 16 @ quoted ReferencePlanNameSelectorKey @ '': {'',
      ind 18 @ quoted ''title'' @ '': '' @ quoted ReferencePlanNameSelectorTitle @ '','',
      ind 18 @ quoted ''description'' @ '': '' @ quoted ReferencePlanNameSelectorDescription @ '','',
      ind 18 @ quoted ''type'' @ '': '' @ quoted ''string'' @ '','',
      ind 18 @ quoted ''minLength'' @ '': 0,'',
      ind 18 @ quoted ''maxLength'' @ '': 100'',
      ind 16 @ ''},'',
      ind 16 @ quoted ReferenceLabelSelectorKey @ '': {'',
      ind 18 @ quoted ''title'' @ '': '' @ quoted ReferenceLabelSelectorTitle @ '','',
      ind 18 @ quoted ''description'' @ '': '' @ quoted ReferenceLabelSelectorDescription @ '','',
      ind 18 @ quoted ''type'' @ '': '' @ quoted ''array'' @ '','',
      ind 18 @ quoted ''minItems'' @ '': 0,'',
      ind 18 @ quoted ''items'' @ '': {'',
      ind 20 @ quoted ''type'' @ '': '' @ quoted ''string'',
      ind 18 @ ''}'',
      ind 16 @ ''}'',
      ind 14 @ ''}'',
      ind 12 @ ''}'',
      ind 10 @ ''}'',
      ind 8 @ ''}'',
      ind 6 @ ''},'',
      ind 6 @ quoted ''update'' @ '': {'',
      ind 8 @ quoted ''parameters'' @ '': {'',
      ind 10 @ quoted ''$schema'' @ '': '' @ quoted ''http://json-schema.org/draft-04/schema#'' @ '','',
      ind 10 @ quoted ''type'' @ '': '' @ quoted ''object'' @ '','',
      ind 10 @ quoted ''_show_form_view'' @ '': false,'',
      ind 10 @ quoted ''_controlsOrder'' @ '': [],'',
      ind 10 @ quoted ''additionalProperties'' @ '': false,'',
      ind 10 @ quoted ''properties'' @ '': {}'',
      ind 8 @ ''}'',
      ind 6 @ ''}'',
      ind 4 @ ''}'',
      ind 2 @ ''}'',
      ''}'']
     [CHR 0x0A]"

subsection \<open>The plan\<close>

text \<open>What the catalog needs of its environment; \<open>pp_Unmarshal\<close> decodes a plan.\<close>

record 's plan_env =
  pp_uuid :: "'s \<Rightarrow> (error, string) result \<times> 's"
  pp_now :: "'s \<Rightarrow> int \<times> 's"
  pp_Unmarshal :: "string \<Rightarrow> (error, ServicePlan) result"

definition pp_time :: "('s, 'z) plan_env_scheme \<Rightarrow> ('s, int) call" where
  "pp_time env w = (case pp_now env w of (t, w') \<Rightarrow> (Returns t, w'))"

definition CreatePlanOutOfSchema :: "('s, 'z) plan_env_scheme \<Rightarrow> string \<Rightarrow> string \<Rightarrow> ('s, ServicePlan) call" where
  "CreatePlanOutOfSchema env schema serviceOfferingId =
     (case pp_Unmarshal env schema of
        Inl err \<Rightarrow> fails (ErrorString (''error creating plan from schema: '' @ error_text err))
      | Inr plan \<Rightarrow>
          call_then
            (on_error (raw_call (pp_uuid env))
               (\<lambda>err. fails (ErrorString (''could not generate GUID for ServicePlan: '' @ error_text err))))
            (\<lambda>UUID.
               call_then (pp_time env) (\<lambda>t1.
               call_then (pp_time env) (\<lambda>t2.
                 returns (plan\<lparr>ID := UUID, sp_CatalogID := UUID, CreatedAt := t1, UpdatedAt := t2,
                   sp_ServiceOfferingID := serviceOfferingId\<rparr>)))))"

end
