(* ===== verification/Catalog.thy ===== *)
theory Catalog
  imports PredefinedPlans "HOL-Library.AList"
begin

text \<open>
  The catalog of a broker: reading it from the storage (\<open>src/storage/catalog/loader.go\<close>), fetching and
  completing it before a transaction and storing it on the creation and the update of the broker
  (\<open>src/storage/interceptors/broker_create_catalog_interceptor.go\<close> and
  \<open>broker_update_catalog_interceptor.go\<close>).

  The catalog is decoded into offerings and plans behind pointers, and the update changes them in
  place.  Here it is the list of offerings with their plans, and a pointer is an index, or a pair of
  indices for a plan.  Only a null offering is kept apart: a decoded null plan is not in the
  model.  The fetcher, the JSON libraries, the identifiers, the clock and the order of Go maps are parameters.
\<close>

subsection \<open>Loading\<close>

definition as_offering :: "Object \<Rightarrow> ServiceOffering option" where
  "as_offering ob = (case ob of ServiceOfferingObject f \<Rightarrow> Some f | _ \<Rightarrow> None)"

definition as_plan :: "Object \<Rightarrow> ServicePlan option" where
  "as_plan ob = (case ob of ServicePlanObject p \<Rightarrow> Some p | _ \<Rightarrow> None)"

definition Load :: "'s raw_repository \<Rightarrow> string \<Rightarrow> ('s, ServiceOffering list) call" where
  "Load R brokerID =
     call_then (raw_call (r_List R ServiceOfferingType [ByField EqualsOperator ''broker_id'' [brokerID]])) (\<lambda>obs.
       case those (map as_offering obs) of
         None \<Rightarrow> panics
       | Some offerings \<Rightarrow>
           if length offerings = 0 then returns offerings
           else
             call_then (raw_call (r_List R ServicePlanType [ByField InOperator ''service_offering_id'' (map ID offerings)])) (\<lambda>plan_obs.
               case those (map as_plan plan_obs) of
                 None \<Rightarrow> panics
               | Some plans \<Rightarrow>
                   returns (map (\<lambda>f. f\<lparr>so_Plans := filter (\<lambda>p. sp_ServiceOfferingID p = ID f) plans\<rparr>) offerings)))"

subsection \<open>Fetching\<close>

text \<open>A value that is written into the catalog's JSON text: a text or the OSB part of a plan.\<close>

datatype osb_value =
    OSBText string
  | OSBPlan string string string "bool option" json_raw json_raw

record 's catalog_env = "'s plan_env" +
  ct_json :: json_env
  ct_CatalogFetcher :: "ServiceBroker \<Rightarrow> 's \<Rightarrow> (error, string) result \<times> 's"
  ct_Unmarshal :: "string \<Rightarrow> (error, ServiceOffering option list) result"
  ct_SetBytes :: "string \<Rightarrow> string \<Rightarrow> osb_value \<Rightarrow> (error, string) result"
  ct_walk :: "string list \<Rightarrow> string list"

definition convertReferencePlanObjectToOSBPlan :: "ServicePlan \<Rightarrow> osb_value" where
  "convertReferencePlanObjectToOSBPlan plan =
     OSBPlan (ID plan) (sp_Name plan) (sp_Description plan) (sp_Bindable plan) (sp_Metadata plan) (sp_Schemas plan)"

definition isBindablePlan :: "ServiceOffering \<Rightarrow> ServicePlan \<Rightarrow> bool" where
  "isBindablePlan service plan = (case sp_Bindable plan of Some b \<Rightarrow> b | None \<Rightarrow> so_Bindable service)"

definition servicePlanUsesReservedNameForReferencePlan :: "ServicePlan \<Rightarrow> bool" where
  "servicePlanUsesReservedNameForReferencePlan servicePlan =
     (sp_Name servicePlan = ReferencePlanName \<or> sp_CatalogName servicePlan = ReferencePlanName)"

definition sharing_error :: "error \<Rightarrow> string \<Rightarrow> error" where
  "sharing_error err entityName = the (HandleInstanceSharingError (Some err) entityName)"

definition invalid_catalog :: "string \<Rightarrow> error \<Rightarrow> error" where
  "invalid_catalog what err = HTTPError (http_err ''BadRequest'' (what @ '' is invalid: '' @ error_text err) StatusBadRequest)"

definition new_plan :: "ServiceBroker \<Rightarrow> ServiceOffering \<Rightarrow> string \<Rightarrow> ServicePlan \<Rightarrow> ServicePlan" where
  "new_plan broker service UUID plan =
     plan\<lparr>sp_CatalogID := ID plan, sp_CatalogName := sp_Name plan, sp_ServiceOfferingID := ID service,
       CreatedAt := UpdatedAt broker, UpdatedAt := UpdatedAt broker, Ready := Ready broker, ID := UUID\<rparr>"

text \<open>The plans of an offering, and whether one of them supports sharing.\<close>

fun prepare_plans :: "('s, 'z) catalog_env_scheme \<Rightarrow> ServiceBroker \<Rightarrow> ServiceOffering \<Rightarrow> ServicePlan list \<Rightarrow>
    ('s, ServicePlan list \<times> bool) call" where
  "prepare_plans env broker service [] = returns ([], False)"
| "prepare_plans env broker service (servicePlan # plans) =
     (if servicePlanUsesReservedNameForReferencePlan servicePlan
      then fails (sharing_error ErrCatalogUsesReservedPlanName ReferencePlanName)
      else
        call_then (raw_call (pp_uuid env)) (\<lambda>UUID.
          let servicePlan = new_plan broker service UUID servicePlan
          in case ServicePlan_Validate (ct_json env) servicePlan of
               Inl err \<Rightarrow>
                 fails (invalid_catalog (''service plan constructed during catalog insertion for broker with name '' @ sb_Name broker) err)
             | Inr _ \<Rightarrow>
                 if SupportsInstanceSharing (ct_json env) servicePlan \<and> \<not> isBindablePlan service servicePlan
                 then fails (sharing_error ErrPlanMustBeBindable (ID servicePlan))
                 else call_then (prepare_plans env broker service plans) (\<lambda>(plans, found).
                        returns (servicePlan # plans, SupportsInstanceSharing (ct_json env) servicePlan \<or> found))))"

definition new_offering :: "ServiceBroker \<Rightarrow> string \<Rightarrow> ServiceOffering \<Rightarrow> ServiceOffering" where
  "new_offering broker UUID service =
     service\<lparr>so_CatalogID := ID service, so_CatalogName := so_Name service, so_BrokerID := ID broker,
       CreatedAt := UpdatedAt broker, UpdatedAt := UpdatedAt broker, Ready := Ready broker, ID := UUID\<rparr>"

definition add_reference_plan ::
  "('s, 'z) catalog_env_scheme \<Rightarrow> nat \<Rightarrow> ServiceOffering \<Rightarrow> string \<Rightarrow> ('s, ServiceOffering \<times> string) call" where
  "add_reference_plan env serviceIndex service catalog =
     call_then
       (on_error (CreatePlanOutOfSchema env BuildReferencePlanSchema (ID service))
          (\<lambda>err. fails (ErrorString (''error setting reference schema for the reference plan: '' @ error_text err))))
       (\<lambda>referencePlan.
          case ct_SetBytes env catalog (''services.'' @ strconv_Itoa (int serviceIndex) @ ''.plans.-1'')
                 (convertReferencePlanObjectToOSBPlan referencePlan) of
            Inl err \<Rightarrow> fails err
          | Inr catalog \<Rightarrow> returns (service\<lparr>so_Plans := so_Plans service @ [referencePlan]\<rparr>, catalog))"

fun prepare_services :: "('s, 'z) catalog_env_scheme \<Rightarrow> ServiceBroker \<Rightarrow> nat \<Rightarrow> ServiceOffering option list \<Rightarrow> string \<Rightarrow>
    ('s, ServiceOffering list \<times> string) call" where
  "prepare_services env broker serviceIndex [] catalog = returns ([], catalog)"
| "prepare_services env broker serviceIndex (None # services) catalog = panics"
| "prepare_services env broker serviceIndex (Some service # services) catalog =
     call_then (raw_call (pp_uuid env)) (\<lambda>UUID.
       let service = new_offering broker UUID service
       in case ServiceOffering_Validate (ct_json env) service of
            Inl err \<Rightarrow>
              fails (invalid_catalog (''service offering constructed during catalog insertion for broker with name '' @ sb_Name broker) err)
          | Inr _ \<Rightarrow>
              call_then (prepare_plans env broker service (so_Plans service)) (\<lambda>(plans, sharedPlanFound).
              call_then
                (if sharedPlanFound then add_reference_plan env serviceIndex (service\<lparr>so_Plans := plans\<rparr>) catalog
                 else returns (service\<lparr>so_Plans := plans\<rparr>, catalog))
                (\<lambda>(service, catalog).
                   call_then (prepare_services env broker (Suc serviceIndex) services catalog) (\<lambda>(services, catalog).
                     returns (service # services, catalog)))))"

definition decode_failed :: error where
  "decode_failed = HTTPError (http_err ''BadRequest'' ''Failed to decode request body'' StatusBadRequest)"

definition brokerCatalogAroundTx :: "('s, 'z) catalog_env_scheme \<Rightarrow> ServiceBroker \<Rightarrow> ('s, ServiceBroker) call" where
  "brokerCatalogAroundTx env broker =
     call_then (raw_call (ct_CatalogFetcher env broker)) (\<lambda>catalogBytes.
       case ct_Unmarshal env catalogBytes of
         Inl _ \<Rightarrow> fails decode_failed
       | Inr services \<Rightarrow>
           call_then (prepare_services env (broker\<lparr>sb_Catalog := Some catalogBytes\<rparr>) 0 services catalogBytes) (\<lambda>(services, catalog).
             returns (broker\<lparr>sb_Catalog := Some catalog, sb_Services := services\<rparr>)))"

subsection \<open>Creation\<close>

definition catalog_AroundTxCreate ::
  "('s, 'z) catalog_env_scheme \<Rightarrow> (Object \<Rightarrow> ('s, Object) call) \<Rightarrow> Object \<Rightarrow> ('s, Object) call" where
  "catalog_AroundTxCreate env h obj =
     (case obj of
        ServiceBrokerObject broker \<Rightarrow> call_then (brokerCatalogAroundTx env broker) (\<lambda>broker. h (ServiceBrokerObject broker))
      | _ \<Rightarrow> panics)"

fun create_each :: "'s raw_repository \<Rightarrow> Object list \<Rightarrow> ('s, unit) call" where
  "create_each R [] = returns ()"
| "create_each R (ob # obs) = call_then (raw_call (r_Create R ob)) (\<lambda>_. create_each R obs)"

definition catalog_objects :: "ServiceOffering list \<Rightarrow> Object list" where
  "catalog_objects services = concat (map (\<lambda>f. ServiceOfferingObject f # map ServicePlanObject (so_Plans f)) services)"

definition catalog_OnTxCreate ::
  "'s raw_repository \<Rightarrow> (Object \<Rightarrow> ('s, Object) call) \<Rightarrow> Object \<Rightarrow> ('s, Object) call" where
  "catalog_OnTxCreate R f obj =
     call_then (f obj) (\<lambda>createdObj.
       case obj of
         ServiceBrokerObject broker \<Rightarrow>
           call_then (create_each R (catalog_objects (sb_Services broker))) (\<lambda>_. returns createdObj)
       | _ \<Rightarrow> panics)"

subsection \<open>Update\<close>

definition catalog_AroundTxUpdate ::
  "('s, 'z) catalog_env_scheme \<Rightarrow> (Object \<Rightarrow> LabelChange list \<Rightarrow> ('s, Object) call) \<Rightarrow> Object \<Rightarrow> LabelChange list \<Rightarrow> ('s, Object) call" where
  "catalog_AroundTxUpdate env h obj labelChanges =
     (case obj of
        ServiceBrokerObject broker \<Rightarrow>
          call_then (brokerCatalogAroundTx env broker) (\<lambda>broker. h (ServiceBrokerObject broker) labelChanges)
      | _ \<Rightarrow> panics)"

text \<open>
  The maps from catalog identifiers: to the last offering of the catalog with the identifier, whose
  plans are those of \<open>catalogPlansMap\<close>, and to the stored offerings and plans.
\<close>

definition last_with :: "ServiceOffering list \<Rightarrow> string \<Rightarrow> nat option" where
  "last_with services cid =
     (case filter (\<lambda>i. so_CatalogID (services ! i) = cid) [0..<length services] of [] \<Rightarrow> None | xs \<Rightarrow> Some (last xs))"

definition existing_offerings :: "ServiceOffering list \<Rightarrow> (string \<times> ServiceOffering) list" where
  "existing_offerings fs = fold (\<lambda>f. AList.update (so_CatalogID f) f) fs []"

definition append_plan :: "string \<Rightarrow> ServicePlan \<Rightarrow> (string \<times> ServicePlan list) list \<Rightarrow> (string \<times> ServicePlan list) list" where
  "append_plan cid p m = AList.update cid ((case map_of m cid of None \<Rightarrow> [] | Some ps \<Rightarrow> ps) @ [p]) m"

definition existing_plans :: "ServiceOffering list \<Rightarrow> (string \<times> ServicePlan list) list" where
  "existing_plans fs = fold (\<lambda>f. fold (append_plan (so_CatalogID f)) (so_Plans f)) fs []"

definition first_plan_named :: "string \<Rightarrow> ServicePlan list \<Rightarrow> nat option" where
  "first_plan_named n plans =
     (case filter (\<lambda>j. sp_Name (plans ! j) = n) [0..<length plans] of [] \<Rightarrow> None | j # _ \<Rightarrow> Some j)"

definition reuse_plan ::
  "('s, 'z) catalog_env_scheme \<Rightarrow> ServicePlan \<Rightarrow> nat \<Rightarrow> ServiceBroker \<Rightarrow> (error, ServiceBroker) result" where
  "reuse_plan env oldPlan i newBroker =
     (let newService = sb_Services newBroker ! i
      in case first_plan_named ReferencePlanName (so_Plans newService) of
           None \<Rightarrow> Inr newBroker
         | Some j \<Rightarrow>
             (case ct_SetBytes env (raw_bytes (sb_Catalog newBroker))
                (''services.'' @ strconv_Itoa (int i) @ ''.plans.'' @ strconv_Itoa (int j) @ ''.id'') (OSBText (ID oldPlan)) of
                Inl err \<Rightarrow> Inl err
              | Inr catalog \<Rightarrow>
                  let newPlan = (so_Plans newService ! j)\<lparr>sp_CatalogID := sp_CatalogID oldPlan, ID := ID oldPlan\<rparr>;
                      newService = newService\<lparr>so_Plans := (so_Plans newService)[j := newPlan]\<rparr>
                  in Inr (newBroker\<lparr>sb_Services := (sb_Services newBroker)[i := newService], sb_Catalog := Some catalog\<rparr>)))"

fun reuseReferenceInstancePlans ::
  "('s, 'z) catalog_env_scheme \<Rightarrow> ServiceOffering list \<Rightarrow> ServiceBroker \<Rightarrow> (error, ServiceBroker) result" where
  "reuseReferenceInstancePlans env [] newBroker = Inr newBroker"
| "reuseReferenceInstancePlans env (oldService # oldServices) newBroker =
     (case (first_plan_named ReferencePlanName (so_Plans oldService), last_with (sb_Services newBroker) (so_CatalogID oldService)) of
        (Some j, Some i) \<Rightarrow>
          (case reuse_plan env (so_Plans oldService ! j) i newBroker of
             Inl err \<Rightarrow> Inl err
           | Inr newBroker \<Rightarrow> reuseReferenceInstancePlans env oldServices newBroker)
      | _ \<Rightarrow> reuseReferenceInstancePlans env oldServices newBroker)"

text \<open>
  The offerings: the catalog, the stored offerings that are still to be matched and the offerings to
  create.  An offering gives its new identifier to the plans that \<open>catalogPlansMap\<close> has for it.
\<close>

record resync =
  rs_services :: "ServiceOffering list"
  rs_existing :: "(string \<times> ServiceOffering) list"
  rs_create :: "nat list"

definition own_plans :: "string \<Rightarrow> ServiceOffering \<Rightarrow> ServiceOffering" where
  "own_plans i f = f\<lparr>so_Plans := map (\<lambda>p. p\<lparr>sp_ServiceOfferingID := i\<rparr>) (so_Plans f)\<rparr>"

definition adopt_plans :: "string \<Rightarrow> string \<Rightarrow> ServiceOffering list \<Rightarrow> ServiceOffering list" where
  "adopt_plans cid i services =
     (case last_with services cid of None \<Rightarrow> services | Some k \<Rightarrow> services[k := own_plans i (services ! k)])"

definition resync_offering ::
  "('s, 'z) catalog_env_scheme \<Rightarrow> 's raw_repository \<Rightarrow> string \<Rightarrow> nat \<Rightarrow> resync \<Rightarrow> ('s, resync) call" where
  "resync_offering env R brokerID i rs =
     (let service = rs_services rs ! i; cid = so_CatalogID service;
          valid = (\<lambda>service (go_on :: ('s, resync) call).
            case ServiceOffering_Validate (ct_json env) service of
              Inl err \<Rightarrow> fails (invalid_catalog (''service offering constructed during catalog update for broker '' @ brokerID) err)
            | Inr _ \<Rightarrow> go_on);
          stored = (\<lambda>service. adopt_plans cid (ID service) ((rs_services rs)[i := service]))
      in case map_of (rs_existing rs) cid of
           Some e \<Rightarrow>
             (let service = service\<lparr>ID := ID e, CreatedAt := CreatedAt e, UpdatedAt := UpdatedAt e\<rparr>
              in valid service (call_then (raw_call (r_Update R (ServiceOfferingObject service) [] [])) (\<lambda>_.
                   returns (rs\<lparr>rs_services := stored service, rs_existing := AList.delete cid (rs_existing rs)\<rparr>))))
         | None \<Rightarrow>
             call_then (raw_call (pp_uuid env)) (\<lambda>UUID.
               let service = service\<lparr>ID := UUID\<rparr>
               in valid service (returns (rs\<lparr>rs_services := stored service, rs_create := rs_create rs @ [i]\<rparr>))))"

fun resync_offerings ::
  "('s, 'z) catalog_env_scheme \<Rightarrow> 's raw_repository \<Rightarrow> string \<Rightarrow> nat list \<Rightarrow> resync \<Rightarrow> ('s, resync) call" where
  "resync_offerings env R brokerID [] rs = returns rs"
| "resync_offerings env R brokerID (i # is) rs =
     call_then (resync_offering env R brokerID i rs) (resync_offerings env R brokerID is)"

fun delete_offerings :: "'s raw_repository \<Rightarrow> string list \<Rightarrow> ('s, unit) call" where
  "delete_offerings R [] = returns ()"
| "delete_offerings R (i # is) = call_then (raw_call (r_Delete R ServiceOfferingType (by_id i))) (\<lambda>_. delete_offerings R is)"

text \<open>The plans: the catalog, the stored plans that are not matched and the plans to create.\<close>

record plan_resync =
  ps_services :: "ServiceOffering list"
  ps_existing :: "(string \<times> ServicePlan list) list"
  ps_create :: "(nat \<times> nat) list"

definition put_plan :: "nat \<times> nat \<Rightarrow> ServicePlan \<Rightarrow> ServiceOffering list \<Rightarrow> ServiceOffering list" where
  "put_plan = (\<lambda>(k, j) p services. services[k := (services ! k)\<lparr>so_Plans := (so_Plans (services ! k))[j := p]\<rparr>])"

definition planHasSharedInstances :: "'s raw_repository \<Rightarrow> string \<Rightarrow> ('s, bool) call" where
  "planHasSharedInstances R planID =
     call_then (raw_call (r_Count R ServiceInstanceType
       [ByField EqualsOperator ''service_plan_id'' [planID], ByField EqualsOperator ''shared'' [''true'']]))
       (\<lambda>sharedInstancesCount. returns (sharedInstancesCount > 0))"

definition invalid_plan :: "string \<Rightarrow> error \<Rightarrow> error" where
  "invalid_plan brokerID err = invalid_catalog (''service plan constructed during catalog update for broker '' @ brokerID) err"

definition resync_plan ::
  "('s, 'z) catalog_env_scheme \<Rightarrow> 's raw_repository \<Rightarrow> string \<Rightarrow> string \<Rightarrow> nat \<times> nat \<Rightarrow> plan_resync \<Rightarrow> ('s, plan_resync) call" where
  "resync_plan env R brokerID cid kj rs =
     (let p = so_Plans (ps_services rs ! fst kj) ! snd kj; create = returns (rs\<lparr>ps_create := ps_create rs @ [kj]\<rparr>)
      in case map_of (ps_existing rs) cid of
           None \<Rightarrow> create
         | Some existing \<Rightarrow>
             (let matches = filter (\<lambda>e. sp_CatalogID e = sp_CatalogID p) existing;
                  newPlansMapping = filter (\<lambda>e. sp_CatalogID e \<noteq> sp_CatalogID p) existing
              in if length matches = 0 then create
                 else
                   (let e = last matches; p = p\<lparr>ID := ID e, CreatedAt := CreatedAt e, UpdatedAt := UpdatedAt e\<rparr>
                    in call_then (planHasSharedInstances R (ID p)) (\<lambda>hasSharedInstances.
                         if hasSharedInstances \<and> \<not> SupportsInstanceSharing (ct_json env) p
                         then fails (sharing_error ErrSharedPlanHasReferences (ID p))
                         else
                           (case ServicePlan_Validate (ct_json env) p of
                              Inl err \<Rightarrow> fails (invalid_plan brokerID err)
                            | Inr _ \<Rightarrow>
                                call_then (raw_call (r_Update R (ServicePlanObject p) [] [])) (\<lambda>_.
                                  returns (rs\<lparr>ps_services := put_plan kj p (ps_services rs),
                                    ps_existing := AList.update cid newPlansMapping (ps_existing rs)\<rparr>)))))))"

fun resync_plans ::
  "('s, 'z) catalog_env_scheme \<Rightarrow> 's raw_repository \<Rightarrow> string \<Rightarrow> (string \<times> nat \<times> nat) list \<Rightarrow> plan_resync \<Rightarrow> ('s, plan_resync) call" where
  "resync_plans env R brokerID [] rs = returns rs"
| "resync_plans env R brokerID ((cid, kj) # rest) rs =
     call_then (resync_plan env R brokerID cid kj rs) (resync_plans env R brokerID rest)"

fun delete_plans :: "'s raw_repository \<Rightarrow> string list \<Rightarrow> ('s, unit) call" where
  "delete_plans R [] = returns ()"
| "delete_plans R (i # is) =
     call_then
       (on_error (raw_call (r_Delete R ServicePlanType (by_id i)))
          (\<lambda>err. if err = ErrNotFoundInStorage then returns () else fails err))
       (\<lambda>_. delete_plans R is)"

definition createPlan ::
  "('s, 'z) catalog_env_scheme \<Rightarrow> 's raw_repository \<Rightarrow> string \<Rightarrow> ServicePlan \<Rightarrow> ('s, ServicePlan) call" where
  "createPlan env R brokerID servicePlan =
     call_then (raw_call (pp_uuid env)) (\<lambda>UUID.
       let servicePlan = servicePlan\<lparr>ID := UUID\<rparr>
       in case ServicePlan_Validate (ct_json env) servicePlan of
            Inl err \<Rightarrow> fails (invalid_plan brokerID err)
          | Inr _ \<Rightarrow> call_then (raw_call (r_Create R (ServicePlanObject servicePlan))) (\<lambda>_. returns servicePlan))"

fun create_plans ::
  "('s, 'z) catalog_env_scheme \<Rightarrow> 's raw_repository \<Rightarrow> string \<Rightarrow> (nat \<times> nat) list \<Rightarrow> ServiceOffering list \<Rightarrow> ('s, ServiceOffering list) call" where
  "create_plans env R brokerID [] services = returns services"
| "create_plans env R brokerID (kj # rest) services =
     call_then (createPlan env R brokerID (so_Plans (services ! fst kj) ! snd kj)) (\<lambda>p.
       create_plans env R brokerID rest (put_plan kj p services))"

text \<open>The plans of the catalog in the order of the walk over \<open>catalogPlansMap\<close>.\<close>

definition plan_places :: "ServiceOffering list \<Rightarrow> string list \<Rightarrow> (string \<times> nat \<times> nat) list" where
  "plan_places services cids =
     concat (map (\<lambda>cid. case last_with services cid of
        None \<Rightarrow> []
      | Some k \<Rightarrow> map (\<lambda>j. (cid, k, j)) [0..<length (so_Plans (services ! k))]) cids)"

definition values_in_order :: "('s, 'z) catalog_env_scheme \<Rightarrow> (string \<times> 'v) list \<Rightarrow> 'v list" where
  "values_in_order env m = map (\<lambda>cid. the (map_of m cid)) (ct_walk env (map fst m))"

definition resync_catalog ::
  "('s, 'z) catalog_env_scheme \<Rightarrow> 's raw_repository \<Rightarrow> string \<Rightarrow> ServiceOffering list \<Rightarrow> ServiceOffering list \<Rightarrow> ('s, ServiceOffering list) call" where
  "resync_catalog env R brokerID existing services =
     call_then (resync_offerings env R brokerID [0..<length services]
       \<lparr>rs_services = services, rs_existing = existing_offerings existing, rs_create = []\<rparr>) (\<lambda>rs.
     call_then (delete_offerings R (map ID (values_in_order env (rs_existing rs)))) (\<lambda>_.
     call_then (create_each R (map (\<lambda>i. ServiceOfferingObject (rs_services rs ! i)) (rs_create rs))) (\<lambda>_.
     call_then (resync_plans env R brokerID
       (plan_places (rs_services rs) (ct_walk env (remdups (map so_CatalogID (rs_services rs)))))
       \<lparr>ps_services = rs_services rs, ps_existing = existing_plans existing, ps_create = []\<rparr>) (\<lambda>ps.
     call_then (delete_plans R (map ID (concat (values_in_order env (ps_existing ps))))) (\<lambda>_.
       create_plans env R brokerID (ps_create ps) (ps_services ps))))))"

definition catalog_OnTxUpdate ::
  "('s, 'z) catalog_env_scheme \<Rightarrow> (string \<Rightarrow> ('s, ServiceOffering list) call) \<Rightarrow> 's raw_repository \<Rightarrow>
   (Object \<Rightarrow> Object \<Rightarrow> LabelChange list \<Rightarrow> ('s, Object) call) \<Rightarrow> Object \<Rightarrow> Object \<Rightarrow> LabelChange list \<Rightarrow> ('s, Object) call" where
  "catalog_OnTxUpdate env CatalogLoader R f oldObj newObj labelChanges =
     (case oldObj of
        ServiceBrokerObject oldBroker \<Rightarrow>
          call_then
            (on_error (CatalogLoader (ID oldBroker)) (\<lambda>err. fails (ErrorString (''error getting catalog for broker with id ''
               @ ID oldBroker @ '' from SM DB: '' @ error_text err))))
            (\<lambda>existing.
               case newObj of
                 ServiceBrokerObject newBroker \<Rightarrow>
                   (case reuseReferenceInstancePlans env existing newBroker of
                      Inl err \<Rightarrow> fails err
                    | Inr newBroker \<Rightarrow>
                        call_then (f (ServiceBrokerObject (oldBroker\<lparr>sb_Services := existing\<rparr>)) (ServiceBrokerObject newBroker) labelChanges) (\<lambda>_.
                        call_then (resync_catalog env R (ID newBroker) existing (sb_Services newBroker)) (\<lambda>services.
                          returns (ServiceBrokerObject (newBroker\<lparr>sb_Services := services\<rparr>)))))
               | _ \<Rightarrow> panics)
      | _ \<Rightarrow> panics)"

end
