(* ===== verification/CatalogFacts.thy ===== *)
theory CatalogFacts
  imports Catalog "HOL-Library.Multiset"
begin

text \<open>
  The update of a broker brings the stored offerings and plans in line with the fetched
  catalog: what the storage holds for the broker afterwards is the catalog, and everything that
  the catalog still has keeps its identifier.
\<close>

subsection \<open>Maps\<close>

definition puts :: "('k \<times> 'v) list \<Rightarrow> ('k \<rightharpoonup> 'v) \<Rightarrow> ('k \<rightharpoonup> 'v)" where
  "puts rows m = m ++ map_of (rev rows)"

lemma puts_simps [simp]: "puts [] m = m" "puts (xs @ [(k, v)]) m = (puts xs m)(k \<mapsto> v)"
  "puts ((k, v) # xs) m = puts xs (m(k \<mapsto> v))"
  by (auto simp: puts_def map_add_def fun_eq_iff split: option.splits)

lemma dom_puts: "dom (puts rows m) = fst ` set rows \<union> dom m"
  by (auto simp: puts_def dom_map_of_conv_image_fst)

lemma map_of_rev: "distinct (map fst rows) \<Longrightarrow> map_of (rev rows) = map_of rows"
  by (rule map_of_eqI) (auto simp: rev_map [symmetric] map_of_eq_Some_iff map_of_is_SomeI)

lemma mset_map_partition: "mset (map h xs) = mset (map h (filter P xs)) + mset (map h (filter (\<lambda>x. \<not> P x) xs))"
  by (induction xs) auto

text \<open>Rows are replaced, the rest of the old ones is deleted, and rows with fresh keys are added.\<close>

lemma sync_map:
  assumes replaced: "distinct (map fst A)" "fst ` set A \<subseteq> E" and deleted: "D = E - fst ` set A"
    and outside: "\<And>x. x \<notin> E \<Longrightarrow> M1 x = M0 x"
    and fresh: "distinct (map fst B)" "fst ` set B \<inter> dom (puts A M1 |` (- D)) = {}"
    and mC: "mset C = mset A + mset B"
  shows "puts B (puts A M1 |` (- D)) = (M0 |` (- E)) ++ map_of C" (is ?eq) "distinct (map fst C)"
proof -
  have "set C = set (A @ B)" using mC by (metis mset_append set_mset_mset)
  moreover have "fst ` set A \<inter> fst ` set B = {}"
    using fresh(2) deleted by (auto simp: dom_puts)
  then have "distinct (map fst (A @ B))" using replaced fresh by simp
  moreover have "mset (map fst C) = mset (map fst (A @ B))" using mC by simp
  ultimately have C: "set C = set A \<union> set B" "distinct (map fst C)"
    by (simp, metis mset_eq_imp_distinct_iff)
  then show "distinct (map fst C)" by blast
  have B: "map_of (rev B) = map_of B" and A: "map_of (rev A) = map_of A" using replaced fresh by (simp_all add: map_of_rev)
  show ?eq
  proof
  fix x
  consider (b) v where "(x, v) \<in> set B" | (a) v where "(x, v) \<in> set A" "x \<notin> fst ` set B"
    | (none) "x \<notin> fst ` set A" "x \<notin> fst ` set B" by (cases "x \<in> fst ` set B"; cases "x \<in> fst ` set A") force+
  then show "puts B (puts A M1 |` (- D)) x = ((M0 |` (- E)) ++ map_of C) x"
  proof cases
    case b
    then have "map_of B x = Some v" "map_of C x = Some v" using fresh C by auto
    then show ?thesis by (simp add: puts_def B)
  next
    case a
    then have "map_of A x = Some v" "map_of C x = Some v" "map_of B x = None" using replaced C by (auto simp: map_of_eq_None_iff)
    moreover have "x \<notin> D" using a deleted by force
    ultimately show ?thesis by (simp add: puts_def A B map_add_Some_iff restrict_map_def)
  next
    case none
    then have "map_of C x = None" "map_of A x = None" "map_of B x = None" using C by (auto simp: map_of_eq_None_iff)
    with none deleted outside [of x] show ?thesis by (auto simp: puts_def A B map_add_def restrict_map_def)
  qed
  qed
qed

subsection \<open>The storage\<close>

text \<open>The rows of offerings and plans; labels and what the storage fills in are left out.\<close>

definition off_row :: "ServiceOffering \<Rightarrow> ServiceOffering" where
  "off_row f = f\<lparr>so_Plans := [], UpdatedAt := 0, Labels := Map.empty, PagingSequence := 0\<rparr>"

definition plan_row :: "ServicePlan \<Rightarrow> ServicePlan" where
  "plan_row p = p\<lparr>UpdatedAt := 0, Labels := Map.empty, PagingSequence := 0\<rparr>"

text \<open>
  What a storage with the tables \<open>offs\<close> and \<open>plns\<close> does when it reports success: the deletion of an offering deletes its
  plans, and a row is created only under a new identifier.
\<close>

definition catalog_tables ::
  "'s raw_repository \<Rightarrow> ('s, 'z) catalog_env_scheme \<Rightarrow> ('s \<Rightarrow> string \<rightharpoonup> ServiceOffering) \<Rightarrow> ('s \<Rightarrow> string \<rightharpoonup> ServicePlan) \<Rightarrow> bool" where
  "catalog_tables R env offs plns \<longleftrightarrow>
     (\<forall>f w r w'. r_Create R (ServiceOfferingObject f) w = (Inr r, w') \<longrightarrow>
        ID f \<notin> dom (offs w) \<and> offs w' = (offs w)(ID f \<mapsto> off_row f) \<and> plns w' = plns w) \<and>
     (\<forall>p w r w'. r_Create R (ServicePlanObject p) w = (Inr r, w') \<longrightarrow>
        ID p \<notin> dom (plns w) \<and> plns w' = (plns w)(ID p \<mapsto> plan_row p) \<and> offs w' = offs w) \<and>
     (\<forall>f w r w'. r_Update R (ServiceOfferingObject f) [] [] w = (Inr r, w') \<longrightarrow>
        offs w' = (offs w)(ID f \<mapsto> off_row f) \<and> plns w' = plns w) \<and>
     (\<forall>p w r w'. r_Update R (ServicePlanObject p) [] [] w = (Inr r, w') \<longrightarrow>
        plns w' = (plns w)(ID p \<mapsto> plan_row p) \<and> offs w' = offs w) \<and>
     (\<forall>i w r w'. r_Delete R ServiceOfferingType (by_id i) w = (Inr r, w') \<longrightarrow>
        offs w' = (offs w)(i := None) \<and> plns w' = plns w |` {x. \<forall>p. plns w x = Some p \<longrightarrow> sp_ServiceOfferingID p \<noteq> i}) \<and>
     (\<forall>i w r w'. r_Delete R ServicePlanType (by_id i) w = (Inr r, w') \<longrightarrow> plns w' = (plns w)(i := None) \<and> offs w' = offs w) \<and>
     (\<forall>i w w'. r_Delete R ServicePlanType (by_id i) w = (Inl ErrNotFoundInStorage, w') \<longrightarrow>
        i \<notin> dom (plns w) \<and> plns w' = plns w \<and> offs w' = offs w) \<and>
     (\<forall>cs w r w'. r_Count R ServiceInstanceType cs w = (r, w') \<longrightarrow> plns w' = plns w \<and> offs w' = offs w) \<and>
     (\<forall>w r w'. pp_uuid env w = (r, w') \<longrightarrow> plns w' = plns w \<and> offs w' = offs w) \<and>
     (\<forall>xs. distinct xs \<longrightarrow> distinct (ct_walk env xs) \<and> set (ct_walk env xs) = set xs)"

lemma raw_call_Returns: "raw_call f w = (Returns x, w') \<longleftrightarrow> f w = (Inr x, w')"
  by (auto simp: raw_call_def split: prod.splits sum.splits)

lemma catalog_tablesD:
  assumes "catalog_tables R env offs plns"
  shows "raw_call (r_Create R (ServiceOfferingObject f)) w = (Returns r, w') \<Longrightarrow>
      ID f \<notin> dom (offs w) \<and> offs w' = (offs w)(ID f \<mapsto> off_row f) \<and> plns w' = plns w"
    "raw_call (r_Create R (ServicePlanObject p)) w = (Returns r, w') \<Longrightarrow>
      ID p \<notin> dom (plns w) \<and> plns w' = (plns w)(ID p \<mapsto> plan_row p) \<and> offs w' = offs w"
    "raw_call (r_Update R (ServiceOfferingObject f) [] []) w = (Returns r, w') \<Longrightarrow>
      offs w' = (offs w)(ID f \<mapsto> off_row f) \<and> plns w' = plns w"
    "raw_call (r_Update R (ServicePlanObject p) [] []) w = (Returns r, w') \<Longrightarrow>
      plns w' = (plns w)(ID p \<mapsto> plan_row p) \<and> offs w' = offs w"
    "raw_call (r_Delete R ServiceOfferingType (by_id i)) w = (Returns u, w') \<Longrightarrow>
      offs w' = (offs w)(i := None) \<and> plns w' = plns w |` {x. \<forall>p. plns w x = Some p \<longrightarrow> sp_ServiceOfferingID p \<noteq> i}"
    "raw_call (r_Delete R ServicePlanType (by_id i)) w = (Returns u, w') \<Longrightarrow> plns w' = (plns w)(i := None) \<and> offs w' = offs w"
    "raw_call (pp_uuid env) w = (Returns j, w') \<Longrightarrow> plns w' = plns w \<and> offs w' = offs w"
    "raw_call (r_Count R ServiceInstanceType cs) w = (Returns n, w') \<Longrightarrow> plns w' = plns w \<and> offs w' = offs w"
    "r_Delete R ServicePlanType (by_id i) w = (Inl ErrNotFoundInStorage, w') \<Longrightarrow>
      i \<notin> dom (plns w) \<and> plns w' = plns w \<and> offs w' = offs w"
    "distinct xs \<Longrightarrow> distinct (ct_walk env xs) \<and> set (ct_walk env xs) = set xs"
  using assms unfolding catalog_tables_def raw_call_Returns by meson+

lemma call_then_Returns_iff:
  "call_then f g w = (Returns y, w') \<longleftrightarrow> (\<exists>x w1. f w = (Returns x, w1) \<and> g x w1 = (Returns y, w'))"
  by (auto simp: call_then_def split: prod.splits outcome.splits)

lemma returns_iff [simp]: "returns x w = (Returns y, w') \<longleftrightarrow> x = y \<and> w = w'" "fails err w \<noteq> (Returns y, w')" "panics w \<noteq> (Returns y, w')"
  by (auto simp: returns_def fails_def panics_def)

definition off_rows :: "ServiceOffering list \<Rightarrow> (string \<times> ServiceOffering) list" where
  "off_rows fs = map (\<lambda>f. (ID f, off_row f)) fs"

definition plan_rows :: "ServicePlan list \<Rightarrow> (string \<times> ServicePlan) list" where
  "plan_rows ps = map (\<lambda>p. (ID p, plan_row p)) ps"

lemma create_offerings:
  assumes laws: "catalog_tables R env offs plns"
  shows "create_each R (map ServiceOfferingObject fs) w = (Returns (), w') \<Longrightarrow>
    offs w' = puts (off_rows fs) (offs w) \<and> plns w' = plns w \<and> distinct (map ID fs) \<and> ID ` set fs \<inter> dom (offs w) = {}"
proof (induction fs arbitrary: w)
  case Nil
  then show ?case by (simp add: off_rows_def)
next
  case (Cons f fs)
  from Cons.prems obtain r w1 where "raw_call (r_Create R (ServiceOfferingObject f)) w = (Returns r, w1)"
    and rest: "create_each R (map ServiceOfferingObject fs) w1 = (Returns (), w')" by (auto simp: call_then_Returns_iff)
  from catalog_tablesD(1) [OF laws this(1)] have one: "ID f \<notin> dom (offs w)" "offs w1 = (offs w)(ID f \<mapsto> off_row f)" "plns w1 = plns w"
    by blast+
  have "dom (offs w1) = insert (ID f) (dom (offs w))" unfolding one(2) by simp
  with Cons.IH [OF rest] have "distinct (map ID (f # fs))" "ID ` set (f # fs) \<inter> dom (offs w) = {}" "plns w' = plns w1"
    "offs w' = puts (off_rows fs) (offs w1)" using one(1) by auto
  with one show ?case by (simp add: off_rows_def del: fun_upd_apply)
qed

lemma delete_offerings_tables:
  assumes laws: "catalog_tables R env offs plns"
  shows "delete_offerings R is w = (Returns (), w') \<Longrightarrow>
    offs w' = offs w |` (- set is) \<and> plns w' = plns w |` {x. \<forall>p. plns w x = Some p \<longrightarrow> sp_ServiceOfferingID p \<notin> set is}"
proof (induction "is" arbitrary: w)
  case Nil
  then show ?case by simp
next
  case (Cons i "is")
  from Cons.prems obtain u w1 where "raw_call (r_Delete R ServiceOfferingType (by_id i)) w = (Returns u, w1)"
    and rest: "delete_offerings R is w1 = (Returns (), w')" by (auto simp: call_then_Returns_iff)
  from catalog_tablesD(5) [OF laws this(1)] Cons.IH [OF rest] show ?case
    by (auto simp: fun_eq_iff restrict_map_def split: if_splits)
qed

lemma delete_plans_tables:
  assumes laws: "catalog_tables R env offs plns"
  shows "delete_plans R is w = (Returns (), w') \<Longrightarrow> plns w' = plns w |` (- set is) \<and> offs w' = offs w"
proof (induction "is" arbitrary: w)
  case Nil
  then show ?case by simp
next
  case (Cons i "is")
  let ?del = "on_error (raw_call (r_Delete R ServicePlanType (by_id i))) (\<lambda>err. if err = ErrNotFoundInStorage then returns () else fails err)"
  from Cons.prems obtain u w1 where del: "?del w = (Returns u, w1)"
    and rest: "delete_plans R is w1 = (Returns (), w')" by (auto simp: call_then_Returns_iff)
  obtain r w2 where r: "r_Delete R ServicePlanType (by_id i) w = (r, w2)" by fastforce
  have "plns w1 = (plns w)(i := None) \<and> offs w1 = offs w"
  proof (cases r)
    case (Inl err)
    with del r have "err = ErrNotFoundInStorage" "w2 = w1" by (auto simp: on_error_def raw_call_def split: if_splits)
    with catalog_tablesD(9) [OF laws, of i w w2] r Inl show ?thesis by (auto simp: fun_eq_iff domIff)
  next
    case (Inr x)
    with del r catalog_tablesD(6) [OF laws, of i w u w2] show ?thesis by (auto simp: on_error_def raw_call_def)
  qed
  with Cons.IH [OF rest] show ?case by (auto simp: fun_eq_iff restrict_map_def)
qed

subsection \<open>What is stored before\<close>

lemma map_of_existing: "map_of (existing_offerings fs) = puts (map (\<lambda>f. (so_CatalogID f, f)) fs) Map.empty"
proof -
  have "map_of (fold (\<lambda>f. AList.update (so_CatalogID f) f) fs m) = puts (map (\<lambda>f. (so_CatalogID f, f)) fs) (map_of m)" for m
    by (induction fs arbitrary: m) (simp_all add: update_conv' del: fun_upd_apply)
  then show ?thesis by (simp add: existing_offerings_def)
qed

lemma existing_offering_iff:
  assumes "distinct (map so_CatalogID fs)"
  shows "map_of (existing_offerings fs) c = Some f \<longleftrightarrow> f \<in> set fs \<and> so_CatalogID f = c"
proof -
  let ?rows = "map (\<lambda>f. (so_CatalogID f, f)) fs"
  have d: "distinct (map fst ?rows)" using assms by (simp add: comp_def)
  then have "map_of (existing_offerings fs) = map_of ?rows" by (simp add: map_of_existing puts_def map_of_rev)
  moreover have "map_of ?rows c = Some f \<longleftrightarrow> (c, f) \<in> set ?rows" by (rule map_of_eq_Some_iff [OF d])
  ultimately show ?thesis by auto
qed

lemma existing_offerings_distinct: "distinct (map fst (existing_offerings fs))"
proof -
  have "distinct (map fst m) \<Longrightarrow> distinct (map fst (fold (\<lambda>f. AList.update (so_CatalogID f) f) fs m))" for m
    by (induction fs arbitrary: m) (simp_all add: distinct_update)
  then show ?thesis by (simp add: existing_offerings_def)
qed

lemma append_plans:
  "map_of (fold (append_plan c) ps m) =
    (if ps = [] then map_of m else (map_of m)(c \<mapsto> (case map_of m c of None \<Rightarrow> [] | Some qs \<Rightarrow> qs) @ ps))"
proof (induction ps arbitrary: m)
  case (Cons p ps)
  have "map_of (append_plan c p m) = (map_of m)(c \<mapsto> (case map_of m c of None \<Rightarrow> [] | Some qs \<Rightarrow> qs) @ [p])"
    by (simp add: append_plan_def update_conv')
  with Cons.IH [of "append_plan c p m"] show ?case by (auto simp: fun_eq_iff)
qed simp

lemma existing_plans_distinct: "distinct (map fst (existing_plans fs))"
proof -
  have one: "distinct (map fst m) \<Longrightarrow> distinct (map fst (fold (append_plan c) ps m))" for c ps m
    by (induction ps arbitrary: m) (simp_all add: append_plan_def distinct_update)
  have "distinct (map fst m) \<Longrightarrow> distinct (map fst (fold (\<lambda>f. fold (append_plan (so_CatalogID f)) (so_Plans f)) fs m))" for m
    by (induction fs arbitrary: m) (simp_all add: one)
  then show ?thesis by (simp add: existing_plans_def)
qed

lemma existing_plans_iff:
  assumes "distinct (map so_CatalogID fs)"
  shows "map_of (existing_plans fs) c = Some ps \<longleftrightarrow> (\<exists>f\<in>set fs. so_CatalogID f = c \<and> so_Plans f = ps \<and> ps \<noteq> [])"
proof -
  have "map_of (fold (\<lambda>f. fold (append_plan (so_CatalogID f)) (so_Plans f)) fs m) c = Some ps \<longleftrightarrow>
      map_of m c = Some ps \<or> (\<exists>f\<in>set fs. so_CatalogID f = c \<and> so_Plans f = ps \<and> ps \<noteq> [])"
    if "\<forall>f\<in>set fs. map_of m (so_CatalogID f) = None" for m
    using assms that
  proof (induction fs arbitrary: m)
    case (Cons f fs)
    let ?m = "fold (append_plan (so_CatalogID f)) (so_Plans f) m"
    have m: "map_of ?m = (if so_Plans f = [] then map_of m else (map_of m)(so_CatalogID f \<mapsto> so_Plans f))"
      using Cons.prems by (simp add: append_plans)
    then have "\<forall>g\<in>set fs. map_of ?m (so_CatalogID g) = None" using Cons.prems by (auto simp: image_iff)
    from Cons.IH [OF _ this] Cons.prems show ?case by (auto simp: m split: if_splits)
  qed simp
  then show ?thesis by (simp add: existing_plans_def)
qed

lemma last_with_cong: "map so_CatalogID fs = map so_CatalogID gs \<Longrightarrow> last_with fs c = last_with gs c"
proof -
  assume eq: "map so_CatalogID fs = map so_CatalogID gs"
  then have len: "length fs = length gs" by (rule map_eq_imp_length_eq)
  with eq have "so_CatalogID (fs ! i) = so_CatalogID (gs ! i)" if "i < length gs" for i using that by (metis nth_map)
  then have "filter (\<lambda>i. so_CatalogID (fs ! i) = c) [0..<length gs] = filter (\<lambda>i. so_CatalogID (gs ! i) = c) [0..<length gs]"
    by (intro filter_cong) auto
  with len show ?thesis by (simp add: last_with_def)
qed

lemma last_with_distinct:
  assumes "distinct (map so_CatalogID fs)" "k < length fs"
  shows "last_with fs (so_CatalogID (fs ! k)) = Some k"
proof -
  have "so_CatalogID (fs ! i) = so_CatalogID (fs ! k) \<longleftrightarrow> i = k" if "i < length fs" for i
    using assms that nth_eq_iff_index_eq [of "map so_CatalogID fs" i k] by simp
  then have "filter (\<lambda>i. so_CatalogID (fs ! i) = so_CatalogID (fs ! k)) [0..<length fs] = filter (\<lambda>i. i = k) [0..<length fs]"
    by (intro filter_cong) auto
  also have "\<dots> = [k]" using assms(2) by (induction fs rule: rev_induct) (auto simp: less_Suc_eq)
  finally show ?thesis by (simp add: last_with_def)
qed

subsection \<open>Offerings\<close>

lemma own_plans_simps [simp]:
  "ID (own_plans i f) = ID f" "so_CatalogID (own_plans i f) = so_CatalogID f" "off_row (own_plans i f) = off_row f"
  "map sp_CatalogID (so_Plans (own_plans i f)) = map sp_CatalogID (so_Plans f)"
  "p \<in> set (so_Plans (own_plans i f)) \<Longrightarrow> sp_ServiceOfferingID p = i"
  by (auto simp: own_plans_def off_row_def comp_def)

lemma not_Inr_unit: "(r :: 'e + unit) \<noteq> Inr () \<Longrightarrow> \<exists>err. r = Inl err"
  by (cases r) auto

lemma adopt_own:
  assumes "distinct (map so_CatalogID fs)" "i < length fs" "so_CatalogID f = so_CatalogID (fs ! i)"
  shows "adopt_plans (so_CatalogID (fs ! i)) n (fs[i := f]) = fs[i := own_plans n f]"
proof -
  have "map so_CatalogID (fs[i := f]) = map so_CatalogID fs" using assms(2,3) by (simp add: map_update list_update_same_conv)
  from last_with_cong [OF this] last_with_distinct [OF assms(1,2)] have "last_with (fs[i := f]) (so_CatalogID (fs ! i)) = Some i" by simp
  with assms(2) show ?thesis by (simp add: adopt_plans_def)
qed

lemma resync_offering_tables:
  assumes laws: "catalog_tables R env offs plns" and d: "distinct (map so_CatalogID (rs_services rs))" and i: "i < length (rs_services rs)"
    and run: "resync_offering env R b i rs w = (Returns rs', w')"
  shows "\<exists>f. rs_services rs' = (rs_services rs)[i := own_plans (ID f) f] \<and> so_CatalogID f = so_CatalogID (rs_services rs ! i) \<and>
    so_Plans f = so_Plans (rs_services rs ! i) \<and> plns w' = plns w \<and>
    (case map_of (rs_existing rs) (so_CatalogID (rs_services rs ! i)) of
       Some e \<Rightarrow> ID f = ID e \<and> rs_existing rs' = AList.delete (so_CatalogID (rs_services rs ! i)) (rs_existing rs) \<and>
         rs_create rs' = rs_create rs \<and> offs w' = (offs w)(ID f \<mapsto> off_row f)
     | None \<Rightarrow> rs_existing rs' = rs_existing rs \<and> rs_create rs' = rs_create rs @ [i] \<and> offs w' = offs w)"
proof (cases "map_of (rs_existing rs) (so_CatalogID (rs_services rs ! i))")
  case (Some e)
  let ?f = "(rs_services rs ! i)\<lparr>ID := ID e, CreatedAt := CreatedAt e, UpdatedAt := UpdatedAt e\<rparr>"
  from run Some obtain r where "raw_call (r_Update R (ServiceOfferingObject ?f) [] []) w = (Returns r, w')"
    and rs': "rs' = rs\<lparr>rs_services := adopt_plans (so_CatalogID (rs_services rs ! i)) (ID ?f) ((rs_services rs)[i := ?f]),
      rs_existing := AList.delete (so_CatalogID (rs_services rs ! i)) (rs_existing rs)\<rparr>"
    by (auto simp: resync_offering_def Let_def call_then_Returns_iff split: sum.splits)
  from catalog_tablesD(3) [OF laws this(1)] Some show ?thesis
    by (intro exI [of _ ?f]) (simp add: rs' adopt_own [OF d i] del: fun_upd_apply)
next
  case None
  with run obtain u where u: "raw_call (pp_uuid env) w = (Returns u, w')"
    and rs': "rs' = rs\<lparr>rs_services := adopt_plans (so_CatalogID (rs_services rs ! i)) u ((rs_services rs)[i := (rs_services rs ! i)\<lparr>ID := u\<rparr>]),
      rs_create := rs_create rs @ [i]\<rparr>"
    by (auto simp: resync_offering_def Let_def call_then_Returns_iff dest!: not_Inr_unit split: sum.splits)
  from catalog_tablesD(7) [OF laws u] None show ?thesis
    by (intro exI [of _ "(rs_services rs ! i)\<lparr>ID := u\<rparr>"]) (simp add: rs' adopt_own [OF d i])
qed

definition same_shape :: "ServiceOffering list \<Rightarrow> ServiceOffering list \<Rightarrow> bool" where
  "same_shape fs gs \<longleftrightarrow> map so_CatalogID fs = map so_CatalogID gs \<and>
     map (\<lambda>f. map sp_CatalogID (so_Plans f)) fs = map (\<lambda>f. map sp_CatalogID (so_Plans f)) gs"

lemma same_shapeD:
  assumes "same_shape fs gs"
  shows "length fs = length gs" "i < length gs \<Longrightarrow> so_CatalogID (fs ! i) = so_CatalogID (gs ! i)"
    "i < length gs \<Longrightarrow> map sp_CatalogID (so_Plans (fs ! i)) = map sp_CatalogID (so_Plans (gs ! i))"
proof -
  show len: "length fs = length gs" using assms unfolding same_shape_def by (metis length_map)
  show "i < length gs \<Longrightarrow> so_CatalogID (fs ! i) = so_CatalogID (gs ! i)"
    using assms len nth_map [of i fs so_CatalogID] nth_map [of i gs so_CatalogID] by (simp add: same_shape_def)
  show "i < length gs \<Longrightarrow> map sp_CatalogID (so_Plans (fs ! i)) = map sp_CatalogID (so_Plans (gs ! i))"
    using assms len nth_map [of i fs "\<lambda>f. map sp_CatalogID (so_Plans f)"] nth_map [of i gs "\<lambda>f. map sp_CatalogID (so_Plans f)"]
    by (simp add: same_shape_def)
qed

lemma same_shape_update:
  assumes "same_shape fs gs" "i < length gs" "so_CatalogID f = so_CatalogID (fs ! i)"
    "map sp_CatalogID (so_Plans f) = map sp_CatalogID (so_Plans (fs ! i))"
  shows "same_shape (fs[i := f]) gs"
  using assms same_shapeD [OF assms(1)] by (simp add: same_shape_def map_update list_update_same_conv)

text \<open>The first \<open>n\<close> offerings of the catalog are done.\<close>

definition matched :: "ServiceOffering list \<Rightarrow> ServiceOffering \<Rightarrow> bool" where
  "matched existing f \<longleftrightarrow> map_of (existing_offerings existing) (so_CatalogID f) \<noteq> None"

definition offerings_done :: "ServiceOffering list \<Rightarrow> ServiceOffering list \<Rightarrow> nat \<Rightarrow> resync \<Rightarrow>
    (string \<rightharpoonup> ServiceOffering) \<Rightarrow> (string \<rightharpoonup> ServiceOffering) \<Rightarrow> bool" where
  "offerings_done existing services n rs t t' \<longleftrightarrow>
     same_shape (rs_services rs) services \<and>
     map_of (rs_existing rs) = map_of (existing_offerings existing) |` (- set (take n (map so_CatalogID services))) \<and>
     distinct (map fst (rs_existing rs)) \<and>
     rs_create rs = filter (\<lambda>i. \<not> matched existing (services ! i)) [0..<n] \<and>
     (\<forall>i<n. \<forall>e. map_of (existing_offerings existing) (so_CatalogID (services ! i)) = Some e \<longrightarrow> ID (rs_services rs ! i) = ID e) \<and>
     (\<forall>i<n. \<forall>p\<in>set (so_Plans (rs_services rs ! i)). sp_ServiceOfferingID p = ID (rs_services rs ! i)) \<and>
     t' = puts (off_rows (map ((!) (rs_services rs)) (filter (\<lambda>i. matched existing (services ! i)) [0..<n]))) t"

lemma map_nth_update:
  assumes "\<forall>i\<in>set is. i \<noteq> n"
  shows "map ((!) (fs[n := f])) is = map ((!) fs) is"
  using assms by (auto simp: nth_list_update_neq)

lemma off_rows_append: "off_rows (fs @ [f]) = off_rows fs @ [(ID f, off_row f)]"
  by (simp add: off_rows_def)

lemma offerings_step:
  assumes laws: "catalog_tables R env offs plns" and d: "distinct (map so_CatalogID services)" and n: "n < length services"
    and inv: "offerings_done existing services n rs t (offs w)" and run: "resync_offering env R b n rs w = (Returns rs', w')"
  shows "offerings_done existing services (Suc n) rs' t (offs w') \<and> plns w' = plns w"
proof -
  let ?S = "rs_services rs" and ?c = "so_CatalogID (services ! n)" and ?E = "map_of (existing_offerings existing)"
  note invs = inv [unfolded offerings_done_def, THEN conjunct1] inv [unfolded offerings_done_def, THEN conjunct2]
  have shape: "same_shape ?S services" by (rule invs(1))
  note S = same_shapeD [OF shape]
  have dS: "distinct (map so_CatalogID ?S)" using shape d by (simp add: same_shape_def)
  have cS: "so_CatalogID (?S ! n) = ?c" using S(2) n by simp
  have new: "?c \<notin> set (take n (map so_CatalogID services))"
    using d n by (metis distinct_take id_take_nth_drop length_map nth_map not_distinct_conv_prefix)
  have ex: "map_of (rs_existing rs) = ?E |` (- set (take n (map so_CatalogID services)))" using invs(2) by blast
  then have exc: "map_of (rs_existing rs) ?c = ?E ?c" using new by simp
  have take: "set (take (Suc n) (map so_CatalogID services)) = insert ?c (set (take n (map so_CatalogID services)))"
    using n by (simp add: take_Suc_conv_app_nth)
  obtain f where f: "rs_services rs' = ?S[n := own_plans (ID f) f]" "so_CatalogID f = ?c" "so_Plans f = so_Plans (?S ! n)" "plns w' = plns w"
    and ff: "case ?E ?c of
       Some e \<Rightarrow> ID f = ID e \<and> rs_existing rs' = AList.delete ?c (rs_existing rs) \<and> rs_create rs' = rs_create rs \<and> offs w' = (offs w)(ID f \<mapsto> off_row f)
     | None \<Rightarrow> rs_existing rs' = rs_existing rs \<and> rs_create rs' = rs_create rs @ [n] \<and> offs w' = offs w"
    using resync_offering_tables [OF laws dS _ run, unfolded cS exc] n S(1) by auto
  have nS: "rs_services rs' ! n = own_plans (ID f) f" using f(1) n S(1) by simp
  have oS: "rs_services rs' ! i = ?S ! i" if "i < n" for i using f(1) that by simp
  have rows: "map ((!) (rs_services rs')) (filter P [0..<n]) = map ((!) ?S) (filter P [0..<n])" for P
    unfolding f(1) by (rule map_nth_update) auto
  have 1: "same_shape (rs_services rs') services" unfolding f(1) by (rule same_shape_update [OF shape n]) (simp_all add: f cS)
  have 2: "map_of (rs_existing rs') = ?E |` (- set (take (Suc n) (map so_CatalogID services)))"
    using ff ex exc by (cases "?E ?c") (auto simp: take delete_conv' fun_eq_iff restrict_map_def)
  have 3: "distinct (map fst (rs_existing rs'))" using ff invs(2) by (cases "?E ?c") (auto simp: distinct_delete)
  have 4: "rs_create rs' = filter (\<lambda>i. \<not> matched existing (services ! i)) [0..<Suc n]"
    using ff invs(2) by (cases "?E ?c") (auto simp: matched_def)
  have 5: "ID (rs_services rs' ! i) = ID e" if "i < Suc n" "?E (so_CatalogID (services ! i)) = Some e" for i e
    using that ff invs(2) nS oS by (cases "i = n") (auto simp: less_Suc_eq)
  have 6: "sp_ServiceOfferingID p = ID (rs_services rs' ! i)" if "i < Suc n" "p \<in> set (so_Plans (rs_services rs' ! i))" for i p
    using that invs(2) nS oS by (cases "i = n") (auto simp: less_Suc_eq)
  have 7: "offs w' = puts (off_rows (map ((!) (rs_services rs')) (filter (\<lambda>i. matched existing (services ! i)) [0..<Suc n]))) t"
    using ff invs(2) by (cases "?E ?c") (simp_all add: matched_def rows nS off_rows_append del: fun_upd_apply)
  from 1 2 3 4 5 6 7 f(4) show ?thesis unfolding offerings_done_def by blast
qed

lemma resync_offerings_done:
  assumes laws: "catalog_tables R env offs plns" and d: "distinct (map so_CatalogID services)"
  shows "n \<le> length services \<Longrightarrow> offerings_done existing services n rs t (offs w) \<Longrightarrow>
    resync_offerings env R b [n..<length services] rs w = (Returns rs', w') \<Longrightarrow>
    offerings_done existing services (length services) rs' t (offs w') \<and> plns w' = plns w"
proof (induction "length services - n" arbitrary: n rs w)
  case 0
  then show ?case by simp
next
  case (Suc m)
  then have n: "n < length services" by simp
  then have "[n..<length services] = n # [Suc n..<length services]" by (rule upt_conv_Cons)
  with Suc.prems(3) obtain rs1 w1 where one: "resync_offering env R b n rs w = (Returns rs1, w1)"
    and rest: "resync_offerings env R b [Suc n..<length services] rs1 w1 = (Returns rs', w')" by (auto simp: call_then_Returns_iff)
  from offerings_step [OF laws d n Suc.prems(2) one] Suc.hyps(1) [OF _ _ _ rest] Suc.hyps(2) n show ?case by simp
qed

lemma values_in_order_set:
  assumes laws: "catalog_tables R env offs plns" and d: "distinct (map fst m)"
  shows "set (values_in_order env m) = ran (map_of m)"
proof -
  have "set (ct_walk env (map fst m)) = fst ` set m" using catalog_tablesD(10) [OF laws d] by simp
  then have "set (values_in_order env m) = (\<lambda>c. the (map_of m c)) ` dom (map_of m)"
    by (simp add: values_in_order_def dom_map_of_conv_image_fst)
  then show ?thesis by (auto simp: ran_def dom_def) force
qed

lemma fst_off_rows: "map fst (off_rows fs) = map ID fs"
  by (simp add: off_rows_def comp_def)

text \<open>The identifiers of the offerings that the catalog no longer has.\<close>

definition dropped :: "ServiceOffering list \<Rightarrow> ServiceOffering list \<Rightarrow> string set" where
  "dropped existing services = ID ` {e \<in> set existing. so_CatalogID e \<notin> so_CatalogID ` set services}"

text \<open>The rows that are replaced, over a catalog \<open>S\<close> whose matched offerings have the old identifiers.\<close>

definition matched_rows :: "ServiceOffering list \<Rightarrow> ServiceOffering list \<Rightarrow> ServiceOffering list \<Rightarrow> (string \<times> ServiceOffering) list" where
  "matched_rows existing services S = off_rows (map ((!) S) (filter (\<lambda>i. matched existing (services ! i)) [0..<length services]))"

lemma matched_rows_keys:
  assumes d: "distinct (map so_CatalogID services)" and ex: "distinct (map so_CatalogID existing)" "distinct (map ID existing)"
    and ids: "\<And>i e. i < length services \<Longrightarrow> map_of (existing_offerings existing) (so_CatalogID (services ! i)) = Some e \<Longrightarrow> ID (S ! i) = ID e"
  shows "distinct (map fst (matched_rows existing services S))"
    "dropped existing services = ID ` set existing - fst ` set (matched_rows existing services S)"
    "fst ` set (matched_rows existing services S) \<subseteq> ID ` set existing"
proof -
  let ?N = "length services" and ?E = "map_of (existing_offerings existing)" and ?m = "\<lambda>i. matched existing (services ! i)"
  note E = existing_offering_iff [OF ex(1)]
  have injE: "e = e'" if "ID e = ID e'" "e \<in> set existing" "e' \<in> set existing" for e e'
    using ex(2) that by (auto simp: distinct_map dest: inj_onD)
  have "fst ` set (matched_rows existing services S) = (\<lambda>i. ID (S ! i)) ` {i. i < ?N \<and> ?m i}"
    by (auto simp: matched_rows_def off_rows_def image_iff)
  also have "\<dots> = ID ` {e \<in> set existing. so_CatalogID e \<in> so_CatalogID ` set services}"
  proof (intro set_eqI iffI)
    fix x assume "x \<in> (\<lambda>i. ID (S ! i)) ` {i. i < ?N \<and> ?m i}"
    then obtain i e where "i < ?N" "x = ID (S ! i)" "?E (so_CatalogID (services ! i)) = Some e" by (auto simp: matched_def)
    with ids [of i e] E show "x \<in> ID ` {e \<in> set existing. so_CatalogID e \<in> so_CatalogID ` set services}" by force
  next
    fix x assume "x \<in> ID ` {e \<in> set existing. so_CatalogID e \<in> so_CatalogID ` set services}"
    then obtain e i where "x = ID e" "e \<in> set existing" "i < ?N" "so_CatalogID e = so_CatalogID (services ! i)"
      by (auto simp: in_set_conv_nth [of _ services])
    with ids [of i e] E show "x \<in> (\<lambda>i. ID (S ! i)) ` {i. i < ?N \<and> ?m i}" by (auto simp: matched_def image_iff)
  qed
  finally have keys: "fst ` set (matched_rows existing services S) = ID ` {e \<in> set existing. so_CatalogID e \<in> so_CatalogID ` set services}" .
  then show "dropped existing services = ID ` set existing - fst ` set (matched_rows existing services S)"
    "fst ` set (matched_rows existing services S) \<subseteq> ID ` set existing"
  proof -
    let ?kept = "{e \<in> set existing. so_CatalogID e \<in> so_CatalogID ` set services}"
    have "ID ` (set existing - ?kept) = ID ` set existing - ID ` ?kept"
      by (rule inj_on_image_set_diff [of _ "set existing"]) (use ex(2) in \<open>auto simp: distinct_map\<close>)
    moreover have "{e \<in> set existing. so_CatalogID e \<notin> so_CatalogID ` set services} = set existing - ?kept" by blast
    ultimately show "dropped existing services = ID ` set existing - fst ` set (matched_rows existing services S)"
      unfolding keys dropped_def by simp
  qed (auto simp: keys)
  show "distinct (map fst (matched_rows existing services S))"
    unfolding matched_rows_def fst_off_rows map_map
  proof (rule distinct_map [THEN iffD2, OF conjI])
    show "inj_on (ID \<circ> (!) S) (set (filter ?m [0..<?N]))"
    proof (rule inj_onI)
      fix i j assume i: "i \<in> set (filter ?m [0..<?N])" "j \<in> set (filter ?m [0..<?N])" and eq: "(ID \<circ> (!) S) i = (ID \<circ> (!) S) j"
      then obtain e e' where e: "?E (so_CatalogID (services ! i)) = Some e" "?E (so_CatalogID (services ! j)) = Some e'"
        by (auto simp: matched_def)
      with i eq ids have "ID e = ID e'" by auto
      with e injE E have "so_CatalogID (services ! i) = so_CatalogID (services ! j)" by metis
      with i d show "i = j" using nth_eq_iff_index_eq [OF d, of i j] by simp
    qed
  qed simp
qed

lemma offerings_synced:
  assumes laws: "catalog_tables R env offs plns" and d: "distinct (map so_CatalogID services)"
    and ex: "distinct (map so_CatalogID existing)" "distinct (map ID existing)"
    and inv: "offerings_done existing services (length services) rs t (offs w1)"
    and del: "delete_offerings R (map ID (values_in_order env (rs_existing rs))) w1 = (Returns (), w2)"
    and crt: "create_each R (map (\<lambda>i. ServiceOfferingObject (rs_services rs ! i)) (rs_create rs)) w2 = (Returns (), w3)"
  shows "offs w3 = (t |` (- ID ` set existing)) ++ map_of (off_rows (rs_services rs))"
    "plns w3 = plns w1 |` {x. \<forall>p. plns w1 x = Some p \<longrightarrow> sp_ServiceOfferingID p \<notin> dropped existing services}"
proof -
  let ?S = "rs_services rs" and ?N = "length services" and ?m = "\<lambda>i. matched existing (services ! i)"
  let ?A = "matched_rows existing services ?S" and ?B = "off_rows (map ((!) ?S) (filter (\<lambda>i. \<not> ?m i) [0..<?N]))"
  have shape: "same_shape ?S services"
    and rest: "map_of (rs_existing rs) = map_of (existing_offerings existing) |` (- so_CatalogID ` set services)" "distinct (map fst (rs_existing rs))"
    and create: "rs_create rs = filter (\<lambda>i. \<not> ?m i) [0..<?N]"
    and ids: "\<And>i e. i < ?N \<Longrightarrow> map_of (existing_offerings existing) (so_CatalogID (services ! i)) = Some e \<Longrightarrow> ID (?S ! i) = ID e"
    and t1: "offs w1 = puts ?A t" using inv unfolding offerings_done_def matched_rows_def by auto
  note A = matched_rows_keys [where S = ?S, OF d ex ids]
  have "set (values_in_order env (rs_existing rs)) = {e \<in> set existing. so_CatalogID e \<notin> so_CatalogID ` set services}"
    unfolding values_in_order_set [OF laws rest(2)] rest(1) by (auto simp: ran_def restrict_map_def existing_offering_iff [OF ex(1)])
  then have D: "set (map ID (values_in_order env (rs_existing rs))) = dropped existing services" by (simp add: dropped_def)
  from delete_offerings_tables [OF laws del] have t2: "offs w2 = puts ?A t |` (- dropped existing services)"
    and p2: "plns w2 = plns w1 |` {x. \<forall>p. plns w1 x = Some p \<longrightarrow> sp_ServiceOfferingID p \<notin> dropped existing services}"
    by (simp_all only: D t1)
  have "create_each R (map ServiceOfferingObject (map ((!) ?S) (rs_create rs))) w2 = (Returns (), w3)" using crt by (simp add: comp_def)
  from create_offerings [OF laws this] have t3: "offs w3 = puts ?B (offs w2)" "plns w3 = plns w2" "distinct (map fst ?B)"
    "fst ` set ?B \<inter> dom (offs w2) = {}"
    unfolding create fst_off_rows set_map [symmetric] by simp_all
  let ?h = "\<lambda>i. (ID (?S ! i), off_row (?S ! i))"
  have rows: "?A = map ?h (filter ?m [0..<?N])" "?B = map ?h (filter (\<lambda>i. \<not> ?m i) [0..<?N])"
    by (simp_all add: matched_rows_def off_rows_def)
  have "map ((!) ?S) [0..<?N] = ?S" using same_shapeD(1) [OF shape] map_nth [of ?S] by simp
  then have "off_rows ?S = off_rows (map ((!) ?S) [0..<?N])" by (simp only:)
  also have "\<dots> = map ?h [0..<?N]" by (simp add: off_rows_def)
  finally have "off_rows ?S = map ?h [0..<?N]" .
  then have mC: "mset (off_rows ?S) = mset ?A + mset ?B" unfolding rows by (simp only: mset_map_partition [symmetric])
  have fresh: "fst ` set ?B \<inter> dom (puts ?A t |` (- dropped existing services)) = {}" using t3(4) unfolding t2 .
  show "offs w3 = (t |` (- ID ` set existing)) ++ map_of (off_rows ?S)"
    unfolding t3(1) t2 by (rule sync_map(1) [OF A(1,3,2) refl t3(3) fresh mC])
  from t3(2) p2 show "plns w3 = plns w1 |` {x. \<forall>p. plns w1 x = Some p \<longrightarrow> sp_ServiceOfferingID p \<notin> dropped existing services}" by simp
qed

subsection \<open>Plans\<close>

definition plan_at :: "ServiceOffering list \<Rightarrow> nat \<times> nat \<Rightarrow> ServicePlan" where
  "plan_at fs kj = so_Plans (fs ! fst kj) ! snd kj"

definition places :: "ServiceOffering list \<Rightarrow> (nat \<times> nat) list" where
  "places fs = concat (map (\<lambda>k. map (Pair k) [0..<length (so_Plans (fs ! k))]) [0..<length fs])"

lemma set_places: "kj \<in> set (places fs) \<longleftrightarrow> fst kj < length fs \<and> snd kj < length (so_Plans (fs ! fst kj))"
  by (cases kj) (auto simp: places_def image_iff)

lemma distinct_pairs: "distinct ks \<Longrightarrow> (\<And>k. distinct (ls k)) \<Longrightarrow> distinct (concat (map (\<lambda>k. map (Pair k) (ls k)) ks))"
  by (induction ks) (auto simp: distinct_map inj_on_def)

lemma distinct_places: "distinct (places fs)"
  unfolding places_def by (rule distinct_pairs) simp_all

lemma map_plan_at_places: "map (plan_at fs) (places fs) = concat (map so_Plans fs)"
proof -
  have "map (plan_at fs \<circ> Pair k) [0..<length (so_Plans (fs ! k))] = so_Plans (fs ! k)" for k
    by (rule nth_equalityI) (simp_all add: plan_at_def)
  then have "map (plan_at fs) (places fs) = concat (map (\<lambda>k. so_Plans (fs ! k)) [0..<length fs])"
    by (simp add: places_def map_concat comp_def)
  also have "map (\<lambda>k. so_Plans (fs ! k)) [0..<length fs] = map so_Plans fs"
    by (rule nth_equalityI) simp_all
  finally show ?thesis .
qed

text \<open>A catalog that differs from another one only in the identifiers and times of its plans.\<close>

definition same_but_plans :: "ServiceOffering list \<Rightarrow> ServiceOffering list \<Rightarrow> bool" where
  "same_but_plans fs gs \<longleftrightarrow>
     map (\<lambda>f. (f\<lparr>so_Plans := []\<rparr>, map (\<lambda>p. (sp_CatalogID p, sp_ServiceOfferingID p)) (so_Plans f))) fs =
     map (\<lambda>f. (f\<lparr>so_Plans := []\<rparr>, map (\<lambda>p. (sp_CatalogID p, sp_ServiceOfferingID p)) (so_Plans f))) gs"

lemma same_but_plansD:
  assumes "same_but_plans fs gs"
  shows "length fs = length gs"
    "k < length gs \<Longrightarrow> (fs ! k)\<lparr>so_Plans := []\<rparr> = (gs ! k)\<lparr>so_Plans := []\<rparr>"
    "k < length gs \<Longrightarrow> length (so_Plans (fs ! k)) = length (so_Plans (gs ! k))"
    "kj \<in> set (places gs) \<Longrightarrow> sp_CatalogID (plan_at fs kj) = sp_CatalogID (plan_at gs kj)"
    "kj \<in> set (places gs) \<Longrightarrow> sp_ServiceOfferingID (plan_at fs kj) = sp_ServiceOfferingID (plan_at gs kj)"
proof -
  let ?h = "\<lambda>f. (f\<lparr>so_Plans := []\<rparr>, map (\<lambda>p. (sp_CatalogID p, sp_ServiceOfferingID p)) (so_Plans f))"
  show len: "length fs = length gs" using arg_cong [OF assms [unfolded same_but_plans_def], of length] by simp
  have at: "?h (fs ! k) = ?h (gs ! k)" if "k < length gs" for k
    using assms len that nth_map [of k fs ?h] nth_map [of k gs ?h] unfolding same_but_plans_def by simp
  then show "k < length gs \<Longrightarrow> (fs ! k)\<lparr>so_Plans := []\<rparr> = (gs ! k)\<lparr>so_Plans := []\<rparr>" by simp
  show lenp: "length (so_Plans (fs ! k)) = length (so_Plans (gs ! k))" if "k < length gs" for k
    using arg_cong [OF at [OF that], of "\<lambda>x. length (snd x)"] by simp
  let ?q = "\<lambda>p. (sp_CatalogID p, sp_ServiceOfferingID p)"
  have "?q (plan_at fs kj) = ?q (plan_at gs kj)" if "kj \<in> set (places gs)" for kj
    using at [of "fst kj"] lenp [of "fst kj"] that nth_map [of "snd kj" "so_Plans (fs ! fst kj)" ?q] nth_map [of "snd kj" "so_Plans (gs ! fst kj)" ?q]
    by (simp add: set_places plan_at_def)
  then show "kj \<in> set (places gs) \<Longrightarrow> sp_CatalogID (plan_at fs kj) = sp_CatalogID (plan_at gs kj)"
    "kj \<in> set (places gs) \<Longrightarrow> sp_ServiceOfferingID (plan_at fs kj) = sp_ServiceOfferingID (plan_at gs kj)" by simp_all
qed

lemma same_but_plans_refl: "same_but_plans fs fs" by (simp add: same_but_plans_def)

lemma same_but_plans_trans: "same_but_plans fs gs \<Longrightarrow> same_but_plans gs hs \<Longrightarrow> same_but_plans fs hs" by (simp add: same_but_plans_def)

lemma same_but_plans_places: "same_but_plans fs gs \<Longrightarrow> places fs = places gs"
proof -
  assume same: "same_but_plans fs gs"
  have "map (\<lambda>k. map (Pair k) [0..<length (so_Plans (fs ! k))]) [0..<length gs] = map (\<lambda>k. map (Pair k) [0..<length (so_Plans (gs ! k))]) [0..<length gs]"
    by (rule map_cong) (auto simp: same_but_plansD(3) [OF same])
  then show ?thesis unfolding places_def same_but_plansD(1) [OF same] by (simp only:)
qed

lemma put_plan_at:
  assumes "kj \<in> set (places fs)"
  shows "plan_at (put_plan kj p fs) kj = p" "k' \<noteq> kj \<Longrightarrow> plan_at (put_plan kj p fs) k' = plan_at fs k'"
proof -
  obtain k j k1 j1 where kj: "kj = (k, j)" "k' = (k1, j1)" by fastforce
  with assms show "plan_at (put_plan kj p fs) kj = p" by (simp add: put_plan_def plan_at_def set_places)
  show "plan_at (put_plan kj p fs) k' = plan_at fs k'" if "k' \<noteq> kj"
    using assms kj that by (cases "k1 = k") (simp_all add: put_plan_def plan_at_def set_places)
qed

lemma put_plan_same:
  assumes "kj \<in> set (places fs)" "sp_CatalogID p = sp_CatalogID (plan_at fs kj)" "sp_ServiceOfferingID p = sp_ServiceOfferingID (plan_at fs kj)"
  shows "same_but_plans (put_plan kj p fs) fs"
  unfolding same_but_plans_def
proof (rule nth_equalityI)
  obtain k j where kj: "kj = (k, j)" by fastforce
  let ?q = "\<lambda>p. (sp_CatalogID p, sp_ServiceOfferingID p)"
  show "length (map (\<lambda>f. (f\<lparr>so_Plans := []\<rparr>, map ?q (so_Plans f))) (put_plan kj p fs)) = length (map (\<lambda>f. (f\<lparr>so_Plans := []\<rparr>, map ?q (so_Plans f))) fs)"
    by (simp add: kj put_plan_def)
  have "map ?q ((so_Plans (fs ! k))[j := p]) = map ?q (so_Plans (fs ! k))"
    using assms kj by (simp add: map_update list_update_same_conv set_places plan_at_def)
  then show "map (\<lambda>f. (f\<lparr>so_Plans := []\<rparr>, map ?q (so_Plans f))) (put_plan kj p fs) ! i = map (\<lambda>f. (f\<lparr>so_Plans := []\<rparr>, map ?q (so_Plans f))) fs ! i"
    if "i < length (map (\<lambda>f. (f\<lparr>so_Plans := []\<rparr>, map ?q (so_Plans f))) (put_plan kj p fs))" for i
    using that kj by (cases "i = k") (simp_all add: put_plan_def)
qed

lemma plan_rows_append: "plan_rows (ps @ [p]) = plan_rows ps @ [(ID p, plan_row p)]" "plan_rows (p # ps) = (ID p, plan_row p) # plan_rows ps" "plan_rows [] = []"
  by (simp_all add: plan_rows_def)

lemma fst_plan_rows: "map fst (plan_rows ps) = map ID ps"
  by (simp add: plan_rows_def comp_def)

end
