(* ===== verification/CatalogSync.thy ===== *)
theory CatalogSync
  imports CatalogFacts
begin

text \<open>
  The second half of a catalog update, the plans, and the state of the storage after the whole
  update.
\<close>

subsection \<open>Matching plans\<close>

text \<open>The stored plan that a plan of the catalog replaces.\<close>

definition old_plan :: "ServiceOffering list \<Rightarrow> string \<Rightarrow> string \<Rightarrow> ServicePlan option" where
  "old_plan existing cid c =
     (case map_of (existing_plans existing) cid of None \<Rightarrow> None | Some es \<Rightarrow> find (\<lambda>e. sp_CatalogID e = c) es)"

text \<open>What is known of the stored catalog: it has been read from the storage.\<close>

definition stored_catalog :: "ServiceOffering list \<Rightarrow> bool" where
  "stored_catalog existing \<longleftrightarrow>
     distinct (map so_CatalogID existing) \<and> distinct (map ID existing) \<and> distinct (map ID (concat (map so_Plans existing))) \<and>
     (\<forall>f\<in>set existing. distinct (map sp_CatalogID (so_Plans f)) \<and> (\<forall>p\<in>set (so_Plans f). sp_ServiceOfferingID p = ID f))"

lemma stored_catalogD:
  assumes "stored_catalog existing"
  shows "distinct (map so_CatalogID existing)" "distinct (map ID existing)"
    "f \<in> set existing \<Longrightarrow> distinct (map sp_CatalogID (so_Plans f))"
    "f \<in> set existing \<Longrightarrow> g \<in> set existing \<Longrightarrow> p \<in> set (so_Plans f) \<Longrightarrow> q \<in> set (so_Plans g) \<Longrightarrow> ID p = ID q \<Longrightarrow> p = q \<and> f = g"
proof -
  show "distinct (map so_CatalogID existing)" "distinct (map ID existing)"
    "f \<in> set existing \<Longrightarrow> distinct (map sp_CatalogID (so_Plans f))" using assms by (auto simp: stored_catalog_def)
  assume fg: "f \<in> set existing" "g \<in> set existing" "p \<in> set (so_Plans f)" "q \<in> set (so_Plans g)" and eq: "ID p = ID q"
  have "inj_on ID (set (concat (map so_Plans existing)))" "inj_on ID (set existing)"
    using assms by (auto simp: stored_catalog_def distinct_map)
  moreover have "sp_ServiceOfferingID p = ID f" "sp_ServiceOfferingID q = ID g" using assms fg by (auto simp: stored_catalog_def)
  moreover have "p = q" using calculation(1) fg eq by (auto dest: inj_onD)
  ultimately show "p = q \<and> f = g" using fg by (auto dest: inj_onD)
qed

lemma find_unique:
  assumes "distinct (map k xs)"
  shows "find (\<lambda>x. k x = c) xs = Some x \<longleftrightarrow> x \<in> set xs \<and> k x = c"
  using assms by (induction xs) auto

lemma filter_unique:
  assumes "distinct (map k xs)"
  shows "filter (\<lambda>x. k x = c) xs = (case find (\<lambda>x. k x = c) xs of None \<Rightarrow> [] | Some x \<Rightarrow> [x])"
  using assms
proof (induction xs)
  case (Cons x xs)
  have "filter (\<lambda>y. k y = k x) xs = []" using Cons.prems by (auto simp: filter_empty_conv image_iff)
  with Cons show ?case by auto
qed simp

lemma old_plan_iff:
  assumes "stored_catalog existing"
  shows "old_plan existing cid c = Some e \<longleftrightarrow> (\<exists>f\<in>set existing. so_CatalogID f = cid \<and> e \<in> set (so_Plans f) \<and> sp_CatalogID e = c)"
proof
  assume "old_plan existing cid c = Some e"
  then obtain es where es: "map_of (existing_plans existing) cid = Some es" "find (\<lambda>e. sp_CatalogID e = c) es = Some e"
    by (auto simp: old_plan_def split: option.splits)
  then obtain f where "f \<in> set existing" "so_CatalogID f = cid" "so_Plans f = es"
    using existing_plans_iff [OF stored_catalogD(1) [OF assms]] by auto
  with es find_unique [OF stored_catalogD(3) [OF assms], of f c e] show "\<exists>f\<in>set existing. so_CatalogID f = cid \<and> e \<in> set (so_Plans f) \<and> sp_CatalogID e = c"
    by auto
next
  assume "\<exists>f\<in>set existing. so_CatalogID f = cid \<and> e \<in> set (so_Plans f) \<and> sp_CatalogID e = c"
  then obtain f where f: "f \<in> set existing" "so_CatalogID f = cid" "e \<in> set (so_Plans f)" "sp_CatalogID e = c" by blast
  then have "map_of (existing_plans existing) cid = Some (so_Plans f)"
    using existing_plans_iff [OF stored_catalogD(1) [OF assms], of cid "so_Plans f"] by auto
  with f find_unique [OF stored_catalogD(3) [OF assms f(1)], of c e] show "old_plan existing cid c = Some e" by (simp add: old_plan_def)
qed

subsection \<open>One plan\<close>

lemma resync_plan_tables:
  assumes laws: "catalog_tables R env offs plns" and run: "resync_plan env R b cid kj rs w = (Returns rs', w')"
  defines "p \<equiv> plan_at (ps_services rs) kj"
  shows "(\<forall>es. map_of (ps_existing rs) cid = Some es \<longrightarrow> filter (\<lambda>e. sp_CatalogID e = sp_CatalogID p) es = []) \<and>
      rs' = rs\<lparr>ps_create := ps_create rs @ [kj]\<rparr> \<and> plns w' = plns w \<and> offs w' = offs w \<or>
    (\<exists>es e q. map_of (ps_existing rs) cid = Some es \<and> filter (\<lambda>e. sp_CatalogID e = sp_CatalogID p) es \<noteq> [] \<and>
      e = last (filter (\<lambda>e. sp_CatalogID e = sp_CatalogID p) es) \<and> q = p\<lparr>ID := ID e, CreatedAt := CreatedAt e, UpdatedAt := UpdatedAt e\<rparr> \<and>
      rs' = rs\<lparr>ps_services := put_plan kj q (ps_services rs),
        ps_existing := AList.update cid (filter (\<lambda>e. sp_CatalogID e \<noteq> sp_CatalogID p) es) (ps_existing rs)\<rparr> \<and>
      plns w' = (plns w)(ID q \<mapsto> plan_row q) \<and> offs w' = offs w)"
proof (cases "\<exists>es. map_of (ps_existing rs) cid = Some es \<and> filter (\<lambda>e. sp_CatalogID e = sp_CatalogID p) es \<noteq> []")
  case False
  then have "resync_plan env R b cid kj rs = returns (rs\<lparr>ps_create := ps_create rs @ [kj]\<rparr>)"
    by (auto simp: resync_plan_def p_def plan_at_def Let_def split: option.splits)
  with run False show ?thesis by auto
next
  case True
  then obtain es where es: "map_of (ps_existing rs) cid = Some es" "filter (\<lambda>e. sp_CatalogID e = sp_CatalogID p) es \<noteq> []" by blast
  define e where "e = last (filter (\<lambda>e. sp_CatalogID e = sp_CatalogID p) es)"
  define q where "q = p\<lparr>ID := ID e, CreatedAt := CreatedAt e, UpdatedAt := UpdatedAt e\<rparr>"
  let ?rs = "rs\<lparr>ps_services := put_plan kj q (ps_services rs),
        ps_existing := AList.update cid (filter (\<lambda>e. sp_CatalogID e \<noteq> sp_CatalogID p) es) (ps_existing rs)\<rparr>"
  have "resync_plan env R b cid kj rs = call_then (planHasSharedInstances R (ID q)) (\<lambda>hasSharedInstances.
      if hasSharedInstances \<and> \<not> SupportsInstanceSharing (ct_json env) q then fails (sharing_error ErrSharedPlanHasReferences (ID q))
      else (case ServicePlan_Validate (ct_json env) q of
          Inl err \<Rightarrow> fails (invalid_plan b err)
        | Inr _ \<Rightarrow> call_then (raw_call (r_Update R (ServicePlanObject q) [] [])) (\<lambda>_. returns ?rs)))"
    using es unfolding resync_plan_def Let_def plan_at_def [symmetric] p_def [symmetric] e_def q_def by simp
  with run obtain h w1 r where h: "planHasSharedInstances R (ID q) w = (Returns h, w1)"
    and upd: "raw_call (r_Update R (ServicePlanObject q) [] []) w1 = (Returns r, w')" and rs': "rs' = ?rs"
    by (auto simp: call_then_Returns_iff dest!: not_Inr_unit split: if_splits sum.splits)
  from h have "plns w1 = plns w \<and> offs w1 = offs w"
    unfolding planHasSharedInstances_def call_then_Returns_iff using catalog_tablesD(8) [OF laws] by auto
  with catalog_tablesD(4) [OF laws upd] rs' es e_def q_def show ?thesis by (intro disjI2 exI [of _ es] exI [of _ e] exI [of _ q]) auto
qed

subsection \<open>All plans\<close>

definition old_of :: "ServiceOffering list \<Rightarrow> ServiceOffering list \<Rightarrow> string \<times> nat \<times> nat \<Rightarrow> ServicePlan option" where
  "old_of existing S x = old_plan existing (fst x) (sp_CatalogID (plan_at S (snd x)))"

definition well_placed :: "ServiceOffering list \<Rightarrow> (string \<times> nat \<times> nat) list \<Rightarrow> bool" where
  "well_placed S L \<longleftrightarrow> distinct (map snd L) \<and> (\<forall>x\<in>set L. snd x \<in> set (places S) \<and> fst x = so_CatalogID (S ! fst (snd x)))"

definition new_catalog :: "ServiceOffering list \<Rightarrow> bool" where
  "new_catalog S \<longleftrightarrow> distinct (map so_CatalogID S) \<and> (\<forall>f\<in>set S. distinct (map sp_CatalogID (so_Plans f)))"

definition plans_done :: "ServiceOffering list \<Rightarrow> ServiceOffering list \<Rightarrow> (string \<times> nat \<times> nat) list \<Rightarrow> plan_resync \<Rightarrow>
    (string \<rightharpoonup> ServicePlan) \<Rightarrow> (string \<rightharpoonup> ServicePlan) \<Rightarrow> bool" where
  "plans_done existing S L rs t t' \<longleftrightarrow>
     same_but_plans (ps_services rs) S \<and> distinct (map fst (ps_existing rs)) \<and>
     (\<forall>c. map_of (ps_existing rs) c =
        map_option (filter (\<lambda>e. \<forall>kj. (c, kj) \<in> set L \<longrightarrow> sp_CatalogID (plan_at S kj) \<noteq> sp_CatalogID e)) (map_of (existing_plans existing) c)) \<and>
     ps_create rs = map snd (filter (\<lambda>x. old_of existing S x = None) L) \<and>
     (\<forall>x\<in>set L. \<forall>e. old_of existing S x = Some e \<longrightarrow> ID (plan_at (ps_services rs) (snd x)) = ID e) \<and>
     t' = puts (plan_rows (map (\<lambda>x. plan_at (ps_services rs) (snd x)) (filter (\<lambda>x. old_of existing S x \<noteq> None) L))) t"

text \<open>In a catalog with distinct identifiers, a place is determined by its two catalog identifiers.\<close>

lemma place_unique:
  assumes "new_catalog S" "kj \<in> set (places S)" "kj' \<in> set (places S)"
    "so_CatalogID (S ! fst kj) = so_CatalogID (S ! fst kj')" "sp_CatalogID (plan_at S kj) = sp_CatalogID (plan_at S kj')"
  shows "kj = kj'"
proof -
  have k: "fst kj < length S" "fst kj' < length S" using assms(2,3) by (simp_all add: set_places)
  with assms(1,4) have "fst kj = fst kj'" using nth_eq_iff_index_eq [of "map so_CatalogID S" "fst kj" "fst kj'"] by (simp add: new_catalog_def)
  moreover have "distinct (map sp_CatalogID (so_Plans (S ! fst kj)))" using assms(1) k by (simp add: new_catalog_def)
  ultimately have "snd kj = snd kj'"
    using assms(2,3,5) nth_eq_iff_index_eq [of "map sp_CatalogID (so_Plans (S ! fst kj))" "snd kj" "snd kj'"]
    by (simp add: set_places plan_at_def)
  with \<open>fst kj = fst kj'\<close> show ?thesis by (simp add: prod_eq_iff)
qed

text \<open>The stored plans that match the next plan are not affected by the plans before it.\<close>

lemma next_matches:
  assumes new: "new_catalog S" and placed: "well_placed S (L @ [(c, kj)])" and st: "stored_catalog existing"
    and es0: "map_of (existing_plans existing) c = Some es0"
  shows "filter (\<lambda>e. sp_CatalogID e = sp_CatalogID (plan_at S kj))
      (filter (\<lambda>e. \<forall>kj. (c, kj) \<in> set L \<longrightarrow> sp_CatalogID (plan_at S kj) \<noteq> sp_CatalogID e) es0) =
    (case old_of existing S (c, kj) of None \<Rightarrow> [] | Some e \<Rightarrow> [e])"
proof -
  have free: "sp_CatalogID (plan_at S kj') \<noteq> sp_CatalogID (plan_at S kj)" if "(c, kj') \<in> set L" for kj'
  proof
    assume "sp_CatalogID (plan_at S kj') = sp_CatalogID (plan_at S kj)"
    moreover have "kj' \<in> set (places S)" "kj \<in> set (places S)" "so_CatalogID (S ! fst kj') = so_CatalogID (S ! fst kj)"
      using placed that by (auto simp: well_placed_def)
    ultimately have "kj' = kj" using place_unique [OF new] by blast
    with placed that show False by (auto simp: well_placed_def image_iff)
  qed
  have "filter (\<lambda>e. sp_CatalogID e = sp_CatalogID (plan_at S kj))
      (filter (\<lambda>e. \<forall>kj. (c, kj) \<in> set L \<longrightarrow> sp_CatalogID (plan_at S kj) \<noteq> sp_CatalogID e) es0) =
    filter (\<lambda>e. sp_CatalogID e = sp_CatalogID (plan_at S kj)) es0"
    unfolding filter_filter by (rule filter_cong [OF refl]) (use free in auto)
  moreover obtain f where "f \<in> set existing" "so_Plans f = es0" using es0 existing_plans_iff [OF stored_catalogD(1) [OF st]] by blast
  then have "distinct (map sp_CatalogID es0)" using stored_catalogD(3) [OF st] by blast
  ultimately show ?thesis using es0 filter_unique [of sp_CatalogID es0 "sp_CatalogID (plan_at S kj)"] by (simp add: old_of_def old_plan_def)
qed

lemma existing_after:
  fixes L c kj S
  defines "P \<equiv> (\<lambda>L c e. \<forall>kj. (c, kj) \<in> set L \<longrightarrow> sp_CatalogID (plan_at S kj) \<noteq> sp_CatalogID e)"
  shows "filter (P (L @ [(c, kj)]) c) es = filter (\<lambda>e. sp_CatalogID e \<noteq> sp_CatalogID (plan_at S kj)) (filter (P L c) es)"
    "c' \<noteq> c \<Longrightarrow> P (L @ [(c, kj)]) c' = P L c'"
proof -
  have "P (L @ [(c, kj)]) c e \<longleftrightarrow> P L c e \<and> sp_CatalogID e \<noteq> sp_CatalogID (plan_at S kj)" for e
    unfolding P_def by (auto simp del: split_paired_All)
  then show "filter (P (L @ [(c, kj)]) c) es = filter (\<lambda>e. sp_CatalogID e \<noteq> sp_CatalogID (plan_at S kj)) (filter (P L c) es)"
    unfolding filter_filter by (intro filter_cong) auto
  show "c' \<noteq> c \<Longrightarrow> P (L @ [(c, kj)]) c' = P L c'" unfolding P_def by simp
qed

lemma plans_doneD:
  assumes "plans_done existing S L rs t t'"
  shows "same_but_plans (ps_services rs) S" "distinct (map fst (ps_existing rs))"
    "map_of (ps_existing rs) c =
        map_option (filter (\<lambda>e. \<forall>kj. (c, kj) \<in> set L \<longrightarrow> sp_CatalogID (plan_at S kj) \<noteq> sp_CatalogID e)) (map_of (existing_plans existing) c)"
    "ps_create rs = map snd (filter (\<lambda>x. old_of existing S x = None) L)"
    "x \<in> set L \<Longrightarrow> old_of existing S x = Some e \<Longrightarrow> ID (plan_at (ps_services rs) (snd x)) = ID e"
    "t' = puts (plan_rows (map (\<lambda>x. plan_at (ps_services rs) (snd x)) (filter (\<lambda>x. old_of existing S x \<noteq> None) L))) t"
  using assms unfolding plans_done_def by blast+

text \<open>A plan that is left for creation, and a plan that replaces a stored one.\<close>

lemma plans_done_create:
  assumes inv: "plans_done existing S L rs t t'" and old: "old_of existing S (c, kj) = None"
    and none: "\<And>es. map_of (ps_existing rs) c = Some es \<Longrightarrow> filter (\<lambda>e. sp_CatalogID e = sp_CatalogID (plan_at S kj)) es = []"
  shows "plans_done existing S (L @ [(c, kj)]) (rs\<lparr>ps_create := ps_create rs @ [kj]\<rparr>) t t'"
proof -
  let ?P = "\<lambda>L c e. \<forall>kj. (c, kj) \<in> set L \<longrightarrow> sp_CatalogID (plan_at S kj) \<noteq> sp_CatalogID e"
  note D = plans_doneD [OF inv]
  have "map_of (ps_existing rs) c' = map_option (filter (?P (L @ [(c, kj)]) c')) (map_of (existing_plans existing) c')" for c'
  proof (cases "c' = c")
    case True
    have "filter (\<lambda>e. sp_CatalogID e \<noteq> sp_CatalogID (plan_at S kj)) (filter (?P L c) es) = filter (?P L c) es"
      if "map_of (existing_plans existing) c = Some es" for es
    proof (rule filter_True)
      have "filter (\<lambda>e. sp_CatalogID e = sp_CatalogID (plan_at S kj)) (filter (?P L c) es) = []"
        using none D(3) [of c] that by simp
      then show "\<forall>x\<in>set (filter (?P L c) es). sp_CatalogID x \<noteq> sp_CatalogID (plan_at S kj)" unfolding filter_empty_conv .
    qed
    then show ?thesis unfolding True existing_after(1) using D(3) [of c] by (cases "map_of (existing_plans existing) c") simp_all
  qed (simp add: D(3))
  with D(1,2,4,5,6) old show ?thesis unfolding plans_done_def by (simp only: plan_resync.simps filter_append) (auto simp: old)
qed

lemma plans_done_update:
  assumes inv: "plans_done existing S L rs t t'" and placed: "well_placed S (L @ [(c, kj)])" and old: "old_of existing S (c, kj) = Some e"
    and es: "map_of (ps_existing rs) c = Some es"
    and q: "q = (plan_at (ps_services rs) kj)\<lparr>ID := ID e, CreatedAt := CreatedAt e, UpdatedAt := UpdatedAt e\<rparr>"
  shows "plans_done existing S (L @ [(c, kj)])
    (rs\<lparr>ps_services := put_plan kj q (ps_services rs),
        ps_existing := AList.update c (filter (\<lambda>e. sp_CatalogID e \<noteq> sp_CatalogID (plan_at S kj)) es) (ps_existing rs)\<rparr>)
    t (t'(ID q \<mapsto> plan_row q))" (is "plans_done _ _ _ ?rs _ _")
proof -
  let ?P = "\<lambda>L c e. \<forall>kj. (c, kj) \<in> set L \<longrightarrow> sp_CatalogID (plan_at S kj) \<noteq> sp_CatalogID e" and ?old = "old_of existing S"
  note D = plans_doneD [OF inv]
  have kj: "kj \<in> set (places (ps_services rs))" using placed same_but_plans_places [OF D(1)] by (simp add: well_placed_def)
  have 1: "same_but_plans (ps_services ?rs) S"
    using same_but_plans_trans [OF put_plan_same [OF kj] D(1)] by (simp add: q)
  have 2: "distinct (map fst (ps_existing ?rs))" using D(2) by (simp add: distinct_update)
  have 3: "map_of (ps_existing ?rs) c' = map_option (filter (?P (L @ [(c, kj)]) c')) (map_of (existing_plans existing) c')" for c'
  proof (cases "c' = c")
    case True
    obtain es0 where "map_of (existing_plans existing) c = Some es0" "es = filter (?P L c) es0" using es D(3) [of c] by auto
    then show ?thesis unfolding True existing_after(1) by (simp add: update_conv')
  qed (simp add: D(3) update_conv')
  have others: "plan_at (ps_services ?rs) (snd x) = plan_at (ps_services rs) (snd x)" if "x \<in> set L" for x
    using put_plan_at(2) [OF kj, of "snd x" q] placed that by (auto simp: well_placed_def)
  have this_one: "plan_at (ps_services ?rs) kj = q" using put_plan_at(1) [OF kj] by simp
  have 4: "ps_create ?rs = map snd (filter (\<lambda>x. ?old x = None) (L @ [(c, kj)]))" using D(4) old by simp
  have 5: "ID (plan_at (ps_services ?rs) (snd x)) = ID d" if x: "x \<in> set (L @ [(c, kj)])" "?old x = Some d" for x d
  proof (cases "x \<in> set L")
    case True
    with others D(5) x show ?thesis by simp
  next
    case False
    with x have "x = (c, kj)" by simp
    with x old this_one show ?thesis by (simp add: q)
  qed
  have "map (\<lambda>x. plan_at (ps_services ?rs) (snd x)) (filter (\<lambda>x. ?old x \<noteq> None) L) = map (\<lambda>x. plan_at (ps_services rs) (snd x)) (filter (\<lambda>x. ?old x \<noteq> None) L)"
    by (rule map_cong [OF refl]) (use others in simp)
  then have 6: "t'(ID q \<mapsto> plan_row q) = puts (plan_rows (map (\<lambda>x. plan_at (ps_services ?rs) (snd x)) (filter (\<lambda>x. ?old x \<noteq> None) (L @ [(c, kj)])))) t"
    unfolding D(6) by (simp only: filter_append map_append) (simp add: old this_one [simplified] plan_rows_append del: fun_upd_apply)
  from 1 2 3 4 5 6 show ?thesis unfolding plans_done_def by blast
qed

lemma plans_step:
  assumes laws: "catalog_tables R env offs plns" and new: "new_catalog S" and placed: "well_placed S (L @ [(c, kj)])"
    and st: "stored_catalog existing" and inv: "plans_done existing S L rs t (plns w)" and run: "resync_plan env R b c kj rs w = (Returns rs', w')"
  shows "plans_done existing S (L @ [(c, kj)]) rs' t (plns w') \<and> offs w' = offs w"
proof -
  note D = plans_doneD [OF inv]
  have "kj \<in> set (places S)" using placed by (simp add: well_placed_def)
  then have cp: "sp_CatalogID (plan_at (ps_services rs) kj) = sp_CatalogID (plan_at S kj)" by (rule same_but_plansD(4) [OF D(1)])
  have matches: "filter (\<lambda>e. sp_CatalogID e = sp_CatalogID (plan_at S kj)) es = (case old_of existing S (c, kj) of None \<Rightarrow> [] | Some e \<Rightarrow> [e])"
    if "map_of (ps_existing rs) c = Some es" for es
    using that D(3) [of c] next_matches [OF new placed st] by auto
  from resync_plan_tables [OF laws run, unfolded cp] show ?thesis
  proof (elim disjE exE conjE)
    assume none: "\<forall>es. map_of (ps_existing rs) c = Some es \<longrightarrow> filter (\<lambda>e. sp_CatalogID e = sp_CatalogID (plan_at S kj)) es = []"
      and rs': "rs' = rs\<lparr>ps_create := ps_create rs @ [kj]\<rparr>" and same: "plns w' = plns w" "offs w' = offs w"
    have "old_of existing S (c, kj) = None"
      using none matches D(3) [of c] by (cases "map_of (existing_plans existing) c") (auto simp: old_of_def old_plan_def split: option.splits)
    with plans_done_create [OF inv] none same rs' show ?thesis by simp
  next
    fix es e q
    assume es: "map_of (ps_existing rs) c = Some es" "filter (\<lambda>e. sp_CatalogID e = sp_CatalogID (plan_at S kj)) es \<noteq> []"
      and e: "e = last (filter (\<lambda>e. sp_CatalogID e = sp_CatalogID (plan_at S kj)) es)"
      and q: "q = (plan_at (ps_services rs) kj)\<lparr>ID := ID e, CreatedAt := CreatedAt e, UpdatedAt := UpdatedAt e\<rparr>"
      and rs': "rs' = rs\<lparr>ps_services := put_plan kj q (ps_services rs),
        ps_existing := AList.update c (filter (\<lambda>e. sp_CatalogID e \<noteq> sp_CatalogID (plan_at S kj)) es) (ps_existing rs)\<rparr>"
      and tables: "plns w' = (plns w)(ID q \<mapsto> plan_row q)" "offs w' = offs w"
    have "old_of existing S (c, kj) = Some e" using matches [OF es(1)] es(2) e by (cases "old_of existing S (c, kj)") auto
    from plans_done_update [OF inv placed this es(1) q] tables rs' show ?thesis by simp
  qed
qed

lemma resync_plans_done:
  assumes laws: "catalog_tables R env offs plns" and new: "new_catalog S" and st: "stored_catalog existing"
  shows "well_placed S (L @ K) \<Longrightarrow> plans_done existing S L rs t (plns w) \<Longrightarrow> resync_plans env R b K rs w = (Returns rs', w') \<Longrightarrow>
    plans_done existing S (L @ K) rs' t (plns w') \<and> offs w' = offs w"
proof (induction K arbitrary: L rs w)
  case (Cons x K)
  obtain c kj where x: "x = (c, kj)" by (rule prod.exhaust)
  with Cons.prems(3) obtain rs1 w1 where one: "resync_plan env R b c kj rs w = (Returns rs1, w1)"
    and rest: "resync_plans env R b K rs1 w1 = (Returns rs', w')" by (auto simp: call_then_Returns_iff)
  have "well_placed S (L @ [(c, kj)])" using Cons.prems(1) x by (auto simp: well_placed_def)
  from plans_step [OF laws new this st Cons.prems(2) one] Cons.IH [of "L @ [(c, kj)]" rs1 w1] Cons.prems(1) rest x show ?case by simp
qed simp

subsection \<open>Creating the remaining plans\<close>

lemma createPlan_tables:
  assumes laws: "catalog_tables R env offs plns" and run: "createPlan env R b p w = (Returns q, w')"
  shows "q = p\<lparr>ID := ID q\<rparr>" "ID q \<notin> dom (plns w)" "plns w' = (plns w)(ID q \<mapsto> plan_row q)" "offs w' = offs w"
proof -
  from run obtain u w1 r where u: "raw_call (pp_uuid env) w = (Returns u, w1)" and q: "q = p\<lparr>ID := u\<rparr>"
    and c: "raw_call (r_Create R (ServicePlanObject q)) w1 = (Returns r, w')"
    by (auto simp: createPlan_def Let_def call_then_Returns_iff dest!: not_Inr_unit split: sum.splits)
  from catalog_tablesD(7) [OF laws u] catalog_tablesD(2) [OF laws c]
  show "q = p\<lparr>ID := ID q\<rparr>" "ID q \<notin> dom (plns w)" "plns w' = (plns w)(ID q \<mapsto> plan_row q)" "offs w' = offs w" by (simp_all add: q)
qed

lemma create_plans_tables:
  assumes laws: "catalog_tables R env offs plns"
  shows "distinct L \<Longrightarrow> set L \<subseteq> set (places fs) \<Longrightarrow> create_plans env R b L fs w = (Returns fs', w') \<Longrightarrow>
    same_but_plans fs' fs \<and> (\<forall>kj. kj \<notin> set L \<longrightarrow> plan_at fs' kj = plan_at fs kj) \<and> offs w' = offs w \<and>
    plns w' = puts (plan_rows (map (plan_at fs') L)) (plns w) \<and> distinct (map (\<lambda>kj. ID (plan_at fs' kj)) L) \<and>
    (\<lambda>kj. ID (plan_at fs' kj)) ` set L \<inter> dom (plns w) = {}"
proof (induction L arbitrary: fs w)
  case Nil
  then show ?case by (simp add: same_but_plans_refl plan_rows_def)
next
  case (Cons kj L)
  from Cons.prems(3) obtain p w1 where p: "createPlan env R b (plan_at fs kj) w = (Returns p, w1)"
    and rest: "create_plans env R b L (put_plan kj p fs) w1 = (Returns fs', w')" by (auto simp: call_then_Returns_iff plan_at_def)
  let ?fs = "put_plan kj p fs"
  note one = createPlan_tables [OF laws p]
  have kj: "kj \<in> set (places fs)" "kj \<notin> set L" "distinct L" "set L \<subseteq> set (places fs)" using Cons.prems by auto
  have pq: "sp_CatalogID p = sp_CatalogID (plan_at fs kj)" "sp_ServiceOfferingID p = sp_ServiceOfferingID (plan_at fs kj)"
    by (subst one(1), simp)+
  have same: "same_but_plans ?fs fs" by (rule put_plan_same [OF kj(1) pq])
  have "set L \<subseteq> set (places ?fs)" using kj(4) same_but_plans_places [OF same] by simp
  from Cons.IH [OF kj(3) this rest] have IH: "same_but_plans fs' ?fs"
    "\<And>kj. kj \<notin> set L \<Longrightarrow> plan_at fs' kj = plan_at ?fs kj" "offs w' = offs w1" "plns w' = puts (plan_rows (map (plan_at fs') L)) (plns w1)"
    "distinct (map (\<lambda>kj. ID (plan_at fs' kj)) L)" "(\<lambda>kj. ID (plan_at fs' kj)) ` set L \<inter> dom (plns w1) = {}" by blast+
  have p': "plan_at fs' kj = p" using IH(2) [OF kj(2)] put_plan_at(1) [OF kj(1)] by simp
  have others: "plan_at fs' k' = plan_at fs k'" if "k' \<notin> set (kj # L)" for k'
    using IH(2) [of k'] put_plan_at(2) [OF kj(1), of k' p] that by simp
  have "dom (plns w1) = insert (ID p) (dom (plns w))" unfolding one(3) by simp
  with IH(5,6) one(2) p' have fresh: "distinct (map (\<lambda>kj. ID (plan_at fs' kj)) (kj # L))" "(\<lambda>kj. ID (plan_at fs' kj)) ` set (kj # L) \<inter> dom (plns w) = {}"
    by auto
  have "plns w' = puts (plan_rows (map (plan_at fs') (kj # L))) (plns w)" unfolding IH(4) one(3) by (simp add: p' plan_rows_append del: fun_upd_apply)
  with same_but_plans_trans [OF IH(1) same] others IH(3) one(4) fresh show ?case by (intro conjI allI impI) simp_all
qed

subsection \<open>The places of the catalog\<close>

lemma plan_places_ok:
  assumes new: "new_catalog S" and cs: "distinct cs" "set cs = so_CatalogID ` set S"
  shows "well_placed S (plan_places S cs)" "mset (map snd (plan_places S cs)) = mset (places S)"
proof -
  have dS: "distinct (map so_CatalogID S)" using new by (simp add: new_catalog_def)
  have last: "\<exists>k<length S. so_CatalogID (S ! k) = c \<and> last_with S c = Some k" if "c \<in> set cs" for c
  proof -
    from that cs obtain k where k: "k < length S" "so_CatalogID (S ! k) = c" by (auto simp: in_set_conv_nth)
    with last_with_distinct [OF dS k(1)] show ?thesis by blast
  qed
  let ?k = "\<lambda>c. the (last_with S c)"
  have inj: "inj_on ?k (set cs)"
    by (rule inj_onI) (metis last option.sel)
  have places: "plan_places S cs = concat (map (\<lambda>c. map (\<lambda>j. (c, ?k c, j)) [0..<length (so_Plans (S ! ?k c))]) cs)"
    unfolding plan_places_def by (rule arg_cong [of _ _ concat], rule map_cong [OF refl]) (use last in fastforce)
  then have "map snd (plan_places S cs) = concat (map (\<lambda>k. map (Pair k) [0..<length (so_Plans (S ! k))]) (map ?k cs))"
    by (simp add: map_concat comp_def)
  moreover have "distinct (map ?k cs)" using cs(1) inj by (simp add: distinct_map)
  ultimately have dist: "distinct (map snd (plan_places S cs))" using distinct_pairs [of "map ?k cs" "\<lambda>k. [0..<length (so_Plans (S ! k))]"] by simp
  have set: "(c, kj) \<in> set (plan_places S cs) \<longleftrightarrow> kj \<in> set (places S) \<and> c = so_CatalogID (S ! fst kj)" for c kj
  proof
    assume "(c, kj) \<in> set (plan_places S cs)"
    then obtain j where c: "c \<in> set cs" "kj = (?k c, j)" "j < length (so_Plans (S ! ?k c))" by (auto simp: places)
    with last [OF c(1)] show "kj \<in> set (places S) \<and> c = so_CatalogID (S ! fst kj)" by (auto simp: set_places)
  next
    assume kj: "kj \<in> set (places S) \<and> c = so_CatalogID (S ! fst kj)"
    then have "c \<in> set cs" "last_with S c = Some (fst kj)" using cs(2) last_with_distinct [OF dS] by (auto simp: set_places)
    with kj show "(c, kj) \<in> set (plan_places S cs)" by (auto simp: places set_places image_iff prod_eq_iff intro!: bexI [of _ c] bexI [of _ "snd kj"])
  qed
  with dist show "well_placed S (plan_places S cs)" by (auto simp: well_placed_def)
  have "set (map snd (plan_places S cs)) = set (places S)" using set by (auto simp: image_iff) (metis fst_conv snd_conv)+
  with dist distinct_places show "mset (map snd (plan_places S cs)) = mset (places S)" using set_eq_iff_mset_eq_distinct by blast
qed

subsection \<open>Stored plans that stay and that go\<close>

definition stored_plans :: "ServiceOffering list \<Rightarrow> ServicePlan set" where
  "stored_plans existing = set (concat (map so_Plans existing))"

definition still_in :: "ServiceOffering list \<Rightarrow> (string \<times> nat \<times> nat) list \<Rightarrow> ServiceOffering \<Rightarrow> ServicePlan \<Rightarrow> bool" where
  "still_in S L f e \<longleftrightarrow> (\<exists>kj. (so_CatalogID f, kj) \<in> set L \<and> sp_CatalogID (plan_at S kj) = sp_CatalogID e)"

definition kept_plans :: "ServiceOffering list \<Rightarrow> ServiceOffering list \<Rightarrow> (string \<times> nat \<times> nat) list \<Rightarrow> ServicePlan set" where
  "kept_plans existing S L = {e. \<exists>f\<in>set existing. e \<in> set (so_Plans f) \<and> still_in S L f e}"

definition gone_plans :: "ServiceOffering list \<Rightarrow> ServiceOffering list \<Rightarrow> (string \<times> nat \<times> nat) list \<Rightarrow> ServicePlan set" where
  "gone_plans existing S L = {e. \<exists>f\<in>set existing. e \<in> set (so_Plans f) \<and> \<not> still_in S L f e}"

lemma gone_plans_IDs:
  assumes "stored_catalog existing"
  shows "ID ` gone_plans existing S L = ID ` stored_plans existing - ID ` kept_plans existing S L"
proof -
  have "gone_plans existing S L = stored_plans existing - kept_plans existing S L"
    using stored_catalogD(4) [OF assms] unfolding gone_plans_def kept_plans_def stored_plans_def by fastforce
  moreover have "inj_on ID (stored_plans existing)" using assms by (simp add: stored_catalog_def distinct_map stored_plans_def)
  moreover have "kept_plans existing S L \<subseteq> stored_plans existing" unfolding kept_plans_def stored_plans_def by auto
  ultimately show ?thesis by (simp add: inj_on_image_set_diff)
qed

lemma existing_after_is_gone:
  assumes st: "stored_catalog existing" and inv: "plans_done existing S L rs t t'"
  shows "(\<Union>es\<in>ran (map_of (ps_existing rs)). set es) = gone_plans existing S L"
proof (intro set_eqI iffI)
  note D = plans_doneD(3) [OF inv] and ex = existing_plans_iff [OF stored_catalogD(1) [OF st]]
  fix e assume "e \<in> (\<Union>es\<in>ran (map_of (ps_existing rs)). set es)"
  then obtain c es where "map_of (ps_existing rs) c = Some es" "e \<in> set es" by (auto simp: ran_def)
  then obtain es0 where es0: "map_of (existing_plans existing) c = Some es0" "e \<in> set es0"
    "\<forall>kj. (c, kj) \<in> set L \<longrightarrow> sp_CatalogID (plan_at S kj) \<noteq> sp_CatalogID e" using D [of c] by auto
  then obtain f where "f \<in> set existing" "so_CatalogID f = c" "so_Plans f = es0" using ex by blast
  with es0 show "e \<in> gone_plans existing S L" unfolding gone_plans_def still_in_def by blast
next
  note D = plans_doneD(3) [OF inv] and ex = existing_plans_iff [OF stored_catalogD(1) [OF st]]
  fix e assume "e \<in> gone_plans existing S L"
  then obtain f where f: "f \<in> set existing" "e \<in> set (so_Plans f)"
    "\<forall>kj. (so_CatalogID f, kj) \<in> set L \<longrightarrow> sp_CatalogID (plan_at S kj) \<noteq> sp_CatalogID e" unfolding gone_plans_def still_in_def by blast
  then have "map_of (existing_plans existing) (so_CatalogID f) = Some (so_Plans f)" using ex [of "so_CatalogID f" "so_Plans f"] by auto
  with D [of "so_CatalogID f"] f show "e \<in> (\<Union>es\<in>ran (map_of (ps_existing rs)). set es)" by (auto simp: ran_def)
qed

lemma kept_rows:
  assumes st: "stored_catalog existing" and new: "new_catalog S" and placed: "well_placed S L"
    and ids: "\<And>x e. x \<in> set L \<Longrightarrow> old_of existing S x = Some e \<Longrightarrow> ID (plan_at S' (snd x)) = ID e"
  defines "A \<equiv> plan_rows (map (\<lambda>x. plan_at S' (snd x)) (filter (\<lambda>x. old_of existing S x \<noteq> None) L))"
  shows "fst ` set A = ID ` kept_plans existing S L" "distinct (map fst A)"
proof -
  note old = old_plan_iff [OF st]
  have "fst ` set A = (\<lambda>x. ID (plan_at S' (snd x))) ` {x \<in> set L. old_of existing S x \<noteq> None}"
    unfolding A_def plan_rows_def by (simp add: image_image)
  also have "\<dots> = {ID e | x e. x \<in> set L \<and> old_of existing S x = Some e}" using ids by force
  also have "\<dots> = ID ` kept_plans existing S L"
    unfolding kept_plans_def still_in_def old_of_def old by force
  finally show "fst ` set A = ID ` kept_plans existing S L" .
  have "inj_on (\<lambda>x. ID (plan_at S' (snd x))) (set (filter (\<lambda>x. old_of existing S x \<noteq> None) L))"
  proof (rule inj_onI)
    fix x y assume xy: "x \<in> set (filter (\<lambda>x. old_of existing S x \<noteq> None) L)" "y \<in> set (filter (\<lambda>x. old_of existing S x \<noteq> None) L)"
      and eq: "ID (plan_at S' (snd x)) = ID (plan_at S' (snd y))"
    then obtain e d where ed: "old_of existing S x = Some e" "old_of existing S y = Some d" by auto
    with xy ids eq have IDs: "ID e = ID d" by auto
    from ed obtain f g where f: "f \<in> set existing" "so_CatalogID f = fst x" "e \<in> set (so_Plans f)" "sp_CatalogID e = sp_CatalogID (plan_at S (snd x))"
      and g: "g \<in> set existing" "so_CatalogID g = fst y" "d \<in> set (so_Plans g)" "sp_CatalogID d = sp_CatalogID (plan_at S (snd y))"
      unfolding old_of_def old by blast
    from stored_catalogD(4) [OF st f(1) g(1) f(3) g(3) IDs] have "e = d" "f = g" by blast+
    with f g have same: "fst x = fst y" "sp_CatalogID (plan_at S (snd x)) = sp_CatalogID (plan_at S (snd y))" by simp_all
    have "snd x \<in> set (places S)" "snd y \<in> set (places S)" "fst x = so_CatalogID (S ! fst (snd x))" "fst y = so_CatalogID (S ! fst (snd y))"
      using placed xy by (auto simp: well_placed_def)
    with same place_unique [OF new, of "snd x" "snd y"] show "x = y" by (simp add: prod_eq_iff)
  qed
  moreover have "distinct L" using placed by (simp add: well_placed_def distinct_map)
  ultimately show "distinct (map fst A)" by (simp add: A_def fst_plan_rows distinct_map comp_def)
qed

subsection \<open>The whole update\<close>

lemma off_rows_same: "same_but_plans fs gs \<Longrightarrow> off_rows fs = off_rows gs"
proof -
  assume same: "same_but_plans fs gs"
  have "(ID (fs ! k), off_row (fs ! k)) = (ID (gs ! k), off_row (gs ! k))" if "k < length gs" for k
  proof -
    have "ID f = ID (f\<lparr>so_Plans := []\<rparr>)" "off_row f = off_row (f\<lparr>so_Plans := []\<rparr>)" for f by (simp_all add: off_row_def)
    with same_but_plansD(2) [OF same that] show ?thesis by metis
  qed
  with same_but_plansD(1) [OF same] show ?thesis unfolding off_rows_def by (intro nth_equalityI) simp_all
qed

lemma same_but_plans_heads:
  assumes "same_but_plans fs gs" "k < length gs"
  shows "ID (fs ! k) = ID (gs ! k)" "so_CatalogID (fs ! k) = so_CatalogID (gs ! k)"
proof -
  have "ID f = ID (f\<lparr>so_Plans := []\<rparr>)" "so_CatalogID f = so_CatalogID (f\<lparr>so_Plans := []\<rparr>)" for f by simp_all
  with same_but_plansD(2) [OF assms] show "ID (fs ! k) = ID (gs ! k)" "so_CatalogID (fs ! k) = so_CatalogID (gs ! k)" by metis+
qed

lemma start_plans_done: "plans_done existing S [] \<lparr>ps_services = S, ps_existing = existing_plans existing, ps_create = []\<rparr> t t"
proof -
  have "map_option (filter (\<lambda>e. True)) x = x" for x :: "ServicePlan list option" by (cases x) simp_all
  then show ?thesis by (simp add: plans_done_def same_but_plans_refl existing_plans_distinct plan_rows_def)
qed

lemma created_keeps_others:
  assumes "distinct (map snd L)" "\<forall>kj. kj \<notin> set (map snd (filter P L)) \<longrightarrow> plan_at S' kj = plan_at S0 kj" "x \<in> set L" "\<not> P x"
  shows "plan_at S' (snd x) = plan_at S0 (snd x)"
proof -
  have "snd x \<notin> set (map snd (filter P L))"
  proof
    assume "snd x \<in> set (map snd (filter P L))"
    then obtain y where y: "y \<in> set L" "P y" "snd x = snd y" by auto
    with assms(1,3) have "x = y" by (auto simp: distinct_map dest: inj_onD)
    with y assms(4) show False by simp
  qed
  with assms(2) show ?thesis by blast
qed

lemma plan_rows_partition:
  assumes "mset (map snd L) = mset (places S')"
  shows "mset (plan_rows (concat (map so_Plans S'))) =
    mset (plan_rows (map (\<lambda>x. plan_at S' (snd x)) (filter P L))) + mset (plan_rows (map (plan_at S') (map snd (filter (\<lambda>x. \<not> P x) L))))"
proof -
  let ?h = "\<lambda>kj. (ID (plan_at S' kj), plan_row (plan_at S' kj))"
  have "mset (plan_rows (concat (map so_Plans S'))) = image_mset ?h (mset (places S'))"
    unfolding map_plan_at_places [symmetric] by (simp add: plan_rows_def multiset.map_comp comp_def)
  also have "\<dots> = mset (map (\<lambda>x. ?h (snd x)) L)" unfolding assms [symmetric] by (simp add: multiset.map_comp comp_def)
  also have "\<dots> = mset (map (\<lambda>x. ?h (snd x)) (filter P L)) + mset (map (\<lambda>x. ?h (snd x)) (filter (\<lambda>x. \<not> P x) L))"
    by (rule mset_map_partition)
  finally show ?thesis by (simp add: plan_rows_def comp_def)
qed

text \<open>The plans of the storage after the second half, and the identifiers of the matched ones.\<close>

lemma plans_synced:
  assumes laws: "catalog_tables R env offs plns" and new: "new_catalog S" and st: "stored_catalog existing"
    and upd: "resync_plans env R b (plan_places S (ct_walk env (remdups (map so_CatalogID S))))
      \<lparr>ps_services = S, ps_existing = existing_plans existing, ps_create = []\<rparr> w = (Returns ps, w1)"
    and del: "delete_plans R (map ID (concat (values_in_order env (ps_existing ps)))) w1 = (Returns (), w2)"
    and crt: "create_plans env R b (ps_create ps) (ps_services ps) w2 = (Returns S', w3)"
    and outside: "\<And>x. x \<notin> ID ` stored_plans existing \<Longrightarrow> plns w x = t x"
  shows "same_but_plans S' S" "offs w3 = offs w"
    "plns w3 = (t |` (- ID ` stored_plans existing)) ++ map_of (plan_rows (concat (map so_Plans S')))"
    "\<forall>kj\<in>set (places S). \<forall>e. old_of existing S (so_CatalogID (S ! fst kj), kj) = Some e \<longrightarrow> ID (plan_at S' kj) = ID e"
proof -
  let ?cs = "ct_walk env (remdups (map so_CatalogID S))" and ?old = "old_of existing S"
  let ?L = "plan_places S ?cs"
  let ?gone = "ID ` gone_plans existing S ?L" and ?A = "\<lambda>S'. plan_rows (map (\<lambda>x. plan_at S' (snd x)) (filter (\<lambda>x. ?old x \<noteq> None) ?L))"
  have "distinct ?cs" "set ?cs = so_CatalogID ` set S" using catalog_tablesD(10) [OF laws, of "remdups (map so_CatalogID S)"] by simp_all
  note L = plan_places_ok [OF new this]
  from resync_plans_done [OF laws new st _ start_plans_done upd] L(1)
  have inv: "plans_done existing S ?L ps (plns w) (plns w1)" and o1: "offs w1 = offs w" by simp_all
  note D = plans_doneD [OF inv]
  have "set (concat (values_in_order env (ps_existing ps))) = gone_plans existing S ?L"
    using existing_after_is_gone [OF st inv] values_in_order_set [OF laws D(2)] by simp
  then have "set (map ID (concat (values_in_order env (ps_existing ps)))) = ?gone" by simp
  with delete_plans_tables [OF laws del] have p2: "plns w2 = plns w1 |` (- ?gone)" and o2: "offs w2 = offs w1" by simp_all
  have places: "snd ` set ?L = set (places S)" using L(2) by (metis set_map set_mset_mset)
  have dL: "distinct (map snd ?L)" using L(1) by (simp add: well_placed_def)
  then have cL: "distinct (ps_create ps)" "set (ps_create ps) \<subseteq> set (places (ps_services ps))"
    using places unfolding D(4) same_but_plans_places [OF D(1)] by (auto simp: distinct_map inj_on_def)
  note C = create_plans_tables [OF laws cL crt]
  show same: "same_but_plans S' S" using same_but_plans_trans [OF _ D(1)] C by blast
  show "offs w3 = offs w" using C o1 o2 by simp
  have stay: "plan_at S' (snd x) = plan_at (ps_services ps) (snd x)" if "x \<in> set ?L" "?old x \<noteq> None" for x
    by (rule created_keeps_others [OF dL _ that(1), of "\<lambda>x. ?old x = None"]) (use C that(2) in \<open>simp_all add: D(4)\<close>)
  have ids: "ID (plan_at S' (snd x)) = ID e" if "x \<in> set ?L" "?old x = Some e" for x e using stay D(5) that by simp
  have A: "fst ` set (?A S') = ID ` kept_plans existing S ?L" "distinct (map fst (?A S'))"
    by (rule kept_rows [OF st new L(1)], rule ids, assumption+)+
  let ?B = "plan_rows (map (plan_at S') (ps_create ps))"
  have mC: "mset (plan_rows (concat (map so_Plans S'))) = mset (?A S') + mset ?B"
    using plan_rows_partition [of ?L S' "\<lambda>x. ?old x \<noteq> None"] L(2) same_but_plans_places [OF same] by (simp add: D(4))
  have "?A (ps_services ps) = ?A S'" by (intro arg_cong [of _ _ plan_rows] map_cong refl) (simp add: stay)
  then have t2: "plns w2 = puts (?A S') (plns w) |` (- ?gone)" unfolding p2 D(6) by (simp only:)
  have t3: "plns w3 = puts ?B (plns w2)" "distinct (map fst ?B)" "fst ` set ?B \<inter> dom (plns w2) = {}"
    using C unfolding fst_plan_rows set_map [symmetric] by (simp_all add: comp_def)
  have E: "?gone = ID ` stored_plans existing - fst ` set (?A S')" unfolding A(1) by (rule gone_plans_IDs [OF st])
  have sub: "fst ` set (?A S') \<subseteq> ID ` stored_plans existing" unfolding A(1) kept_plans_def stored_plans_def by auto
  have fresh: "fst ` set ?B \<inter> dom (puts (?A S') (plns w) |` (- ?gone)) = {}" using t3(3) unfolding t2 .
  show "plns w3 = (t |` (- ID ` stored_plans existing)) ++ map_of (plan_rows (concat (map so_Plans S')))"
    unfolding t3(1) t2 by (rule sync_map(1) [OF A(2) sub E outside t3(2) fresh mC])
  have inL: "(so_CatalogID (S ! fst kj), kj) \<in> set ?L" if "kj \<in> set (places S)" for kj
  proof -
    from that obtain x where x: "x \<in> set ?L" "kj = snd x" unfolding places [symmetric] by blast
    then have "x = (so_CatalogID (S ! fst kj), kj)" using L(1) by (auto simp: well_placed_def prod_eq_iff)
    from x(1) [unfolded this] show ?thesis .
  qed
  show "\<forall>kj\<in>set (places S). \<forall>e. ?old (so_CatalogID (S ! fst kj), kj) = Some e \<longrightarrow> ID (plan_at S' kj) = ID e"
    by (intro ballI allI impI) (rule ids [OF inL, unfolded snd_conv])
qed

lemma new_catalog_shape: "same_shape S services \<Longrightarrow> new_catalog services \<Longrightarrow> new_catalog S"
proof -
  assume shape: "same_shape S services" and new: "new_catalog services"
  have "distinct (map sp_CatalogID (so_Plans f))" if f: "f \<in> set S" for f
  proof -
    from f obtain i where "i < length services" "f = S ! i" using same_shapeD(1) [OF shape] by (auto simp: in_set_conv_nth)
    with same_shapeD(3) [OF shape] new show ?thesis by (simp add: new_catalog_def)
  qed
  with shape new show ?thesis by (simp add: new_catalog_def same_shape_def)
qed

lemma start_offerings_done:
  "offerings_done existing services 0 \<lparr>rs_services = services, rs_existing = existing_offerings existing, rs_create = []\<rparr> t t"
  by (simp add: offerings_done_def same_shape_def existing_offerings_distinct off_rows_def restrict_map_def)

text \<open>A stored offering or plan that the catalog still has keeps its identifier, and plans belong to their offering.\<close>

definition stable_ids :: "ServiceOffering list \<Rightarrow> ServiceOffering list \<Rightarrow> bool" where
  "stable_ids existing services' \<longleftrightarrow>
     (\<forall>f\<in>set services'. (\<forall>p\<in>set (so_Plans f). sp_ServiceOfferingID p = ID f) \<and>
        (\<forall>e\<in>set existing. so_CatalogID e = so_CatalogID f \<longrightarrow> ID f = ID e \<and>
           (\<forall>p\<in>set (so_Plans f). \<forall>q\<in>set (so_Plans e). sp_CatalogID q = sp_CatalogID p \<longrightarrow> ID p = ID q)))"

lemma stable_idsI:
  assumes st: "stored_catalog existing" and inv: "offerings_done existing services (length services) rs t t'"
    and same: "same_but_plans S' (rs_services rs)"
    and plans: "\<forall>kj\<in>set (places (rs_services rs)). \<forall>e. old_of existing (rs_services rs) (so_CatalogID (rs_services rs ! fst kj), kj) = Some e \<longrightarrow> ID (plan_at S' kj) = ID e"
  shows "stable_ids existing S'" "map so_CatalogID S' = map so_CatalogID services"
proof -
  let ?S = "rs_services rs"
  have shape: "same_shape ?S services"
    and ids: "\<And>i e. i < length services \<Longrightarrow> map_of (existing_offerings existing) (so_CatalogID (services ! i)) = Some e \<Longrightarrow> ID (?S ! i) = ID e"
    and own: "\<And>i p. i < length services \<Longrightarrow> p \<in> set (so_Plans (?S ! i)) \<Longrightarrow> sp_ServiceOfferingID p = ID (?S ! i)"
    using inv unfolding offerings_done_def by blast+
  note len = same_shapeD(1) [OF shape] same_but_plansD(1) [OF same]
  have "map so_CatalogID S' = map so_CatalogID ?S"
    by (rule nth_equalityI) (use len same_but_plans_heads(2) [OF same] in simp_all)
  then show "map so_CatalogID S' = map so_CatalogID services" using shape by (simp add: same_shape_def)
  show "stable_ids existing S'"
    unfolding stable_ids_def
  proof (intro ballI conjI impI)
    fix f assume "f \<in> set S'"
    then obtain k where k: "k < length ?S" "f = S' ! k" using len by (auto simp: in_set_conv_nth)
    note head = same_but_plans_heads [OF same k(1)]
    have at: "\<exists>kj\<in>set (places ?S). fst kj = k \<and> p = plan_at S' kj" if p: "p \<in> set (so_Plans f)" for p
    proof -
      from p obtain j where "j < length (so_Plans f)" "p = so_Plans f ! j" by (auto simp: in_set_conv_nth)
      with k same_but_plansD(3) [OF same k(1)] show ?thesis by (intro bexI [of _ "(k, j)"]) (simp_all add: plan_at_def set_places)
    qed
    show "sp_ServiceOfferingID p = ID f" if p: "p \<in> set (so_Plans f)" for p
    proof -
      from at [OF p] obtain kj where kj: "kj \<in> set (places ?S)" "fst kj = k" "p = plan_at S' kj" by blast
      then have "plan_at ?S kj \<in> set (so_Plans (?S ! k))" by (auto simp: set_places plan_at_def)
      with own [of k] k len head same_but_plansD(5) [OF same kj(1)] kj show ?thesis by simp
    qed
    fix e assume e: "e \<in> set existing" "so_CatalogID e = so_CatalogID f"
    have ck: "so_CatalogID (?S ! k) = so_CatalogID e" "so_CatalogID (services ! k) = so_CatalogID e"
      using e(2) head k same_shapeD(2) [OF shape] len by simp_all
    with ids [of k e] k len e(1) head existing_offering_iff [OF stored_catalogD(1) [OF st]] show "ID f = ID e" by simp
    fix p q assume p: "p \<in> set (so_Plans f)" and q: "q \<in> set (so_Plans e)" "sp_CatalogID q = sp_CatalogID p"
    from at [OF p] obtain kj where kj: "kj \<in> set (places ?S)" "fst kj = k" "p = plan_at S' kj" by blast
    then have "old_of existing ?S (so_CatalogID (?S ! fst kj), kj) = Some q"
      using q e(1) ck same_but_plansD(4) [OF same kj(1)] by (auto simp: old_of_def old_plan_iff [OF st])
    with plans kj show "ID p = ID q" by blast
  qed
qed

text \<open>
  C6.  After a successful update of a broker, the storage holds exactly the broker's new
  catalog: the rows of the old offerings and plans are gone, the rows of the new catalog are
  there, and no other row has changed.  An offering or plan that was stored before under the same
  catalog identifiers keeps its identifier, and every plan belongs to its offering.
\<close>

theorem catalog_update_syncs:
  assumes laws: "catalog_tables R env offs plns" and new: "new_catalog services" and st: "stored_catalog existing"
    and owned: "\<forall>x p. plns w x = Some p \<and> sp_ServiceOfferingID p \<in> ID ` set existing \<longrightarrow> x \<in> ID ` stored_plans existing"
    and run: "resync_catalog env R b existing services w = (Returns services', w')"
  shows "offs w' = (offs w |` (- ID ` set existing)) ++ map_of (off_rows services') \<and>
    plns w' = (plns w |` (- ID ` stored_plans existing)) ++ map_of (plan_rows (concat (map so_Plans services'))) \<and>
    map so_CatalogID services' = map so_CatalogID services \<and> stable_ids existing services'"
proof (intro conjI)
  from run obtain rs w1 w2 w3 ps w4 w5 where
      1: "resync_offerings env R b [0..<length services] \<lparr>rs_services = services, rs_existing = existing_offerings existing, rs_create = []\<rparr> w = (Returns rs, w1)"
    and 2: "delete_offerings R (map ID (values_in_order env (rs_existing rs))) w1 = (Returns (), w2)"
    and 3: "create_each R (map (\<lambda>i. ServiceOfferingObject (rs_services rs ! i)) (rs_create rs)) w2 = (Returns (), w3)"
    and 4: "resync_plans env R b (plan_places (rs_services rs) (ct_walk env (remdups (map so_CatalogID (rs_services rs)))))
       \<lparr>ps_services = rs_services rs, ps_existing = existing_plans existing, ps_create = []\<rparr> w3 = (Returns ps, w4)"
    and 5: "delete_plans R (map ID (concat (values_in_order env (ps_existing ps)))) w4 = (Returns (), w5)"
    and 6: "create_plans env R b (ps_create ps) (ps_services ps) w5 = (Returns services', w')"
    unfolding resync_catalog_def call_then_Returns_iff by auto
  have d: "distinct (map so_CatalogID services)" using new by (simp add: new_catalog_def)
  have inv: "offerings_done existing services (length services) rs (offs w) (offs w1)" and p1: "plns w1 = plns w"
    using resync_offerings_done [OF laws d _ start_offerings_done 1] by simp_all
  have shape: "same_shape (rs_services rs) services" using inv by (simp add: offerings_done_def)
  note O = offerings_synced [OF laws d stored_catalogD(1,2) [OF st] inv 2 3]
  have outside: "plns w3 x = plns w x" if "x \<notin> ID ` stored_plans existing" for x
    using owned that unfolding O(2) p1 by (auto simp: restrict_map_def dropped_def)
  have P: "same_but_plans services' (rs_services rs)" "offs w' = offs w3"
    "plns w' = (plns w |` (- ID ` stored_plans existing)) ++ map_of (plan_rows (concat (map so_Plans services')))"
    "\<forall>kj\<in>set (places (rs_services rs)). \<forall>e.
       old_of existing (rs_services rs) (so_CatalogID (rs_services rs ! fst kj), kj) = Some e \<longrightarrow> ID (plan_at services' kj) = ID e"
    by (rule plans_synced [OF laws new_catalog_shape [OF shape new] st 4 5 6], erule outside)+
  show "offs w' = (offs w |` (- ID ` set existing)) ++ map_of (off_rows services')"
    unfolding P(2) O(1) off_rows_same [OF P(1)] ..
  show "plns w' = (plns w |` (- ID ` stored_plans existing)) ++ map_of (plan_rows (concat (map so_Plans services')))" by (rule P(3))
  show "map so_CatalogID services' = map so_CatalogID services" "stable_ids existing services'"
    by (rule stable_idsI [OF st inv P(1,4)])+
qed

subsection \<open>An example\<close>

text \<open>Two tables and a source of identifiers.\<close>

record catalog_world =
  cw_offs :: "(string \<times> ServiceOffering) list"
  cw_plns :: "(string \<times> ServicePlan) list"
  cw_next :: nat

definition cw_create :: "Object \<Rightarrow> catalog_world \<Rightarrow> (error, Object) result \<times> catalog_world" where
  "cw_create ob w =
     (case ob of
        ServiceOfferingObject f \<Rightarrow>
          if ID f \<notin> set (map fst (cw_offs w)) then (Inr ob, w\<lparr>cw_offs := AList.update (ID f) (off_row f) (cw_offs w)\<rparr>) else (Inl ErrAlreadyExistsInStorage, w)
      | ServicePlanObject p \<Rightarrow>
          if ID p \<notin> set (map fst (cw_plns w)) then (Inr ob, w\<lparr>cw_plns := AList.update (ID p) (plan_row p) (cw_plns w)\<rparr>) else (Inl ErrAlreadyExistsInStorage, w)
      | _ \<Rightarrow> (Inl ErrNotFoundInStorage, w))"

definition cw_update :: "Object \<Rightarrow> catalog_world \<Rightarrow> (error, Object) result \<times> catalog_world" where
  "cw_update ob w =
     (case ob of
        ServiceOfferingObject f \<Rightarrow> (Inr ob, w\<lparr>cw_offs := AList.update (ID f) (off_row f) (cw_offs w)\<rparr>)
      | ServicePlanObject p \<Rightarrow> (Inr ob, w\<lparr>cw_plns := AList.update (ID p) (plan_row p) (cw_plns w)\<rparr>)
      | _ \<Rightarrow> (Inl ErrNotFoundInStorage, w))"

definition cw_delete :: "ObjectType \<Rightarrow> Criterion list \<Rightarrow> catalog_world \<Rightarrow> (error, unit) result \<times> catalog_world" where
  "cw_delete t cs w =
     (let i = hd (RightOp (hd cs))
      in if t = ServiceOfferingType
         then (Inr (), w\<lparr>cw_offs := AList.delete i (cw_offs w),
           cw_plns := filter (\<lambda>(j, p). case map_of (cw_plns w) j of None \<Rightarrow> True | Some q \<Rightarrow> sp_ServiceOfferingID q \<noteq> i) (cw_plns w)\<rparr>)
         else if i \<notin> set (map fst (cw_plns w)) then (Inl ErrNotFoundInStorage, w)
         else (Inr (), w\<lparr>cw_plns := AList.delete i (cw_plns w)\<rparr>))"

definition cw_repository :: "catalog_world raw_repository" where
  "cw_repository = \<lparr>r_Create = cw_create, r_Get = (\<lambda>_ _ w. (Inl ErrNotFoundInStorage, w)),
     r_GetForUpdate = (\<lambda>_ _ w. (Inl ErrNotFoundInStorage, w)), r_List = (\<lambda>_ _ w. (Inr [], w)),
     r_ListNoLabels = (\<lambda>_ _ w. (Inr [], w)), r_Count = (\<lambda>_ _ w. (Inr 0, w)), r_CountLabelValues = (\<lambda>_ _ w. (Inr 0, w)),
     r_QueryForList = (\<lambda>_ _ _ w. (Inr [], w)), r_DeleteReturning = (\<lambda>_ _ w. (Inr [], w)), r_Delete = cw_delete,
     r_Update = (\<lambda>x _ _. cw_update x), r_UpdateLabels = (\<lambda>_ _ _ _ w. (Inr (), w))\<rparr>"

definition cw_env :: "catalog_world catalog_env" where
  "cw_env = \<lparr>pp_uuid = (\<lambda>w. (Inr (''u'' @ replicate (cw_next w) CHR 0x78), w\<lparr>cw_next := Suc (cw_next w)\<rparr>)), pp_now = (\<lambda>w. (0, w)),
     pp_Unmarshal = (\<lambda>_. Inl ErrNotFoundInStorage), ct_json = names_env, ct_CatalogFetcher = (\<lambda>_ w. (Inl ErrNotFoundInStorage, w)),
     ct_Unmarshal = (\<lambda>_. Inr []), ct_SetBytes = (\<lambda>_ _ _. Inl ErrNotFoundInStorage), ct_walk = (\<lambda>xs. xs)\<rparr>"

lemma map_of_filter_keys: "map_of (filter (\<lambda>(j, p). P j) m) = map_of m |` {j. P j}"
  by (induction m) (auto simp: restrict_map_def fun_eq_iff)

lemma cw_tables: "catalog_tables cw_repository cw_env (\<lambda>w. map_of (cw_offs w)) (\<lambda>w. map_of (cw_plns w))"
proof -
  have i: "hd (RightOp (hd (by_id i))) = i" for i by (simp add: by_id_def ByField_def NewCriterion_def)
  have types: "ServicePlanType \<noteq> ServiceOfferingType" by (simp add: type_names)
  show ?thesis
    unfolding catalog_tables_def
    by (intro conjI allI impI)
      (auto simp: cw_repository_def cw_env_def cw_create_def cw_update_def cw_delete_def i types update_conv' delete_conv' Let_def
        map_of_filter_keys dom_map_of_conv_image_fst fun_upd_idem restrict_map_def fun_eq_iff split: if_splits option.splits)
qed

definition an_offering :: "string \<Rightarrow> string \<Rightarrow> ServicePlan list \<Rightarrow> ServiceOffering" where
  "an_offering i c plans = \<lparr>ID = i, CreatedAt = 0, UpdatedAt = 0, Labels = Map.empty, PagingSequence = 0, Ready = True, so_Name = ''n'',
     so_Description = '''', so_Bindable = True, so_InstancesRetrievable = False, so_BindingsRetrievable = False, so_PlanUpdatable = False,
     so_AllowContextUpdates = False, so_Tags = None, so_Requires = None, so_Metadata = None, so_BrokerID = ''b'', so_CatalogID = c,
     so_CatalogName = ''n'', so_Plans = plans\<rparr>"

definition a_catalog_plan :: "string \<Rightarrow> string \<Rightarrow> string \<Rightarrow> ServicePlan" where
  "a_catalog_plan i c owner = \<lparr>ID = i, CreatedAt = 0, UpdatedAt = 0, Labels = Map.empty, PagingSequence = 0, Ready = True, sp_Name = ''p'',
     sp_Description = ''d'', sp_CatalogID = c, sp_CatalogName = ''p'', sp_Free = None, sp_Bindable = None, sp_PlanUpdatable = None,
     sp_Metadata = None, sp_Schemas = None, sp_MaximumPollingDuration = 0, sp_MaintenanceInfo = None, sp_ServiceOfferingID = owner\<rparr>"

definition stored_before :: "ServiceOffering list" where
  "stored_before = [an_offering ''o1'' ''c1'' [a_catalog_plan ''p1'' ''q1'' ''o1''], an_offering ''o2'' ''c2'' [a_catalog_plan ''p2'' ''q1'' ''o2'']]"

definition fetched :: "ServiceOffering list" where
  "fetched = [an_offering ''new1'' ''c3'' [a_catalog_plan ''new2'' ''q1'' ''new1''],
     an_offering ''new3'' ''c1'' [a_catalog_plan ''new4'' ''q2'' ''new3'', a_catalog_plan ''new5'' ''q1'' ''new3'']]"

definition world_before :: catalog_world where
  "world_before = \<lparr>cw_offs = off_rows stored_before, cw_plns = plan_rows (concat (map so_Plans stored_before)), cw_next = 0\<rparr>"

lemma fetched_result:
  "case fst (resync_catalog cw_env cw_repository ''b'' stored_before fetched world_before) of
     Returns fs \<Rightarrow> map ID fs = [''u'', ''o1''] \<and> map (\<lambda>f. map ID (so_Plans f)) fs = [[''ux''], [''uxx'', ''p1'']]
   | _ \<Rightarrow> False"
  by code_simp

theorem catalog_update_syncs_witness:
  "\<exists>fs w'. resync_catalog cw_env cw_repository ''b'' stored_before fetched world_before = (Returns fs, w') \<and>
    map ID fs = [''u'', ''o1''] \<and> map_of (cw_offs w') = map_of (off_rows fs) \<and>
    map_of (cw_plns w') = map_of (plan_rows (concat (map so_Plans fs))) \<and> stable_ids stored_before fs"
proof -
  obtain r w' where run: "resync_catalog cw_env cw_repository ''b'' stored_before fetched world_before = (r, w')" by fastforce
  then obtain fs where fs: "r = Returns fs" "map ID fs = [''u'', ''o1'']" using fetched_result by (auto split: outcome.splits)
  have st: "stored_catalog stored_before" by (simp add: stored_catalog_def stored_before_def an_offering_def a_catalog_plan_def)
  have new: "new_catalog fetched" by (simp add: new_catalog_def fetched_def an_offering_def a_catalog_plan_def)
  have empty: "map_of (cw_offs world_before) |` (- ID ` set stored_before) = Map.empty"
    "map_of (cw_plns world_before) |` (- ID ` stored_plans stored_before) = Map.empty"
    by (auto simp: world_before_def off_rows_def plan_rows_def stored_plans_def stored_before_def an_offering_def a_catalog_plan_def restrict_map_def fun_eq_iff)
  have owned: "\<forall>x p. map_of (cw_plns world_before) x = Some p \<and> sp_ServiceOfferingID p \<in> ID ` set stored_before \<longrightarrow> x \<in> ID ` stored_plans stored_before"
    by (auto simp: world_before_def plan_rows_def stored_plans_def stored_before_def an_offering_def a_catalog_plan_def split: if_splits)
  from catalog_update_syncs [OF cw_tables new st owned run [unfolded fs(1)]] run fs show ?thesis
    by (intro exI [of _ fs] exI [of _ w']) (simp add: empty)
qed

end
