(* ===== verification/Spec2Isabelle.thy ===== *)
theory Spec2Isabelle
  imports Labels Query Slices HttpHandler TransactionalRepository EncryptionKey NotificatorFacts PgLabels CascadeFacts MaintainerFacts CatalogSync
begin

text \<open>
  \<^bold>\<open>Verification of the Service Manager\<close> (Go sources under \<open>src/\<close>).

  The Service Manager registers service brokers and platforms, keeps offerings, plans, instances,
  bindings and visibilities in PostgreSQL, and runs the operations that create, change and delete
  them.  A request passes through filters and plugins to a controller.  The controller works on a
  repository that is a stack of layers: interceptors around and inside of a transaction, integrity,
  encryption, and the PostgreSQL storage, which turns criteria into SQL statements and rows into
  objects.  A scheduler runs operations in bounded pools; a maintainer takes up what was left behind.  A
  notificator follows the notification table and fills one queue for each connected platform.

  \<^bold>\<open>Conventions.\<close>  Definitions keep the names of the source.  A struct is a record, an enumeration a
  datatype or a text, Go's \<open>error\<close> the datatype \<^typ>\<open>error\<close>.  A call on a state returns an outcome, which
  is a value, an error or a panic, and the new state (\<open>Calls\<close>).  A call that need not return is an option, and
  \<open>None\<close> means that it does not return.  Slices are lists, except where Go's sharing of arrays
  decides the result (\<open>Labels\<close>, an explicit heap) and where code changes objects behind pointers
  (\<open>Catalog\<close>, indices).  Iteration over a Go map uses an order that is a parameter.  Log output is left out.
  Code that is not in the repository (database driver, JSON libraries, clock, identifiers, ciphers,
  HTTP server) is a parameter; what is used of it is a named hypothesis, and every theorem with
  such a hypothesis has a witness that instantiates it.

  \<^bold>\<open>Theories and what they show.\<close>

  \<^item> \<open>Prelude\<close>, \<open>Errors\<close>, \<open>Calls\<close>: results, Go's \<open>strings\<close> and \<open>strconv\<close>, the errors of
    \<open>src/pkg/util/errors.go\<close> with their HTTP translation, outcomes.  Shown: the status that a client sees for
    each storage error.
  \<^item> \<open>Labels\<close>, \<open>LabelChanges\<close>: \<open>src/pkg/types/labels.go\<close> and the application of label changes with
    \<open>append\<close> and removal in place.  Shown: equality with a value-level specification when no arrays are shared, and
    what goes wrong with repeated values.
  \<^item> \<open>Query\<close>, \<open>Slices\<close>: criteria, validation, the listener that builds criteria from a parsed query
    (\<open>src/pkg/query\<close>).  Shown: what a client's expression can become, and when a literal is read back.
  \<^item> \<open>Chains\<close>, \<open>Web\<close>, \<open>HttpHandler\<close>: the contract of chained wrappers as a locale, filters and plugins
    (\<open>src/pkg/web\<close>), reading, checking and answering a request (\<open>src/api/http_handler.go\<close>,
    \<open>src/pkg/util/api.go\<close>, \<open>src/pkg/server\<close>).  Shown: which bodies are accepted, all statuses written, duplicate keys.
  \<^item> \<open>Objects\<close>, \<open>ResourceTypes\<close>: the stored types with validation, equality, secrets and integral data
    (\<open>src/pkg/types\<close>).  Shown: which fields the integral data covers.
  \<^item> \<open>Interceptors\<close>, \<open>ScopedRepository\<close>, \<open>TransactionalRepository\<close>: registration of interceptors, the
    repository inside of a transaction and the transactional repository
    (\<open>src/storage/interceptable_repository.go\<close> and neighbours).  Shown: chains run each interceptor once
    in the registered order, operations return, transactions end in one commit or rollback.
  \<^item> \<open>SecuredRepositories\<close>, \<open>EncryptionKey\<close>: encrypting and integrity repositories, advisory locks and the
    creation of the key (\<open>src/storage/encrypting_repository.go\<close>, \<open>src/storage/postgres/locker.go\<close>).  Shown:
    round trip of secrets, validity of reads, one key for all processes under any interleaving with crashes, and the
    state of a locker after a failed unlock.
  \<^item> \<open>NotificationQueue\<close>, \<open>Notificator\<close>, \<open>NotificatorFacts\<close>: the queue as a locale, the notificator
    (\<open>src/storage/postgres/notificator.go\<close>).  Shown: no notification is missed between registration and delivery, no panic
    in any interleaving, queues stay within their size.
  \<^item> \<open>Scheduler\<close>: \<open>src/operations/scheduler.go\<close>.  Shown: workers are bounded, operations settle,
    concurrent operations on a resource are refused.
  \<^item> \<open>Cascade\<close>, \<open>CascadeFacts\<close>: \<open>src/operations/cascade_utils.go\<close>, \<open>src/pkg/types/cascade\<close> and two
    interceptors.  Shown: the tree of operations covers the hierarchy, and a cycle makes the descent endless.
  \<^item> \<open>Maintainer\<close>, \<open>MaintainerFacts\<close>: \<open>src/operations/maintainer.go\<close> and \<open>config.go\<close>.  Shown: a clean-up ends and
    leaves nothing, cascade deletions start bottom up and once for each resource, functors run only under their lock.
  \<^item> \<open>PredefinedPlans\<close>, \<open>Catalog\<close>, \<open>CatalogFacts\<close>, \<open>CatalogSync\<close>: the catalog interceptors of brokers
    (\<open>src/storage/interceptors/broker_create_catalog_interceptor.go\<close> and \<open>broker_update_catalog_interceptor.go\<close> there, \<open>src/storage/catalog\<close>, \<open>src/schemas\<close>).  Shown: after an
    update the storage holds the new catalog and nothing else of the broker, with stable identifiers.
  \<^item> \<open>Templates\<close>, \<open>WhereClause\<close>, \<open>QueryBuilder\<close>, \<open>QueryBuilderFacts\<close>: SQL templates with the part of
    \<open>text/template\<close> they use, WHERE clauses and statements (\<open>src/storage/postgres/query_builder.go\<close>).  Shown: one
    place for each parameter, and a text that does not depend on the values.
  \<^item> \<open>PgEntities\<close>, \<open>PgEntitiesFacts\<close>, \<open>PgStorage\<close>, \<open>PgStorageFacts\<close>, \<open>PgLabels\<close>: entities, scheme and
    all operations of the storage (\<open>src/storage/postgres/storage.go\<close>).  Shown: objects are read back from
    their rows, rows are grouped, labels are inserted in admissible batches, label updates refine the
    specification of \<open>Labels\<close> for changes of different keys, reads and deletes do not panic.

  \<^bold>\<open>Bounds.\<close>  The parser of templates and the check for duplicate keys get as much fuel as there are tokens, since each step consumes one.
  Programs of interceptors get fuel for the registered chains, and the theorems show that it is enough.  The
  descent of a cascade has a depth bound; any bound above the depth of the hierarchy gives the same result, and without one
  no bound does.  The batches of a clean-up are a partial function that is shown to return for every
  positive batch size; its bound on rounds is computed in floating point, exact below \<open>2 ^ 53\<close> rows.  A batch of labels
  has 10922 rows, so that six parameters a row stay within the 65535 of PostgreSQL.  Times are integers with zero for
  Go's zero time; revisions are integers, as the database assigns them.

  \<^bold>\<open>Not modelled.\<close>
  \<^item> The generated ANTLR parser and lexer (\<open>src/pkg/query/parser\<close>), generated list types and the generated test doubles
    (\<open>storagefakes\<close>, \<open>postgresfakes\<close> and others): the parser is a parameter of \<open>Query\<close>, and the others are
    boilerplate of the same form for each type.
  \<^item> The controllers (\<open>src/api/*_controller.go\<close>), the filters of \<open>src/api/filters\<close>, and the OSB controller and
    plugins (\<open>src/api/osb\<close>): most of each is reading and rewriting JSON through \<open>gjson\<close> and \<open>sjson\<close> and calling brokers
    over HTTP, so that a model would be mostly parameters.
  \<^item> The instance and binding interceptors (\<open>smaap_service_*_interceptor.go\<close>): their steps alternate between the OSB client of
    another repository, polling with timers and contexts, and storage calls.
  \<^item> The notification, visibility, public plan, unique name, labelling, sanitizing and credential interceptors of \<open>src/storage/interceptors\<close>
    and the loader before a broker is deleted.
  \<^item> Authentication (\<open>src/pkg/auth\<close>, \<open>src/pkg/security\<close>), HTTP clients, websockets, health checks, environment,
    configuration, logging, the wiring in \<open>src/pkg/sm\<close>, the migrations, \<open>cmd\<close> and test helpers: input and output, or
    composition of what other parts do.
  \<^item> Of the modelled parts: opening the database and its migrations, tickers and contexts (a wait is a parameter), the memory model
    of goroutines (a critical section is one step), and null plans in a fetched catalog.
\<close>

end
